(* ===== verification/Prelude.thy ===== *)
theory Prelude
  imports Main "HOL-Library.Word"
begin

text \<open>
  Types, memory access and generic lemmas shared by every component.

  The plugins are C code for a little-endian 64-bit target (the packages are built for amd64).
  Fixed-width integers are words. Packet memory is a function from byte offsets (relative to the
  \<^verbatim>\<open>data\<close> member of a buffer; negative offsets are the headroom) to bytes, and a C load through a
  cast pointer is a little-endian load. The byte-order helpers swap bytes.
\<close>

unbundle bit_operations_syntax

type_synonym u8 = "8 word"
type_synonym u16 = "16 word"
type_synonym u32 = "32 word"
type_synonym u64 = "64 word"
type_synonym i16 = "16 word" \<comment> \<open>read with \<open>sint\<close>\<close>
type_synonym mem = "int \<Rightarrow> u8"

named_theorems node_simps \<open>definitions of the packet-processing steps\<close>
named_theorems mem_simps \<open>loads, stores and byte order\<close>

section \<open>Loads, stores and byte order\<close>

definition le16 :: "u8 \<Rightarrow> u8 \<Rightarrow> u16" where
  "le16 a b = ucast a OR push_bit 8 (ucast b)"

definition le32 :: "u8 \<Rightarrow> u8 \<Rightarrow> u8 \<Rightarrow> u8 \<Rightarrow> u32" where
  "le32 a b c d = ucast a OR push_bit 8 (ucast b) OR push_bit 16 (ucast c) OR push_bit 24 (ucast d)"

definition be16 :: "u8 \<Rightarrow> u8 \<Rightarrow> u16" where
  "be16 a b = le16 b a"

definition be32 :: "u8 \<Rightarrow> u8 \<Rightarrow> u8 \<Rightarrow> u8 \<Rightarrow> u32" where
  "be32 a b c d = le32 d c b a"

definition load_u16 :: "mem \<Rightarrow> int \<Rightarrow> u16" where
  "load_u16 m p = le16 (m p) (m (p + 1))"

definition load_u32 :: "mem \<Rightarrow> int \<Rightarrow> u32" where
  "load_u32 m p = le32 (m p) (m (p + 1)) (m (p + 2)) (m (p + 3))"

definition le64 :: "u32 \<Rightarrow> u32 \<Rightarrow> u64" where
  "le64 lo hi = ucast lo OR push_bit 32 (ucast hi)"

definition load_u64 :: "mem \<Rightarrow> int \<Rightarrow> u64" where
  "load_u64 m p = le64 (load_u32 m p) (load_u32 m (p + 4))"

definition clib_net_to_host_u16 :: "u16 \<Rightarrow> u16" where
  "clib_net_to_host_u16 x = be16 (ucast x) (ucast (drop_bit 8 x))"

definition clib_net_to_host_u32 :: "u32 \<Rightarrow> u32" where
  "clib_net_to_host_u32 x =
     be32 (ucast x) (ucast (drop_bit 8 x)) (ucast (drop_bit 16 x)) (ucast (drop_bit 24 x))"

definition clib_host_to_net_u32 :: "u32 \<Rightarrow> u32" where
  "clib_host_to_net_u32 x =
     be32 (ucast x) (ucast (drop_bit 8 x)) (ucast (drop_bit 16 x)) (ucast (drop_bit 24 x))"

definition clib_host_to_net_u64 :: "u64 \<Rightarrow> u64" where
  "clib_host_to_net_u64 x =
     le64 (clib_net_to_host_u32 (ucast (drop_bit 32 x))) (clib_net_to_host_u32 (ucast x))"

definition u32_bytes :: "u32 \<Rightarrow> u8 list" where
  "u32_bytes x = [ucast x, ucast (drop_bit 8 x), ucast (drop_bit 16 x), ucast (drop_bit 24 x)]"

definition read_bytes :: "mem \<Rightarrow> int \<Rightarrow> nat \<Rightarrow> u8 list" where
  "read_bytes m p n = map (\<lambda>k. m (p + int k)) [0..<n]"

definition write_bytes :: "mem \<Rightarrow> int \<Rightarrow> u8 list \<Rightarrow> mem" where
  "write_bytes m p bs =
     (\<lambda>i. if p \<le> i \<and> i < p + int (length bs) then bs ! nat (i - p) else m i)"

text \<open>Source and destination address fields of the IPv4 header at offset \<open>ip\<close>, as stored.\<close>

definition ip4_src_address :: "mem \<Rightarrow> int \<Rightarrow> u32" where
  "ip4_src_address m ip = load_u32 m (ip + 12)"

definition ip4_dst_address :: "mem \<Rightarrow> int \<Rightarrow> u32" where
  "ip4_dst_address m ip = load_u32 m (ip + 16)"

section \<open>Packet loops\<close>

text \<open>
  Every node walks its frame with a loop that handles one buffer per iteration, threads the state
  the iterations share, and stores one output per buffer.
\<close>

primrec frame_loop :: "('s \<Rightarrow> 'b \<Rightarrow> 's \<times> 'o) \<Rightarrow> 's \<Rightarrow> 'b list \<Rightarrow> 's \<times> 'o list" where
  "frame_loop f s [] = (s, [])"
| "frame_loop f s (b # bs) =
     (let (s', y) = f s b; (s'', ys) = frame_loop f s' bs in (s'', y # ys))"

section \<open>Lemmas\<close>

lemma word_eq_all_bits:
  fixes x y :: "'a::len word"
  shows "(\<And>n. n < LENGTH('a) \<Longrightarrow> bit x n = bit y n) \<Longrightarrow> x = y"
  by (rule bit_word_eqI) simp

lemma le16_bytes [simp]:
  "ucast (le16 a b) = a"
  "ucast (drop_bit 8 (le16 a b)) = b"
  unfolding le16_def
  by (rule word_eq_all_bits; auto simp: bit_simps dest: bit_imp_le_length)+

lemma le32_bytes [simp]:
  "ucast (le32 a b c d) = a"
  "ucast (drop_bit 8 (le32 a b c d)) = b"
  "ucast (drop_bit 16 (le32 a b c d)) = c"
  "ucast (drop_bit 24 (le32 a b c d)) = d"
  unfolding le32_def
  by (rule word_eq_all_bits; auto simp: bit_simps dest: bit_imp_le_length)+

lemma le32_halves:
  "ucast (le32 a b c d) = le16 a b"
  "ucast (drop_bit 16 (le32 a b c d)) = le16 c d"
  unfolding le32_def le16_def
  by (rule word_eq_all_bits; auto simp: bit_simps dest: bit_imp_le_length)+

lemma le32_of_bytes:
  "le32 (ucast x) (ucast (drop_bit 8 x)) (ucast (drop_bit 16 x)) (ucast (drop_bit 24 x)) = x"
  unfolding le32_def
proof (rule word_eq_all_bits)
  fix n :: nat
  assume "n < LENGTH(32)"
  then consider "n < 8" | "8 \<le> n" "n < 16" | "16 \<le> n" "n < 24" | "24 \<le> n" "n < 32"
    by fastforce
  then show "bit (ucast (ucast x :: u8) OR push_bit 8 (ucast (ucast (drop_bit 8 x) :: u8))
      OR push_bit 16 (ucast (ucast (drop_bit 16 x) :: u8))
      OR push_bit 24 (ucast (ucast (drop_bit 24 x) :: u8)) :: u32) n = bit x n"
    by cases (auto simp: bit_simps)
qed

lemma net_host_u32 [simp]: "clib_net_to_host_u32 (clib_host_to_net_u32 x) = x"
  by (simp add: clib_net_to_host_u32_def clib_host_to_net_u32_def be32_def le32_of_bytes)

lemma host_net_u32 [simp]: "clib_host_to_net_u32 (clib_net_to_host_u32 x) = x"
  by (simp add: clib_net_to_host_u32_def clib_host_to_net_u32_def be32_def le32_of_bytes)

lemma le16_inject [simp]: "le16 a b = le16 a' b' \<longleftrightarrow> a = a' \<and> b = b'"
  by (metis le16_bytes)

lemma le32_inject [simp]:
  "le32 a b c d = le32 a' b' c' d' \<longleftrightarrow> a = a' \<and> b = b' \<and> c = c' \<and> d = d'"
  by (metis le32_bytes)

lemma le64_words [simp]:
  "ucast (le64 lo hi) = lo"
  "ucast (drop_bit 32 (le64 lo hi)) = hi"
  unfolding le64_def
  by (rule word_eq_all_bits; auto simp: bit_simps dest: bit_imp_le_length)+

lemma le64_inject [simp]: "le64 a b = le64 a' b' \<longleftrightarrow> a = a' \<and> b = b'"
  by (metis le64_words)

lemma le32_eq_iff:
  "le32 a b c d = k \<longleftrightarrow> a = ucast k \<and> b = ucast (drop_bit 8 k) \<and> c = ucast (drop_bit 16 k) \<and>
     d = ucast (drop_bit 24 k)"
  by (metis le32_bytes le32_of_bytes)

lemma le64_eq_0 [simp]: "le64 a b = 0 \<longleftrightarrow> a = 0 \<and> b = 0"
  using le64_inject [of a b 0 0] by (simp add: le64_def)

lemma net_load_u16 [mem_simps]: "clib_net_to_host_u16 (load_u16 m p) = be16 (m p) (m (p + 1))"
  by (simp add: clib_net_to_host_u16_def load_u16_def)

lemma net_load_u32 [mem_simps]:
  "clib_net_to_host_u32 (load_u32 m p) = be32 (m p) (m (p + 1)) (m (p + 2)) (m (p + 3))"
  by (simp add: clib_net_to_host_u32_def load_u32_def)

lemma be32_shifts:
  "drop_bit 24 (be32 a b c d) = ucast a"
  "drop_bit 28 (be32 a b c d) = ucast (drop_bit 4 a)"
  "drop_bit 16 (be32 a b c d) = ucast (be16 a b)"
  unfolding be32_def be16_def le32_def le16_def
  by (rule word_eq_all_bits; auto simp: bit_simps dest: bit_imp_le_length)+

lemma be16_eq_numeral:
  "be16 a b = k \<longleftrightarrow> a = ucast (drop_bit 8 k) \<and> b = ucast k"
proof
  assume "be16 a b = k"
  then show "a = ucast (drop_bit 8 k) \<and> b = ucast k" by (auto simp: be16_def)
next
  assume r: "a = ucast (drop_bit 8 k) \<and> b = ucast k"
  show "be16 a b = k"
    unfolding be16_def le16_def using r
    by (intro word_eq_all_bits) (auto simp: bit_simps)
qed

lemma be32_eq_numeral:
  "be32 a b c d = k \<longleftrightarrow> a = ucast (drop_bit 24 k) \<and> b = ucast (drop_bit 16 k) \<and>
     c = ucast (drop_bit 8 k) \<and> d = ucast k"
  unfolding be32_def by (metis le32_bytes le32_of_bytes)

lemma length_u32_bytes [simp]: "length (u32_bytes x) = 4"
  by (simp add: u32_bytes_def)

lemma u32_bytes_inject [simp]: "u32_bytes x = u32_bytes y \<longleftrightarrow> x = y"
  unfolding u32_bytes_def list.inject by (metis le32_of_bytes)

lemma load_u32_bytes [mem_simps]: "u32_bytes (load_u32 m p) = read_bytes m p 4"
  by (simp add: load_u32_def u32_bytes_def read_bytes_def upt_rec)

lemma length_read_bytes [simp]: "length (read_bytes m p n) = n"
  by (simp add: read_bytes_def)

lemma nth_read_bytes [simp]: "k < n \<Longrightarrow> read_bytes m p n ! k = m (p + int k)"
  by (simp add: read_bytes_def)

lemma write_bytes_in [mem_simps]:
  "k < length bs \<Longrightarrow> write_bytes m p bs (p + int k) = bs ! k"
  by (simp add: write_bytes_def)

lemma write_bytes_out [mem_simps]:
  "i < p \<or> p + int (length bs) \<le> i \<Longrightarrow> write_bytes m p bs i = m i"
  by (auto simp: write_bytes_def)

lemma read_write_bytes [mem_simps]: "read_bytes (write_bytes m p bs) p (length bs) = bs"
  by (rule nth_equalityI) (simp_all add: write_bytes_in)

lemma unat_u32_less: "unat (x :: u32) < 2 ^ 32"
proof -
  have "unsigned x < (2 :: nat) ^ LENGTH(32)" by (rule unsigned_less)
  then show ?thesis by simp
qed

lemma unat_ucast_u32_u64 [simp]: "unat (ucast (x :: u32) :: u64) = unat x"
  using unat_u32_less [of x] by (simp add: unsigned_ucast_eq take_bit_nat_eq_self)

text \<open>A key made of a payload and a trailing 32-bit tag determines both.\<close>

lemma append_u32_bytes_inject:
  "xs @ u32_bytes x = ys @ u32_bytes y \<longleftrightarrow> xs = ys \<and> x = y"
  by (simp add: append_eq_append_conv)

lemma length_frame_loop [simp]: "length (snd (frame_loop f s bs)) = length bs"
  by (induction bs arbitrary: s) (auto simp: split_def Let_def)

lemma frame_loop_append:
  "frame_loop f s (xs @ ys) =
     (let (s', us) = frame_loop f s xs; (s'', vs) = frame_loop f s' ys in (s'', us @ vs))"
  by (induction xs arbitrary: s) (auto simp: split_def Let_def)

text \<open>A loop whose output does not depend on the shared state is a map.\<close>

lemma frame_loop_map:
  assumes "\<And>s b. snd (f s b) = g b"
  shows "snd (frame_loop f s bs) = map g bs"
  using assms by (induction bs arbitrary: s) (auto simp: split_def Let_def)

text \<open>A property of the shared state that every iteration keeps holds after the loop.\<close>

lemma frame_loop_invariant:
  assumes "I s" and "\<And>s b. I s \<Longrightarrow> b \<in> set bs \<Longrightarrow> I (fst (f s b))"
  shows "I (fst (frame_loop f s bs))"
  using assms by (induction bs arbitrary: s) (auto simp: split_def Let_def)

end
