(* ===== verification/Vpp_Env.thy ===== *)
theory Vpp_Env
  imports Prelude
begin

text \<open>
  The VPP core the plugins are linked against.

  None of VPP's own code is in the repository, so no VPP function is defined here: each is a field
  of an environment record which the definitions of the components take as an argument. What a
  theorem needs to know about such a function is a named predicate of this theory
  (\<open>vlib_ok\<close>, \<open>feature_ok\<close>), a hypothesis of the theorem. Only the shape of the data the plugins read
  and write is fixed: the buffer metadata the code touches and the return codes it compares.

  The concrete environments at the end (\<open>vlib_demo\<close>, \<open>feature_counts\<close>, \<open>feature_recorder\<close>) satisfy those
  predicates; they serve the witnesses, and the recorder serves the properties about which calls a
  component issues.
\<close>

section \<open>Buffers\<close>

text \<open>
  The members of \<^verbatim>\<open>vlib_buffer_t\<close> and of its metadata overlays the plugins use:
  \<^verbatim>\<open>sw_if_index[VLIB_RX]\<close> and \<^verbatim>\<open>[VLIB_TX]\<close>, \<^verbatim>\<open>ip.adj_index[VLIB_TX]\<close>, \<^verbatim>\<open>l2_hdr_offset\<close> and the unused
  tail of \<^verbatim>\<open>opaque2\<close>, whose overlay type is the parameter of the record.
\<close>

record 'o vlib_buffer =
  b_data :: mem
  current_data :: i16
  current_length :: u16
  b_flags :: u32
  b_error :: u16
  current_config_index :: u32
  rx_sw_if_index :: u32
  tx_sw_if_index :: u32
  adj_index_tx :: u32
  l2_hdr_offset :: i16
  opaque2_unused :: 'o

text \<open>Functions and constants of vlib and vnet that work on one buffer.\<close>

record 'o vlib_api =
  vlib_buffer_get_current :: "'o vlib_buffer \<Rightarrow> int" \<comment> \<open>offset of the current header in the data\<close>
  vlib_buffer_advance :: "'o vlib_buffer \<Rightarrow> int \<Rightarrow> 'o vlib_buffer"
  vnet_feature_next :: "'o vlib_buffer \<Rightarrow> u32 \<times> 'o vlib_buffer"
  ethernet_buffer_get_header :: "'o vlib_buffer \<Rightarrow> int" \<comment> \<open>offset of the Ethernet header\<close>
  ethernet_buffer_header_size :: "'o vlib_buffer \<Rightarrow> int"
  VLIB_BUFFER_IS_TRACED :: u32

definition vlib_ok :: "'o vlib_api \<Rightarrow> bool" where
  "vlib_ok V \<longleftrightarrow>
     (\<forall>b. vlib_buffer_get_current V b = sint (current_data b)) \<and>
     (\<forall>b n. vlib_buffer_advance V b n =
        b\<lparr>current_data := current_data b + word_of_int n,
          current_length := current_length b - word_of_int n\<rparr>) \<and>
     (\<forall>b. \<exists>ci. snd (vnet_feature_next V b) = b\<lparr>current_config_index := ci\<rparr>)"

text \<open>
  A node's runtime: whether \<^verbatim>\<open>VLIB_NODE_FLAG_TRACE\<close> is set, and the global error code of each of its
  error counters.
\<close>

record 'e node_runtime =
  node_trace :: bool
  node_errors :: "'e \<Rightarrow> u16"

definition traced :: "'o vlib_api \<Rightarrow> 'e node_runtime \<Rightarrow> 'o vlib_buffer \<Rightarrow> bool" where
  "traced V node b \<longleftrightarrow> node_trace node \<and> b_flags b AND VLIB_BUFFER_IS_TRACED V \<noteq> 0"

section \<open>Return codes\<close>

text \<open>
  The return codes the code compares or returns; \<open>API_ERROR_EXT\<close> is any non-zero value a VPP call
  hands back and the plugin only forwards.
\<close>

datatype retval =
    RV_OK
  | VNET_API_ERROR_INVALID_VALUE
  | VNET_API_ERROR_INVALID_VALUE_2
  | VNET_API_ERROR_INVALID_VALUE_3
  | VNET_API_ERROR_NO_PATHS_IN_ROUTE
  | VNET_API_ERROR_INVALID_ADDRESS_FAMILY
  | VNET_API_ERROR_NO_SUCH_ENTRY
  | VNET_API_ERROR_RSRC_IN_USE
  | VNET_API_ERROR_INVALID_SW_IF_INDEX
  | API_ERROR_EXT int

section \<open>Feature arcs\<close>

text \<open>
  The feature-arc configuration lives in a VPP state \<open>'w\<close> the plugins never inspect. A feature is
  named by its arc, its node and the interface. Features are reference counted: an interface that had a
  feature enabled twice keeps it until it is disabled twice (test_ip_validate.py relies on it). The count
  is not visible to the plugins, \<open>feature_refs\<close> only serves to state the laws and the theorems.
\<close>

type_synonym feature = "string \<times> string \<times> u32"

record 'w feature_api =
  vnet_feature_enable_disable :: "string \<Rightarrow> string \<Rightarrow> u32 \<Rightarrow> bool \<Rightarrow> 'w \<Rightarrow> retval \<times> 'w"
  vnet_l2_feature_enable_disable :: "string \<Rightarrow> string \<Rightarrow> u32 \<Rightarrow> bool \<Rightarrow> 'w \<Rightarrow> retval \<times> 'w"
  vnet_feature_is_enabled :: "string \<Rightarrow> string \<Rightarrow> u32 \<Rightarrow> 'w \<Rightarrow> bool"
  feature_refs :: "'w \<Rightarrow> feature \<Rightarrow> nat"

definition enabled :: "'w feature_api \<Rightarrow> 'w \<Rightarrow> feature \<Rightarrow> bool" where
  "enabled F w = (\<lambda>f. 0 < feature_refs F w f)"

text \<open>One reference more or less; disabling a feature that is off leaves it off.\<close>

definition count_call :: "bool \<Rightarrow> feature \<Rightarrow> (feature \<Rightarrow> nat) \<Rightarrow> feature \<Rightarrow> nat" where
  "count_call en f r = r(f := (if en then r f + 1 else r f - 1))"

text \<open>
  Behaviour of the feature API: a call that succeeds adds or drops one reference of the named feature and
  changes no other; a call that fails changes nothing; a feature is enabled while it has a reference.
  Nothing is said of device-input calls on the interfaces in \<open>sub\<close>: configurations are shared between
  interfaces, and such a call on a sub-interface may rewrite the one of its parent (sonic_ext.c, comment on
  \<^verbatim>\<open>sonic_ext_sw_is_sub\<close>).
\<close>

definition feature_ok :: "(u32 \<Rightarrow> bool) \<Rightarrow> 'w feature_api \<Rightarrow> bool" where
  "feature_ok sub F \<longleftrightarrow>
     (\<forall>arc node i w. vnet_feature_is_enabled F arc node i w \<longleftrightarrow> enabled F w (arc, node, i)) \<and>
     (\<forall>arc node i en w rv w'. (arc = ''device-input'' \<longrightarrow> \<not> sub i) \<longrightarrow>
        vnet_feature_enable_disable F arc node i en w = (rv, w') \<longrightarrow>
        feature_refs F w' = (if rv = RV_OK then count_call en (arc, node, i) (feature_refs F w)
          else feature_refs F w)) \<and>
     (\<forall>arc node i en w rv w'. (arc = ''device-input'' \<longrightarrow> \<not> sub i) \<longrightarrow>
        vnet_l2_feature_enable_disable F arc node i en w = (rv, w') \<longrightarrow>
        feature_refs F w' = (if rv = RV_OK then count_call en (arc, node, i) (feature_refs F w)
          else feature_refs F w))"

text \<open>Every feature call succeeds.\<close>

definition feature_total :: "'w feature_api \<Rightarrow> bool" where
  "feature_total F \<longleftrightarrow>
     (\<forall>arc node i en w. fst (vnet_feature_enable_disable F arc node i en w) = RV_OK) \<and>
     (\<forall>arc node i en w. fst (vnet_l2_feature_enable_disable F arc node i en w) = RV_OK)"

section \<open>Concrete environments\<close>

definition vlib_demo :: "u32 \<Rightarrow> 'o vlib_api" where
  "vlib_demo nxt =
     \<lparr>vlib_buffer_get_current = (\<lambda>b. sint (current_data b)),
      vlib_buffer_advance = (\<lambda>b n. b\<lparr>current_data := current_data b + word_of_int n,
        current_length := current_length b - word_of_int n\<rparr>),
      vnet_feature_next = (\<lambda>b. (nxt, b\<lparr>current_config_index := current_config_index b + 1\<rparr>)),
      ethernet_buffer_get_header = (\<lambda>b. sint (l2_hdr_offset b)),
      ethernet_buffer_header_size = (\<lambda>b. 14),
      VLIB_BUFFER_IS_TRACED = 4\<rparr>"

definition buffer_demo :: "'o \<Rightarrow> u8 list \<Rightarrow> 'o vlib_buffer" where
  "buffer_demo op bs =
     \<lparr>b_data = (\<lambda>i. if 0 \<le> i \<and> i < int (length bs) then bs ! nat i else 0), current_data = 0,
      current_length = of_nat (length bs), b_flags = 0, b_error = 0, current_config_index = 0,
      rx_sw_if_index = 1, tx_sw_if_index = 0, adj_index_tx = 0, l2_hdr_offset = 0,
      opaque2_unused = op\<rparr>"

text \<open>
  The configuration as the references held, with calls on the features in \<open>bad\<close> failing.
\<close>

definition feature_counts :: "feature set \<Rightarrow> (feature \<Rightarrow> nat) feature_api" where
  "feature_counts bad =
     (let call = (\<lambda>arc node i en w.
            if (arc, node, i) \<in> bad then (API_ERROR_EXT (-1), w)
            else (RV_OK, count_call en (arc, node, i) w))
      in \<lparr>vnet_feature_enable_disable = call, vnet_l2_feature_enable_disable = call,
          vnet_feature_is_enabled = (\<lambda>arc node i w. 0 < w (arc, node, i)), feature_refs = (\<lambda>w. w)\<rparr>)"

definition no_features :: "feature \<Rightarrow> nat" where
  "no_features = (\<lambda>_. 0)"

text \<open>
  The recorder keeps every call in order. A component that ignores the return codes issues the same
  calls in every environment, so its calls are those it leaves in the recorder.
\<close>

datatype feature_call = FeatureCall string string u32 bool | L2FeatureCall string string u32 bool

definition feature_recorder :: "feature_call list feature_api" where
  "feature_recorder =
     \<lparr>vnet_feature_enable_disable = (\<lambda>arc node i en w. (RV_OK, w @ [FeatureCall arc node i en])),
      vnet_l2_feature_enable_disable = (\<lambda>arc node i en w. (RV_OK, w @ [L2FeatureCall arc node i en])),
      vnet_feature_is_enabled = (\<lambda>arc node i w. False), feature_refs = (\<lambda>w f. 0)\<rparr>"

section \<open>Lemmas\<close>

lemma vlib_okD:
  assumes "vlib_ok V"
  shows "vlib_buffer_get_current V b = sint (current_data b)"
    and "vlib_buffer_advance V b n = b\<lparr>current_data := current_data b + word_of_int n,
          current_length := current_length b - word_of_int n\<rparr>"
  using assms by (simp_all add: vlib_ok_def)

lemma feature_next_buffer:
  assumes "vlib_ok V"
  obtains ci where "snd (vnet_feature_next V b) = b\<lparr>current_config_index := ci\<rparr>"
  using assms unfolding vlib_ok_def by blast

lemma feature_okD:
  assumes "feature_ok sub F" and "vnet_feature_enable_disable F arc node i en w = (rv, w')"
    and "arc = ''device-input'' \<longrightarrow> \<not> sub i"
  shows "feature_refs F w' =
    (if rv = RV_OK then count_call en (arc, node, i) (feature_refs F w) else feature_refs F w)"
  using assms by (simp add: feature_ok_def)

lemma l2_feature_okD:
  assumes "feature_ok sub F" and "vnet_l2_feature_enable_disable F arc node i en w = (rv, w')"
    and "arc = ''device-input'' \<longrightarrow> \<not> sub i"
  shows "feature_refs F w' =
    (if rv = RV_OK then count_call en (arc, node, i) (feature_refs F w) else feature_refs F w)"
  using assms by (simp add: feature_ok_def)

lemma feature_is_enabled:
  "feature_ok sub F \<Longrightarrow> vnet_feature_is_enabled F arc node i w \<longleftrightarrow> enabled F w (arc, node, i)"
  by (simp add: feature_ok_def)

lemma enabled_cong: "feature_refs F w' = feature_refs F w \<Longrightarrow> enabled F w' = enabled F w"
  by (simp add: enabled_def fun_eq_iff)

text \<open>A call is undone by the opposite call, unless it dropped a reference there was not.\<close>

lemma count_call_undo: "en \<or> 0 < r f \<Longrightarrow> count_call (\<not> en) f (count_call en f r) = r"
  by (auto simp: count_call_def fun_eq_iff)

lemma count_call_same [simp]: "count_call en f r f = (if en then r f + 1 else r f - 1)"
  by (simp add: count_call_def)

lemma count_call_other [simp]: "f \<noteq> g \<Longrightarrow> count_call en f r g = r g"
  by (simp add: count_call_def)

text \<open>When every call succeeds, a call is exactly an update of the counts.\<close>

lemma feature_call_refs:
  assumes "feature_ok sub F" and "feature_total F" and "arc = ''device-input'' \<longrightarrow> \<not> sub i"
  shows "feature_refs F (snd (vnet_feature_enable_disable F arc node i en w)) =
      count_call en (arc, node, i) (feature_refs F w)"
    and "feature_refs F (snd (vnet_l2_feature_enable_disable F arc node i en w)) =
      count_call en (arc, node, i) (feature_refs F w)"
  using assms feature_okD [of sub F arc node i en w] l2_feature_okD [of sub F arc node i en w]
  by (auto simp: feature_total_def prod_eq_iff)

lemma vlib_demo_ok: "vlib_ok (vlib_demo nxt)"
  by (auto simp: vlib_ok_def vlib_demo_def)

lemma feature_counts_ok: "feature_ok sub (feature_counts bad)"
  by (auto simp: feature_ok_def feature_counts_def enabled_def Let_def split: if_splits)

lemma feature_counts_total: "feature_total (feature_counts {})"
  by (simp add: feature_total_def feature_counts_def Let_def)

lemma feature_counts_refs [simp]: "feature_refs (feature_counts bad) w = w"
  by (simp add: feature_counts_def Let_def)

lemma no_features_off [simp]: "\<not> enabled (feature_counts bad) no_features f"
  by (simp add: enabled_def no_features_def)

end
