(* ===== verification/Tunterm_Redirect.thy ===== *)
theory Tunterm_Redirect
  imports Vpp_Env
begin

text \<open>
  The redirect sessions of the tunterm_acl plugin (tunterm_acl/tunterm_acl_redirect.c): a pool of entries,
  found through a hash on the match bytes followed by the table index, each backed by a session of a VPP
  classify table and linked into the FIB graph.

  VPP's FIB, DPO and classifier are parameters that work on an opaque state \<open>'w\<close>. The pool is a list of
  optional entries; where the next free slot is and what stale bytes it holds is VPP's choice.
\<close>

section \<open>State\<close>

datatype fib_forward_chain_type =
    FIB_FORW_CHAIN_TYPE_UNICAST_IP4
  | FIB_FORW_CHAIN_TYPE_UNICAST_IP6
  | FIB_FORW_CHAIN_TYPE_OTHER nat

datatype dpo_proto = DPO_PROTO_IP4 | DPO_PROTO_IP6 | DPO_PROTO_OTHER nat

datatype path_list_fwd_flags = FIB_PATH_LIST_FWD_FLAG_NONE | FIB_PATH_LIST_FWD_FLAG_COLLAPSE

datatype classify_action = CLASSIFY_ACTION_NONE | CLASSIFY_ACTION_SET_METADATA | CLASSIFY_ACTION_OTHER nat

record dpo_id =
  dpoi_type :: u8
  dpoi_proto :: u8
  dpoi_next_node :: u16
  dpoi_index :: u32

record tunterm_acl_redirect =
  match_and_table_index :: "u8 list"
  ipr_dpo :: dpo_id
  ipr_node_type :: u32 \<comment> \<open>the type \<^verbatim>\<open>fib_node_init\<close> stores in the embedded \<^verbatim>\<open>fib_node_t\<close>\<close>
  ipr_pl :: u32
  ipr_sibling :: u32
  ipr_parent_node_index :: u32
  ipr_opaque_index :: u32
  ipr_table_index :: u32
  ipr_payload_type :: fib_forward_chain_type
  ipr_is_ip6 :: bool

record tunterm_acl_redirect_main =
  ipr_pool :: "tunterm_acl_redirect option list"
  session_by_match_and_table_index :: "u8 list \<Rightarrow> nat option"
  ipr_fib_node_type :: u32

section \<open>Environment\<close>

record ('p, 'w) redirect_api =
  pool_get_index :: "tunterm_acl_redirect option list \<Rightarrow> nat"
  pool_get_raw :: "nat \<Rightarrow> 'w \<Rightarrow> tunterm_acl_redirect" \<comment> \<open>stale contents of the slot\<close>
  fib_forw_chain_type_from_dpo_proto :: "dpo_proto \<Rightarrow> fib_forward_chain_type"
  fib_path_list_is_popular :: "u32 \<Rightarrow> 'w \<Rightarrow> bool"
  fib_path_list_contribute_forwarding ::
    "u32 \<Rightarrow> fib_forward_chain_type \<Rightarrow> path_list_fwd_flags \<Rightarrow> 'w \<Rightarrow> dpo_id \<times> 'w"
  fib_path_list_create :: "'p list \<Rightarrow> 'w \<Rightarrow> u32 \<times> 'w" \<comment> \<open>with the flags SHARED and NO_URPF\<close>
  fib_path_list_child_add :: "u32 \<Rightarrow> u32 \<Rightarrow> nat \<Rightarrow> 'w \<Rightarrow> u32 \<times> 'w"
  fib_path_list_child_remove :: "u32 \<Rightarrow> u32 \<Rightarrow> 'w \<Rightarrow> 'w"
  dpo_stack_from_node :: "u32 \<Rightarrow> dpo_id \<Rightarrow> dpo_id \<Rightarrow> 'w \<Rightarrow> dpo_id \<times> 'w"
  dpo_reset :: "dpo_id \<Rightarrow> 'w \<Rightarrow> dpo_id \<times> 'w"
  node_index_by_name :: "string \<Rightarrow> u32" \<comment> \<open>\<^verbatim>\<open>vlib_get_node_by_name (..)->index\<close>\<close>
  vnet_classify_add_del_session ::
    "u32 \<Rightarrow> u8 list \<Rightarrow> u32 \<Rightarrow> u32 \<Rightarrow> int \<Rightarrow> classify_action \<Rightarrow> u32 \<Rightarrow> bool \<Rightarrow> 'w \<Rightarrow> retval \<times> 'w"
  fib_node_register_new_type :: "string \<Rightarrow> 'w \<Rightarrow> u32 \<times> 'w"

text \<open>Documented behaviour of \<^verbatim>\<open>pool_get\<close>: the slot handed out is unused, or the first beyond the end.\<close>

definition pool_ok :: "('p, 'w) redirect_api \<Rightarrow> bool" where
  "pool_ok E \<longleftrightarrow> (\<forall>p. pool_get_index E p < length p \<and> p ! pool_get_index E p = None \<or>
     pool_get_index E p = length p)"

text \<open>
  Documented behaviour of the classifier sessions, with \<open>present w\<close> the set of (table, match) pairs it
  holds: a successful addition or removal does what it says, a failed one changes nothing, and removing
  an absent session fails. The FIB and DPO calls leave the classifier alone.
\<close>

definition classify_ok :: "('p, 'w) redirect_api \<Rightarrow> ('w \<Rightarrow> (u32 \<times> u8 list) set) \<Rightarrow> bool" where
  "classify_ok E present \<longleftrightarrow>
     (\<forall>t m hit op adv act md is_add w rv w'.
        vnet_classify_add_del_session E t m hit op adv act md is_add w = (rv, w') \<longrightarrow>
        present w' = (if rv \<noteq> RV_OK then present w
          else if is_add then insert (t, m) (present w) else present w - {(t, m)}) \<and>
        (\<not> is_add \<and> (t, m) \<notin> present w \<longrightarrow> rv \<noteq> RV_OK)) \<and>
     (\<forall>pl sib w. present (fib_path_list_child_remove E pl sib w) = present w) \<and>
     (\<forall>d w. present (snd (dpo_reset E d w)) = present w) \<and>
     (\<forall>ps w. present (snd (fib_path_list_create E ps w)) = present w) \<and>
     (\<forall>pl ty i w. present (snd (fib_path_list_child_add E pl ty i w)) = present w) \<and>
     (\<forall>pl ty fl w. present (snd (fib_path_list_contribute_forwarding E pl ty fl w)) = present w) \<and>
     (\<forall>n d d' w. present (snd (dpo_stack_from_node E n d d' w)) = present w)"

section \<open>Operations\<close>

text \<open>Result: the return value, the entry and the VPP state.\<close>

definition tunterm_acl_redirect_stack ::
  "('p, 'w) redirect_api \<Rightarrow> tunterm_acl_redirect \<Rightarrow> 'w \<Rightarrow> retval \<times> tunterm_acl_redirect \<times> 'w" where
  "tunterm_acl_redirect_stack E ipr w =
     (let (dpo, w) = fib_path_list_contribute_forwarding E (ipr_pl ipr) (ipr_payload_type ipr)
            (if fib_path_list_is_popular E (ipr_pl ipr) w then FIB_PATH_LIST_FWD_FLAG_NONE
             else FIB_PATH_LIST_FWD_FLAG_COLLAPSE) w;
          (d, w) = dpo_stack_from_node E (ipr_parent_node_index ipr) (ipr_dpo ipr) dpo w;
          ipr = ipr\<lparr>ipr_dpo := d\<rparr>;
          (_, w) = dpo_reset E dpo w;
          (rv, w) = vnet_classify_add_del_session E (ipr_table_index ipr) (match_and_table_index ipr)
            (ucast (dpoi_next_node (ipr_dpo ipr))) (ipr_opaque_index ipr) 0 CLASSIFY_ACTION_SET_METADATA
            (dpoi_index (ipr_dpo ipr)) True w
      in (rv, ipr, w))"

text \<open>Result: the pool index of the entry.\<close>

definition tunterm_acl_redirect_find ::
  "tunterm_acl_redirect_main \<Rightarrow> u32 \<Rightarrow> u8 list \<Rightarrow> nat option" where
  "tunterm_acl_redirect_find im table_index m =
     session_by_match_and_table_index im (m @ u32_bytes table_index)"

text \<open>
  \<^verbatim>\<open>pool_elt_at_index\<close> on an unused slot is undefined in C; the model stops with \<open>None\<close> there. The entry found
  or allocated first, then the common part.
\<close>

definition pool_elt :: "tunterm_acl_redirect_main \<Rightarrow> nat \<Rightarrow> tunterm_acl_redirect option" where
  "pool_elt im i = (if i < length (ipr_pool im) then ipr_pool im ! i else None)"

definition pool_set :: "nat \<Rightarrow> tunterm_acl_redirect option \<Rightarrow> tunterm_acl_redirect_main \<Rightarrow>
  tunterm_acl_redirect_main" where
  "pool_set i e im =
     im\<lparr>ipr_pool := (if i < length (ipr_pool im) then (ipr_pool im)[i := e] else ipr_pool im @ [e])\<rparr>"

definition redirect_entry ::
  "('p, 'w) redirect_api \<Rightarrow> u32 \<Rightarrow> u8 list \<Rightarrow> tunterm_acl_redirect_main \<times> 'w \<Rightarrow>
   (nat \<times> tunterm_acl_redirect_main \<times> 'w) option" where
  "redirect_entry E table_index m = (\<lambda>(im, w).
     case tunterm_acl_redirect_find im table_index m of
       Some i \<Rightarrow>
         (case pool_elt im i of
            None \<Rightarrow> None
          | Some ipr \<Rightarrow>
              let w = fib_path_list_child_remove E (ipr_pl ipr) (ipr_sibling ipr) w;
                  (d, w) = dpo_reset E (ipr_dpo ipr) w
              in Some (i, pool_set i (Some (ipr\<lparr>ipr_dpo := d\<rparr>)) im, w))
     | None \<Rightarrow>
         let i = pool_get_index E (ipr_pool im);
             ipr = pool_get_raw E i w;
             ipr = ipr\<lparr>ipr_node_type := ipr_fib_node_type im,
               match_and_table_index := m @ u32_bytes table_index,
               ipr_table_index := table_index\<rparr>;
             im = pool_set i (Some ipr) im;
             im = im\<lparr>session_by_match_and_table_index :=
               (session_by_match_and_table_index im)(match_and_table_index ipr \<mapsto> i)\<rparr>
         in Some (i, im, w))"

definition tunterm_acl_redirect_add ::
  "('p, 'w) redirect_api \<Rightarrow> u32 \<Rightarrow> u32 \<Rightarrow> dpo_proto \<Rightarrow> u8 list \<Rightarrow> 'p list \<Rightarrow>
   tunterm_acl_redirect_main \<times> 'w \<Rightarrow> (retval \<times> tunterm_acl_redirect_main \<times> 'w) option" where
  "tunterm_acl_redirect_add E table_index opaque_index proto m rpaths s =
     (let payload_type = fib_forw_chain_type_from_dpo_proto E proto
      in case payload_type of
           FIB_FORW_CHAIN_TYPE_OTHER _ \<Rightarrow> Some (VNET_API_ERROR_INVALID_ADDRESS_FAMILY, s)
         | _ \<Rightarrow>
             (case redirect_entry E table_index m s of
                None \<Rightarrow> None
              | Some (i, im, w) \<Rightarrow>
                  (case pool_elt im i of
                     None \<Rightarrow> None
                   | Some ipr \<Rightarrow>
                       let ipr = ipr\<lparr>ipr_payload_type := payload_type\<rparr>;
                           (pl, w) = fib_path_list_create E rpaths w;
                           ipr = ipr\<lparr>ipr_pl := pl\<rparr>;
                           (sibling, w) = fib_path_list_child_add E pl (ipr_fib_node_type im) i w;
                           ipr = ipr\<lparr>ipr_sibling := sibling,
                             ipr_parent_node_index := node_index_by_name E ''tunterm-acl'',
                             ipr_opaque_index := opaque_index,
                             ipr_is_ip6 := (payload_type = FIB_FORW_CHAIN_TYPE_UNICAST_IP6)\<rparr>;
                           (rv, ipr, w) = tunterm_acl_redirect_stack E ipr w
                       in Some (rv, pool_set i (Some ipr) im, w))))"

definition tunterm_acl_redirect_del_ipr ::
  "('p, 'w) redirect_api \<Rightarrow> nat \<Rightarrow> tunterm_acl_redirect_main \<times> 'w \<Rightarrow>
   (retval \<times> tunterm_acl_redirect_main \<times> 'w) option" where
  "tunterm_acl_redirect_del_ipr E i = (\<lambda>(im, w).
     case pool_elt im i of
       None \<Rightarrow> None
     | Some ipr \<Rightarrow>
         let (rv, w) = vnet_classify_add_del_session E (ipr_table_index ipr) (match_and_table_index ipr)
               0 0 0 CLASSIFY_ACTION_NONE 0 False w
         in if rv \<noteq> RV_OK then Some (rv, im, w)
            else let im = im\<lparr>session_by_match_and_table_index :=
                       (session_by_match_and_table_index im)(match_and_table_index ipr := None)\<rparr>;
                     w = fib_path_list_child_remove E (ipr_pl ipr) (ipr_sibling ipr) w;
                     (_, w) = dpo_reset E (ipr_dpo ipr) w
                 in Some (RV_OK, pool_set i None im, w))"

definition tunterm_acl_redirect_del ::
  "('p, 'w) redirect_api \<Rightarrow> u32 \<Rightarrow> u8 list \<Rightarrow> tunterm_acl_redirect_main \<times> 'w \<Rightarrow>
   (retval \<times> tunterm_acl_redirect_main \<times> 'w) option" where
  "tunterm_acl_redirect_del E table_index m s =
     (case tunterm_acl_redirect_find (fst s) table_index m of
        None \<Rightarrow> Some (VNET_API_ERROR_NO_SUCH_ENTRY, s)
      | Some i \<Rightarrow> tunterm_acl_redirect_del_ipr E i s)"

text \<open>The second loop of \<^verbatim>\<open>tunterm_acl_redirect_clear\<close>, over the entries collected by the first.\<close>

primrec del_all ::
  "('p, 'w) redirect_api \<Rightarrow> nat list \<Rightarrow> tunterm_acl_redirect_main \<times> 'w \<Rightarrow>
   (retval \<times> tunterm_acl_redirect_main \<times> 'w) option" where
  "del_all E [] s = Some (RV_OK, s)"
| "del_all E (i # is) s =
     (case tunterm_acl_redirect_del_ipr E i s of
        None \<Rightarrow> None
      | Some (rv, s') \<Rightarrow> if rv \<noteq> RV_OK then Some (rv, s') else del_all E is s')"

definition tunterm_acl_redirect_clear ::
  "('p, 'w) redirect_api \<Rightarrow> u32 \<Rightarrow> tunterm_acl_redirect_main \<times> 'w \<Rightarrow>
   (retval \<times> tunterm_acl_redirect_main \<times> 'w) option" where
  "tunterm_acl_redirect_clear E table_index s =
     (let to_be_deleted = filter (\<lambda>i. case ipr_pool (fst s) ! i of
            None \<Rightarrow> False | Some ipr \<Rightarrow> ipr_table_index ipr = table_index)
            [0..<length (ipr_pool (fst s))]
      in del_all E to_be_deleted s)"

text \<open>A back walk restacks the entry whose node it reached; the return value only feeds a warning.\<close>

definition tunterm_acl_redirect_back_walk_notify ::
  "('p, 'w) redirect_api \<Rightarrow> nat \<Rightarrow> tunterm_acl_redirect_main \<times> 'w \<Rightarrow>
   (retval \<times> tunterm_acl_redirect_main \<times> 'w) option" where
  "tunterm_acl_redirect_back_walk_notify E i = (\<lambda>(im, w).
     case pool_elt im i of
       None \<Rightarrow> None
     | Some ipr \<Rightarrow>
         let (rv, ipr, w) = tunterm_acl_redirect_stack E ipr w
         in Some (rv, pool_set i (Some ipr) im, w))"

definition tunterm_acl_redirect_init ::
  "('p, 'w) redirect_api \<Rightarrow> 'w \<Rightarrow> tunterm_acl_redirect_main \<times> 'w" where
  "tunterm_acl_redirect_init E w =
     (let (ty, w) = fib_node_register_new_type E ''tunterm-redirect'' w
      in (\<lparr>ipr_pool = [], session_by_match_and_table_index = Map.empty, ipr_fib_node_type = ty\<rparr>, w))"

section \<open>Invariant and abstraction\<close>

text \<open>
  The hash and the pool describe the same entries: a key maps to a slot exactly when the slot holds an
  entry with that key, and a key ends in the bytes of the entry's table index.
\<close>

definition redirect_inv :: "tunterm_acl_redirect_main \<Rightarrow> bool" where
  "redirect_inv im \<longleftrightarrow>
     (\<forall>k i. session_by_match_and_table_index im k = Some i \<longleftrightarrow>
        (\<exists>ipr. pool_elt im i = Some ipr \<and> match_and_table_index ipr = k)) \<and>
     (\<forall>i ipr. pool_elt im i = Some ipr \<longrightarrow>
        (\<exists>m. match_and_table_index ipr = m @ u32_bytes (ipr_table_index ipr)))"

text \<open>The abstract state: a map from table and match to the payload type and opaque value of the session.\<close>

type_synonym session = "fib_forward_chain_type \<times> u32"

definition sessions :: "tunterm_acl_redirect_main \<Rightarrow> u32 \<times> u8 list \<Rightarrow> session option" where
  "sessions im = (\<lambda>(t, m).
     Option.bind (tunterm_acl_redirect_find im t m) (\<lambda>i.
       map_option (\<lambda>ipr. (ipr_payload_type ipr, ipr_opaque_index ipr)) (pool_elt im i)))"

text \<open>Distinct slots that hold entries of table \<open>t\<close>.\<close>

definition table_entries :: "tunterm_acl_redirect_main \<Rightarrow> u32 \<Rightarrow> nat list \<Rightarrow> bool" where
  "table_entries im t is \<longleftrightarrow> distinct is \<and>
     (\<forall>i\<in>set is. \<exists>ipr. pool_elt im i = Some ipr \<and> ipr_table_index ipr = t)"

text \<open>
  Documented behaviour of the chain-type lookup for the two protocols the plugin uses.
\<close>

definition chain_ok :: "('p, 'w) redirect_api \<Rightarrow> bool" where
  "chain_ok E \<longleftrightarrow>
     fib_forw_chain_type_from_dpo_proto E DPO_PROTO_IP4 = FIB_FORW_CHAIN_TYPE_UNICAST_IP4 \<and>
     fib_forw_chain_type_from_dpo_proto E DPO_PROTO_IP6 = FIB_FORW_CHAIN_TYPE_UNICAST_IP6"

text \<open>What a client hands over for one session: table, address family, match and paths.\<close>

type_synonym 'p session_request = "u32 \<times> bool \<times> u8 list \<times> 'p list"

definition request_key :: "'p session_request \<Rightarrow> u32 \<times> u8 list" where
  "request_key = (\<lambda>(t, is_ipv6, m, paths). (t, m))"

definition request_session :: "'p session_request \<Rightarrow> session" where
  "request_session = (\<lambda>(t, is_ipv6, m, paths).
     (if is_ipv6 then FIB_FORW_CHAIN_TYPE_UNICAST_IP6 else FIB_FORW_CHAIN_TYPE_UNICAST_IP4, 0))"

definition request_add ::
  "('p, 'w) redirect_api \<Rightarrow> 'p session_request \<Rightarrow> tunterm_acl_redirect_main \<times> 'w \<Rightarrow>
   (retval \<times> tunterm_acl_redirect_main \<times> 'w) option" where
  "request_add E = (\<lambda>(t, is_ipv6, m, paths).
     tunterm_acl_redirect_add E t 0 (if is_ipv6 then DPO_PROTO_IP6 else DPO_PROTO_IP4) m paths)"

text \<open>
  A concrete environment: the classifier is the set of its sessions, additions to the tables in \<open>bad\<close> fail,
  and nothing else has an effect.
\<close>

definition redirect_demo :: "u32 set \<Rightarrow> (nat, (u32 \<times> u8 list) set) redirect_api" where
  "redirect_demo bad =
     \<lparr>pool_get_index = length,
      pool_get_raw = (\<lambda>i w. \<lparr>match_and_table_index = [],
        ipr_dpo = \<lparr>dpoi_type = 0, dpoi_proto = 0, dpoi_next_node = 0, dpoi_index = 0\<rparr>,
        ipr_node_type = 0, ipr_pl = 0, ipr_sibling = 0, ipr_parent_node_index = 0, ipr_opaque_index = 0,
        ipr_table_index = 0, ipr_payload_type = FIB_FORW_CHAIN_TYPE_OTHER 0, ipr_is_ip6 = False\<rparr>),
      fib_forw_chain_type_from_dpo_proto = (\<lambda>p. case p of
        DPO_PROTO_IP4 \<Rightarrow> FIB_FORW_CHAIN_TYPE_UNICAST_IP4 | DPO_PROTO_IP6 \<Rightarrow> FIB_FORW_CHAIN_TYPE_UNICAST_IP6
      | DPO_PROTO_OTHER n \<Rightarrow> FIB_FORW_CHAIN_TYPE_OTHER n),
      fib_path_list_is_popular = (\<lambda>pl w. False),
      fib_path_list_contribute_forwarding = (\<lambda>pl ty fl w.
        (\<lparr>dpoi_type = 1, dpoi_proto = 0, dpoi_next_node = 3, dpoi_index = pl\<rparr>, w)),
      fib_path_list_create = (\<lambda>ps w. (of_nat (sum_list ps), w)),
      fib_path_list_child_add = (\<lambda>pl ty i w. (0, w)),
      fib_path_list_child_remove = (\<lambda>pl sib w. w),
      dpo_stack_from_node = (\<lambda>n d d' w. (d', w)),
      dpo_reset = (\<lambda>d w. (\<lparr>dpoi_type = 0, dpoi_proto = 0, dpoi_next_node = 0, dpoi_index = 0\<rparr>, w)),
      node_index_by_name = (\<lambda>n. 40),
      vnet_classify_add_del_session = (\<lambda>t m hit opq adv act md is_add w.
        if is_add then if t \<in> bad then (API_ERROR_EXT (-1), w) else (RV_OK, insert (t, m) w)
        else if (t, m) \<in> w then (RV_OK, w - {(t, m)}) else (VNET_API_ERROR_NO_SUCH_ENTRY, w)),
      fib_node_register_new_type = (\<lambda>n w. (21, w))\<rparr>"

section \<open>The contract of a session table\<close>

text \<open>
  What the client of the sessions relies on: adding a session binds its key whatever the return code says,
  clearing a table leaves the other tables alone and, when it succeeds, leaves the table empty. The lemmas
  on a sequence of additions after a clear are the client's.
\<close>

locale session_table =
  fixes inv :: "'s \<Rightarrow> bool" and abs :: "'s \<Rightarrow> 'k \<Rightarrow> 'v option" and table_of :: "'k \<Rightarrow> 't"
    and key_of :: "'r \<Rightarrow> 'k" and val_of :: "'r \<Rightarrow> 'v"
    and add :: "'r \<Rightarrow> 's \<Rightarrow> (retval \<times> 's) option" and clear :: "'t \<Rightarrow> 's \<Rightarrow> (retval \<times> 's) option"
  assumes add_law: "inv s \<Longrightarrow> \<exists>rv s'. add r s = Some (rv, s') \<and> inv s' \<and>
      abs s' = (abs s)(key_of r \<mapsto> val_of r)"
    and clear_law: "inv s \<Longrightarrow> \<exists>rv s'. clear t s = Some (rv, s') \<and> inv s' \<and>
      (\<forall>k. table_of k \<noteq> t \<longrightarrow> abs s' k = abs s k) \<and>
      (rv = RV_OK \<longrightarrow> (\<forall>k. table_of k = t \<longrightarrow> abs s' k = None))"
begin

primrec add_seq :: "'r list \<Rightarrow> 's \<Rightarrow> (retval \<times> 's) option" where
  "add_seq [] s = Some (RV_OK, s)"
| "add_seq (r # rs) s =
     (case add r s of None \<Rightarrow> None
      | Some (rv, s') \<Rightarrow> if rv \<noteq> RV_OK then Some (rv, s') else add_seq rs s')"

lemma add_seq_law:
  assumes "inv s"
  shows "\<exists>rv s'. add_seq rs s = Some (rv, s') \<and> inv s' \<and>
    (rv = RV_OK \<longrightarrow> abs s' = abs s ++ map_of (rev (map (\<lambda>r. (key_of r, val_of r)) rs))) \<and>
    (\<forall>k. k \<notin> key_of ` set rs \<longrightarrow> abs s' k = abs s k)"
  using assms
proof (induction rs arbitrary: s)
  case (Cons r rs)
  obtain rv s1 where a: "add r s = Some (rv, s1)" "inv s1" "abs s1 = (abs s)(key_of r \<mapsto> val_of r)"
    using add_law [OF Cons.prems] by blast
  from Cons.IH [OF a(2)] obtain rv' s' where "add_seq rs s1 = Some (rv', s')" "inv s'"
    "rv' = RV_OK \<longrightarrow> abs s' = abs s1 ++ map_of (rev (map (\<lambda>r. (key_of r, val_of r)) rs))"
    "\<forall>k. k \<notin> key_of ` set rs \<longrightarrow> abs s' k = abs s1 k" by blast
  with a show ?case by (auto simp: map_add_upd_left map_add_assoc)
qed simp

lemma replace_law:
  assumes "inv s" and "clear t s = Some (RV_OK, s1)" and "add_seq rs s1 = Some (RV_OK, s')"
  shows "abs s' = (\<lambda>k. if table_of k = t then None else abs s k) ++
      map_of (rev (map (\<lambda>r. (key_of r, val_of r)) rs))" and "inv s'"
proof -
  have c: "inv s1" "abs s1 = (\<lambda>k. if table_of k = t then None else abs s k)"
    using clear_law [OF assms(1), of t] assms(2) by (auto simp: fun_eq_iff)
  show "abs s' = (\<lambda>k. if table_of k = t then None else abs s k) ++
      map_of (rev (map (\<lambda>r. (key_of r, val_of r)) rs))" and "inv s'"
    using add_seq_law [OF c(1), of rs] assms(3) c(2) by auto
qed

end

section \<open>Lemmas on the pool and the hash\<close>

lemma pool_set_hash [simp]:
  "session_by_match_and_table_index (pool_set i e im) = session_by_match_and_table_index im"
  "ipr_fib_node_type (pool_set i e im) = ipr_fib_node_type im"
  by (simp_all add: pool_set_def)

lemma pool_elt_hash [simp]:
  "pool_elt (im\<lparr>session_by_match_and_table_index := h\<rparr>) = pool_elt im"
  by (simp add: pool_elt_def fun_eq_iff)

lemma pool_elt_set:
  "i \<le> length (ipr_pool im) \<Longrightarrow> pool_elt (pool_set i e im) j = (if j = i then e else pool_elt im j)"
  by (auto simp: pool_elt_def pool_set_def nth_append)

lemma pool_elt_bound: "pool_elt im i = Some ipr \<Longrightarrow> i \<le> length (ipr_pool im)"
  by (auto simp: pool_elt_def split: if_splits)

lemma pool_get_free:
  assumes "pool_ok E"
  shows "pool_get_index E (ipr_pool im) \<le> length (ipr_pool im)"
    and "pool_elt im (pool_get_index E (ipr_pool im)) = None"
  using assms [unfolded pool_ok_def, rule_format, of "ipr_pool im"] by (auto simp: pool_elt_def)

lemma redirect_invD:
  assumes "redirect_inv im"
  shows "session_by_match_and_table_index im k = Some i \<longleftrightarrow>
      (\<exists>ipr. pool_elt im i = Some ipr \<and> match_and_table_index ipr = k)"
    and "pool_elt im i = Some ipr \<Longrightarrow> \<exists>m. match_and_table_index ipr = m @ u32_bytes (ipr_table_index ipr)"
  using assms by (simp_all add: redirect_inv_def)

lemma sessions_eq:
  "sessions im (t, m) =
     (case session_by_match_and_table_index im (m @ u32_bytes t) of None \<Rightarrow> None
      | Some i \<Rightarrow> map_option (\<lambda>ipr. (ipr_payload_type ipr, ipr_opaque_index ipr)) (pool_elt im i))"
  by (simp add: sessions_def tunterm_acl_redirect_find_def bind_split split: option.split)

text \<open>Rewriting an entry in place, with its key kept.\<close>

lemma rewrite_entry:
  assumes "redirect_inv im" and "pool_elt im i = Some ipr"
    and "match_and_table_index ipr' = match_and_table_index ipr"
    and "ipr_table_index ipr' = ipr_table_index ipr"
    and "match_and_table_index ipr = m @ u32_bytes t"
  shows "redirect_inv (pool_set i (Some ipr') im)"
    and "sessions (pool_set i (Some ipr') im) =
      (sessions im)((t, m) \<mapsto> (ipr_payload_type ipr', ipr_opaque_index ipr'))"
proof -
  note elt = pool_elt_set [OF pool_elt_bound [OF assms(2)]]
  have here: "session_by_match_and_table_index im (m @ u32_bytes t) = Some i"
    using redirect_invD(1) [OF assms(1)] assms(2,5) by blast
  have only: "session_by_match_and_table_index im k = Some i \<Longrightarrow> k = m @ u32_bytes t" for k
    using redirect_invD(1) [OF assms(1), of k i] assms(2,5) by simp
  show "redirect_inv (pool_set i (Some ipr') im)"
    unfolding redirect_inv_def elt pool_set_hash
  proof (intro conjI allI impI)
    show "session_by_match_and_table_index im k = Some j \<longleftrightarrow>
        (\<exists>ipr''. (if j = i then Some ipr' else pool_elt im j) = Some ipr'' \<and>
          match_and_table_index ipr'' = k)" for k j
      using redirect_invD(1) [OF assms(1), of k j] assms(2,3) by (cases "j = i") auto
    show "\<exists>m. match_and_table_index ipr'' = m @ u32_bytes (ipr_table_index ipr'')"
      if "(if j = i then Some ipr' else pool_elt im j) = Some ipr''" for j ipr''
      using redirect_invD(2) [OF assms(1)] assms(2-4) that by (cases "j = i") auto
  qed
  show "sessions (pool_set i (Some ipr') im) =
      (sessions im)((t, m) \<mapsto> (ipr_payload_type ipr', ipr_opaque_index ipr'))"
  proof (rule ext, clarify)
    fix t' m'
    show "sessions (pool_set i (Some ipr') im) (t', m') =
        ((sessions im)((t, m) \<mapsto> (ipr_payload_type ipr', ipr_opaque_index ipr'))) (t', m')"
    proof (cases "t' = t \<and> m' = m")
      case False
      then have "session_by_match_and_table_index im (m' @ u32_bytes t') \<noteq> Some i"
        using only append_u32_bytes_inject by blast
      then show ?thesis using False by (auto simp: sessions_eq elt split: option.split)
    qed (simp add: sessions_eq elt here)
  qed
qed

text \<open>Removing an entry together with its key.\<close>

lemma remove_entry:
  assumes "redirect_inv im" and "pool_elt im i = Some ipr"
    and "match_and_table_index ipr = m @ u32_bytes t"
  defines "im' \<equiv> pool_set i None (im\<lparr>session_by_match_and_table_index :=
      (session_by_match_and_table_index im)(match_and_table_index ipr := None)\<rparr>)"
  shows "redirect_inv im'" and "sessions im' = (sessions im)((t, m) := None)"
    and "pool_elt im' j = (if j = i then None else pool_elt im j)"
proof -
  have elt: "pool_elt im' j = (if j = i then None else pool_elt im j)" for j
    using pool_elt_bound [OF assms(2)] unfolding im'_def by (simp add: pool_elt_set)
  have hash: "session_by_match_and_table_index im' =
      (session_by_match_and_table_index im)(m @ u32_bytes t := None)"
    by (simp add: im'_def assms(3))
  have uniq: "pool_elt im j = Some ipr' \<Longrightarrow> match_and_table_index ipr' = m @ u32_bytes t \<Longrightarrow> j = i" for j ipr'
    using redirect_invD(1) [OF assms(1), of "m @ u32_bytes t"] assms(2,3) by (metis option.inject)
  have here: "session_by_match_and_table_index im k = Some i \<Longrightarrow> k = m @ u32_bytes t" for k
    using redirect_invD(1) [OF assms(1), of k i] assms(2,3) by simp
  show "redirect_inv im'"
    unfolding redirect_inv_def elt hash
  proof (intro conjI allI impI)
    show "((session_by_match_and_table_index im)(m @ u32_bytes t := None)) k = Some j \<longleftrightarrow>
        (\<exists>ipr''. (if j = i then None else pool_elt im j) = Some ipr'' \<and> match_and_table_index ipr'' = k)"
      for k j
    proof (cases "j = i \<or> k = m @ u32_bytes t")
      case True
      have "\<not> (\<exists>ipr''. pool_elt im j = Some ipr'' \<and> match_and_table_index ipr'' = m @ u32_bytes t)" if "j \<noteq> i"
        using uniq that by blast
      moreover have "k = m @ u32_bytes t \<or> session_by_match_and_table_index im k \<noteq> Some i"
        using here by blast
      ultimately show ?thesis using True by (cases "j = i") auto
    qed (use redirect_invD(1) [OF assms(1), of k j] in auto)
    show "\<exists>m. match_and_table_index ipr'' = m @ u32_bytes (ipr_table_index ipr'')"
      if "(if j = i then None else pool_elt im j) = Some ipr''" for j ipr''
      using redirect_invD(2) [OF assms(1)] that by (cases "j = i") auto
  qed
  show "sessions im' = (sessions im)((t, m) := None)"
  proof (rule ext, clarify)
    fix t' m'
    show "sessions im' (t', m') = ((sessions im)((t, m) := None)) (t', m')"
    proof (cases "t' = t \<and> m' = m")
      case False
      then have "m' @ u32_bytes t' \<noteq> m @ u32_bytes t" "session_by_match_and_table_index im (m' @ u32_bytes t') \<noteq> Some i"
        using here append_u32_bytes_inject by blast+
      then show ?thesis using False by (auto simp: sessions_eq elt hash split: option.split)
    qed (simp add: sessions_eq hash)
  qed
  show "pool_elt im' j = (if j = i then None else pool_elt im j)" by (rule elt)
qed

section \<open>Lemmas on the operations\<close>

lemma stack_keeps:
  assumes "tunterm_acl_redirect_stack E ipr w = (rv, ipr', w')"
  shows "match_and_table_index ipr' = match_and_table_index ipr"
    and "ipr_table_index ipr' = ipr_table_index ipr"
    and "ipr_payload_type ipr' = ipr_payload_type ipr" and "ipr_opaque_index ipr' = ipr_opaque_index ipr"
  using assms by (auto simp: tunterm_acl_redirect_stack_def split_def Let_def)

text \<open>Finding or allocating an entry succeeds and leaves the other entries alone.\<close>

lemma insert_entry:
  assumes inv: "redirect_inv im" and bound: "i \<le> length (ipr_pool im)" and free: "pool_elt im i = None"
    and absent: "session_by_match_and_table_index im (m @ u32_bytes t) = None"
    and ipr: "match_and_table_index ipr = m @ u32_bytes t" "ipr_table_index ipr = t"
  defines "im' \<equiv> (pool_set i (Some ipr) im)\<lparr>session_by_match_and_table_index :=
      (session_by_match_and_table_index im)(m @ u32_bytes t \<mapsto> i)\<rparr>"
  shows "redirect_inv im'" and "pool_elt im' i = Some ipr"
    and "key \<noteq> (t, m) \<Longrightarrow> sessions im' key = sessions im key"
proof -
  have elt: "pool_elt im' j = (if j = i then Some ipr else pool_elt im j)" for j
    by (simp add: im'_def pool_elt_set [OF bound])
  then show "pool_elt im' i = Some ipr" by simp
  have unused: "session_by_match_and_table_index im k \<noteq> Some i" for k
    using redirect_invD(1) [OF inv, of k i] free by simp
  show "redirect_inv im'"
    unfolding redirect_inv_def elt
  proof (intro conjI allI impI)
    show "session_by_match_and_table_index im' k = Some j \<longleftrightarrow>
        (\<exists>ipr'. (if j = i then Some ipr else pool_elt im j) = Some ipr' \<and> match_and_table_index ipr' = k)"
      for k j
      using redirect_invD(1) [OF inv, of k j] absent unused [of k] ipr
      by (cases "j = i") (auto simp: im'_def)
    show "\<exists>m. match_and_table_index ipr' = m @ u32_bytes (ipr_table_index ipr')"
      if "(if j = i then Some ipr else pool_elt im j) = Some ipr'" for j ipr'
      using redirect_invD(2) [OF inv] that ipr by (cases "j = i") auto
  qed
  show "sessions im' key = sessions im key" if "key \<noteq> (t, m)"
  proof -
    obtain t' m' where key: "key = (t', m')" by fastforce
    with that have "m' @ u32_bytes t' \<noteq> m @ u32_bytes t" using append_u32_bytes_inject by blast
    then show ?thesis using unused [of "m' @ u32_bytes t'"]
      by (auto simp: im'_def key sessions_eq pool_elt_set [OF bound] split: option.split)
  qed
qed

lemma redirect_entry_spec:
  assumes "pool_ok E" and "redirect_inv im"
  obtains i im' w' ipr where "redirect_entry E t m (im, w) = Some (i, im', w')"
    and "redirect_inv im'" and "pool_elt im' i = Some ipr"
    and "match_and_table_index ipr = m @ u32_bytes t" and "ipr_table_index ipr = t"
    and "\<And>key. key \<noteq> (t, m) \<Longrightarrow> sessions im' key = sessions im key"
proof (cases "tunterm_acl_redirect_find im t m")
  case None
  let ?ipr = "(pool_get_raw E (pool_get_index E (ipr_pool im)) w)\<lparr>ipr_node_type := ipr_fib_node_type im,
      match_and_table_index := m @ u32_bytes t, ipr_table_index := t\<rparr>"
  have "session_by_match_and_table_index im (m @ u32_bytes t) = None"
    using None by (simp add: tunterm_acl_redirect_find_def)
  note new = insert_entry [OF assms(2) pool_get_free [OF assms(1)] this, of ?ipr]
  show thesis
    by (rule that [OF _ new(1,2)]) (use None new(3) in \<open>simp_all add: redirect_entry_def Let_def\<close>)
next
  case (Some i)
  then have hash: "session_by_match_and_table_index im (m @ u32_bytes t) = Some i"
    by (simp add: tunterm_acl_redirect_find_def)
  then obtain ipr where ipr: "pool_elt im i = Some ipr" "match_and_table_index ipr = m @ u32_bytes t"
    using redirect_invD(1) [OF assms(2)] by blast
  then have tab: "ipr_table_index ipr = t"
    using redirect_invD(2) [OF assms(2) ipr(1)] append_u32_bytes_inject by metis
  obtain d w' where d: "dpo_reset E (ipr_dpo ipr)
      (fib_path_list_child_remove E (ipr_pl ipr) (ipr_sibling ipr) w) = (d, w')" by fastforce
  let ?ipr = "ipr\<lparr>ipr_dpo := d\<rparr>"
  have "redirect_inv (pool_set i (Some ?ipr) im)"
    "sessions (pool_set i (Some ?ipr) im) =
      (sessions im)((t, m) \<mapsto> (ipr_payload_type ?ipr, ipr_opaque_index ?ipr))"
    using rewrite_entry [OF assms(2) ipr(1), of ?ipr m t] ipr(2) by simp_all
  then show thesis
    using that [of i "pool_set i (Some ?ipr) im" w' ?ipr] Some ipr tab d
      pool_elt_set [OF pool_elt_bound [OF ipr(1)], of "Some ?ipr" i]
    by (simp add: redirect_entry_def Let_def)
qed

text \<open>An addition for one of the two families: the entry, the path list, and the stacking of the entry.\<close>

lemma add_shape:
  assumes "pool_ok E" and "redirect_inv im"
    and "fib_forw_chain_type_from_dpo_proto E proto \<in>
      {FIB_FORW_CHAIN_TYPE_UNICAST_IP4, FIB_FORW_CHAIN_TYPE_UNICAST_IP6}"
  obtains i im1 w1 ipr0 w2 pl ipr rv ipr' w' where "redirect_entry E t m (im, w) = Some (i, im1, w1)"
    and "redirect_inv im1" and "pool_elt im1 i = Some ipr0"
    and "match_and_table_index ipr0 = m @ u32_bytes t" and "ipr_table_index ipr0 = t"
    and "\<forall>key. key \<noteq> (t, m) \<longrightarrow> sessions im1 key = sessions im key"
    and "w2 = snd (fib_path_list_child_add E pl (ipr_fib_node_type im1) i (snd (fib_path_list_create E rpaths w1)))"
    and "tunterm_acl_redirect_stack E ipr w2 = (rv, ipr', w')"
    and "match_and_table_index ipr = m @ u32_bytes t" and "ipr_table_index ipr = t"
    and "ipr_payload_type ipr = fib_forw_chain_type_from_dpo_proto E proto" and "ipr_opaque_index ipr = opq"
    and "tunterm_acl_redirect_add E t opq proto m rpaths (im, w) = Some (rv, pool_set i (Some ipr') im1, w')"
proof -
  let ?pt = "fib_forw_chain_type_from_dpo_proto E proto"
  obtain i im1 w1 ipr0 where ent: "redirect_entry E t m (im, w) = Some (i, im1, w1)"
    "redirect_inv im1" "pool_elt im1 i = Some ipr0" "match_and_table_index ipr0 = m @ u32_bytes t"
    "ipr_table_index ipr0 = t" and other: "\<forall>key. key \<noteq> (t, m) \<longrightarrow> sessions im1 key = sessions im key"
    using redirect_entry_spec [OF assms(1,2), of t m w] by blast
  obtain pl w2 where pl: "fib_path_list_create E rpaths w1 = (pl, w2)" by fastforce
  obtain sib w3 where sib: "fib_path_list_child_add E pl (ipr_fib_node_type im1) i w2 = (sib, w3)"
    by fastforce
  let ?ipr = "ipr0\<lparr>ipr_payload_type := ?pt, ipr_pl := pl, ipr_sibling := sib,
      ipr_parent_node_index := node_index_by_name E ''tunterm-acl'', ipr_opaque_index := opq,
      ipr_is_ip6 := (?pt = FIB_FORW_CHAIN_TYPE_UNICAST_IP6)\<rparr>"
  obtain rv ipr' w4 where st: "tunterm_acl_redirect_stack E ?ipr w3 = (rv, ipr', w4)"
    by (metis prod_cases3)
  have "tunterm_acl_redirect_add E t opq proto m rpaths (im, w) = Some (rv, pool_set i (Some ipr') im1, w4)"
    using assms(3) ent pl sib st
    by (cases ?pt) (simp_all add: tunterm_acl_redirect_add_def Let_def)
  with that [where pl = pl, OF ent other _ st] ent(4,5) pl sib show thesis by simp
qed

lemma redirect_add_spec:
  assumes "pool_ok E" and "redirect_inv im"
  obtains rv im' w' where "tunterm_acl_redirect_add E t opq proto m rpaths (im, w) = Some (rv, im', w')"
    and "redirect_inv im'"
    and "case fib_forw_chain_type_from_dpo_proto E proto of
        FIB_FORW_CHAIN_TYPE_OTHER _ \<Rightarrow> rv = VNET_API_ERROR_INVALID_ADDRESS_FAMILY \<and> im' = im \<and> w' = w
      | pt \<Rightarrow> sessions im' = (sessions im)((t, m) \<mapsto> (pt, opq))"
proof (cases "\<exists>n. fib_forw_chain_type_from_dpo_proto E proto = FIB_FORW_CHAIN_TYPE_OTHER n")
  case True
  then show thesis
    using that [of VNET_API_ERROR_INVALID_ADDRESS_FAMILY im w] assms(2)
    by (auto simp: tunterm_acl_redirect_add_def)
next
  case False
  let ?pt = "fib_forw_chain_type_from_dpo_proto E proto"
  have pt: "?pt \<in> {FIB_FORW_CHAIN_TYPE_UNICAST_IP4, FIB_FORW_CHAIN_TYPE_UNICAST_IP6}"
    using False by (cases ?pt) auto
  obtain i im1 w1 pl ipr0 ipr rv1 ipr' w2 w3 where ent: "redirect_entry E t m (im, w) = Some (i, im1, w1)"
      "redirect_inv im1" "pool_elt im1 i = Some ipr0" "match_and_table_index ipr0 = m @ u32_bytes t"
      "ipr_table_index ipr0 = t"
    and other: "\<forall>key. key \<noteq> (t, m) \<longrightarrow> sessions im1 key = sessions im key"
    and w2: "w2 = snd (fib_path_list_child_add E pl (ipr_fib_node_type im1) i (snd (fib_path_list_create E rpaths w1)))"
    and st: "tunterm_acl_redirect_stack E ipr w2 = (rv1, ipr', w3)"
      "match_and_table_index ipr = m @ u32_bytes t" "ipr_table_index ipr = t"
      "ipr_payload_type ipr = fib_forw_chain_type_from_dpo_proto E proto" "ipr_opaque_index ipr = opq"
    and add: "tunterm_acl_redirect_add E t opq proto m rpaths (im, w) = Some (rv1, pool_set i (Some ipr') im1, w3)"
    by (rule add_shape [OF assms pt, of t m w rpaths opq])
  have "redirect_inv (pool_set i (Some ipr') im1)"
    and upd: "sessions (pool_set i (Some ipr') im1) = (sessions im1)((t, m) \<mapsto> (?pt, opq))"
    using rewrite_entry [OF ent(2,3), of ipr' m t] stack_keeps [OF st(1)] st(2-5) ent(4,5) by simp_all
  moreover have "(sessions im1)((t, m) \<mapsto> (?pt, opq)) = (sessions im)((t, m) \<mapsto> (?pt, opq))"
    using other by (auto simp: fun_eq_iff)
  ultimately show thesis
    using that [OF add] False by (cases ?pt) auto
qed

lemma redirect_del_ipr_spec:
  assumes "redirect_inv im" and "pool_elt im i = Some ipr"
    and "match_and_table_index ipr = m @ u32_bytes t"
  obtains rv im' w' where "tunterm_acl_redirect_del_ipr E i (im, w) = Some (rv, im', w')"
    and "redirect_inv im'" and "rv \<noteq> RV_OK \<Longrightarrow> im' = im"
    and "rv = RV_OK \<Longrightarrow> sessions im' = (sessions im)((t, m) := None)"
    and "rv = RV_OK \<Longrightarrow> (\<And>j. pool_elt im' j = (if j = i then None else pool_elt im j))"
proof -
  let ?call = "vnet_classify_add_del_session E (ipr_table_index ipr) (match_and_table_index ipr)
      0 0 0 CLASSIFY_ACTION_NONE 0 False w"
  note rm = remove_entry [OF assms]
  show thesis
  proof (cases "fst ?call = RV_OK")
    case True
    then show thesis
      using that [of RV_OK "pool_set i None (im\<lparr>session_by_match_and_table_index :=
        (session_by_match_and_table_index im)(match_and_table_index ipr := None)\<rparr>)"] rm assms(2)
      by (simp add: tunterm_acl_redirect_del_ipr_def split_def Let_def)
  next
    case False
    then show thesis
      using that [of "fst ?call" im "snd ?call"] assms(1,2)
      by (simp add: tunterm_acl_redirect_del_ipr_def split_def Let_def)
  qed
qed

lemma session_entry:
  assumes "redirect_inv im" and "sessions im (t, m) = Some v"
  obtains i ipr where "pool_elt im i = Some ipr" and "match_and_table_index ipr = m @ u32_bytes t"
    and "ipr_table_index ipr = t"
proof -
  obtain i where i: "session_by_match_and_table_index im (m @ u32_bytes t) = Some i"
    using assms(2) by (auto simp: sessions_eq split: option.splits)
  then obtain ipr where ipr: "pool_elt im i = Some ipr" "match_and_table_index ipr = m @ u32_bytes t"
    using redirect_invD(1) [OF assms(1)] by blast
  obtain m' where "match_and_table_index ipr = m' @ u32_bytes (ipr_table_index ipr)"
    using redirect_invD(2) [OF assms(1) ipr(1)] by blast
  with ipr have "ipr_table_index ipr = t" using append_u32_bytes_inject by metis
  with ipr show thesis by (rule that)
qed

lemma del_all_spec:
  assumes "redirect_inv im" and "table_entries im t is"
  shows "\<exists>rv im' w'. del_all E is (im, w) = Some (rv, im', w') \<and> redirect_inv im' \<and>
    (\<forall>key. fst key \<noteq> t \<longrightarrow> sessions im' key = sessions im key) \<and>
    (rv = RV_OK \<longrightarrow> (\<forall>j. pool_elt im' j = (if j \<in> set is then None else pool_elt im j))) \<and>
    sessions im' \<subseteq>\<^sub>m sessions im"
  using assms
proof (induction "is" arbitrary: im w)
  case (Cons i "is")
  obtain ipr where ipr: "pool_elt im i = Some ipr" "ipr_table_index ipr = t"
    using Cons.prems(2) by (auto simp: table_entries_def)
  obtain m where m: "match_and_table_index ipr = m @ u32_bytes t"
    using redirect_invD(2) [OF Cons.prems(1) ipr(1)] ipr(2) by blast
  obtain rv im1 w1 where d: "tunterm_acl_redirect_del_ipr E i (im, w) = Some (rv, im1, w1)"
    "redirect_inv im1" and fail: "rv \<noteq> RV_OK \<Longrightarrow> im1 = im"
    and ok: "rv = RV_OK \<Longrightarrow> sessions im1 = (sessions im)((t, m) := None)"
      "\<And>j. rv = RV_OK \<Longrightarrow> pool_elt im1 j = (if j = i then None else pool_elt im j)"
    using redirect_del_ipr_spec [OF Cons.prems(1) ipr(1) m, of E w] by blast
  show ?case
  proof (cases "rv = RV_OK")
    case True
    then have "table_entries im1 t is"
      using Cons.prems(2) ok(2) by (auto simp: table_entries_def)
    from Cons.IH [OF d(2) this, of w1] obtain rv' im' w' where
      ih: "del_all E is (im1, w1) = Some (rv', im', w')" "redirect_inv im'"
      "\<forall>key. fst key \<noteq> t \<longrightarrow> sessions im' key = sessions im1 key"
      "rv' = RV_OK \<longrightarrow> (\<forall>j. pool_elt im' j = (if j \<in> set is then None else pool_elt im1 j))"
      "sessions im' \<subseteq>\<^sub>m sessions im1"
      by blast
    have "sessions im' \<subseteq>\<^sub>m sessions im"
      using ih(5) ok(1) [OF True] by (auto simp: map_le_def dom_def split: if_splits)
    moreover have "\<forall>key. fst key \<noteq> t \<longrightarrow> sessions im' key = sessions im key"
      using ih(3) ok(1) [OF True] by auto
    ultimately show ?thesis using True d ih ok(2) by auto
  next
    case False
    with d fail Cons.prems(1) show ?thesis by auto
  qed
qed simp

lemma redirect_clear_spec:
  assumes "redirect_inv im"
  shows "\<exists>rv im' w'. tunterm_acl_redirect_clear E t (im, w) = Some (rv, im', w') \<and> redirect_inv im' \<and>
    (\<forall>t' m. t' \<noteq> t \<longrightarrow> sessions im' (t', m) = sessions im (t', m)) \<and>
    (rv = RV_OK \<longrightarrow> (\<forall>m. sessions im' (t, m) = None)) \<and> sessions im' \<subseteq>\<^sub>m sessions im"
proof -
  let ?is = "filter (\<lambda>i. case ipr_pool im ! i of None \<Rightarrow> False | Some ipr \<Rightarrow> ipr_table_index ipr = t)
      [0..<length (ipr_pool im)]"
  have mem: "i \<in> set ?is \<longleftrightarrow> (\<exists>ipr. pool_elt im i = Some ipr \<and> ipr_table_index ipr = t)" for i
    by (auto simp: pool_elt_def split: option.splits)
  have "table_entries im t ?is" unfolding table_entries_def using mem by simp
  from del_all_spec [OF assms this, of E w] obtain rv im' w' where
    r: "del_all E ?is (im, w) = Some (rv, im', w')" "redirect_inv im'"
    "\<forall>key. fst key \<noteq> t \<longrightarrow> sessions im' key = sessions im key"
    "rv = RV_OK \<longrightarrow> (\<forall>j. pool_elt im' j = (if j \<in> set ?is then None else pool_elt im j))"
    "sessions im' \<subseteq>\<^sub>m sessions im"
    by blast
  have "sessions im' (t, m) = None" if "rv = RV_OK" for m
  proof (rule ccontr)
    assume "sessions im' (t, m) \<noteq> None"
    then obtain v where "sessions im' (t, m) = Some v" by blast
    then obtain i ipr where "pool_elt im' i = Some ipr" "ipr_table_index ipr = t"
      by (rule session_entry [OF r(2)])
    moreover have "pool_elt im' i = (if i \<in> set ?is then None else pool_elt im i)"
      using r(4) that by blast
    ultimately show False using mem [of i] by (auto split: if_splits)
  qed
  with r show ?thesis by (simp add: tunterm_acl_redirect_clear_def)
qed

interpretation redirect_table: session_table
  "\<lambda>(im, w). pool_ok E \<and> chain_ok E \<and> redirect_inv im" "\<lambda>(im, w). sessions im" fst
  request_key request_session "request_add E" "tunterm_acl_redirect_clear E"
  for E :: "('p, 'w) redirect_api"
proof unfold_locales
  fix s :: "tunterm_acl_redirect_main \<times> 'w" and r :: "'p session_request"
  assume inv: "case s of (im, w) \<Rightarrow> pool_ok E \<and> chain_ok E \<and> redirect_inv im"
  obtain t v6 m paths where r: "r = (t, v6, m, paths)" by (metis prod_cases4)
  obtain im w where s: "s = (im, w)" by fastforce
  let ?proto = "if v6 then DPO_PROTO_IP6 else DPO_PROTO_IP4"
  obtain rv im' w' where "tunterm_acl_redirect_add E t 0 ?proto m paths (im, w) = Some (rv, im', w')"
    "redirect_inv im'" "case fib_forw_chain_type_from_dpo_proto E ?proto of
        FIB_FORW_CHAIN_TYPE_OTHER _ \<Rightarrow> rv = VNET_API_ERROR_INVALID_ADDRESS_FAMILY \<and> im' = im \<and> w' = w
      | pt \<Rightarrow> sessions im' = (sessions im)((t, m) \<mapsto> (pt, 0))"
    using redirect_add_spec [of E im t 0 ?proto m paths w] inv s by auto
  with inv s r show "\<exists>rv s'. request_add E r s = Some (rv, s') \<and>
      (case s' of (im, w) \<Rightarrow> pool_ok E \<and> chain_ok E \<and> redirect_inv im) \<and>
      (case s' of (im, w) \<Rightarrow> sessions im) =
        (case s of (im, w) \<Rightarrow> sessions im)(request_key r \<mapsto> request_session r)"
    by (cases v6) (auto simp: request_add_def request_key_def request_session_def chain_ok_def)
next
  fix s :: "tunterm_acl_redirect_main \<times> 'w" and t
  assume inv: "case s of (im, w) \<Rightarrow> pool_ok E \<and> chain_ok E \<and> redirect_inv im"
  obtain im w where s: "s = (im, w)" by fastforce
  obtain rv im' w' where "tunterm_acl_redirect_clear E t (im, w) = Some (rv, im', w')" "redirect_inv im'"
    "\<forall>t' m. t' \<noteq> t \<longrightarrow> sessions im' (t', m) = sessions im (t', m)"
    "rv = RV_OK \<longrightarrow> (\<forall>m. sessions im' (t, m) = None)"
    using redirect_clear_spec [of im E t w] inv s by auto
  with inv s show "\<exists>rv s'. tunterm_acl_redirect_clear E t s = Some (rv, s') \<and>
      (case s' of (im, w) \<Rightarrow> pool_ok E \<and> chain_ok E \<and> redirect_inv im) \<and>
      (\<forall>k. fst k \<noteq> t \<longrightarrow> (case s' of (im, w) \<Rightarrow> sessions im) k = (case s of (im, w) \<Rightarrow> sessions im) k) \<and>
      (rv = RV_OK \<longrightarrow> (\<forall>k. fst k = t \<longrightarrow> (case s' of (im, w) \<Rightarrow> sessions im) k = None))"
    by (auto simp: split_paired_all)
qed

lemma clear_subset:
  assumes "redirect_inv im" and "tunterm_acl_redirect_clear E t (im, w) = Some (rv, im', w')"
    and "sessions im' key = Some v"
  shows "sessions im key = Some v"
proof -
  have "sessions im' \<subseteq>\<^sub>m sessions im" using redirect_clear_spec [OF assms(1), of E t w] assms(2) by auto
  with assms(3) show ?thesis by (force simp: map_le_def)
qed

section \<open>Sessions the classifier does not have\<close>

lemma classify_call:
  assumes "classify_ok E present"
    and "vnet_classify_add_del_session E t m hit opq adv act md is_add w = (rv, w')"
  shows "present w' = (if rv \<noteq> RV_OK then present w
      else if is_add then insert (t, m) (present w) else present w - {(t, m)})"
    and "\<not> is_add \<Longrightarrow> (t, m) \<notin> present w \<Longrightarrow> rv \<noteq> RV_OK"
  using conjunct1 [OF assms(1) [unfolded classify_ok_def], rule_format, OF assms(2)] by simp_all

lemma classify_quiet:
  assumes "classify_ok E present"
  shows "present (fib_path_list_child_remove E pl sib w) = present w"
    and "present (snd (dpo_reset E d w)) = present w"
    and "present (snd (fib_path_list_create E ps w)) = present w"
    and "present (snd (fib_path_list_child_add E pl ty i w)) = present w"
    and "present (snd (fib_path_list_contribute_forwarding E pl ty' fl w)) = present w"
    and "present (snd (dpo_stack_from_node E n d d' w)) = present w"
  using assms by (simp_all add: classify_ok_def)

lemma del_ipr_present:
  assumes "classify_ok E present" and "pool_elt im i = Some ipr"
    and "tunterm_acl_redirect_del_ipr E i (im, w) = Some (rv, im', w')"
  shows "rv \<noteq> RV_OK \<Longrightarrow> im' = im \<and> present w' = present w"
    and "rv = RV_OK \<Longrightarrow> (ipr_table_index ipr, match_and_table_index ipr) \<in> present w"
    and "present w' \<subseteq> present w"
proof -
  obtain rv1 w1 where c: "vnet_classify_add_del_session E (ipr_table_index ipr)
      (match_and_table_index ipr) 0 0 0 CLASSIFY_ACTION_NONE 0 False w = (rv1, w1)" by fastforce
  note call = classify_call [OF assms(1) c]
  show "rv \<noteq> RV_OK \<Longrightarrow> im' = im \<and> present w' = present w"
    "rv = RV_OK \<Longrightarrow> (ipr_table_index ipr, match_and_table_index ipr) \<in> present w"
    "present w' \<subseteq> present w"
    using assms(2,3) c call classify_quiet [OF assms(1)]
    by (auto simp: tunterm_acl_redirect_del_ipr_def split_def Let_def split: if_splits)
qed

text \<open>Among the slots to delete, one whose session is missing makes the deletion fail and survives it.\<close>

lemma del_all_stuck:
  assumes "classify_ok E present" and "redirect_inv im" and "table_entries im t is" and "i \<in> set is"
    and "pool_elt im i = Some ipr" and "(t, match_and_table_index ipr) \<notin> present w"
    and "del_all E is (im, w) = Some (rv, im', w')"
  shows "rv \<noteq> RV_OK \<and> pool_elt im' i = Some ipr"
  using assms(2-7)
proof (induction "is" arbitrary: im w)
  case (Cons j "is")
  obtain ipr' where j: "pool_elt im j = Some ipr'" "ipr_table_index ipr' = t"
    using Cons.prems(2) by (auto simp: table_entries_def)
  obtain m where m: "match_and_table_index ipr' = m @ u32_bytes t"
    using redirect_invD(2) [OF Cons.prems(1) j(1)] j(2) by blast
  obtain rv1 im1 w1 where d: "tunterm_acl_redirect_del_ipr E j (im, w) = Some (rv1, im1, w1)"
    "redirect_inv im1" and "rv1 \<noteq> RV_OK \<Longrightarrow> im1 = im"
    and "rv1 = RV_OK \<Longrightarrow> sessions im1 = (sessions im)((t, m) := None)"
    and ok: "\<And>j'. rv1 = RV_OK \<Longrightarrow> pool_elt im1 j' = (if j' = j then None else pool_elt im j')"
    using redirect_del_ipr_spec [OF Cons.prems(1) j(1) m, of E w] by blast
  note pres = del_ipr_present [OF assms(1) j(1) d(1)]
  show ?case
  proof (cases "rv1 = RV_OK")
    case False
    then show ?thesis using Cons.prems(4,6) d pres(1) by simp
  next
    case True
    then have "j \<noteq> i" using pres(2) j Cons.prems(4,5) by auto
    moreover have "table_entries im1 t is"
      using Cons.prems(2) ok [OF True] by (auto simp: table_entries_def)
    moreover have "del_all E is (im1, w1) = Some (rv, im', w')"
      using Cons.prems(6) d True by simp
    ultimately show ?thesis
      using Cons.IH [OF d(2), of w1] Cons.prems(3,4,5) ok [OF True] pres(3) by auto
  qed
qed simp

lemma clear_stuck:
  assumes "classify_ok E present" and "redirect_inv im" and "pool_elt im i = Some ipr"
    and "ipr_table_index ipr = t" and "(t, match_and_table_index ipr) \<notin> present w"
    and "tunterm_acl_redirect_clear E t (im, w) = Some (rv, im', w')"
  shows "rv \<noteq> RV_OK \<and> pool_elt im' i = Some ipr"
proof -
  let ?is = "filter (\<lambda>i. case ipr_pool im ! i of None \<Rightarrow> False | Some ipr \<Rightarrow> ipr_table_index ipr = t)
      [0..<length (ipr_pool im)]"
  have mem: "i \<in> set ?is \<longleftrightarrow> (\<exists>ipr. pool_elt im i = Some ipr \<and> ipr_table_index ipr = t)" for i
    by (auto simp: pool_elt_def split: option.splits)
  then have "table_entries im t ?is" "i \<in> set ?is" unfolding table_entries_def using assms(3,4) by auto
  moreover have "del_all E ?is (im, w) = Some (rv, im', w')"
    using assms(6) by (simp add: tunterm_acl_redirect_clear_def)
  ultimately show ?thesis
    using del_all_stuck [OF assms(1,2) _ _ assms(3,5)] by blast
qed

lemma stack_present:
  assumes "classify_ok E present" and "tunterm_acl_redirect_stack E ipr w = (rv, ipr', w')"
  shows "present w' = (if rv = RV_OK then insert (ipr_table_index ipr, match_and_table_index ipr) (present w)
      else present w)"
proof -
  let ?c = "fib_path_list_contribute_forwarding E (ipr_pl ipr) (ipr_payload_type ipr)
      (if fib_path_list_is_popular E (ipr_pl ipr) w then FIB_PATH_LIST_FWD_FLAG_NONE
       else FIB_PATH_LIST_FWD_FLAG_COLLAPSE) w"
  let ?d = "dpo_stack_from_node E (ipr_parent_node_index ipr) (ipr_dpo ipr) (fst ?c) (snd ?c)"
  let ?w = "snd (dpo_reset E (fst ?c) (snd ?d))"
  have call: "vnet_classify_add_del_session E (ipr_table_index ipr) (match_and_table_index ipr)
      (ucast (dpoi_next_node (fst ?d))) (ipr_opaque_index ipr) 0 CLASSIFY_ACTION_SET_METADATA
      (dpoi_index (fst ?d)) True ?w = (rv, w')"
    using assms(2) by (auto simp: tunterm_acl_redirect_stack_def split_def Let_def)
  have "present ?w = present w" by (simp add: classify_quiet [OF assms(1)])
  with classify_call(1) [OF assms(1) call] show ?thesis by simp
qed

lemma add_present:
  assumes "pool_ok E" and "classify_ok E present" and "redirect_inv im"
    and "fib_forw_chain_type_from_dpo_proto E proto \<in>
      {FIB_FORW_CHAIN_TYPE_UNICAST_IP4, FIB_FORW_CHAIN_TYPE_UNICAST_IP6}"
    and "tunterm_acl_redirect_add E t opq proto m rpaths (im, w) = Some (rv, im', w')"
  shows "present w' = (if rv = RV_OK then insert (t, m @ u32_bytes t) (present w) else present w) \<and>
    (\<exists>i ipr. pool_elt im' i = Some ipr \<and> ipr_table_index ipr = t \<and> match_and_table_index ipr = m @ u32_bytes t)"
proof -
  obtain i im1 w1 pl ipr0 ipr rv1 ipr' w2 w3 where ent: "redirect_entry E t m (im, w) = Some (i, im1, w1)"
      "redirect_inv im1" "pool_elt im1 i = Some ipr0" "match_and_table_index ipr0 = m @ u32_bytes t"
      "ipr_table_index ipr0 = t"
    and other: "\<forall>key. key \<noteq> (t, m) \<longrightarrow> sessions im1 key = sessions im key"
    and w2: "w2 = snd (fib_path_list_child_add E pl (ipr_fib_node_type im1) i (snd (fib_path_list_create E rpaths w1)))"
    and st: "tunterm_acl_redirect_stack E ipr w2 = (rv1, ipr', w3)"
      "match_and_table_index ipr = m @ u32_bytes t" "ipr_table_index ipr = t"
      "ipr_payload_type ipr = fib_forw_chain_type_from_dpo_proto E proto" "ipr_opaque_index ipr = opq"
    and add: "tunterm_acl_redirect_add E t opq proto m rpaths (im, w) = Some (rv1, pool_set i (Some ipr') im1, w3)"
    by (rule add_shape [OF assms(1,3,4), of t m w rpaths opq])
  have r: "rv1 = rv" "im' = pool_set i (Some ipr') im1" "w3 = w'" using add assms(5) by simp_all
  have "present w1 = present w"
    using ent(1) classify_quiet(1,2) [OF assms(2)]
    by (auto simp: redirect_entry_def split_def Let_def split: option.splits)
  then have "present w2 = present w" unfolding w2 by (simp add: classify_quiet [OF assms(2)])
  moreover have "pool_elt im' i = Some ipr'"
    using pool_elt_set [OF pool_elt_bound [OF ent(3)]] r(2) by simp
  ultimately show ?thesis
    using stack_present [OF assms(2) st(1)] stack_keeps [OF st(1)] st(2,3) r by auto
qed

lemma back_walk_sessions:
  assumes "redirect_inv im" and "pool_elt im i = Some ipr"
  shows "\<exists>rv im' w'. tunterm_acl_redirect_back_walk_notify E i (im, w) = Some (rv, im', w') \<and>
    redirect_inv im' \<and> sessions im' = sessions im"
proof -
  obtain rv ipr' w' where st: "tunterm_acl_redirect_stack E ipr w = (rv, ipr', w')" by (metis prod_cases3)
  obtain m where m: "match_and_table_index ipr = m @ u32_bytes (ipr_table_index ipr)"
    using redirect_invD(2) [OF assms] by blast
  have "sessions im (ipr_table_index ipr, m) = Some (ipr_payload_type ipr, ipr_opaque_index ipr)"
    using redirect_invD(1) [OF assms(1), of "m @ u32_bytes (ipr_table_index ipr)" i] assms(2) m
    by (simp add: sessions_eq)
  then have "(sessions im)((ipr_table_index ipr, m) \<mapsto> (ipr_payload_type ipr, ipr_opaque_index ipr)) =
      sessions im" by auto
  with rewrite_entry [OF assms, of ipr' m "ipr_table_index ipr"] stack_keeps [OF st] m
  have "redirect_inv (pool_set i (Some ipr') im)" "sessions (pool_set i (Some ipr') im) = sessions im"
    by simp_all
  with assms(2) st show ?thesis
    by (simp add: tunterm_acl_redirect_back_walk_notify_def)
qed

lemma redirect_demo_ok:
  "pool_ok (redirect_demo bad)" "chain_ok (redirect_demo bad)"
  "classify_ok (redirect_demo bad) (\<lambda>w. w)"
  by (auto simp: pool_ok_def chain_ok_def classify_ok_def redirect_demo_def split: if_splits)

lemma redirect_init_inv: "redirect_inv (fst (tunterm_acl_redirect_init E w))"
  by (simp add: redirect_inv_def tunterm_acl_redirect_init_def split_def Let_def pool_elt_def)

section \<open>Properties\<close>

text \<open>Adding a session, new or existing, always returns, keeps the pool and the hash consistent, and binds
  exactly the key of table and match to the new payload type and opaque value; an unsupported protocol is
  refused before anything changes.\<close>

theorem tunterm_acl_redirect_add_correct:
  assumes "pool_ok E" and "redirect_inv im"
  shows "\<exists>rv im' w'. tunterm_acl_redirect_add E t opq proto m rpaths (im, w) = Some (rv, im', w') \<and>
    redirect_inv im' \<and>
    (case fib_forw_chain_type_from_dpo_proto E proto of
       FIB_FORW_CHAIN_TYPE_OTHER _ \<Rightarrow> rv = VNET_API_ERROR_INVALID_ADDRESS_FAMILY \<and> im' = im \<and> w' = w
     | pt \<Rightarrow> sessions im' = (sessions im)((t, m) \<mapsto> (pt, opq)))"
  using redirect_add_spec [OF assms] by metis

theorem tunterm_acl_redirect_add_correct_witness:
  "\<exists>rv im' w'. tunterm_acl_redirect_add (redirect_demo {}) 7 0 DPO_PROTO_IP4 [1, 2] [3]
      (tunterm_acl_redirect_init (redirect_demo {}) {}) = Some (rv, im', w') \<and>
    sessions im' (7, [1, 2]) = Some (FIB_FORW_CHAIN_TYPE_UNICAST_IP4, 0)"
proof -
  obtain im w where i: "tunterm_acl_redirect_init (redirect_demo {}) {} = (im, w)" by fastforce
  then have "redirect_inv im" using redirect_init_inv [of "redirect_demo {}" "{}"] by simp
  from tunterm_acl_redirect_add_correct [OF redirect_demo_ok(1) [of "{}"] this, of 7 0 DPO_PROTO_IP4 "[1, 2]" "[3]" w]
  show ?thesis using redirect_demo_ok(2) [of "{}"] by (auto simp: i chain_ok_def)
qed

text \<open>Deleting a session always returns; when it reports success exactly that session is gone, when it
  reports an error the sessions are as before, and a session that does not exist is reported as
  NO_SUCH_ENTRY without a call into VPP. No other session is touched.\<close>

theorem tunterm_acl_redirect_del_correct:
  assumes "redirect_inv im"
  shows "\<exists>rv im' w'. tunterm_acl_redirect_del E t m (im, w) = Some (rv, im', w') \<and> redirect_inv im' \<and>
    sessions im' = (if rv = RV_OK then (sessions im)((t, m) := None) else sessions im) \<and>
    (sessions im (t, m) = None \<longrightarrow> rv = VNET_API_ERROR_NO_SUCH_ENTRY \<and> im' = im \<and> w' = w)"
proof (cases "tunterm_acl_redirect_find im t m")
  case None
  then show ?thesis
    using assms by (simp add: tunterm_acl_redirect_del_def)
next
  case (Some i)
  then obtain ipr where ipr: "pool_elt im i = Some ipr" "match_and_table_index ipr = m @ u32_bytes t"
    using redirect_invD(1) [OF assms] by (auto simp: tunterm_acl_redirect_find_def)
  obtain rv im' w' where d: "tunterm_acl_redirect_del_ipr E i (im, w) = Some (rv, im', w')"
    "redirect_inv im'" "rv \<noteq> RV_OK \<Longrightarrow> im' = im"
    "rv = RV_OK \<Longrightarrow> sessions im' = (sessions im)((t, m) := None)"
    using redirect_del_ipr_spec [OF assms ipr, of E w] by metis
  have "sessions im (t, m) \<noteq> None" using Some ipr(1) by (simp add: sessions_def)
  moreover have "tunterm_acl_redirect_del E t m (im, w) = Some (rv, im', w')"
    using Some d(1) by (simp add: tunterm_acl_redirect_del_def)
  ultimately show ?thesis using d by (cases "rv = RV_OK") auto
qed

theorem tunterm_acl_redirect_del_correct_witness:
  "tunterm_acl_redirect_del (redirect_demo {}) 7 [1, 2] (tunterm_acl_redirect_init (redirect_demo {}) {}) =
     Some (VNET_API_ERROR_NO_SUCH_ENTRY, tunterm_acl_redirect_init (redirect_demo {}) {})"
proof -
  obtain im w where i: "tunterm_acl_redirect_init (redirect_demo {}) {} = (im, w)" by fastforce
  then have inv: "redirect_inv im" using redirect_init_inv [of "redirect_demo {}" "{}"] by simp
  have "sessions im (7, [1, 2]) = None"
    using i by (auto simp: tunterm_acl_redirect_init_def redirect_demo_def sessions_eq)
  with tunterm_acl_redirect_del_correct [OF inv, of "redirect_demo {}" 7 "[1, 2]" w] show ?thesis
    by (auto simp: i)
qed

text \<open>Clearing a table always returns and keeps the pool and the hash consistent; the sessions of every
  other table are untouched, and when it reports success no session of the table is left.\<close>

theorem tunterm_acl_redirect_clear_correct:
  assumes "redirect_inv im"
  shows "\<exists>rv im' w'. tunterm_acl_redirect_clear E t (im, w) = Some (rv, im', w') \<and> redirect_inv im' \<and>
    (\<forall>t' m. t' \<noteq> t \<longrightarrow> sessions im' (t', m) = sessions im (t', m)) \<and>
    (rv = RV_OK \<longrightarrow> (\<forall>m. sessions im' (t, m) = None))"
  using redirect_clear_spec [OF assms, of E t w] by metis

theorem tunterm_acl_redirect_clear_correct_witness:
  "\<exists>rv im' w'. tunterm_acl_redirect_clear (redirect_demo {}) 7
      (tunterm_acl_redirect_init (redirect_demo {}) {}) = Some (rv, im', w') \<and> redirect_inv im'"
proof -
  obtain im w where i: "tunterm_acl_redirect_init (redirect_demo {}) {} = (im, w)" by fastforce
  then have "redirect_inv im" using redirect_init_inv [of "redirect_demo {}" "{}"] by simp
  from tunterm_acl_redirect_clear_correct [OF this, of "redirect_demo {}" 7 w] show ?thesis
    by (auto simp: i)
qed

text \<open>C25: The pool and the hash of redirect sessions implement a map from table and match to payload type and opaque
  value. All three operations return and keep pool and hash consistent. Adding binds exactly the key of table and
  match, new or existing, and an unsupported protocol is refused before anything changes; deleting removes exactly
  that key on success and nothing on an error, and an unknown session is reported without a call into VPP; clearing
  leaves the other tables alone and on success no session of the table.\<close>

theorem tunterm_acl_redirect_sessions_refine_map:
  assumes "pool_ok E" and "redirect_inv im"
  shows "(\<exists>rv im' w'. tunterm_acl_redirect_add E t opq proto m rpaths (im, w) = Some (rv, im', w') \<and>
      redirect_inv im' \<and>
      (case fib_forw_chain_type_from_dpo_proto E proto of
         FIB_FORW_CHAIN_TYPE_OTHER _ \<Rightarrow> rv = VNET_API_ERROR_INVALID_ADDRESS_FAMILY \<and> im' = im \<and> w' = w
       | pt \<Rightarrow> sessions im' = (sessions im)((t, m) \<mapsto> (pt, opq)))) \<and>
    (\<exists>rv im' w'. tunterm_acl_redirect_del E t m (im, w) = Some (rv, im', w') \<and> redirect_inv im' \<and>
      sessions im' = (if rv = RV_OK then (sessions im)((t, m) := None) else sessions im) \<and>
      (sessions im (t, m) = None \<longrightarrow> rv = VNET_API_ERROR_NO_SUCH_ENTRY \<and> im' = im \<and> w' = w)) \<and>
    (\<exists>rv im' w'. tunterm_acl_redirect_clear E t (im, w) = Some (rv, im', w') \<and> redirect_inv im' \<and>
      (\<forall>t' n. t' \<noteq> t \<longrightarrow> sessions im' (t', n) = sessions im (t', n)) \<and>
      (rv = RV_OK \<longrightarrow> (\<forall>n. sessions im' (t, n) = None)))"
  by (intro conjI tunterm_acl_redirect_add_correct [OF assms] tunterm_acl_redirect_del_correct [OF assms(2)]
      tunterm_acl_redirect_clear_correct [OF assms(2)])

theorem tunterm_acl_redirect_sessions_refine_map_witness:
  "\<exists>rv im' w'. tunterm_acl_redirect_add (redirect_demo {}) 7 0 DPO_PROTO_IP4 [1, 2] [3]
      (tunterm_acl_redirect_init (redirect_demo {}) {}) = Some (rv, im', w') \<and>
    sessions im' (7, [1, 2]) = Some (FIB_FORW_CHAIN_TYPE_UNICAST_IP4, 0)"
proof -
  obtain im w where i: "tunterm_acl_redirect_init (redirect_demo {}) {} = (im, w)" by fastforce
  then have "redirect_inv im" using redirect_init_inv [of "redirect_demo {}" "{}"] by simp
  from tunterm_acl_redirect_sessions_refine_map
    [OF redirect_demo_ok(1) [of "{}"] this, THEN conjunct1, of 7 0 DPO_PROTO_IP4 "[1, 2]" "[3]" w]
  show ?thesis using redirect_demo_ok(2) [of "{}"] by (auto simp: i chain_ok_def)
qed

text \<open>
  A session whose addition failed in the classifier blocks its table: it stays in the plugin's pool,
  the classifier has no session to remove for it, so every later clear of the table (hence every replace
  or delete of the ACL) fails and leaves it there.\<close>

theorem tunterm_acl_redirect_failed_add_blocks_clear:
  assumes "pool_ok E" and "classify_ok E present" and "redirect_inv im"
    and "tunterm_acl_redirect_find im t m = None" and "(t, m @ u32_bytes t) \<notin> present w"
    and "fib_forw_chain_type_from_dpo_proto E proto \<in>
      {FIB_FORW_CHAIN_TYPE_UNICAST_IP4, FIB_FORW_CHAIN_TYPE_UNICAST_IP6}"
    and "tunterm_acl_redirect_add E t opq proto m rpaths (im, w) = Some (rv, im', w')" and "rv \<noteq> RV_OK"
  shows "\<exists>rv' im'' w''. tunterm_acl_redirect_clear E t (im', w') = Some (rv', im'', w'') \<and>
    rv' \<noteq> RV_OK \<and> sessions im'' (t, m) \<noteq> None"
proof -
  obtain i ipr where e: "pool_elt im' i = Some ipr" "ipr_table_index ipr = t"
    "match_and_table_index ipr = m @ u32_bytes t" "(t, m @ u32_bytes t) \<notin> present w'"
    using add_present [OF assms(1,2,3,6,7)] assms(5,8) by auto
  have inv: "redirect_inv im'"
    using redirect_add_spec [OF assms(1,3), of t opq proto m rpaths w] assms(7) by force
  obtain rv' im'' w'' where c: "tunterm_acl_redirect_clear E t (im', w') = Some (rv', im'', w'')"
    "redirect_inv im''" using redirect_clear_spec [OF inv, of E t w'] by metis
  have stuck: "rv' \<noteq> RV_OK" "pool_elt im'' i = Some ipr"
    using clear_stuck [OF assms(2) inv e(1,2) _ c(1)] e(3,4) by simp_all
  then have "session_by_match_and_table_index im'' (m @ u32_bytes t) = Some i"
    using redirect_invD(1) [OF c(2)] e(3) by blast
  with c stuck show ?thesis by (auto simp: sessions_eq)
qed

theorem tunterm_acl_redirect_failed_add_blocks_clear_witness:
  "\<exists>rv im' w' rv' im'' w''. tunterm_acl_redirect_add (redirect_demo {7}) 7 0 DPO_PROTO_IP4 [1, 2] [3]
      (tunterm_acl_redirect_init (redirect_demo {7}) {}) = Some (rv, im', w') \<and>
    tunterm_acl_redirect_clear (redirect_demo {7}) 7 (im', w') = Some (rv', im'', w'') \<and> rv' \<noteq> RV_OK"
proof -
  let ?E = "redirect_demo {7}"
  obtain im w where i: "tunterm_acl_redirect_init ?E {} = (im, w)" by fastforce
  then have im: "redirect_inv im" using redirect_init_inv [of ?E "{}"] by simp
  have w: "w = {}" "tunterm_acl_redirect_find im 7 [1, 2] = None"
    using i by (auto simp: tunterm_acl_redirect_init_def redirect_demo_def tunterm_acl_redirect_find_def)
  obtain rv im' w' where a: "tunterm_acl_redirect_add ?E 7 0 DPO_PROTO_IP4 [1, 2] [3] (im, w) =
      Some (rv, im', w')"
    using redirect_add_spec [OF redirect_demo_ok(1) [of "{7}"] im, of 7 0 DPO_PROTO_IP4 "[1, 2]" "[3]" w] by metis
  have "rv \<noteq> RV_OK"
    using a w i by (auto simp: tunterm_acl_redirect_add_def redirect_entry_def pool_elt_def pool_set_def
        tunterm_acl_redirect_stack_def tunterm_acl_redirect_init_def redirect_demo_def
        tunterm_acl_redirect_find_def Let_def)
  then show ?thesis
    using tunterm_acl_redirect_failed_add_blocks_clear [OF redirect_demo_ok(1) redirect_demo_ok(3) im w(2)
        _ _ a] w(1) a i redirect_demo_ok(2) [of "{7}"] by (fastforce simp: chain_ok_def)
qed

text \<open>A back walk from the FIB restacks an entry without changing which sessions exist or their type.\<close>

theorem tunterm_acl_redirect_back_walk_keeps_sessions:
  assumes "redirect_inv im" and "pool_elt im i = Some ipr"
  shows "\<exists>rv im' w'. tunterm_acl_redirect_back_walk_notify E i (im, w) = Some (rv, im', w') \<and>
    redirect_inv im' \<and> sessions im' = sessions im"
  using assms by (rule back_walk_sessions)

theorem tunterm_acl_redirect_back_walk_witness:
  "\<exists>rv im w i rv' im' w'. tunterm_acl_redirect_add (redirect_demo {}) 7 0 DPO_PROTO_IP4 [1, 2] [3]
      (tunterm_acl_redirect_init (redirect_demo {}) {}) = Some (rv, im, w) \<and>
    tunterm_acl_redirect_back_walk_notify (redirect_demo {}) i (im, w) = Some (rv', im', w') \<and>
    sessions im' = sessions im"
proof -
  obtain im0 w0 where i: "tunterm_acl_redirect_init (redirect_demo {}) {} = (im0, w0)" by fastforce
  then have im0: "redirect_inv im0" using redirect_init_inv [of "redirect_demo {}" "{}"] by simp
  obtain rv im w where a: "tunterm_acl_redirect_add (redirect_demo {}) 7 0 DPO_PROTO_IP4 [1, 2] [3] (im0, w0) =
      Some (rv, im, w)" "redirect_inv im" and "sessions im = (sessions im0)((7, [1, 2]) \<mapsto>
        (FIB_FORW_CHAIN_TYPE_UNICAST_IP4, 0))"
    using redirect_add_spec [OF redirect_demo_ok(1) [of "{}"] im0, of 7 0 DPO_PROTO_IP4 "[1, 2]" "[3]" w0]
      redirect_demo_ok(2) [of "{}"] by (auto simp: chain_ok_def)
  then have "sessions im (7, [1, 2]) = Some (FIB_FORW_CHAIN_TYPE_UNICAST_IP4, 0)" by simp
  then obtain j ipr where "pool_elt im j = Some ipr" by (rule session_entry [OF a(2)])
  with tunterm_acl_redirect_back_walk_keeps_sessions [OF a(2) this, of "redirect_demo {}" w] a(1) i
  show ?thesis by auto
qed

end
