(* ===== verification/Tunterm_Api.thy ===== *)
theory Tunterm_Api
  imports Tunterm_Redirect
begin

text \<open>
  The control plane of the tunterm_acl plugin (tunterm_acl/tunterm_acl_api.c): creating and replacing an ACL
  with its redirect sessions, deleting it, and attaching it to an interface.

  Handlers return \<open>None\<close> where the C code would read or write a vector outside its bounds, or read rules past
  the end of the message.
\<close>

section \<open>State and messages\<close>

record tunterm_acl_main =
  tunterm_msg_id_base :: u16
  classify_table_index_by_sw_if_index_v4 :: "u32 list"
  classify_table_index_by_sw_if_index_v6 :: "u32 list"
  classify_table_index_is_v6 :: "bool list"

type_synonym 'w tunterm_state = "tunterm_acl_main \<times> tunterm_acl_redirect_main \<times> 'w"

record ('a, 'ap) tunterm_acl_rule =
  rule_dst_af :: u8
  rule_dst :: 'a
  rule_path :: 'ap

record ('a, 'ap) tunterm_acl_add_replace_msg =
  ar_tunterm_acl_index :: u32
  ar_is_ipv6 :: bool
  ar_count :: u32
  ar_rules :: "('a, 'ap) tunterm_acl_rule list" \<comment> \<open>the rules the message really holds\<close>
  ar_msg_length :: u32 \<comment> \<open>\<^verbatim>\<open>vl_msg_api_get_msg_length\<close>\<close>

record tunterm_acl_interface_add_del_msg =
  iad_is_add :: bool
  iad_sw_if_index :: u32
  iad_tunterm_acl_index :: u32

section \<open>Environment\<close>

record ('a, 'ap, 'p, 'w) tunterm_env =
  vnet_classify_add_del_table :: "u8 list \<Rightarrow> u32 \<Rightarrow> u32 \<Rightarrow> u32 \<Rightarrow> u32 \<Rightarrow> 'w \<Rightarrow> (retval \<times> u32) \<times> 'w"
    \<comment> \<open>mask, buckets, memory size, skip, vectors; no next table, miss index \<^verbatim>\<open>~0\<close>, an addition\<close>
  vnet_classify_delete_table_index :: "u32 \<Rightarrow> 'w \<Rightarrow> 'w"
  fib_api_path_decode :: "'ap \<Rightarrow> retval \<times> 'p"
  ip_address_decode :: "'a \<Rightarrow> u8 list \<times> u8 list" \<comment> \<open>the IPv4 and the IPv6 bytes\<close>
  vec_validate_u32 :: "u32 list \<Rightarrow> nat \<Rightarrow> u32 \<Rightarrow> u32 list" \<comment> \<open>\<^verbatim>\<open>vec_validate_init_empty\<close>\<close>
  vec_validate_bool :: "bool list \<Rightarrow> nat \<Rightarrow> bool \<Rightarrow> bool list"
  tunterm_sw_is_free_index :: "u32 \<Rightarrow> bool"
  sizeof_add_replace :: u64
  sizeof_rule :: u64

text \<open>Documented behaviour of \<^verbatim>\<open>vec_validate_init_empty\<close>: the vector reaches the index, new elements are empty.\<close>

definition vec_grow :: "'x list \<Rightarrow> nat \<Rightarrow> 'x \<Rightarrow> 'x list" where
  "vec_grow v i e = v @ replicate (Suc i - length v) e"

definition vec_ok :: "('a, 'ap, 'p, 'w) tunterm_env \<Rightarrow> bool" where
  "vec_ok A \<longleftrightarrow> (\<forall>v i e. vec_validate_u32 A v i e = vec_grow v i e) \<and>
     (\<forall>v i e. vec_validate_bool A v i e = vec_grow v i e)"

section \<open>Sessions of a table\<close>

definition bytes_matched :: "bool \<Rightarrow> nat" where
  "bytes_matched is_ipv6 = (if is_ipv6 then 16 else 4)"

definition classify_mask :: "bool \<Rightarrow> u8 list" where
  "classify_mask is_ipv6 =
     replicate (bytes_matched is_ipv6) 0xff @ replicate (16 - bytes_matched is_ipv6) 0"

definition rule_match :: "('a, 'ap, 'p, 'w) tunterm_env \<Rightarrow> bool \<Rightarrow> ('a, 'ap) tunterm_acl_rule \<Rightarrow> u8 list" where
  "rule_match A is_ipv6 r =
     (let (ip4, ip6) = ip_address_decode A (rule_dst r)
      in map (\<lambda>i. if is_ipv6 then ip6 ! i else ip4 ! i) [0..<bytes_matched is_ipv6] @
         replicate (16 - bytes_matched is_ipv6) 0)"

text \<open>
  The loop over the rules; the code supports one path per rule (\<^verbatim>\<open>n_paths = 1\<close>), so its check for no paths never
  fires.
\<close>

fun add_rules ::
  "('a, 'ap, 'p, 'w) tunterm_env \<Rightarrow> ('p, 'w) redirect_api \<Rightarrow> bool \<Rightarrow> u32 \<Rightarrow> nat \<Rightarrow>
   ('a, 'ap) tunterm_acl_rule list \<Rightarrow> tunterm_acl_redirect_main \<times> 'w \<Rightarrow>
   (retval \<times> tunterm_acl_redirect_main \<times> 'w) option" where
  "add_rules A E is_ipv6 table_index 0 rules s = Some (RV_OK, s)"
| "add_rules A E is_ipv6 table_index (Suc n) [] s = None"
| "add_rules A E is_ipv6 table_index (Suc n) (r # rules) s =
     (let (rv, path) = fib_api_path_decode A (rule_path r)
      in if rv \<noteq> RV_OK then Some (rv, s)
         else if (if is_ipv6 then 1 else 0) \<noteq> rule_dst_af r
         then Some (VNET_API_ERROR_INVALID_VALUE_3, s)
         else case tunterm_acl_redirect_add E table_index 0
                     (if is_ipv6 then DPO_PROTO_IP6 else DPO_PROTO_IP4) (rule_match A is_ipv6 r) [path] s of
                None \<Rightarrow> None
              | Some (rv, s') \<Rightarrow>
                  if rv \<noteq> RV_OK then Some (rv, s') else add_rules A E is_ipv6 table_index n rules s')"

text \<open>Creating the table; result: an error, or the table index with the updated state.\<close>

definition create_table ::
  "('a, 'ap, 'p, 'w) tunterm_env \<Rightarrow> bool \<Rightarrow> tunterm_acl_main \<Rightarrow> 'w \<Rightarrow>
   retval \<times> 'w + u32 \<times> tunterm_acl_main \<times> 'w" where
  "create_table A is_ipv6 sm w =
     (let ((rv, table_index), w) = vnet_classify_add_del_table A (classify_mask is_ipv6) 32 0x800000 0 1 w
      in if rv \<noteq> RV_OK then Inl (rv, w)
         else let v = vec_validate_bool A (classify_table_index_is_v6 sm) (unat table_index) False
              in Inr (table_index,
                   sm\<lparr>classify_table_index_is_v6 := v[unat table_index := is_ipv6]\<rparr>, w))"

text \<open>The part after the table is known.\<close>

definition replace_sessions ::
  "('a, 'ap, 'p, 'w) tunterm_env \<Rightarrow> ('p, 'w) redirect_api \<Rightarrow> bool \<Rightarrow> u32 \<Rightarrow>
   ('a, 'ap) tunterm_acl_rule list \<Rightarrow> u32 \<Rightarrow> 'w tunterm_state \<Rightarrow> (retval \<times> 'w tunterm_state) option" where
  "replace_sessions A E is_ipv6 count rules table_index = (\<lambda>(sm, im, w).
     if count > 0 \<and> \<not> unat table_index < length (classify_table_index_is_v6 sm) then None
     else if count > 0 \<and> classify_table_index_is_v6 sm ! unat table_index \<noteq> is_ipv6
     then Some (VNET_API_ERROR_INVALID_VALUE_2, sm, im, w)
     else case tunterm_acl_redirect_clear E table_index (im, w) of
            None \<Rightarrow> None
          | Some (rv, im, w) \<Rightarrow>
              if rv \<noteq> RV_OK then Some (rv, sm, im, w)
              else case add_rules A E is_ipv6 table_index (unat count) rules (im, w) of
                     None \<Rightarrow> None
                   | Some (rv, im, w) \<Rightarrow> Some (rv, sm, im, w))"

definition update_classify_table_and_sessions ::
  "('a, 'ap, 'p, 'w) tunterm_env \<Rightarrow> ('p, 'w) redirect_api \<Rightarrow> bool \<Rightarrow> u32 \<Rightarrow>
   ('a, 'ap) tunterm_acl_rule list \<Rightarrow> u32 \<Rightarrow> 'w tunterm_state \<Rightarrow>
   (retval \<times> u32 \<times> 'w tunterm_state) option" where
  "update_classify_table_and_sessions A E is_ipv6 count rules tunterm_acl_index = (\<lambda>(sm, im, w).
     case (if tunterm_acl_index = -1 then create_table A is_ipv6 sm w
           else Inr (tunterm_acl_index, sm, w)) of
       Inl (rv, w) \<Rightarrow> Some (rv, tunterm_acl_index, sm, im, w)
     | Inr (table_index, sm, w) \<Rightarrow>
         (case replace_sessions A E is_ipv6 count rules table_index (sm, im, w) of
            None \<Rightarrow> None
          | Some (rv, s) \<Rightarrow> Some (rv, table_index, s)))"

section \<open>Message handlers\<close>

definition verify_message_len :: "u32 \<Rightarrow> u64 \<Rightarrow> bool" where
  "verify_message_len supplied_len expected_len = (if ucast supplied_len < expected_len then False else True)"

text \<open>Result: the return value, the index of the reply (in network byte order) and the state.\<close>

definition vl_api_tunterm_acl_add_replace_t_handler ::
  "('a, 'ap, 'p, 'w) tunterm_env \<Rightarrow> ('p, 'w) redirect_api \<Rightarrow> ('a, 'ap) tunterm_acl_add_replace_msg \<Rightarrow>
   'w tunterm_state \<Rightarrow> (retval \<times> u32 \<times> 'w tunterm_state) option" where
  "vl_api_tunterm_acl_add_replace_t_handler A E mp s =
     (let tunterm_acl_index = clib_net_to_host_u32 (ar_tunterm_acl_index mp);
          acl_count = clib_net_to_host_u32 (ar_count mp);
          expected_len = sizeof_add_replace A + ucast acl_count * sizeof_rule A
      in if verify_message_len (ar_msg_length mp) expected_len
         then case update_classify_table_and_sessions A E (ar_is_ipv6 mp) acl_count (ar_rules mp)
                     tunterm_acl_index s of
                None \<Rightarrow> None
              | Some (rv, tunterm_acl_index, s) \<Rightarrow> Some (rv, clib_host_to_net_u32 tunterm_acl_index, s)
         else Some (VNET_API_ERROR_INVALID_VALUE, clib_host_to_net_u32 tunterm_acl_index, s))"

definition vl_api_tunterm_acl_del_t_handler ::
  "('a, 'ap, 'p, 'w) tunterm_env \<Rightarrow> ('p, 'w) redirect_api \<Rightarrow> u32 \<Rightarrow> 'w tunterm_state \<Rightarrow>
   (retval \<times> 'w tunterm_state) option" where
  "vl_api_tunterm_acl_del_t_handler A E mp_tunterm_acl_index = (\<lambda>(sm, im, w).
     let tunterm_acl_index = clib_net_to_host_u32 mp_tunterm_acl_index
     in if tunterm_acl_index = -1 then Some (VNET_API_ERROR_INVALID_VALUE, sm, im, w)
        else if tunterm_acl_index \<in> set (classify_table_index_by_sw_if_index_v4 sm)
        then Some (VNET_API_ERROR_RSRC_IN_USE, sm, im, w)
        else if tunterm_acl_index \<in> set (classify_table_index_by_sw_if_index_v6 sm)
        then Some (VNET_API_ERROR_RSRC_IN_USE, sm, im, w)
        else case tunterm_acl_redirect_clear E tunterm_acl_index (im, w) of
               None \<Rightarrow> None
             | Some (rv, im, w) \<Rightarrow>
                 if rv \<noteq> RV_OK then Some (rv, sm, im, w)
                 else let w = vnet_classify_delete_table_index A tunterm_acl_index w
                      in if unat tunterm_acl_index < length (classify_table_index_is_v6 sm)
                         then Some (RV_OK, sm\<lparr>classify_table_index_is_v6 :=
                                (classify_table_index_is_v6 sm)[unat tunterm_acl_index := False]\<rparr>, im, w)
                         else None)"

definition tunterm_bypass_enable_disable ::
  "'w feature_api \<Rightarrow> u32 \<Rightarrow> bool \<Rightarrow> 'w \<Rightarrow> retval \<times> 'w" where
  "tunterm_bypass_enable_disable F sw_if_index en w =
     vnet_feature_enable_disable F ''ip4-unicast'' ''tunterm-ip4-vxlan-bypass'' sw_if_index en w"

definition vl_api_tunterm_acl_interface_add_del_t_handler ::
  "('a, 'ap, 'p, 'w) tunterm_env \<Rightarrow> 'w feature_api \<Rightarrow> tunterm_acl_interface_add_del_msg \<Rightarrow>
   'w tunterm_state \<Rightarrow> (retval \<times> 'w tunterm_state) option" where
  "vl_api_tunterm_acl_interface_add_del_t_handler A F mp = (\<lambda>(sm, im, w).
     let sw_if_index = clib_net_to_host_u32 (iad_sw_if_index mp);
         tunterm_acl_index = clib_net_to_host_u32 (iad_tunterm_acl_index mp);
         i = unat sw_if_index
     in if tunterm_acl_index = -1 then Some (VNET_API_ERROR_INVALID_VALUE, sm, im, w)
        else if tunterm_sw_is_free_index A sw_if_index
        then Some (VNET_API_ERROR_INVALID_SW_IF_INDEX, sm, im, w)
        else
          let v6 = vec_validate_u32 A (classify_table_index_by_sw_if_index_v6 sm) i (-1);
              v4 = vec_validate_u32 A (classify_table_index_by_sw_if_index_v4 sm) i (-1);
              sm = sm\<lparr>classify_table_index_by_sw_if_index_v6 := v6,
                classify_table_index_by_sw_if_index_v4 := v4\<rparr>
          in if \<not> unat tunterm_acl_index < length (classify_table_index_is_v6 sm) then None
             else
               let is_ipv6 = classify_table_index_is_v6 sm ! unat tunterm_acl_index
               in if iad_is_add mp
                  then
                    let sm = (if is_ipv6
                           then sm\<lparr>classify_table_index_by_sw_if_index_v6 := v6[i := tunterm_acl_index]\<rparr>
                           else sm\<lparr>classify_table_index_by_sw_if_index_v4 := v4[i := tunterm_acl_index]\<rparr>)
                    in if \<not> vnet_feature_is_enabled F ''ip4-unicast'' ''tunterm-ip4-vxlan-bypass''
                             sw_if_index w
                       then let (rv, w) = tunterm_bypass_enable_disable F sw_if_index True w
                            in Some (rv, sm, im, w)
                       else Some (RV_OK, sm, im, w)
                  else
                    let tunterm_acl_index_v4 = v4 ! i; tunterm_acl_index_v6 = v6 ! i
                    in if tunterm_acl_index \<noteq> tunterm_acl_index_v4 \<and> tunterm_acl_index \<noteq> tunterm_acl_index_v6
                       then Some (VNET_API_ERROR_INVALID_VALUE_2, sm, im, w)
                       else
                         let (rv, w) = (if tunterm_acl_index_v4 = -1 \<or> tunterm_acl_index_v6 = -1
                                then tunterm_bypass_enable_disable F sw_if_index False w else (RV_OK, w))
                         in if rv \<noteq> RV_OK then Some (rv, sm, im, w)
                            else if is_ipv6
                            then Some (RV_OK, sm\<lparr>classify_table_index_by_sw_if_index_v6 := v6[i := -1]\<rparr>, im, w)
                            else Some (RV_OK, sm\<lparr>classify_table_index_by_sw_if_index_v4 := v4[i := -1]\<rparr>, im, w))"

definition tunterm_acl_init :: "('p, 'w) redirect_api \<Rightarrow> u16 \<Rightarrow> 'w \<Rightarrow> 'w tunterm_state" where
  "tunterm_acl_init E setup_message_id_table w =
     (\<lparr>tunterm_msg_id_base = setup_message_id_table, classify_table_index_by_sw_if_index_v4 = [],
       classify_table_index_by_sw_if_index_v6 = [], classify_table_index_is_v6 = []\<rparr>,
      tunterm_acl_redirect_init E w)"

section \<open>Histories\<close>

text \<open>
  The states the API reaches with clients that name only ACLs they created; \<open>tabs\<close> are the ACLs that exist.
  A message holds as many rules as its length says, and the classifier never hands out the index of a
  table that exists.
\<close>

definition rules_fit :: "('a, 'ap, 'p, 'w) tunterm_env \<Rightarrow> ('a, 'ap) tunterm_acl_add_replace_msg \<Rightarrow> bool" where
  "rules_fit A mp \<longleftrightarrow>
     unat (ar_msg_length mp) < unat (sizeof_add_replace A) +
       (length (ar_rules mp) + 1) * unat (sizeof_rule A)"

inductive tun_config ::
  "('a, 'ap, 'p, 'w) tunterm_env \<Rightarrow> ('p, 'w) redirect_api \<Rightarrow> 'w feature_api \<Rightarrow> 'w \<Rightarrow> u32 set \<Rightarrow>
   'w tunterm_state \<Rightarrow> bool"
  for A :: "('a, 'ap, 'p, 'w) tunterm_env" and E :: "('p, 'w) redirect_api" and F :: "'w feature_api"
    and w0 :: 'w where
  init: "tun_config A E F w0 {} (tunterm_acl_init E base w0)"
| replace: "tun_config A E F w0 tabs s \<Longrightarrow>
    vl_api_tunterm_acl_add_replace_t_handler A E mp s = Some (rv, idx, s') \<Longrightarrow> rules_fit A mp \<Longrightarrow>
    clib_net_to_host_u32 (ar_tunterm_acl_index mp) \<in> tabs \<Longrightarrow> tun_config A E F w0 tabs s'"
| create: "tun_config A E F w0 tabs s \<Longrightarrow>
    vl_api_tunterm_acl_add_replace_t_handler A E mp s = Some (rv, idx, s') \<Longrightarrow> rules_fit A mp \<Longrightarrow>
    clib_net_to_host_u32 (ar_tunterm_acl_index mp) = -1 \<Longrightarrow>
    clib_net_to_host_u32 idx \<notin> tabs \<Longrightarrow>
    tun_config A E F w0 (tabs \<union> {clib_net_to_host_u32 idx} - {-1}) s'"
| delete: "tun_config A E F w0 tabs s \<Longrightarrow>
    vl_api_tunterm_acl_del_t_handler A E mp s = Some (rv, s') \<Longrightarrow>
    tun_config A E F w0 (if rv = RV_OK then tabs - {clib_net_to_host_u32 mp} else tabs) s'"
| attach: "tun_config A E F w0 tabs s \<Longrightarrow>
    vl_api_tunterm_acl_interface_add_del_t_handler A F mp s = Some (rv, s') \<Longrightarrow>
    clib_net_to_host_u32 (iad_tunterm_acl_index mp) \<in> tabs \<Longrightarrow> tun_config A E F w0 tabs s'"
| back_walk: "tun_config A E F w0 tabs (sm, im, w) \<Longrightarrow>
    tunterm_acl_redirect_back_walk_notify E i (im, w) = Some (rv, im', w') \<Longrightarrow>
    tun_config A E F w0 tabs (sm, im', w')"

text \<open>VPP's FIB, DPO and classifier calls do not change what \<open>obs\<close> observes.\<close>

definition redirect_quiet :: "('p, 'w) redirect_api \<Rightarrow> ('w \<Rightarrow> 'x) \<Rightarrow> bool" where
  "redirect_quiet E obs \<longleftrightarrow>
     (\<forall>t m hit opq adv act md is_add w.
        obs (snd (vnet_classify_add_del_session E t m hit opq adv act md is_add w)) = obs w) \<and>
     (\<forall>pl sib w. obs (fib_path_list_child_remove E pl sib w) = obs w) \<and>
     (\<forall>d w. obs (snd (dpo_reset E d w)) = obs w) \<and>
     (\<forall>ps w. obs (snd (fib_path_list_create E ps w)) = obs w) \<and>
     (\<forall>pl ty i w. obs (snd (fib_path_list_child_add E pl ty i w)) = obs w) \<and>
     (\<forall>pl ty fl w. obs (snd (fib_path_list_contribute_forwarding E pl ty fl w)) = obs w) \<and>
     (\<forall>n d d' w. obs (snd (dpo_stack_from_node E n d d' w)) = obs w) \<and>
     (\<forall>name w. obs (snd (fib_node_register_new_type E name w)) = obs w)"

text \<open>The calls the operations on sessions make keep \<open>P\<close>.\<close>

definition redirect_stable :: "('p, 'w) redirect_api \<Rightarrow> ('w \<Rightarrow> bool) \<Rightarrow> bool" where
  "redirect_stable E P \<longleftrightarrow>
     (\<forall>t m hit opq md w. P w \<longrightarrow>
        P (snd (vnet_classify_add_del_session E t m hit opq 0 CLASSIFY_ACTION_SET_METADATA md True w))) \<and>
     (\<forall>t m w. P w \<longrightarrow> P (snd (vnet_classify_add_del_session E t m 0 0 0 CLASSIFY_ACTION_NONE 0 False w))) \<and>
     (\<forall>pl sib w. P w \<longrightarrow> P (fib_path_list_child_remove E pl sib w)) \<and>
     (\<forall>d w. P w \<longrightarrow> P (snd (dpo_reset E d w))) \<and>
     (\<forall>ps w. P w \<longrightarrow> P (snd (fib_path_list_create E ps w))) \<and>
     (\<forall>pl ty i w. P w \<longrightarrow> P (snd (fib_path_list_child_add E pl ty i w))) \<and>
     (\<forall>pl ty fl w. P w \<longrightarrow> P (snd (fib_path_list_contribute_forwarding E pl ty fl w))) \<and>
     (\<forall>n d d' w. P w \<longrightarrow> P (snd (dpo_stack_from_node E n d d' w)))"

definition table_quiet :: "('a, 'ap, 'p, 'w) tunterm_env \<Rightarrow> ('w \<Rightarrow> 'x) \<Rightarrow> bool" where
  "table_quiet A obs \<longleftrightarrow>
     (\<forall>m n k sk v w. obs (snd (vnet_classify_add_del_table A m n k sk v w)) = obs w) \<and>
     (\<forall>t w. obs (vnet_classify_delete_table_index A t w) = obs w)"

text \<open>What the environment promises, for the histories.\<close>

definition tunterm_env_ok ::
  "('a, 'ap, 'p, 'w) tunterm_env \<Rightarrow> ('p, 'w) redirect_api \<Rightarrow> 'w feature_api \<Rightarrow> bool" where
  "tunterm_env_ok A E F \<longleftrightarrow> pool_ok E \<and> chain_ok E \<and> vec_ok A \<and> feature_ok (\<lambda>_. True) F \<and>
     redirect_quiet E (feature_refs F) \<and> table_quiet A (feature_refs F) \<and>
     (\<forall>m n k sk v w. snd (fst (vnet_classify_add_del_table A m n k sk v w)) \<noteq> -1) \<and>
     unat (sizeof_add_replace A) < 2 ^ 31 \<and> unat (sizeof_rule A) < 2 ^ 31"

text \<open>The payload type of a table's sessions.\<close>

definition family_type :: "bool \<Rightarrow> fib_forward_chain_type" where
  "family_type is_ipv6 =
     (if is_ipv6 then FIB_FORW_CHAIN_TYPE_UNICAST_IP6 else FIB_FORW_CHAIN_TYPE_UNICAST_IP4)"

text \<open>
  The invariant: an ACL that exists has a recorded family; an attached table exists and has the family of
  the vector it is attached in; the two vectors have the same length; where the bypass node is enabled a
  table is attached within both vectors, and the node is enabled once only, so that one call switches it off;
  sessions exist only for existing tables and have their family.
\<close>

definition attached_ok :: "u32 set \<Rightarrow> bool list \<Rightarrow> bool \<Rightarrow> u32 list \<Rightarrow> bool" where
  "attached_ok tabs fam v6 v \<longleftrightarrow>
     (\<forall>t\<in>set v. t \<noteq> -1 \<longrightarrow> t \<in> tabs \<and> fam ! unat t = v6)"

definition bypass_ok :: "(feature \<Rightarrow> bool) \<Rightarrow> u32 list \<Rightarrow> u32 list \<Rightarrow> bool" where
  "bypass_ok on v4 v6 \<longleftrightarrow> length v4 = length v6 \<and>
     (\<forall>i. on (''ip4-unicast'', ''tunterm-ip4-vxlan-bypass'', i) \<longrightarrow>
        unat i < length v4 \<and> (v4 ! unat i \<noteq> -1 \<or> v6 ! unat i \<noteq> -1))"

definition bypass_once :: "(feature \<Rightarrow> nat) \<Rightarrow> bool" where
  "bypass_once r \<longleftrightarrow> (\<forall>i. r (''ip4-unicast'', ''tunterm-ip4-vxlan-bypass'', i) \<le> 1)"

definition sessions_ok :: "u32 set \<Rightarrow> bool list \<Rightarrow> tunterm_acl_redirect_main \<Rightarrow> bool" where
  "sessions_ok tabs fam im \<longleftrightarrow>
     (\<forall>t m pt opq. sessions im (t, m) = Some (pt, opq) \<longrightarrow> t \<in> tabs \<and> pt = family_type (fam ! unat t))"

definition tun_inv :: "'w feature_api \<Rightarrow> u32 set \<Rightarrow> 'w tunterm_state \<Rightarrow> bool" where
  "tun_inv F tabs = (\<lambda>(sm, im, w).
     let v4 = classify_table_index_by_sw_if_index_v4 sm; v6 = classify_table_index_by_sw_if_index_v6 sm;
         fam = classify_table_index_is_v6 sm
     in redirect_inv im \<and> -1 \<notin> tabs \<and> (\<forall>t\<in>tabs. unat t < length fam) \<and>
        attached_ok tabs fam False v4 \<and> attached_ok tabs fam True v6 \<and>
        bypass_ok (enabled F w) v4 v6 \<and> bypass_once (feature_refs F w) \<and> sessions_ok tabs fam im)"

text \<open>The table attached to an interface for a family, \<^verbatim>\<open>~0\<close> when there is none.\<close>

definition attached :: "tunterm_acl_main \<Rightarrow> bool \<times> u32 \<Rightarrow> u32" where
  "attached sm = (\<lambda>(is_ipv6, sw).
     let v = (if is_ipv6 then classify_table_index_by_sw_if_index_v6 sm
          else classify_table_index_by_sw_if_index_v4 sm)
     in if unat sw < length v then v ! unat sw else -1)"

text \<open>
  A concrete environment: every call succeeds, the one table created has index 3, addresses and paths are
  their own decoding, and the state holds the enabled features.
\<close>

definition redirect_null :: "(nat, 'w) redirect_api" where
  "redirect_null =
     \<lparr>pool_get_index = length, pool_get_raw = (\<lambda>i w. pool_get_raw (redirect_demo {}) i {}),
      fib_forw_chain_type_from_dpo_proto = fib_forw_chain_type_from_dpo_proto (redirect_demo {}),
      fib_path_list_is_popular = (\<lambda>pl w. False),
      fib_path_list_contribute_forwarding = (\<lambda>pl ty fl w.
        (\<lparr>dpoi_type = 1, dpoi_proto = 0, dpoi_next_node = 3, dpoi_index = pl\<rparr>, w)),
      fib_path_list_create = (\<lambda>ps w. (of_nat (sum_list ps), w)),
      fib_path_list_child_add = (\<lambda>pl ty i w. (0, w)), fib_path_list_child_remove = (\<lambda>pl sib w. w),
      dpo_stack_from_node = (\<lambda>n d d' w. (d', w)), dpo_reset = (\<lambda>d w. (d, w)),
      node_index_by_name = (\<lambda>n. 40),
      vnet_classify_add_del_session = (\<lambda>t m hit opq adv act md is_add w. (RV_OK, w)),
      fib_node_register_new_type = (\<lambda>n w. (21, w))\<rparr>"

definition tunterm_demo :: "(u8 list, nat, nat, 'w) tunterm_env" where
  "tunterm_demo =
     \<lparr>vnet_classify_add_del_table = (\<lambda>m n k sk v w. ((RV_OK, 3), w)),
      vnet_classify_delete_table_index = (\<lambda>t w. w), fib_api_path_decode = (\<lambda>p. (RV_OK, p)),
      ip_address_decode = (\<lambda>a. (a, a)), vec_validate_u32 = vec_grow, vec_validate_bool = vec_grow,
      tunterm_sw_is_free_index = (\<lambda>i. 8 \<le> i), sizeof_add_replace = 20, sizeof_rule = 100\<rparr>"

definition add_replace_demo :: "(u8 list, nat) tunterm_acl_add_replace_msg" where
  "add_replace_demo =
     \<lparr>ar_tunterm_acl_index = clib_host_to_net_u32 (-1), ar_is_ipv6 = False, ar_count = clib_host_to_net_u32 1,
      ar_rules = [\<lparr>rule_dst_af = 0, rule_dst = [10, 0, 0, 1], rule_path = 5\<rparr>], ar_msg_length = 120\<rparr>"

definition attach_demo :: tunterm_acl_interface_add_del_msg where
  "attach_demo =
     \<lparr>iad_is_add = True, iad_sw_if_index = clib_host_to_net_u32 2,
      iad_tunterm_acl_index = clib_host_to_net_u32 3\<rparr>"

text \<open>The session a rule asks for.\<close>

definition rule_request ::
  "('a, 'ap, 'p, 'w) tunterm_env \<Rightarrow> bool \<Rightarrow> u32 \<Rightarrow> ('a, 'ap) tunterm_acl_rule \<Rightarrow> 'p session_request" where
  "rule_request A is_ipv6 t r =
     (t, is_ipv6, rule_match A is_ipv6 r, [snd (fib_api_path_decode A (rule_path r))])"

text \<open>The sessions of one table may only change to sessions of its family, those of other tables not at all.\<close>

definition sessions_step :: "u32 \<Rightarrow> bool \<Rightarrow> tunterm_acl_redirect_main \<Rightarrow> tunterm_acl_redirect_main \<Rightarrow> bool" where
  "sessions_step t v6 im im' \<longleftrightarrow>
     (\<forall>t' m. t' \<noteq> t \<longrightarrow> sessions im' (t', m) = sessions im (t', m)) \<and>
     (\<forall>m pt opq. sessions im' (t, m) = Some (pt, opq) \<longrightarrow>
        sessions im (t, m) = Some (pt, opq) \<or> pt = family_type v6)"

section \<open>Lemmas\<close>

lemma length_vec_grow [simp]: "length (vec_grow v i e) = max (length v) (Suc i)"
  by (auto simp: vec_grow_def)

lemma nth_vec_grow:
  "j < max (length v) (Suc i) \<Longrightarrow> vec_grow v i e ! j = (if j < length v then v ! j else e)"
  by (auto simp: vec_grow_def nth_append)

lemma set_vec_grow: "set (vec_grow v i e) \<subseteq> insert e (set v)"
  by (auto simp: vec_grow_def)

lemma attached_ok_grow: "attached_ok tabs fam f v \<Longrightarrow> attached_ok tabs fam f (vec_grow v i (-1))"
  using set_vec_grow [of v i "-1"] by (auto simp: attached_ok_def)

lemma attached_ok_update:
  "attached_ok tabs fam f v \<Longrightarrow> t = -1 \<or> t \<in> tabs \<and> fam ! unat t = f \<Longrightarrow>
     attached_ok tabs fam f (v[i := t])"
  using set_update_subset_insert [of v i t] by (auto simp: attached_ok_def)

text \<open>A successful run of the rule loop is a sequence of additions.\<close>

lemma add_rules_SucD:
  assumes "add_rules A E v6 t (Suc n) (r # rules) s = Some (RV_OK, s')"
  obtains s1 where "rule_dst_af r = (if v6 then 1 else 0)"
    and "request_add E (rule_request A v6 t r) s = Some (RV_OK, s1)"
    and "add_rules A E v6 t n rules s1 = Some (RV_OK, s')"
  using assms
  by (auto simp: rule_request_def request_add_def split_def Let_def split: if_splits option.splits)

lemma add_rules_seq:
  assumes "add_rules A E v6 t n rules s = Some (RV_OK, s')"
  shows "session_table.add_seq (request_add E) (map (rule_request A v6 t) (take n rules)) s =
      Some (RV_OK, s') \<and> n \<le> length rules \<and>
    (\<forall>r\<in>set (take n rules). rule_dst_af r = (if v6 then 1 else 0))"
  using assms
proof (induction n arbitrary: rules s)
  case 0
  then show ?case by (simp add: redirect_table.add_seq.simps)
next
  case (Suc n)
  then obtain r rs where rules: "rules = r # rs" by (cases rules) simp_all
  obtain s1 where "rule_dst_af r = (if v6 then 1 else 0)"
    "request_add E (rule_request A v6 t r) s = Some (RV_OK, s1)"
    "add_rules A E v6 t n rs s1 = Some (RV_OK, s')"
    using Suc.prems unfolding rules by (rule add_rules_SucD)
  with Suc.IH [of rs s1] show ?case by (simp add: rules redirect_table.add_seq.simps)
qed

text \<open>What every call of the environment keeps is kept by the operations on sessions.\<close>

lemma stable_calls:
  assumes "redirect_stable E P" and "P w"
  shows "P (snd (vnet_classify_add_del_session E t m hit opq 0 CLASSIFY_ACTION_SET_METADATA md True w))"
    and "P (snd (vnet_classify_add_del_session E t m 0 0 0 CLASSIFY_ACTION_NONE 0 False w))"
    and "P (fib_path_list_child_remove E pl sib w)"
    and "P (snd (dpo_reset E d w))"
    and "P (snd (fib_path_list_create E ps w))"
    and "P (snd (fib_path_list_child_add E pl ty i w))"
    and "P (snd (fib_path_list_contribute_forwarding E pl ty' fl w))"
    and "P (snd (dpo_stack_from_node E n d d' w))"
  using assms by (simp_all add: redirect_stable_def)

lemma stable_stack:
  assumes "redirect_stable E P" and "P w"
  shows "P (snd (snd (tunterm_acl_redirect_stack E ipr w)))"
  using assms(2) stable_calls [OF assms(1)] by (simp add: tunterm_acl_redirect_stack_def split_def Let_def)

lemma stable_entry:
  assumes "redirect_stable E P" and "P w" and "redirect_entry E t m (im, w) = Some (i, im', w')"
  shows "P w'"
  using assms(2,3) stable_calls [OF assms(1)]
  by (auto simp: redirect_entry_def split_def Let_def split: option.splits)

lemma stable_add:
  assumes "redirect_stable E P" and "P w"
    and a: "tunterm_acl_redirect_add E t opq proto m rpaths (im, w) = Some (rv, im', w')"
  shows "P w'"
proof (cases "redirect_entry E t m (im, w)")
  case None
  with a assms(2) show ?thesis
    by (auto simp: tunterm_acl_redirect_add_def Let_def split: fib_forward_chain_type.splits)
next
  case (Some e)
  obtain i im1 w1 where e: "e = (i, im1, w1)" by (metis prod_cases3)
  have "P w1" using stable_entry [OF assms(1,2)] Some e by blast
  then have "P (snd (fib_path_list_child_add E pl ty i (snd (fib_path_list_create E rpaths w1))))" for pl ty
    using stable_calls [OF assms(1)] by simp
  with stable_stack [OF assms(1)] a Some e assms(2) show ?thesis
    by (auto simp: tunterm_acl_redirect_add_def split_def Let_def
        split: option.splits fib_forward_chain_type.splits)
qed

lemma stable_del_ipr:
  assumes "redirect_stable E P" and "P w" and "tunterm_acl_redirect_del_ipr E i (im, w) = Some (rv, im', w')"
  shows "P w'"
  using assms(2,3) stable_calls [OF assms(1)]
  by (auto simp: tunterm_acl_redirect_del_ipr_def split_def Let_def split: option.splits if_splits)

lemma stable_del_all:
  assumes "redirect_stable E P" and "P w" and "del_all E is (im, w) = Some (rv, im', w')"
  shows "P w'"
  using assms(2,3)
proof (induction "is" arbitrary: im w)
  case (Cons i "is")
  then show ?case
    using stable_del_ipr [OF assms(1), of w i im] by (auto split: option.splits if_splits)
qed simp

lemma stable_clear:
  assumes "redirect_stable E P" and "P w" and "tunterm_acl_redirect_clear E t (im, w) = Some (rv, im', w')"
  shows "P w'"
  using assms(3) stable_del_all [OF assms(1,2)] by (simp add: tunterm_acl_redirect_clear_def Let_def)

lemma stable_add_rules:
  assumes "redirect_stable E P" and "P w" and "add_rules A E v6 t n rules (im, w) = Some (rv, im', w')"
  shows "P w'"
  using assms(2,3)
proof (induction n arbitrary: rules im w)
  case (Suc n)
  then obtain r rs where "rules = r # rs" by (cases rules) simp_all
  with Suc show ?case
    using stable_add [OF assms(1) Suc.prems(1)] by (auto split: prod.splits if_splits option.splits) blast+
qed simp

lemma stable_replace:
  assumes "redirect_stable E P" and "P w"
    and "replace_sessions A E v6 count rules t (sm, im, w) = Some (rv, sm', im', w')"
  shows "P w'"
  using assms stable_clear [OF assms(1,2)] stable_add_rules [OF assms(1)]
  by (auto simp: replace_sessions_def split: if_splits option.splits) blast+

lemma quiet_stable: "redirect_quiet E obs \<Longrightarrow> redirect_stable E (\<lambda>w. obs w = c)"
  by (simp add: redirect_quiet_def redirect_stable_def)

lemma quiet_stack:
  assumes "redirect_quiet E obs" and "tunterm_acl_redirect_stack E ipr w = (rv, ipr', w')"
  shows "obs w' = obs w"
  using stable_stack [OF quiet_stable [OF assms(1), of "obs w"], of w ipr] assms(2) by simp

lemma quiet_add:
  assumes "redirect_quiet E obs" and "tunterm_acl_redirect_add E t opq proto m rpaths (im, w) = Some (rv, im', w')"
  shows "obs w' = obs w"
  by (rule stable_add [OF quiet_stable [OF assms(1)] refl assms(2)])

lemma quiet_clear:
  assumes "redirect_quiet E obs" and "tunterm_acl_redirect_clear E t (im, w) = Some (rv, im', w')"
  shows "obs w' = obs w"
  by (rule stable_clear [OF quiet_stable [OF assms(1)] refl assms(2)])

lemma quiet_register: "redirect_quiet E obs \<Longrightarrow> obs (snd (fib_node_register_new_type E name w)) = obs w"
  by (simp add: redirect_quiet_def)

section \<open>Operations and the invariant\<close>

lemma add_rules_inv:
  assumes "pool_ok E" and "chain_ok E" and "redirect_quiet E obs" and "redirect_inv im"
    and "n \<le> length rules"
  shows "\<exists>rv im' w'. add_rules A E v6 t n rules (im, w) = Some (rv, im', w') \<and> redirect_inv im' \<and>
    sessions_step t v6 im im' \<and> obs w' = obs w"
  using assms(4,5)
proof (induction n arbitrary: rules im w)
  case 0
  then show ?case by (simp add: sessions_step_def)
next
  case (Suc n)
  then obtain r rs where rules: "rules = r # rs" by (cases rules) simp_all
  let ?m = "rule_match A v6 r" and ?proto = "if v6 then DPO_PROTO_IP6 else DPO_PROTO_IP4"
  obtain rv path where dec: "fib_api_path_decode A (rule_path r) = (rv, path)" by fastforce
  obtain rv1 im1 w1 where a: "tunterm_acl_redirect_add E t 0 ?proto ?m [path] (im, w) = Some (rv1, im1, w1)"
    "redirect_inv im1" "sessions im1 = (sessions im)((t, ?m) \<mapsto> (family_type v6, 0))"
    using redirect_table.add_law [of E "(im, w)" "(t, v6, ?m, [path])"] assms(1,2) Suc.prems(1)
    by (auto simp: request_add_def request_key_def request_session_def family_type_def)
  have obs: "obs w1 = obs w" using quiet_add [OF assms(3) a(1)] .
  have step: "sessions_step t v6 im im1" using a(3) by (auto simp: sessions_step_def split: if_splits)
  from Suc.IH [OF a(2), of rs w1] Suc.prems(2) rules obtain rv2 im2 w2 where
    ih: "add_rules A E v6 t n rs (im1, w1) = Some (rv2, im2, w2)" "redirect_inv im2"
      "sessions_step t v6 im1 im2" "obs w2 = obs w1" by auto
  have "sessions_step t v6 im im2" using step ih(3) unfolding sessions_step_def by metis
  moreover have "sessions_step t v6 im im" by (simp add: sessions_step_def)
  ultimately show ?case
    using ih a obs step dec Suc.prems(1) by (cases v6) (simp_all add: rules)
qed

lemma replace_sessions_inv:
  assumes "pool_ok E" and "chain_ok E" and "redirect_quiet E obs" and "redirect_inv im"
    and "unat count \<le> length rules" and "unat t < length (classify_table_index_is_v6 sm)"
  shows "\<exists>rv im' w'. replace_sessions A E v6 count rules t (sm, im, w) = Some (rv, sm, im', w') \<and>
    redirect_inv im' \<and> obs w' = obs w \<and>
    sessions_step t (classify_table_index_is_v6 sm ! unat t) im im'"
proof -
  let ?fam = "classify_table_index_is_v6 sm ! unat t"
  have refl: "sessions_step t f im im" for f by (simp add: sessions_step_def)
  obtain rv im1 w1 where c: "tunterm_acl_redirect_clear E t (im, w) = Some (rv, im1, w1)"
    "redirect_inv im1" "\<forall>t' m. t' \<noteq> t \<longrightarrow> sessions im1 (t', m) = sessions im (t', m)"
    "rv = RV_OK \<longrightarrow> (\<forall>m. sessions im1 (t, m) = None)"
    using redirect_clear_spec [OF assms(4), of E t w] by metis
  have obs1: "obs w1 = obs w" using quiet_clear [OF assms(3) c(1)] .
  obtain rv2 im2 w2 where r: "add_rules A E v6 t (unat count) rules (im1, w1) = Some (rv2, im2, w2)"
    "redirect_inv im2" "sessions_step t v6 im1 im2" "obs w2 = obs w1"
    using add_rules_inv [OF assms(1-3) c(2) assms(5), of A v6 t w1] by blast
  show ?thesis
  proof (cases "count > 0 \<and> ?fam \<noteq> v6")
    case True
    then show ?thesis using assms(4,6) refl by (simp add: replace_sessions_def)
  next
    case False
    have clear: "replace_sessions A E v6 count rules t (sm, im, w) =
        (if rv \<noteq> RV_OK then Some (rv, sm, im1, w1) else Some (rv2, sm, im2, w2))"
      using False assms(6) c(1) r(1) by (auto simp: replace_sessions_def)
    show ?thesis
    proof (cases "rv = RV_OK")
      case rv: True
      have "sessions_step t ?fam im im2"
      proof (cases "count > 0")
        case True
        with False have "?fam = v6" by simp
        with r(3) c(3,4) rv show ?thesis by (simp add: sessions_step_def) blast
      next
        case empty: False
        then have "im2 = im1" using r(1) by (simp add: word_gt_0)
        with c(3,4) rv show ?thesis by (simp add: sessions_step_def)
      qed
      with clear rv r obs1 show ?thesis by simp
    next
      case rv: False
      have "sessions_step t ?fam im im1"
        unfolding sessions_step_def
        using c(3) clear_subset [OF assms(4) c(1)] by metis
      with clear rv c obs1 show ?thesis by simp
    qed
  qed
qed

text \<open>The length check admits only as many rules as the message holds.\<close>

lemma verify_message_len_sound:
  assumes "rules_fit A mp" and "unat (sizeof_add_replace A) < 2 ^ 31" and "unat (sizeof_rule A) < 2 ^ 31"
    and "verify_message_len (ar_msg_length mp) (sizeof_add_replace A + ucast count * sizeof_rule A)"
  shows "unat (count :: u32) \<le> length (ar_rules mp)"
proof -
  have prod: "unat count * unat (sizeof_rule A) < 2 ^ 32 * 2 ^ 31"
    using assms(3) unat_u32_less [of count] by (intro mult_strict_mono) simp_all
  then have "unat (ucast count * sizeof_rule A) = unat count * unat (sizeof_rule A)"
    by (simp add: unat_word_ariths)
  then have "unat (sizeof_add_replace A + ucast count * sizeof_rule A) =
      unat (sizeof_add_replace A) + unat count * unat (sizeof_rule A)"
    using assms(2) prod by (simp add: unat_word_ariths(1))
  with assms(4) have "unat (sizeof_add_replace A) + unat count * unat (sizeof_rule A) \<le>
      unat (ar_msg_length mp)"
    by (simp add: verify_message_len_def word_less_nat_alt not_less split: if_splits)
  with assms(1) have "unat count * unat (sizeof_rule A) < (length (ar_rules mp) + 1) * unat (sizeof_rule A)"
    by (simp add: rules_fit_def)
  then have "unat count < length (ar_rules mp) + 1" using mult_less_cancel2 by blast
  then show ?thesis by simp
qed

lemma tun_inv_iff:
  "tun_inv F tabs (sm, im, w) \<longleftrightarrow>
     redirect_inv im \<and> -1 \<notin> tabs \<and> (\<forall>t\<in>tabs. unat t < length (classify_table_index_is_v6 sm)) \<and>
     attached_ok tabs (classify_table_index_is_v6 sm) False (classify_table_index_by_sw_if_index_v4 sm) \<and>
     attached_ok tabs (classify_table_index_is_v6 sm) True (classify_table_index_by_sw_if_index_v6 sm) \<and>
     bypass_ok (enabled F w) (classify_table_index_by_sw_if_index_v4 sm)
       (classify_table_index_by_sw_if_index_v6 sm) \<and> bypass_once (feature_refs F w) \<and>
     sessions_ok tabs (classify_table_index_is_v6 sm) im"
  by (simp add: tun_inv_def Let_def)

text \<open>A step of the sessions of one existing table keeps the invariant.\<close>

lemma sessions_ok_step:
  assumes "sessions_ok tabs fam im" and "sessions_step t (fam ! unat t) im im'"
    and "t \<in> tabs \<or> (\<forall>m. sessions im' (t, m) = None)"
  shows "sessions_ok tabs fam im'"
  unfolding sessions_ok_def
proof (intro allI impI)
  fix t' m pt opq
  assume s: "sessions im' (t', m) = Some (pt, opq)"
  show "t' \<in> tabs \<and> pt = family_type (fam ! unat t')"
  proof (cases "t' = t")
    case True
    then have "t \<in> tabs" using s assms(3) by auto
    moreover have "sessions im (t, m) = Some (pt, opq) \<or> pt = family_type (fam ! unat t)"
      using assms(2) s True unfolding sessions_step_def by blast
    ultimately show ?thesis using assms(1) True unfolding sessions_ok_def by blast
  next
    case False
    then have "sessions im (t', m) = Some (pt, opq)" using s assms(2) by (simp add: sessions_step_def)
    then show ?thesis using assms(1) unfolding sessions_ok_def by blast
  qed
qed

lemma tun_inv_sessions:
  assumes "tun_inv F tabs (sm, im, w)" and "redirect_inv im'" and "feature_refs F w' = feature_refs F w"
    and "sessions_step t (classify_table_index_is_v6 sm ! unat t) im im'"
    and "t \<in> tabs \<or> (\<forall>m. sessions im' (t, m) = None)"
  shows "tun_inv F tabs (sm, im', w')"
  using assms(1-3) sessions_ok_step [OF _ assms(4,5)] unfolding tun_inv_iff enabled_def by simp

lemma update_inv:
  assumes env: "tunterm_env_ok A E F" and inv: "tun_inv F tabs (sm, im, w)"
    and "t \<in> tabs" and "unat count \<le> length rules"
  shows "\<exists>rv s'. replace_sessions A E v6 count rules t (sm, im, w) = Some (rv, s') \<and> tun_inv F tabs s'"
proof -
  have e: "pool_ok E" "chain_ok E" "redirect_quiet E (feature_refs F)" using env by (simp_all add: tunterm_env_ok_def)
  have "redirect_inv im" "unat t < length (classify_table_index_is_v6 sm)"
    using inv assms(3) by (simp_all add: tun_inv_iff)
  from replace_sessions_inv [OF e this(1) assms(4) this(2), of A v6 w] obtain rv im' w' where
    "replace_sessions A E v6 count rules t (sm, im, w) = Some (rv, sm, im', w')" "redirect_inv im'"
    "feature_refs F w' = feature_refs F w" "sessions_step t (classify_table_index_is_v6 sm ! unat t) im im'" by blast
  with tun_inv_sessions [OF inv] assms(3) show ?thesis by blast
qed

text \<open>The invariant depends on the recorded families of existing tables only.\<close>

lemma families_agree:
  assumes "\<And>t. t \<in> tabs \<Longrightarrow> fam' ! unat t = fam ! unat t" and "tabs \<subseteq> tabs'"
  shows "attached_ok tabs fam f v \<Longrightarrow> attached_ok tabs' fam' f v"
    and "sessions_ok tabs fam im \<Longrightarrow> sessions_ok tabs' fam' im"
proof -
  show "attached_ok tabs fam f v \<Longrightarrow> attached_ok tabs' fam' f v"
    using assms by (auto simp: attached_ok_def)
  show "sessions_ok tabs fam im \<Longrightarrow> sessions_ok tabs' fam' im"
    unfolding sessions_ok_def
  proof (intro allI impI)
    fix t m pt opq
    assume "\<forall>t m pt opq. sessions im (t, m) = Some (pt, opq) \<longrightarrow> t \<in> tabs \<and> pt = family_type (fam ! unat t)"
      and "sessions im (t, m) = Some (pt, opq)"
    then have "t \<in> tabs" "pt = family_type (fam ! unat t)" by blast+
    with assms show "t \<in> tabs' \<and> pt = family_type (fam' ! unat t)" by auto
  qed
qed

lemma create_inv:
  assumes env: "tunterm_env_ok A E F" and inv: "tun_inv F tabs (sm, im, w)"
    and "create_table A v6 sm w = Inr (t, sm', w')" and "t \<notin> tabs"
  shows "tun_inv F (insert t tabs) (sm', im, w')" and "t \<noteq> -1"
proof -
  let ?fam = "classify_table_index_is_v6 sm"
  let ?fam' = "(vec_grow ?fam (unat t) False)[unat t := v6]"
  have vec: "vec_validate_bool A ?fam (unat t) False = vec_grow ?fam (unat t) False"
    using env by (simp add: tunterm_env_ok_def vec_ok_def)
  have quiet: "feature_refs F w' = feature_refs F w" and t: "t \<noteq> -1"
    and sm': "sm' = sm\<lparr>classify_table_index_is_v6 := ?fam'\<rparr>"
    using assms(3) env vec
    by (auto simp: create_table_def tunterm_env_ok_def table_quiet_def split_def Let_def
        split: if_splits)
  have same: "?fam' ! unat t' = ?fam ! unat t'" if "t' \<in> tabs" for t'
  proof -
    have "t' \<noteq> t" "unat t' < length ?fam" using that assms(4) inv by (auto simp: tun_inv_iff)
    then show ?thesis by (simp add: nth_vec_grow word_unat_eq_iff)
  qed
  note agree = families_agree [of tabs ?fam' ?fam "insert t tabs", OF same subset_insertI]
  have "\<forall>t'\<in>insert t tabs. unat t' < length ?fam'" using inv by (auto simp: tun_inv_iff)
  with inv t agree show "tun_inv F (insert t tabs) (sm', im, w')"
    unfolding tun_inv_iff enabled_def sm' by (simp add: quiet)
  show "t \<noteq> -1" by (rule t)
qed

text \<open>
  What an add-replace does: it stops at the length check, at a table that cannot be created, or it goes on
  with the table it created or was given.
\<close>

lemma add_replace_shape:
  assumes "vl_api_tunterm_acl_add_replace_t_handler A E mp (sm, im, w) = Some (rv, idx, sm', im', w')"
  obtains (short) "rv \<noteq> RV_OK" "sm' = sm" "im' = im" "w' = w"
      "clib_net_to_host_u32 idx = clib_net_to_host_u32 (ar_tunterm_acl_index mp)"
    | (failed) "rv \<noteq> RV_OK" "sm' = sm" "im' = im" "clib_net_to_host_u32 idx = -1"
      "create_table A (ar_is_ipv6 mp) sm w = Inl (rv, w')" "clib_net_to_host_u32 (ar_tunterm_acl_index mp) = -1"
    | (created) w1 where "create_table A (ar_is_ipv6 mp) sm w = Inr (clib_net_to_host_u32 idx, sm', w1)"
      "clib_net_to_host_u32 (ar_tunterm_acl_index mp) = -1"
      "replace_sessions A E (ar_is_ipv6 mp) (clib_net_to_host_u32 (ar_count mp)) (ar_rules mp)
        (clib_net_to_host_u32 idx) (sm', im, w1) = Some (rv, sm', im', w')"
      "verify_message_len (ar_msg_length mp)
        (sizeof_add_replace A + ucast (clib_net_to_host_u32 (ar_count mp)) * sizeof_rule A)"
    | (given) "sm' = sm" "clib_net_to_host_u32 (ar_tunterm_acl_index mp) \<noteq> -1"
      "clib_net_to_host_u32 idx = clib_net_to_host_u32 (ar_tunterm_acl_index mp)"
      "replace_sessions A E (ar_is_ipv6 mp) (clib_net_to_host_u32 (ar_count mp)) (ar_rules mp)
        (clib_net_to_host_u32 idx) (sm, im, w) = Some (rv, sm', im', w')"
      "verify_message_len (ar_msg_length mp)
        (sizeof_add_replace A + ucast (clib_net_to_host_u32 (ar_count mp)) * sizeof_rule A)"
proof (cases "verify_message_len (ar_msg_length mp)
    (sizeof_add_replace A + ucast (clib_net_to_host_u32 (ar_count mp)) * sizeof_rule A)")
  case True
  let ?ix = "clib_net_to_host_u32 (ar_tunterm_acl_index mp)" and ?n = "clib_net_to_host_u32 (ar_count mp)"
  have u: "update_classify_table_and_sessions A E (ar_is_ipv6 mp) ?n (ar_rules mp) ?ix (sm, im, w) =
      Some (rv, clib_net_to_host_u32 idx, sm', im', w')"
    using assms True by (auto simp: vl_api_tunterm_acl_add_replace_t_handler_def Let_def split: option.splits)
  have keep: "sm2 = sm1" if "replace_sessions A E v6 n rules t (sm1, im, w1) = Some (rv, sm2, im', w')" for v6 n rules t sm1 sm2 w1
    using that by (auto simp: replace_sessions_def split: if_splits option.splits)
  show thesis
  proof (cases "?ix = -1")
    case ix: True
    show thesis
    proof (cases "create_table A (ar_is_ipv6 mp) sm w")
      case (Inl p)
      then have "fst p \<noteq> RV_OK" by (auto simp: create_table_def split_def Let_def split: if_splits)
      with u ix Inl failed show thesis
        by (cases p) (auto simp: update_classify_table_and_sessions_def)
    next
      case (Inr p)
      obtain t sm1 w1 where p: "p = (t, sm1, w1)" by (metis prod_cases3)
      with u ix Inr have "t = clib_net_to_host_u32 idx" "replace_sessions A E (ar_is_ipv6 mp) ?n (ar_rules mp)
          (clib_net_to_host_u32 idx) (sm1, im, w1) = Some (rv, sm', im', w')"
        by (auto simp: update_classify_table_and_sessions_def split: option.splits)
      with keep [OF this(2)] Inr p ix True created show thesis by blast
    qed
  next
    case ix: False
    with u have "clib_net_to_host_u32 idx = ?ix" "replace_sessions A E (ar_is_ipv6 mp) ?n (ar_rules mp)
        (clib_net_to_host_u32 idx) (sm, im, w) = Some (rv, sm', im', w')"
      by (auto simp: update_classify_table_and_sessions_def split: option.splits)
    with keep [OF this(2)] ix True given show thesis by blast
  qed
next
  case False
  with assms short show thesis by (auto simp: vl_api_tunterm_acl_add_replace_t_handler_def Let_def)
qed

lemma create_table_state:
  assumes "create_table A v6 sm w = c"
  shows "case c of
      Inl (rv, w') \<Rightarrow> w' = snd (vnet_classify_add_del_table A (classify_mask v6) 32 0x800000 0 1 w) \<and>
        rv = fst (fst (vnet_classify_add_del_table A (classify_mask v6) 32 0x800000 0 1 w)) \<and> rv \<noteq> RV_OK
    | Inr (t, sm', w') \<Rightarrow>
        vnet_classify_add_del_table A (classify_mask v6) 32 0x800000 0 1 w = ((RV_OK, t), w') \<and>
        sm' = sm\<lparr>classify_table_index_is_v6 :=
          (vec_validate_bool A (classify_table_index_is_v6 sm) (unat t) False)[unat t := v6]\<rparr>"
  using assms by (auto simp: create_table_def split_def Let_def prod_eq_iff split: if_splits)

text \<open>What a delete does: it is refused, the clearing fails, or the table goes.\<close>

lemma del_shape:
  assumes "vl_api_tunterm_acl_del_t_handler A E mp (sm, im, w) = Some (rv, sm', im', w')"
  obtains (kept) "rv \<noteq> RV_OK" "sm' = sm" "im' = im" "w' = w"
    | (failed) "rv \<noteq> RV_OK" "sm' = sm" "tunterm_acl_redirect_clear E (clib_net_to_host_u32 mp) (im, w) = Some (rv, im', w')"
    | (gone) w1 where "rv = RV_OK" "clib_net_to_host_u32 mp \<notin> set (classify_table_index_by_sw_if_index_v4 sm)"
      "clib_net_to_host_u32 mp \<notin> set (classify_table_index_by_sw_if_index_v6 sm)"
      "tunterm_acl_redirect_clear E (clib_net_to_host_u32 mp) (im, w) = Some (RV_OK, im', w1)"
      "sm' = sm\<lparr>classify_table_index_is_v6 :=
        (classify_table_index_is_v6 sm)[unat (clib_net_to_host_u32 mp) := False]\<rparr>"
      "w' = vnet_classify_delete_table_index A (clib_net_to_host_u32 mp) w1"
proof (cases "tunterm_acl_redirect_clear E (clib_net_to_host_u32 mp) (im, w)")
  case None
  with assms have "rv \<noteq> RV_OK \<and> sm' = sm \<and> im' = im \<and> w' = w"
    by (auto simp: vl_api_tunterm_acl_del_t_handler_def Let_def split: if_splits)
  with kept show thesis by blast
next
  case (Some c)
  obtain rv1 im1 w1 where c: "c = (rv1, im1, w1)" by (metis prod_cases3)
  let ?t = "clib_net_to_host_u32 mp"
  have "rv \<noteq> RV_OK \<and> sm' = sm \<and> im' = im \<and> w' = w \<or>
      rv \<noteq> RV_OK \<and> sm' = sm \<and> rv = rv1 \<and> im' = im1 \<and> w' = w1 \<or>
      rv = RV_OK \<and> rv1 = RV_OK \<and> im' = im1 \<and> ?t \<notin> set (classify_table_index_by_sw_if_index_v4 sm) \<and>
      ?t \<notin> set (classify_table_index_by_sw_if_index_v6 sm) \<and> w' = vnet_classify_delete_table_index A ?t w1 \<and>
      sm' = sm\<lparr>classify_table_index_is_v6 := (classify_table_index_is_v6 sm)[unat ?t := False]\<rparr>"
    using assms Some c by (auto simp: vl_api_tunterm_acl_del_t_handler_def Let_def split: if_splits)
  with kept failed gone Some c show thesis by blast
qed

lemma add_replace_inv:
  assumes env: "tunterm_env_ok A E F" and inv: "tun_inv F tabs (sm, im, w)" and fit: "rules_fit A mp"
    and h: "vl_api_tunterm_acl_add_replace_t_handler A E mp (sm, im, w) = Some (rv, idx, sm', im', w')"
    and ix: "clib_net_to_host_u32 (ar_tunterm_acl_index mp) \<in> tabs \<or>
      clib_net_to_host_u32 (ar_tunterm_acl_index mp) = -1 \<and> clib_net_to_host_u32 idx \<notin> tabs"
  shows "tun_inv F (tabs \<union> {clib_net_to_host_u32 idx} - {-1}) (sm', im', w')"
proof -
  let ?t = "clib_net_to_host_u32 idx"
  have neg: "-1 \<notin> tabs" using inv by (simp add: tun_inv_iff)
  have len: "unat (clib_net_to_host_u32 (ar_count mp)) \<le> length (ar_rules mp)"
    if "verify_message_len (ar_msg_length mp)
      (sizeof_add_replace A + ucast (clib_net_to_host_u32 (ar_count mp)) * sizeof_rule A)"
    using verify_message_len_sound [OF fit _ _ that] env by (simp add: tunterm_env_ok_def)
  show ?thesis
    using h
  proof (cases rule: add_replace_shape)
    case short
    then have "tabs \<union> {?t} - {-1} = tabs" using ix neg by auto
    with short inv show ?thesis by simp
  next
    case failed
    have "feature_refs F w' = feature_refs F w"
      using create_table_state [OF failed(5)] env by (simp add: tunterm_env_ok_def table_quiet_def)
    moreover have "tabs \<union> {?t} - {-1} = tabs" using failed(4) neg by auto
    ultimately show ?thesis using failed(2,3) inv by (simp add: tun_inv_iff enabled_def)
  next
    case (created w1)
    have new: "?t \<notin> tabs" using ix created(2) neg by auto
    note cr = create_inv [OF env inv created(1) new]
    have "tabs \<union> {?t} - {-1} = insert ?t tabs" using neg cr(2) by auto
    with update_inv [OF env cr(1) insertI1 len [OF created(4)], of "ar_is_ipv6 mp"] created(3) show ?thesis by simp
  next
    case given
    then have "?t \<in> tabs" using ix by auto
    moreover from this have "tabs \<union> {?t} - {-1} = tabs" using neg by auto
    ultimately show ?thesis using update_inv [OF env inv _ len [OF given(5)], of ?t "ar_is_ipv6 mp"] given(4) by simp
  qed
qed

text \<open>Without its sessions and attachments a table can go.\<close>

lemma sessions_ok_remove:
  assumes "sessions_ok tabs fam im" and "\<forall>m. sessions im (t, m) = None"
  shows "sessions_ok (tabs - {t}) (fam[unat t := False]) im"
  unfolding sessions_ok_def
proof (intro allI impI)
  fix t' m pt opq
  assume a: "sessions im (t', m) = Some (pt, opq)"
  then have "t' \<noteq> t" using assms(2) by auto
  moreover have "t' \<in> tabs \<and> pt = family_type (fam ! unat t')" using assms(1) a unfolding sessions_ok_def by blast
  ultimately show "t' \<in> tabs - {t} \<and> pt = family_type (fam[unat t := False] ! unat t')"
    by (simp add: word_unat_eq_iff)
qed

lemma attached_ok_remove:
  assumes "attached_ok tabs fam f v" and "t \<notin> set v"
  shows "attached_ok (tabs - {t}) (fam[unat t := False]) f v"
proof -
  have "fam[unat t := False] ! unat t' = fam ! unat t'" if "t' \<noteq> t" for t'
    using that by (simp add: word_unat_eq_iff)
  with assms show ?thesis by (force simp: attached_ok_def)
qed

lemma del_inv:
  assumes env: "tunterm_env_ok A E F" and inv: "tun_inv F tabs (sm, im, w)"
    and h: "vl_api_tunterm_acl_del_t_handler A E mp (sm, im, w) = Some (rv, sm', im', w')"
  shows "tun_inv F (if rv = RV_OK then tabs - {clib_net_to_host_u32 mp} else tabs) (sm', im', w')"
proof -
  let ?t = "clib_net_to_host_u32 mp" and ?fam = "classify_table_index_is_v6 sm"
  have im: "redirect_inv im" "sessions_ok tabs ?fam im" using inv by (simp_all add: tun_inv_iff)
  have clear: "redirect_inv im1" "sessions_ok tabs ?fam im1" "feature_refs F w1 = feature_refs F w"
    "rv1 = RV_OK \<longrightarrow> (\<forall>m. sessions im1 (?t, m) = None)"
    if "tunterm_acl_redirect_clear E ?t (im, w) = Some (rv1, im1, w1)" for rv1 im1 w1
  proof -
    show "redirect_inv im1" "rv1 = RV_OK \<longrightarrow> (\<forall>m. sessions im1 (?t, m) = None)"
      using redirect_clear_spec [OF im(1), of E ?t w] that by auto
    show "sessions_ok tabs ?fam im1"
      using im(2) clear_subset [OF im(1) that] unfolding sessions_ok_def by blast
    show "feature_refs F w1 = feature_refs F w"
      using quiet_clear [OF _ that, of "feature_refs F"] env by (simp add: tunterm_env_ok_def)
  qed
  show ?thesis
    using h
  proof (cases rule: del_shape)
    case failed
    then show ?thesis using inv clear [OF failed(3)] by (simp add: tun_inv_iff enabled_def)
  next
    case (gone w1)
    have "feature_refs F w' = feature_refs F w"
      using gone(6) env clear(3) [OF gone(4)] by (simp add: tunterm_env_ok_def table_quiet_def)
    moreover have "sessions_ok (tabs - {?t}) (?fam[unat ?t := False]) im'"
      using sessions_ok_remove clear(2,4) [OF gone(4)] by blast
    ultimately show ?thesis
      using inv gone(1,2,3,5) clear(1) [OF gone(4)] attached_ok_remove by (simp add: tun_inv_iff enabled_def)
  qed (simp add: inv)
qed

lemma bypass_ok_grow:
  "bypass_ok on v4 v6 \<Longrightarrow> bypass_ok on (vec_grow v4 i (-1)) (vec_grow v6 i (-1))"
  by (auto simp: bypass_ok_def nth_vec_grow)

text \<open>Changing one interface's entries and feature keeps the rest.\<close>

lemma bypass_ok_update:
  assumes "bypass_ok on v4 v6" and "length v4' = length v4" and "length v6' = length v4"
    and "\<And>j. j \<noteq> sw \<Longrightarrow> on' (''ip4-unicast'', ''tunterm-ip4-vxlan-bypass'', j) \<Longrightarrow>
      on (''ip4-unicast'', ''tunterm-ip4-vxlan-bypass'', j)"
    and "\<And>k. k \<noteq> unat sw \<Longrightarrow> v4' ! k = v4 ! k \<and> v6' ! k = v6 ! k"
    and "on' (''ip4-unicast'', ''tunterm-ip4-vxlan-bypass'', sw) \<Longrightarrow>
      unat sw < length v4 \<and> (v4' ! unat sw \<noteq> -1 \<or> v6' ! unat sw \<noteq> -1)"
  shows "bypass_ok on' v4' v6'"
  unfolding bypass_ok_def
proof (intro conjI allI impI)
  show "length v4' = length v6'" using assms(2,3) by simp
  fix j
  assume j: "on' (''ip4-unicast'', ''tunterm-ip4-vxlan-bypass'', j)"
  show "unat j < length v4'"
    using assms(1,2,4,6) j unfolding bypass_ok_def by (cases "j = sw") auto
  show "v4' ! unat j \<noteq> -1 \<or> v6' ! unat j \<noteq> -1"
  proof (cases "j = sw")
    case True
    then show ?thesis using assms(6) j by blast
  next
    case False
    then have "unat j \<noteq> unat sw" by (simp add: word_unat_eq_iff)
    with False j assms(1,4,5) show ?thesis unfolding bypass_ok_def by metis
  qed
qed

lemma bypass_call:
  assumes "feature_ok sub F" and "tunterm_bypass_enable_disable F sw en w = (rv, w')"
  shows "feature_refs F w' = (if rv = RV_OK
    then count_call en (''ip4-unicast'', ''tunterm-ip4-vxlan-bypass'', sw) (feature_refs F w) else feature_refs F w)"
  using feature_okD [OF assms(1)] assms(2) by (simp add: tunterm_bypass_enable_disable_def)

text \<open>Growing the vectors to an interface, and then setting its entry for one family.\<close>

lemma tun_inv_grow:
  assumes "tun_inv F tabs (sm, im, w)" and "feature_refs F w' = feature_refs F w"
    and "classify_table_index_is_v6 sm' = classify_table_index_is_v6 sm"
    and "classify_table_index_by_sw_if_index_v4 sm' = vec_grow (classify_table_index_by_sw_if_index_v4 sm) i (-1)"
    and "classify_table_index_by_sw_if_index_v6 sm' = vec_grow (classify_table_index_by_sw_if_index_v6 sm) i (-1)"
  shows "tun_inv F tabs (sm', im, w')"
  using assms attached_ok_grow bypass_ok_grow by (simp add: tun_inv_iff enabled_def)

lemma tun_inv_attach:
  fixes sm sw defines "v4 \<equiv> vec_grow (classify_table_index_by_sw_if_index_v4 sm) (unat sw) (-1)"
    and "v6 \<equiv> vec_grow (classify_table_index_by_sw_if_index_v6 sm) (unat sw) (-1)"
  assumes inv: "tun_inv F tabs (sm, im, w)" and t: "t = -1 \<or> t \<in> tabs \<and> classify_table_index_is_v6 sm ! unat t = f"
    and fam: "classify_table_index_is_v6 sm' = classify_table_index_is_v6 sm"
    and v4': "classify_table_index_by_sw_if_index_v4 sm' = (if f then v4 else v4[unat sw := t])"
    and v6': "classify_table_index_by_sw_if_index_v6 sm' = (if f then v6[unat sw := t] else v6)"
    and other: "\<And>j. j \<noteq> sw \<Longrightarrow> enabled F w' (''ip4-unicast'', ''tunterm-ip4-vxlan-bypass'', j) \<Longrightarrow>
      enabled F w (''ip4-unicast'', ''tunterm-ip4-vxlan-bypass'', j)"
    and on: "enabled F w' (''ip4-unicast'', ''tunterm-ip4-vxlan-bypass'', sw) \<Longrightarrow>
      t \<noteq> -1 \<or> (if f then v4 else v6) ! unat sw \<noteq> -1"
    and once: "bypass_once (feature_refs F w')"
  shows "tun_inv F tabs (sm', im, w')"
proof -
  have i: "attached_ok tabs (classify_table_index_is_v6 sm) False v4" "attached_ok tabs (classify_table_index_is_v6 sm) True v6"
    "bypass_ok (enabled F w) v4 v6"
    using inv attached_ok_grow bypass_ok_grow by (simp_all add: tun_inv_iff v4_def v6_def)
  have len: "length v4 = length v6" using i(3) by (simp add: bypass_ok_def)
  have sw: "unat sw < length v4" by (simp add: v4_def)
  have "bypass_ok (enabled F w') (if f then v4 else v4[unat sw := t]) (if f then v6[unat sw := t] else v6)"
    by (rule bypass_ok_update [OF i(3) _ _ other]) (use on len sw in \<open>auto split: if_splits\<close>)
  moreover have "attached_ok tabs (classify_table_index_is_v6 sm) False (if f then v4 else v4[unat sw := t])"
    "attached_ok tabs (classify_table_index_is_v6 sm) True (if f then v6[unat sw := t] else v6)"
    using i(1,2) t attached_ok_update by auto
  ultimately show ?thesis using inv once unfolding tun_inv_iff v4' v6' fam by simp
qed

text \<open>A call that adds the first reference, or drops the only one.\<close>

lemma bypass_call_once:
  assumes "bypass_once r" and "en \<Longrightarrow> r (''ip4-unicast'', ''tunterm-ip4-vxlan-bypass'', sw) = 0"
  shows "bypass_once (count_call en (''ip4-unicast'', ''tunterm-ip4-vxlan-bypass'', sw) r)"
  using assms by (auto simp: bypass_once_def count_call_def)

lemma attach_add_inv:
  assumes env: "tunterm_env_ok A E F" and inv: "tun_inv F tabs (sm, im, w)" and add: "iad_is_add mp"
    and h: "vl_api_tunterm_acl_interface_add_del_t_handler A F mp (sm, im, w) = Some (rv, s')"
    and t: "clib_net_to_host_u32 (iad_tunterm_acl_index mp) \<in> tabs"
  shows "tun_inv F tabs s'"
proof -
  let ?sw = "clib_net_to_host_u32 (iad_sw_if_index mp)" and ?t = "clib_net_to_host_u32 (iad_tunterm_acl_index mp)"
  let ?v4 = "vec_grow (classify_table_index_by_sw_if_index_v4 sm) (unat ?sw) (-1)"
  let ?v6 = "vec_grow (classify_table_index_by_sw_if_index_v6 sm) (unat ?sw) (-1)"
  let ?f = "classify_table_index_is_v6 sm ! unat ?t"
  have vec: "vec_validate_u32 A v i e = vec_grow v i e" for v i e
    using env by (simp add: tunterm_env_ok_def vec_ok_def)
  have F: "feature_ok (\<lambda>_. True) F" using env by (simp add: tunterm_env_ok_def)
  have tn: "?t \<noteq> -1" "unat ?t < length (classify_table_index_is_v6 sm)" using t inv by (auto simp: tun_inv_iff)
  have "s' = (sm, im, w) \<or> (\<exists>sm' w'. s' = (sm', im, w') \<and>
      classify_table_index_is_v6 sm' = classify_table_index_is_v6 sm \<and>
      classify_table_index_by_sw_if_index_v4 sm' = (if ?f then ?v4 else ?v4[unat ?sw := ?t]) \<and>
      classify_table_index_by_sw_if_index_v6 sm' = (if ?f then ?v6[unat ?sw := ?t] else ?v6) \<and>
      (feature_refs F w' = feature_refs F w \<or>
       feature_refs F w (''ip4-unicast'', ''tunterm-ip4-vxlan-bypass'', ?sw) = 0 \<and>
       feature_refs F w' = count_call True (''ip4-unicast'', ''tunterm-ip4-vxlan-bypass'', ?sw) (feature_refs F w)))"
    using h add tn bypass_call [OF F, of ?sw True w, OF surjective_pairing]
    by (cases ?f) (auto simp: vl_api_tunterm_acl_interface_add_del_t_handler_def Let_def vec split_def
        feature_is_enabled [OF F] enabled_def split: if_splits)
  moreover have "bypass_once (feature_refs F w)" using inv by (simp add: tun_inv_iff)
  ultimately show ?thesis
    using inv t tn(1)
    by (auto simp: enabled_def bypass_call_once intro: tun_inv_attach [where sw = ?sw and t = ?t and f = ?f])
qed

lemma attach_del_inv:
  assumes env: "tunterm_env_ok A E F" and inv: "tun_inv F tabs (sm, im, w)" and del: "\<not> iad_is_add mp"
    and h: "vl_api_tunterm_acl_interface_add_del_t_handler A F mp (sm, im, w) = Some (rv, s')"
    and t: "clib_net_to_host_u32 (iad_tunterm_acl_index mp) \<in> tabs"
  shows "tun_inv F tabs s'"
proof -
  let ?sw = "clib_net_to_host_u32 (iad_sw_if_index mp)" and ?t = "clib_net_to_host_u32 (iad_tunterm_acl_index mp)"
  let ?v4 = "vec_grow (classify_table_index_by_sw_if_index_v4 sm) (unat ?sw) (-1)"
  let ?v6 = "vec_grow (classify_table_index_by_sw_if_index_v6 sm) (unat ?sw) (-1)"
  let ?f = "classify_table_index_is_v6 sm ! unat ?t" and ?i = "unat ?sw"
  let ?off = "count_call False (''ip4-unicast'', ''tunterm-ip4-vxlan-bypass'', ?sw) (feature_refs F w)"
  have vec: "vec_validate_u32 A v i e = vec_grow v i e" for v i e
    using env by (simp add: tunterm_env_ok_def vec_ok_def)
  have F: "feature_ok (\<lambda>_. True) F" using env by (simp add: tunterm_env_ok_def)
  have tn: "?t \<noteq> -1" "unat ?t < length (classify_table_index_is_v6 sm)" using t inv by (auto simp: tun_inv_iff)
  have "s' = (sm, im, w) \<or> (\<exists>sm' w'. s' = (sm', im, w') \<and>
      classify_table_index_is_v6 sm' = classify_table_index_is_v6 sm \<and>
      (classify_table_index_by_sw_if_index_v4 sm' = ?v4 \<and> classify_table_index_by_sw_if_index_v6 sm' = ?v6 \<and>
         feature_refs F w' = feature_refs F w \<or>
       classify_table_index_by_sw_if_index_v4 sm' = (if ?f then ?v4 else ?v4[?i := -1]) \<and>
         classify_table_index_by_sw_if_index_v6 sm' = (if ?f then ?v6[?i := -1] else ?v6) \<and>
         (feature_refs F w' = ?off \<or> ?v4 ! ?i \<noteq> -1 \<and> ?v6 ! ?i \<noteq> -1 \<and> feature_refs F w' = feature_refs F w)))"
    using h del tn bypass_call [OF F, of ?sw False w, OF surjective_pairing]
    by (cases ?f; cases "?v4 ! ?i = -1 \<or> ?v6 ! ?i = -1")
      (auto simp: vl_api_tunterm_acl_interface_add_del_t_handler_def Let_def vec split_def split: if_splits)
  moreover have "bypass_once (feature_refs F w)" using inv by (simp add: tun_inv_iff)
  moreover from this have "feature_refs F w (''ip4-unicast'', ''tunterm-ip4-vxlan-bypass'', ?sw) \<le> 1"
    by (simp add: bypass_once_def)
  ultimately show ?thesis
  proof (elim disjE exE conjE)
    fix sm' w'
    assume "s' = (sm', im, w')" "classify_table_index_is_v6 sm' = classify_table_index_is_v6 sm"
      "classify_table_index_by_sw_if_index_v4 sm' = ?v4" "classify_table_index_by_sw_if_index_v6 sm' = ?v6"
      "feature_refs F w' = feature_refs F w"
    then show ?thesis using tun_inv_grow [OF inv] by simp
  qed (use inv in \<open>auto simp: enabled_def bypass_call_once split: if_splits
      intro: tun_inv_attach [where sw = ?sw and t = "-1" and f = ?f]\<close>)
qed

lemma tunterm_init_inv:
  assumes "tunterm_env_ok A E F" and "\<forall>i. \<not> enabled F w0 (''ip4-unicast'', ''tunterm-ip4-vxlan-bypass'', i)"
  shows "tun_inv F {} (tunterm_acl_init E base w0)"
proof -
  obtain im w where i: "tunterm_acl_redirect_init E w0 = (im, w)" by fastforce
  have "redirect_inv im" using redirect_init_inv [of E w0] i by simp
  moreover have "feature_refs F w = feature_refs F w0"
    using i assms(1) quiet_register [of E "feature_refs F" "''tunterm-redirect''" w0]
    by (auto simp: tunterm_acl_redirect_init_def tunterm_env_ok_def split_def Let_def)
  moreover have "sessions im = (\<lambda>_. None)"
    using i by (auto simp: tunterm_acl_redirect_init_def sessions_eq fun_eq_iff split_def Let_def)
  ultimately show ?thesis
    using assms(2) by (simp add: tunterm_acl_init_def i tun_inv_iff attached_ok_def bypass_ok_def bypass_once_def
        sessions_ok_def enabled_def)
qed

lemma tun_config_inv:
  assumes "tun_config A E F w0 tabs s" and env: "tunterm_env_ok A E F"
    and "\<forall>i. \<not> enabled F w0 (''ip4-unicast'', ''tunterm-ip4-vxlan-bypass'', i)"
  shows "tun_inv F tabs s"
  using assms(1)
proof (induction rule: tun_config.induct)
  case (init base)
  then show ?case by (rule tunterm_init_inv [OF env assms(3)])
next
  case (replace tabs s mp rv idx s')
  obtain sm im w sm' im' w' where s: "s = (sm, im, w)" "s' = (sm', im', w')" by (metis prod_cases3)
  have neg: "-1 \<notin> tabs" using replace.IH s by (simp add: tun_inv_iff)
  with replace.hyps(2,4) have "clib_net_to_host_u32 idx = clib_net_to_host_u32 (ar_tunterm_acl_index mp)"
    unfolding s by (elim add_replace_shape) auto
  then have "tabs \<union> {clib_net_to_host_u32 idx} - {-1} = tabs" using replace.hyps(4) neg by auto
  then show ?case
    using add_replace_inv [OF env replace.IH [unfolded s] replace.hyps(3) replace.hyps(2) [unfolded s]] replace.hyps(4) s
    by simp
next
  case (create tabs s mp rv idx s')
  obtain sm im w sm' im' w' where s: "s = (sm, im, w)" "s' = (sm', im', w')" by (metis prod_cases3)
  then show ?case
    using add_replace_inv [OF env create.IH [unfolded s] create.hyps(3) create.hyps(2) [unfolded s]] create.hyps(4,5)
    by simp
next
  case (delete tabs s mp rv s')
  obtain sm im w sm' im' w' where s: "s = (sm, im, w)" "s' = (sm', im', w')" by (metis prod_cases3)
  then show ?case using del_inv [OF env delete.IH [unfolded s] delete.hyps(2) [unfolded s]] by simp
next
  case (attach tabs s mp rv s')
  obtain sm im w where "s = (sm, im, w)" by (metis prod_cases3)
  with attach show ?case
    using attach_add_inv [OF env] attach_del_inv [OF env] by (cases "iad_is_add mp") blast+
next
  case (back_walk tabs sm im w i rv im' w')
  then obtain ipr where ipr: "pool_elt im i = Some ipr"
    by (auto simp: tunterm_acl_redirect_back_walk_notify_def split: option.splits)
  have im: "redirect_inv im" using back_walk.IH by (simp add: tun_inv_iff)
  have "redirect_inv im' \<and> sessions im' = sessions im"
    using back_walk_sessions [OF im ipr, of E w] back_walk.hyps(2) by simp
  moreover have "feature_refs F w' = feature_refs F w"
    using back_walk.hyps(2) ipr env quiet_stack [of E "feature_refs F"]
    by (auto simp: tunterm_acl_redirect_back_walk_notify_def tunterm_env_ok_def split_def Let_def
        prod_eq_iff)
  ultimately show ?case using back_walk.IH by (simp add: tun_inv_iff enabled_def sessions_ok_def)
qed

end
