(* ===== verification/Tunterm_Acl.thy ===== *)
theory Tunterm_Acl
  imports Tunterm_Api
begin

text \<open>
  What the control plane of the tunterm_acl plugin guarantees: the invariant of every history, what a
  successful add-replace, delete, attach and detach do, that valid requests stay within the vectors, and
  what happens to requests that name an unknown ACL or whose feature call fails.
\<close>

section \<open>The concrete environment\<close>

lemma redirect_null_ok: "pool_ok redirect_null" "chain_ok redirect_null" "redirect_quiet redirect_null obs"
  by (simp_all add: pool_ok_def chain_ok_def redirect_quiet_def redirect_null_def redirect_demo_def)

lemma tunterm_demo_ok: "tunterm_env_ok tunterm_demo redirect_null (feature_counts bad)"
  using redirect_null_ok(1,2) redirect_null_ok(3) [of "feature_refs (feature_counts bad)"] feature_counts_ok [of _ bad]
  by (simp add: tunterm_env_ok_def tunterm_demo_def vec_ok_def table_quiet_def)

lemma add_replace_demo_fits: "rules_fit tunterm_demo add_replace_demo"
  by (simp add: rules_fit_def tunterm_demo_def add_replace_demo_def)

lemma demo_off: "\<forall>i. \<not> enabled (feature_counts bad) no_features (''ip4-unicast'', ''tunterm-ip4-vxlan-bypass'', i)"
  by simp

lemma demo_init_inv: "tun_inv (feature_counts bad) {} (tunterm_acl_init redirect_null 9 no_features)"
  using tunterm_init_inv [OF tunterm_demo_ok demo_off] .

lemma demo_family: "(vec_grow [] 3 False)[3 := False] = [False, False, False, False]"
  by (simp add: vec_grow_def numeral_eq_Suc)

lemma vectors_grown: "vec_grow [] 2 (-1 :: u32) = [-1, -1, -1]"
  by (simp add: vec_grow_def numeral_eq_Suc)

lemma demo_add_replace:
  "\<exists>sm im w. vl_api_tunterm_acl_add_replace_t_handler tunterm_demo redirect_null add_replace_demo
      (tunterm_acl_init redirect_null 9 no_features) = Some (RV_OK, clib_host_to_net_u32 3, sm, im, w) \<and>
    classify_table_index_is_v6 sm = [False, False, False, False] \<and>
    classify_table_index_by_sw_if_index_v4 sm = [] \<and> classify_table_index_by_sw_if_index_v6 sm = [] \<and> w = no_features"
  by (simp add: vl_api_tunterm_acl_add_replace_t_handler_def add_replace_demo_def tunterm_demo_def
      verify_message_len_def update_classify_table_and_sessions_def create_table_def replace_sessions_def
      tunterm_acl_init_def tunterm_acl_redirect_init_def redirect_null_def redirect_demo_def Let_def
      tunterm_acl_redirect_clear_def tunterm_acl_redirect_add_def redirect_entry_def
      tunterm_acl_redirect_find_def tunterm_acl_redirect_stack_def pool_elt_def pool_set_def demo_family)

lemma demo_attach:
  assumes "classify_table_index_is_v6 sm = [False, False, False, False]"
    and "classify_table_index_by_sw_if_index_v4 sm = []" and "classify_table_index_by_sw_if_index_v6 sm = []"
  shows "vl_api_tunterm_acl_interface_add_del_t_handler tunterm_demo (feature_counts bad) attach_demo (sm, im, no_features) =
    Some (let (rv, w) = tunterm_bypass_enable_disable (feature_counts bad) 2 True no_features
      in (rv, sm\<lparr>classify_table_index_by_sw_if_index_v6 := [-1, -1, -1],
        classify_table_index_by_sw_if_index_v4 := [-1, -1, 3]\<rparr>, im, w))"
  using assms vectors_grown
  by (simp add: vl_api_tunterm_acl_interface_add_del_t_handler_def tunterm_demo_def attach_demo_def Let_def
      split_def feature_counts_def no_features_def)

lemma demo_bypass:
  "tunterm_bypass_enable_disable (feature_counts bad) 2 True no_features =
     (if (''ip4-unicast'', ''tunterm-ip4-vxlan-bypass'', 2) \<in> bad then (API_ERROR_EXT (-1), no_features)
      else (RV_OK, no_features((''ip4-unicast'', ''tunterm-ip4-vxlan-bypass'', 2) := 1)))"
  by (simp add: tunterm_bypass_enable_disable_def feature_counts_def count_call_def no_features_def Let_def)

section \<open>Requests that succeed\<close>

text \<open>A successful add-replace went through the common part.\<close>

lemma add_replace_ok:
  assumes "vl_api_tunterm_acl_add_replace_t_handler A E mp (sm, im, w) = Some (RV_OK, idx, s')"
  shows "\<exists>sm1 w1. replace_sessions A E (ar_is_ipv6 mp) (clib_net_to_host_u32 (ar_count mp)) (ar_rules mp)
    (clib_net_to_host_u32 idx) (sm1, im, w1) = Some (RV_OK, s')"
  using assms
  by (auto simp: vl_api_tunterm_acl_add_replace_t_handler_def update_classify_table_and_sessions_def
      create_table_def split_def Let_def split: if_splits option.splits sum.splits) blast+

lemma request_pairs:
  "map (\<lambda>r. (request_key r, request_session r)) (map (rule_request A v6 t) rules) =
     map (\<lambda>r. ((t, rule_match A v6 r), (family_type v6, 0))) rules"
  by (simp add: request_key_def request_session_def rule_request_def family_type_def)

lemma replace_sessions_exact:
  assumes "pool_ok E" and "chain_ok E" and "redirect_inv im"
    and "replace_sessions A E v6 n rules t (sm, im, w) = Some (RV_OK, sm', im', w')"
  shows "sessions im' = (\<lambda>(t', m). if t' = t then None else sessions im (t', m)) ++
      map_of (rev (map (\<lambda>r. ((t, rule_match A v6 r), (family_type v6, 0))) (take (unat n) rules)))"
    and "unat n \<le> length rules" and "\<forall>r\<in>set (take (unat n) rules). rule_dst_af r = (if v6 then 1 else 0)"
    and "0 < n \<Longrightarrow> classify_table_index_is_v6 sm' ! unat t = v6"
proof -
  obtain s1 where c: "tunterm_acl_redirect_clear E t (im, w) = Some (RV_OK, s1)"
    and a: "add_rules A E v6 t (unat n) rules s1 = Some (RV_OK, im', w')" and sm: "sm' = sm"
    using assms(4) by (auto simp: replace_sessions_def split: if_splits option.splits)
  note seq = add_rules_seq [OF a]
  have "(case (im', w') of (im, w) \<Rightarrow> sessions im) = (\<lambda>k. if fst k = t then None else
      (case (im, w) of (im, w) \<Rightarrow> sessions im) k) ++
      map_of (rev (map (\<lambda>r. (request_key r, request_session r)) (map (rule_request A v6 t) (take (unat n) rules))))"
    using seq assms(1-3) by (intro redirect_table.replace_law(1) [OF _ c]) simp_all
  then show "sessions im' = (\<lambda>(t', m). if t' = t then None else sessions im (t', m)) ++
      map_of (rev (map (\<lambda>r. ((t, rule_match A v6 r), (family_type v6, 0))) (take (unat n) rules)))"
    unfolding request_pairs by (simp add: split_def cong: if_cong)
  show "unat n \<le> length rules" "\<forall>r\<in>set (take (unat n) rules). rule_dst_af r = (if v6 then 1 else 0)"
    using seq by simp_all
  show "0 < n \<Longrightarrow> classify_table_index_is_v6 sm' ! unat t = v6"
    using assms(4) sm by (auto simp: replace_sessions_def split: if_splits)
qed

lemma clear_unknown:
  assumes "redirect_inv im" and "sessions_ok tabs fam im" and "t \<notin> tabs"
  shows "tunterm_acl_redirect_clear E t (im, w) = Some (RV_OK, im, w)"
proof -
  have "ipr_table_index ipr \<noteq> t" if "i < length (ipr_pool im)" "ipr_pool im ! i = Some ipr" for i ipr
  proof
    assume "ipr_table_index ipr = t"
    moreover have p: "pool_elt im i = Some ipr" using that by (simp add: pool_elt_def)
    ultimately obtain m where "match_and_table_index ipr = m @ u32_bytes t"
      using redirect_invD(2) [OF assms(1) p] by auto
    then have "session_by_match_and_table_index im (m @ u32_bytes t) = Some i"
      using redirect_invD(1) [OF assms(1)] p by blast
    then have "sessions im (t, m) = Some (ipr_payload_type ipr, ipr_opaque_index ipr)"
      using p by (simp add: sessions_eq)
    with assms(2,3) show False unfolding sessions_ok_def by blast
  qed
  then have "filter (\<lambda>i. case ipr_pool im ! i of None \<Rightarrow> False | Some ipr \<Rightarrow> ipr_table_index ipr = t)
      [0..<length (ipr_pool im)] = []"
    by (auto simp: filter_empty_conv split: option.split)
  then show ?thesis by (simp add: tunterm_acl_redirect_clear_def)
qed

section \<open>Attachments\<close>

lemma attached_grow:
  "attached (sm\<lparr>classify_table_index_by_sw_if_index_v6 := vec_grow (classify_table_index_by_sw_if_index_v6 sm) i (-1),
     classify_table_index_by_sw_if_index_v4 := vec_grow (classify_table_index_by_sw_if_index_v4 sm) i (-1)\<rparr>) =
   attached sm"
  by (auto simp: attached_def fun_eq_iff nth_vec_grow)

lemma attached_update:
  fixes sm sw t defines "v4 \<equiv> vec_grow (classify_table_index_by_sw_if_index_v4 sm) (unat sw) (-1)"
    and "v6 \<equiv> vec_grow (classify_table_index_by_sw_if_index_v6 sm) (unat sw) (-1)"
  shows "attached (sm\<lparr>classify_table_index_by_sw_if_index_v4 := v4,
      classify_table_index_by_sw_if_index_v6 := v6[unat sw := t]\<rparr>) = (attached sm)((True, sw) := t)"
    and "attached (sm\<lparr>classify_table_index_by_sw_if_index_v6 := v6,
      classify_table_index_by_sw_if_index_v4 := v4[unat sw := t]\<rparr>) = (attached sm)((False, sw) := t)"
  by (auto simp: attached_def fun_eq_iff nth_vec_grow nth_list_update v4_def v6_def word_unat_eq_iff)

lemma attached_entry:
  "vec_grow (classify_table_index_by_sw_if_index_v4 sm) (unat sw) (-1) ! unat sw = attached sm (False, sw)"
  "vec_grow (classify_table_index_by_sw_if_index_v6 sm) (unat sw) (-1) ! unat sw = attached sm (True, sw)"
  by (simp_all add: attached_def nth_vec_grow)

text \<open>Where the bypass node is enabled an existing table is attached.\<close>

lemma attached_where_enabled:
  assumes "tun_inv F tabs (sm, im, w)" and "enabled F w (''ip4-unicast'', ''tunterm-ip4-vxlan-bypass'', i)"
  shows "attached sm (False, i) \<in> tabs \<or> attached sm (True, i) \<in> tabs"
proof -
  let ?v4 = "classify_table_index_by_sw_if_index_v4 sm" and ?v6 = "classify_table_index_by_sw_if_index_v6 sm"
  have i: "attached_ok tabs (classify_table_index_is_v6 sm) False ?v4"
    "attached_ok tabs (classify_table_index_is_v6 sm) True ?v6" "bypass_ok (enabled F w) ?v4 ?v6"
    using assms(1) by (simp_all add: tun_inv_iff)
  then have "unat i < length ?v4" "unat i < length ?v6" "?v4 ! unat i \<noteq> -1 \<or> ?v6 ! unat i \<noteq> -1"
    using assms(2) by (auto simp: bypass_ok_def)
  with i(1,2) show ?thesis by (auto simp: attached_def attached_ok_def)
qed

text \<open>A table is attached in the vector of its own family only.\<close>

lemma attached_family:
  assumes "tun_inv F tabs (sm, im, w)" and "t \<noteq> -1"
  shows "attached sm (\<not> classify_table_index_is_v6 sm ! unat t, sw) \<noteq> t"
proof
  let ?f = "classify_table_index_is_v6 sm ! unat t"
  let ?v = "if ?f then classify_table_index_by_sw_if_index_v4 sm else classify_table_index_by_sw_if_index_v6 sm"
  assume "attached sm (\<not> ?f, sw) = t"
  then have "t \<in> set ?v" using assms(2) by (auto simp: attached_def Let_def split: if_splits)
  then show False using assms by (auto simp: tun_inv_iff attached_ok_def split: if_splits)
qed

text \<open>What an attach to an existing interface does.\<close>

lemma attach_spec:
  assumes "tunterm_env_ok A E F" and "tun_inv F tabs (sm, im, w)" and "t \<in> tabs"
    and "\<not> tunterm_sw_is_free_index A sw"
  shows "\<exists>rv sm' w'. vl_api_tunterm_acl_interface_add_del_t_handler A F \<lparr>iad_is_add = True,
      iad_sw_if_index = clib_host_to_net_u32 sw, iad_tunterm_acl_index = clib_host_to_net_u32 t\<rparr> (sm, im, w) =
      Some (rv, sm', im, w') \<and>
    classify_table_index_is_v6 sm' = classify_table_index_is_v6 sm \<and>
    attached sm' = (attached sm)((classify_table_index_is_v6 sm ! unat t, sw) := t) \<and>
    (rv = RV_OK \<longrightarrow> enabled F w' (''ip4-unicast'', ''tunterm-ip4-vxlan-bypass'', sw)) \<and>
    (\<forall>k. k \<noteq> (''ip4-unicast'', ''tunterm-ip4-vxlan-bypass'', sw) \<longrightarrow> enabled F w' k = enabled F w k)"
proof -
  have F: "feature_ok (\<lambda>_. True) F" and vec: "vec_validate_u32 A v i e = vec_grow v i e" for v i e
    using assms(1) by (simp_all add: tunterm_env_ok_def vec_ok_def)
  have t: "t \<noteq> -1" "unat t < length (classify_table_index_is_v6 sm)" using assms(2,3) by (auto simp: tun_inv_iff)
  obtain rv w' where b: "tunterm_bypass_enable_disable F sw True w = (rv, w')" by fastforce
  show ?thesis
    using bypass_call [OF F b] t assms(4) b
    by (cases "classify_table_index_is_v6 sm ! unat t"; cases "vnet_feature_is_enabled F ''ip4-unicast''
        ''tunterm-ip4-vxlan-bypass'' sw w"; cases "rv = RV_OK")
      (simp_all add: vl_api_tunterm_acl_interface_add_del_t_handler_def Let_def vec attached_grow
        attached_update feature_is_enabled [OF F] enabled_def count_call_def)
qed

section \<open>Requests that are answered\<close>

lemma add_replace_answered:
  assumes env: "tunterm_env_ok A E F" and inv: "tun_inv F tabs (sm, im, w)"
    and ix: "clib_net_to_host_u32 (ar_tunterm_acl_index mp) \<in> insert (-1) tabs" and fit: "rules_fit A mp"
  shows "vl_api_tunterm_acl_add_replace_t_handler A E mp (sm, im, w) \<noteq> None"
proof (cases "verify_message_len (ar_msg_length mp)
    (sizeof_add_replace A + ucast (clib_net_to_host_u32 (ar_count mp)) * sizeof_rule A)")
  case True
  let ?n = "clib_net_to_host_u32 (ar_count mp)" and ?ix = "clib_net_to_host_u32 (ar_tunterm_acl_index mp)"
  have n: "unat ?n \<le> length (ar_rules mp)"
    using verify_message_len_sound [OF fit _ _ True] env by (simp add: tunterm_env_ok_def)
  have e: "pool_ok E" "chain_ok E" "redirect_quiet E (feature_refs F)" "redirect_inv im"
    using env inv by (simp_all add: tunterm_env_ok_def tun_inv_iff)
  have r: "replace_sessions A E v6 ?n (ar_rules mp) t (sm', im, w') \<noteq> None"
    if "unat t < length (classify_table_index_is_v6 sm')" for v6 t sm' w'
    using replace_sessions_inv [OF e n that, of A v6 w'] by auto
  let ?c = "if ?ix = -1 then create_table A (ar_is_ipv6 mp) sm w else Inr (?ix, sm, w)"
  have c: "unat t < length (classify_table_index_is_v6 sm')" if "?c = Inr (t, sm', w')" for t sm' w'
    using that ix inv env
    by (auto simp: create_table_def tun_inv_iff tunterm_env_ok_def vec_ok_def split_def Let_def split: if_splits)
  have "update_classify_table_and_sessions A E (ar_is_ipv6 mp) ?n (ar_rules mp) ?ix (sm, im, w) \<noteq> None"
  proof (cases ?c)
    case (Inr p)
    obtain t sm' w' where p: "p = (t, sm', w')" by (metis prod_cases3)
    then show ?thesis using r [OF c [OF Inr [unfolded p]], of "ar_is_ipv6 mp" w'] Inr
      by (auto simp: update_classify_table_and_sessions_def)
  qed (auto simp: update_classify_table_and_sessions_def)
  with True show ?thesis by (auto simp: vl_api_tunterm_acl_add_replace_t_handler_def Let_def)
qed (simp add: vl_api_tunterm_acl_add_replace_t_handler_def Let_def)

lemma del_answered:
  assumes "tunterm_env_ok A E F" and inv: "tun_inv F tabs (sm, im, w)"
    and "clib_net_to_host_u32 t \<in> insert (-1) tabs"
  shows "vl_api_tunterm_acl_del_t_handler A E t (sm, im, w) \<noteq> None"
proof -
  have "redirect_inv im" using inv by (simp add: tun_inv_iff)
  from redirect_clear_spec [OF this, of E "clib_net_to_host_u32 t" w] obtain rv im' w' where
    "tunterm_acl_redirect_clear E (clib_net_to_host_u32 t) (im, w) = Some (rv, im', w')" by blast
  with assms show ?thesis by (auto simp: vl_api_tunterm_acl_del_t_handler_def tun_inv_iff Let_def)
qed

lemma attach_answered:
  assumes "tunterm_env_ok A E F" and "tun_inv F tabs (sm, im, w)"
    and "clib_net_to_host_u32 (iad_tunterm_acl_index mi) \<in> insert (-1) tabs"
  shows "vl_api_tunterm_acl_interface_add_del_t_handler A F mi (sm, im, w) \<noteq> None"
  using assms
  by (auto simp: vl_api_tunterm_acl_interface_add_del_t_handler_def tun_inv_iff split_def Let_def)

lemma demo_created:
  "\<exists>sm im. vl_api_tunterm_acl_add_replace_t_handler tunterm_demo redirect_null add_replace_demo
      (tunterm_acl_init redirect_null 9 no_features) = Some (RV_OK, clib_host_to_net_u32 3, sm, im, no_features) \<and>
    tun_config tunterm_demo redirect_null (feature_counts bad) no_features {3} (sm, im, no_features) \<and>
    tun_inv (feature_counts bad) {3} (sm, im, no_features) \<and> classify_table_index_is_v6 sm = [False, False, False, False] \<and>
    classify_table_index_by_sw_if_index_v4 sm = [] \<and> classify_table_index_by_sw_if_index_v6 sm = []"
proof -
  obtain sm im where c: "vl_api_tunterm_acl_add_replace_t_handler tunterm_demo redirect_null add_replace_demo
      (tunterm_acl_init redirect_null 9 no_features) = Some (RV_OK, clib_host_to_net_u32 3, sm, im, no_features)"
    "classify_table_index_is_v6 sm = [False, False, False, False]"
    "classify_table_index_by_sw_if_index_v4 sm = []" "classify_table_index_by_sw_if_index_v6 sm = []"
    using demo_add_replace by blast
  have "tun_config tunterm_demo redirect_null (feature_counts bad) no_features {3} (sm, im, no_features)"
    using tun_config.create [OF tun_config.init c(1) add_replace_demo_fits, where F = "feature_counts bad"]
    by (simp add: add_replace_demo_def)
  with tun_config_inv [OF this tunterm_demo_ok demo_off] c show ?thesis by blast
qed

lemma demo_attached_config:
  "\<exists>sm im w. tun_config tunterm_demo redirect_null (feature_counts {}) no_features {3} (sm, im, w) \<and>
     classify_table_index_by_sw_if_index_v4 sm = [-1, -1, 3] \<and>
     w = no_features((''ip4-unicast'', ''tunterm-ip4-vxlan-bypass'', 2) := 1)"
proof -
  let ?cfg = "tun_config tunterm_demo redirect_null (feature_counts {}) no_features"
  obtain sm im where 1: "?cfg {3} (sm, im, no_features)" "classify_table_index_is_v6 sm = [False, False, False, False]"
    "classify_table_index_by_sw_if_index_v4 sm = []" "classify_table_index_by_sw_if_index_v6 sm = []"
    using demo_created [of "{}"] by blast
  have "vl_api_tunterm_acl_interface_add_del_t_handler tunterm_demo (feature_counts {}) attach_demo (sm, im, no_features) =
      Some (RV_OK, sm\<lparr>classify_table_index_by_sw_if_index_v6 := [-1, -1, -1],
        classify_table_index_by_sw_if_index_v4 := [-1, -1, 3]\<rparr>, im,
        no_features((''ip4-unicast'', ''tunterm-ip4-vxlan-bypass'', 2) := 1))"
    using demo_attach [OF 1(2-4)] by (simp add: demo_bypass)
  from tun_config.attach [OF 1(1) this] have "?cfg {3} (sm\<lparr>classify_table_index_by_sw_if_index_v6 := [-1, -1, -1],
        classify_table_index_by_sw_if_index_v4 := [-1, -1, 3]\<rparr>, im,
        no_features((''ip4-unicast'', ''tunterm-ip4-vxlan-bypass'', 2) := 1))" by (simp add: attach_demo_def)
  then show ?thesis by fastforce
qed

lemma demo_attached:
  "\<exists>sm im w. tun_inv (feature_counts {}) {3} (sm, im, w) \<and> classify_table_index_by_sw_if_index_v4 sm = [-1, -1, 3] \<and>
     enabled (feature_counts {}) w (''ip4-unicast'', ''tunterm-ip4-vxlan-bypass'', 2) \<and>
     w = no_features((''ip4-unicast'', ''tunterm-ip4-vxlan-bypass'', 2) := 1)"
proof -
  obtain sm im w where c: "tun_config tunterm_demo redirect_null (feature_counts {}) no_features {3} (sm, im, w)"
    "classify_table_index_by_sw_if_index_v4 sm = [-1, -1, 3]"
    "w = no_features((''ip4-unicast'', ''tunterm-ip4-vxlan-bypass'', 2) := 1)"
    using demo_attached_config by blast
  from tun_config_inv [OF c(1) tunterm_demo_ok demo_off] c(2,3) show ?thesis
    by (auto simp: enabled_def)
qed

section \<open>Properties\<close>

text \<open>C4: In every history of API messages and FIB back walks, from clients that name only ACLs they created, an
  attached table exists and has the address family of the vector it is attached in, the two attachment
  vectors have the same length, the bypass node is enabled only where a table is attached and within both
  vectors and then once only, so that a single call switches it off, and redirect sessions exist only for existing tables, with the family of their table.\<close>

theorem tunterm_acl_config_invariant:
  assumes "tun_config A E F w0 tabs s" and "tunterm_env_ok A E F"
    and "\<forall>i. \<not> enabled F w0 (''ip4-unicast'', ''tunterm-ip4-vxlan-bypass'', i)"
  shows "tun_inv F tabs s"
  using tun_config_inv [OF assms] .

theorem tunterm_acl_config_invariant_witness:
  "\<exists>sm im w. tun_config tunterm_demo redirect_null (feature_counts {}) no_features {3} (sm, im, w) \<and>
     classify_table_index_by_sw_if_index_v4 sm = [-1, -1, 3] \<and>
     tun_inv (feature_counts {}) {3} (sm, im, w)"
proof -
  obtain sm im w where 1: "tun_config tunterm_demo redirect_null (feature_counts {}) no_features {3} (sm, im, w)"
    "classify_table_index_by_sw_if_index_v4 sm = [-1, -1, 3]"
    using demo_attached_config by blast
  with tunterm_acl_config_invariant [OF 1(1) tunterm_demo_ok demo_off] show ?thesis by blast
qed

text \<open>C34: Requests that follow the API stay in bounds: in a state that satisfies the invariant every message that
  creates an ACL or names an existing one (or the reserved index) is answered; the rules read lie within
  the message, and the vectors are indexed within their length.\<close>

theorem tunterm_acl_valid_requests_answered:
  assumes "tunterm_env_ok A E F" and "tun_inv F tabs s"
  shows "(clib_net_to_host_u32 (ar_tunterm_acl_index mp) \<in> insert (-1) tabs \<longrightarrow> rules_fit A mp \<longrightarrow>
      vl_api_tunterm_acl_add_replace_t_handler A E mp s \<noteq> None) \<and>
    (clib_net_to_host_u32 t \<in> insert (-1) tabs \<longrightarrow> vl_api_tunterm_acl_del_t_handler A E t s \<noteq> None) \<and>
    (clib_net_to_host_u32 (iad_tunterm_acl_index mi) \<in> insert (-1) tabs \<longrightarrow>
      vl_api_tunterm_acl_interface_add_del_t_handler A F mi s \<noteq> None)"
proof -
  obtain sm im w where s: "s = (sm, im, w)" by (metis prod_cases3)
  show ?thesis
    using add_replace_answered [OF assms(1) assms(2) [unfolded s], of mp]
      del_answered [OF assms(1) assms(2) [unfolded s], of t]
      attach_answered [OF assms(1) assms(2) [unfolded s], of mi] s by simp
qed

theorem tunterm_acl_valid_requests_answered_witness:
  "vl_api_tunterm_acl_add_replace_t_handler tunterm_demo redirect_null add_replace_demo
    (tunterm_acl_init redirect_null 9 no_features) \<noteq> None"
proof -
  have "clib_net_to_host_u32 (ar_tunterm_acl_index add_replace_demo) = -1" by (simp add: add_replace_demo_def)
  then show ?thesis
    using tunterm_acl_valid_requests_answered [OF tunterm_demo_ok demo_init_inv [of "{}"], of add_replace_demo 0
        attach_demo] add_replace_demo_fits by blast
qed

text \<open>C36: A request that names an ACL index beyond the recorded tables is not rejected: attaching it to an existing
  interface, detaching it, deleting it, or replacing it with at least one rule indexes the family vector
  outside its bounds.\<close>

theorem tunterm_acl_unknown_index_out_of_bounds:
  assumes "tunterm_env_ok A E F" and "tun_inv F tabs (sm, im, w)"
    and "length (classify_table_index_is_v6 sm) \<le> unat t" and "t \<noteq> -1"
    and "\<not> tunterm_sw_is_free_index A sw" and "0 < n"
    and "verify_message_len len (sizeof_add_replace A + ucast n * sizeof_rule A)"
  shows "vl_api_tunterm_acl_interface_add_del_t_handler A F \<lparr>iad_is_add = is_add,
      iad_sw_if_index = clib_host_to_net_u32 sw, iad_tunterm_acl_index = clib_host_to_net_u32 t\<rparr> (sm, im, w) =
      None \<and>
    vl_api_tunterm_acl_add_replace_t_handler A E \<lparr>ar_tunterm_acl_index = clib_host_to_net_u32 t,
      ar_is_ipv6 = is_ipv6, ar_count = clib_host_to_net_u32 n, ar_rules = rules, ar_msg_length = len\<rparr>
      (sm, im, w) = None \<and>
    vl_api_tunterm_acl_del_t_handler A E (clib_host_to_net_u32 t) (sm, im, w) = None"
proof -
  have t: "t \<notin> tabs" using assms(2,3) by (auto simp: tun_inv_iff)
  then have "tunterm_acl_redirect_clear E t (im, w) = Some (RV_OK, im, w)"
    using clear_unknown [of im tabs "classify_table_index_is_v6 sm"] assms(2) by (simp add: tun_inv_iff)
  moreover from t have "t \<notin> set (classify_table_index_by_sw_if_index_v4 sm)"
    "t \<notin> set (classify_table_index_by_sw_if_index_v6 sm)"
    using assms(2,4) by (auto simp: tun_inv_iff attached_ok_def)
  ultimately show ?thesis using assms(3-7)
    by (simp add: vl_api_tunterm_acl_interface_add_del_t_handler_def vl_api_tunterm_acl_add_replace_t_handler_def
        vl_api_tunterm_acl_del_t_handler_def update_classify_table_and_sessions_def replace_sessions_def Let_def)
qed

theorem tunterm_acl_unknown_index_out_of_bounds_witness:
  "vl_api_tunterm_acl_interface_add_del_t_handler tunterm_demo (feature_counts {})
     \<lparr>iad_is_add = True, iad_sw_if_index = clib_host_to_net_u32 2, iad_tunterm_acl_index = clib_host_to_net_u32 5\<rparr>
     (tunterm_acl_init redirect_null 9 no_features) = None"
proof -
  obtain sm im w where i: "tunterm_acl_init redirect_null 9 no_features = (sm, im, w)"
    by (metis prod_cases3)
  then have "classify_table_index_is_v6 sm = []" by (auto simp: tunterm_acl_init_def)
  with tunterm_acl_unknown_index_out_of_bounds [OF tunterm_demo_ok demo_init_inv [of "{}", unfolded i], of 5 2 1 120]
  show ?thesis by (simp add: i tunterm_demo_def verify_message_len_def)
qed

text \<open>
  Deleting an ACL is refused, with nothing changed, while it is attached to an interface. When it reports
  success no session of the table is left and the sessions of the other tables, the attachments and the
  enabled features are untouched.\<close>

theorem tunterm_acl_del_correct:
  assumes "tunterm_env_ok A E F" and "tun_inv F tabs (sm, im, w)" and "t \<in> tabs"
  shows "\<exists>rv sm' im' w'. vl_api_tunterm_acl_del_t_handler A E (clib_host_to_net_u32 t) (sm, im, w) =
      Some (rv, sm', im', w') \<and>
    (if t \<in> set (classify_table_index_by_sw_if_index_v4 sm) \<union> set (classify_table_index_by_sw_if_index_v6 sm)
     then rv = VNET_API_ERROR_RSRC_IN_USE \<and> (sm', im', w') = (sm, im, w)
     else (\<forall>t' m. t' \<noteq> t \<longrightarrow> sessions im' (t', m) = sessions im (t', m)) \<and>
       (rv = RV_OK \<longrightarrow> (\<forall>m. sessions im' (t, m) = None)) \<and>
       classify_table_index_by_sw_if_index_v4 sm' = classify_table_index_by_sw_if_index_v4 sm \<and>
       classify_table_index_by_sw_if_index_v6 sm' = classify_table_index_by_sw_if_index_v6 sm \<and>
       feature_refs F w' = feature_refs F w)"
proof -
  have im: "redirect_inv im" and t: "t \<noteq> -1" "unat t < length (classify_table_index_is_v6 sm)"
    using assms(2,3) by (auto simp: tun_inv_iff)
  obtain rv im' w' where c: "tunterm_acl_redirect_clear E t (im, w) = Some (rv, im', w')"
    "\<forall>t' m. t' \<noteq> t \<longrightarrow> sessions im' (t', m) = sessions im (t', m)"
    "rv = RV_OK \<longrightarrow> (\<forall>m. sessions im' (t, m) = None)"
    using redirect_clear_spec [OF im, of E t w] by metis
  have "feature_refs F w' = feature_refs F w"
    using quiet_clear [OF _ c(1), of "feature_refs F"] assms(1) by (simp add: tunterm_env_ok_def)
  with c t assms(1) show ?thesis
    by (auto simp: vl_api_tunterm_acl_del_t_handler_def tunterm_env_ok_def table_quiet_def Let_def)
qed

theorem tunterm_acl_del_correct_witness:
  "\<exists>sm im w rv s'. vl_api_tunterm_acl_add_replace_t_handler tunterm_demo redirect_null add_replace_demo
      (tunterm_acl_init redirect_null 9 no_features) =
      Some (RV_OK, clib_host_to_net_u32 3, sm, im, w) \<and>
    vl_api_tunterm_acl_del_t_handler tunterm_demo redirect_null (clib_host_to_net_u32 3) (sm, im, w) =
      Some (rv, s')"
proof -
  obtain sm im where c: "vl_api_tunterm_acl_add_replace_t_handler tunterm_demo redirect_null
      add_replace_demo (tunterm_acl_init redirect_null 9 no_features) = Some (RV_OK, clib_host_to_net_u32 3, sm, im, no_features)"
    "tun_inv (feature_counts {}) {3} (sm, im, no_features)" using demo_created [of "{}"] by blast
  with tunterm_acl_del_correct [OF tunterm_demo_ok c(2), of 3] show ?thesis by fastforce
qed

text \<open>Attaching an existing ACL to an interface records it in the vector of its family, leaves the attachment of
  the other family and those of all other interfaces alone, and when it reports success the bypass node is
  enabled there.\<close>

theorem tunterm_acl_attach_correct:
  assumes "tunterm_env_ok A E F" and "tun_inv F tabs (sm, im, w)" and "t \<in> tabs"
    and "\<not> tunterm_sw_is_free_index A sw"
  shows "\<exists>rv sm' w'. vl_api_tunterm_acl_interface_add_del_t_handler A F \<lparr>iad_is_add = True,
      iad_sw_if_index = clib_host_to_net_u32 sw, iad_tunterm_acl_index = clib_host_to_net_u32 t\<rparr> (sm, im, w) =
      Some (rv, sm', im, w') \<and>
    classify_table_index_is_v6 sm' = classify_table_index_is_v6 sm \<and>
    attached sm' = (attached sm)((classify_table_index_is_v6 sm ! unat t, sw) := t) \<and>
    (rv = RV_OK \<longrightarrow> enabled F w' (''ip4-unicast'', ''tunterm-ip4-vxlan-bypass'', sw)) \<and>
    (\<forall>k. k \<noteq> (''ip4-unicast'', ''tunterm-ip4-vxlan-bypass'', sw) \<longrightarrow> enabled F w' k = enabled F w k)"
  by (rule attach_spec [OF assms])

theorem tunterm_acl_attach_correct_witness:
  "\<exists>sm im w rv sm' w'. vl_api_tunterm_acl_add_replace_t_handler tunterm_demo redirect_null add_replace_demo
      (tunterm_acl_init redirect_null 9 no_features) = Some (RV_OK, clib_host_to_net_u32 3, sm, im, w) \<and>
    vl_api_tunterm_acl_interface_add_del_t_handler tunterm_demo (feature_counts {}) attach_demo (sm, im, w) =
      Some (rv, sm', im, w') \<and> attached sm' (False, 2) = 3"
proof -
  obtain sm im w where c: "vl_api_tunterm_acl_add_replace_t_handler tunterm_demo redirect_null
      add_replace_demo (tunterm_acl_init redirect_null 9 no_features) = Some (RV_OK, clib_host_to_net_u32 3, sm, im, w)"
    "tun_inv (feature_counts {}) {3} (sm, im, w)" "classify_table_index_is_v6 sm = [False, False, False, False]"
    using demo_created [of "{}"] by blast
  from tunterm_acl_attach_correct [OF tunterm_demo_ok c(2), of 3 2]
  have "\<exists>rv sm' w'. vl_api_tunterm_acl_interface_add_del_t_handler tunterm_demo (feature_counts {}) attach_demo
      (sm, im, w) = Some (rv, sm', im, w') \<and> attached sm' = (attached sm)((False, 2) := 3)"
    by (auto simp: attach_demo_def tunterm_demo_def c(3))
  with c(1) show ?thesis by fastforce
qed

text \<open>Detaching an ACL that is not attached to the interface in either family is refused. Otherwise, when the
  call reports success, the attachment of the ACL's family is gone and everything else attached is kept;
  the bypass node is switched off exactly when no table was attached for one of the families, so it stays
  on while the other family still has a table. A failed feature call leaves the attachments as they were.\<close>

theorem tunterm_acl_detach_correct:
  assumes "tunterm_env_ok A E F" and "tun_inv F tabs (sm, im, w)" and "t \<in> tabs"
    and "\<not> tunterm_sw_is_free_index A sw"
  shows "\<exists>rv sm' w'. vl_api_tunterm_acl_interface_add_del_t_handler A F \<lparr>iad_is_add = False,
      iad_sw_if_index = clib_host_to_net_u32 sw, iad_tunterm_acl_index = clib_host_to_net_u32 t\<rparr> (sm, im, w) =
      Some (rv, sm', im, w') \<and>
    (if attached sm (classify_table_index_is_v6 sm ! unat t, sw) \<noteq> t
     then rv = VNET_API_ERROR_INVALID_VALUE_2 \<and> attached sm' = attached sm \<and> w' = w
     else attached sm' = (if rv = RV_OK then (attached sm)((classify_table_index_is_v6 sm ! unat t, sw) := -1)
         else attached sm) \<and>
       (if attached sm (\<not> classify_table_index_is_v6 sm ! unat t, sw) = -1
        then (rv, w') = tunterm_bypass_enable_disable F sw False w else rv = RV_OK \<and> w' = w))"
proof -
  have vec: "vec_validate_u32 A v i e = vec_grow v i e" for v i e
    using assms(1) by (simp add: tunterm_env_ok_def vec_ok_def)
  have t: "t \<noteq> -1" "unat t < length (classify_table_index_is_v6 sm)" using assms(2,3) by (auto simp: tun_inv_iff)
  obtain rv w' where b: "tunterm_bypass_enable_disable F sw False w = (rv, w')" by fastforce
  have other: "attached sm (\<not> classify_table_index_is_v6 sm ! unat t, sw) \<noteq> t"
    using assms(2) t(1) by (rule attached_family)
  show ?thesis
    using t assms(4) b other
    by (cases "classify_table_index_is_v6 sm ! unat t"; cases "rv = RV_OK")
      (auto simp: vl_api_tunterm_acl_interface_add_del_t_handler_def Let_def vec attached_grow
        attached_update attached_entry)
qed

theorem tunterm_acl_detach_correct_witness:
  "\<exists>sm im rv sm' w'. vl_api_tunterm_acl_add_replace_t_handler tunterm_demo redirect_null add_replace_demo
      (tunterm_acl_init redirect_null 9 no_features) = Some (RV_OK, clib_host_to_net_u32 3, sm, im, no_features) \<and>
    vl_api_tunterm_acl_interface_add_del_t_handler tunterm_demo (feature_counts {}) \<lparr>iad_is_add = False,
      iad_sw_if_index = clib_host_to_net_u32 2, iad_tunterm_acl_index = clib_host_to_net_u32 3\<rparr> (sm, im, no_features) =
      Some (rv, sm', im, w') \<and> rv = VNET_API_ERROR_INVALID_VALUE_2"
proof -
  obtain sm im where c: "vl_api_tunterm_acl_add_replace_t_handler tunterm_demo redirect_null
      add_replace_demo (tunterm_acl_init redirect_null 9 no_features) =
        Some (RV_OK, clib_host_to_net_u32 3, sm, im, no_features)"
    "tun_inv (feature_counts {}) {3} (sm, im, no_features)" "classify_table_index_by_sw_if_index_v4 sm = []"
    "classify_table_index_by_sw_if_index_v6 sm = []"
    using demo_created [of "{}"] by blast
  have "attached sm k \<noteq> 3" for k using c(3,4) by (simp add: attached_def split_def)
  then show ?thesis
    using tunterm_acl_detach_correct [OF tunterm_demo_ok c(2), of 3 2] c(1) by (auto simp: tunterm_demo_def)
qed

text \<open>C35: Attaching an existing ACL to an interface records it in the vector of its family, leaves the attachment of
  the other family and those of all other interfaces alone, and when it reports success the bypass node is enabled
  there. Detaching an ACL that is not attached to the interface is refused; otherwise, when the call reports success,
  the attachment of the ACL's family is gone and everything else attached is kept, and the bypass node is switched off
  exactly when the other family has no table there; a failed feature call leaves the attachments as they were.\<close>

theorem tunterm_acl_interface_add_del_correct:
  assumes "tunterm_env_ok A E F" and "tun_inv F tabs (sm, im, w)" and "t \<in> tabs"
    and "\<not> tunterm_sw_is_free_index A sw"
  shows "(\<exists>rv sm' w'. vl_api_tunterm_acl_interface_add_del_t_handler A F \<lparr>iad_is_add = True,
        iad_sw_if_index = clib_host_to_net_u32 sw, iad_tunterm_acl_index = clib_host_to_net_u32 t\<rparr> (sm, im, w) =
        Some (rv, sm', im, w') \<and>
      classify_table_index_is_v6 sm' = classify_table_index_is_v6 sm \<and>
      attached sm' = (attached sm)((classify_table_index_is_v6 sm ! unat t, sw) := t) \<and>
      (rv = RV_OK \<longrightarrow> enabled F w' (''ip4-unicast'', ''tunterm-ip4-vxlan-bypass'', sw)) \<and>
      (\<forall>k. k \<noteq> (''ip4-unicast'', ''tunterm-ip4-vxlan-bypass'', sw) \<longrightarrow> enabled F w' k = enabled F w k)) \<and>
    (\<exists>rv sm' w'. vl_api_tunterm_acl_interface_add_del_t_handler A F \<lparr>iad_is_add = False,
        iad_sw_if_index = clib_host_to_net_u32 sw, iad_tunterm_acl_index = clib_host_to_net_u32 t\<rparr> (sm, im, w) =
        Some (rv, sm', im, w') \<and>
      (if attached sm (classify_table_index_is_v6 sm ! unat t, sw) \<noteq> t
       then rv = VNET_API_ERROR_INVALID_VALUE_2 \<and> attached sm' = attached sm \<and> w' = w
       else attached sm' = (if rv = RV_OK then (attached sm)((classify_table_index_is_v6 sm ! unat t, sw) := -1)
           else attached sm) \<and>
         (if attached sm (\<not> classify_table_index_is_v6 sm ! unat t, sw) = -1
          then (rv, w') = tunterm_bypass_enable_disable F sw False w else rv = RV_OK \<and> w' = w)))"
  by (intro conjI tunterm_acl_attach_correct [OF assms] tunterm_acl_detach_correct [OF assms])

theorem tunterm_acl_interface_add_del_correct_witness:
  "\<exists>sm im w rv sm' w'. vl_api_tunterm_acl_add_replace_t_handler tunterm_demo redirect_null add_replace_demo
      (tunterm_acl_init redirect_null 9 no_features) = Some (RV_OK, clib_host_to_net_u32 3, sm, im, w) \<and>
    vl_api_tunterm_acl_interface_add_del_t_handler tunterm_demo (feature_counts {}) attach_demo (sm, im, w) =
      Some (rv, sm', im, w') \<and> attached sm' (False, 2) = 3"
proof -
  obtain sm im w where c: "vl_api_tunterm_acl_add_replace_t_handler tunterm_demo redirect_null
      add_replace_demo (tunterm_acl_init redirect_null 9 no_features) = Some (RV_OK, clib_host_to_net_u32 3, sm, im, w)"
    "tun_inv (feature_counts {}) {3} (sm, im, w)" "classify_table_index_is_v6 sm = [False, False, False, False]"
    using demo_created [of "{}"] by blast
  from tunterm_acl_interface_add_del_correct [OF tunterm_demo_ok c(2), of 3 2, THEN conjunct1]
  have "\<exists>rv sm' w'. vl_api_tunterm_acl_interface_add_del_t_handler tunterm_demo (feature_counts {}) attach_demo
      (sm, im, w) = Some (rv, sm', im, w') \<and> attached sm' = (attached sm)((False, 2) := 3)"
    by (auto simp: attach_demo_def tunterm_demo_def c(3))
  with c(1) show ?thesis by fastforce
qed

text \<open>C37: When the feature call of an attach fails, the error is reported but the table stays recorded for the
  interface, so that deleting the ACL is refused from then on as in use.\<close>

theorem tunterm_acl_failed_attach_blocks_delete:
  assumes "tunterm_env_ok A E F" and "tun_inv F tabs (sm, im, w)" and "t \<in> tabs"
    and "vl_api_tunterm_acl_interface_add_del_t_handler A F \<lparr>iad_is_add = True,
      iad_sw_if_index = clib_host_to_net_u32 sw, iad_tunterm_acl_index = clib_host_to_net_u32 t\<rparr> (sm, im, w) =
      Some (rv, s')"
    and "\<not> tunterm_sw_is_free_index A sw" and "rv \<noteq> RV_OK"
  shows "vl_api_tunterm_acl_del_t_handler A E (clib_host_to_net_u32 t) s' = Some (VNET_API_ERROR_RSRC_IN_USE, s')"
proof -
  have t: "t \<noteq> -1" "unat t < length (classify_table_index_is_v6 sm)" using assms(2,3) by (auto simp: tun_inv_iff)
  obtain sm' im' w' where s': "s' = (sm', im', w')" by (metis prod_cases3)
  have vec: "vec_validate_u32 A v i e = vec_grow v i e" for v i e
    using assms(1) by (simp add: tunterm_env_ok_def vec_ok_def)
  have "t \<in> set (classify_table_index_by_sw_if_index_v4 sm') \<or> t \<in> set (classify_table_index_by_sw_if_index_v6 sm')"
    using assms(4,5) t s'
    by (auto simp: vl_api_tunterm_acl_interface_add_del_t_handler_def vec Let_def split_def
        set_update_memI split: if_splits)
  with t s' show ?thesis by (auto simp: vl_api_tunterm_acl_del_t_handler_def)
qed

theorem tunterm_acl_failed_attach_blocks_delete_witness:
  "\<exists>sm im s'. vl_api_tunterm_acl_interface_add_del_t_handler tunterm_demo
      (feature_counts {(''ip4-unicast'', ''tunterm-ip4-vxlan-bypass'', 2)}) attach_demo (sm, im, no_features) =
      Some (API_ERROR_EXT (-1), s') \<and>
    vl_api_tunterm_acl_del_t_handler tunterm_demo redirect_null (clib_host_to_net_u32 3) s' =
      Some (VNET_API_ERROR_RSRC_IN_USE, s')"
proof -
  let ?F = "feature_counts {(''ip4-unicast'', ''tunterm-ip4-vxlan-bypass'', 2)}"
  obtain sm im where c: "tun_inv ?F {3} (sm, im, no_features)" "classify_table_index_is_v6 sm = [False, False, False, False]"
    "classify_table_index_by_sw_if_index_v4 sm = []" "classify_table_index_by_sw_if_index_v6 sm = []"
    using demo_created [of "{(''ip4-unicast'', ''tunterm-ip4-vxlan-bypass'', 2)}"] by blast
  obtain s' where a: "vl_api_tunterm_acl_interface_add_del_t_handler tunterm_demo ?F attach_demo (sm, im, no_features) =
      Some (API_ERROR_EXT (-1), s')"
    using demo_attach [OF c(2-4)] by (simp add: demo_bypass)
  have "vl_api_tunterm_acl_del_t_handler tunterm_demo redirect_null (clib_host_to_net_u32 3) s' =
      Some (VNET_API_ERROR_RSRC_IN_USE, s')"
    using tunterm_acl_failed_attach_blocks_delete [OF tunterm_demo_ok c(1) _ a [unfolded attach_demo_def]]
    by (simp add: tunterm_demo_def)
  with a show ?thesis by blast
qed

end
