(* ===== verification/Tunterm_Classifier.thy ===== *)
theory Tunterm_Classifier
  imports Tunterm_Acl
begin

text \<open>
  What VPP's classifier holds while the tunterm_acl control plane runs: \<open>present w\<close> is the set of (table, match)
  pairs with a session in the VPP state \<open>w\<close>. The classifier never holds a session the plugin does not know, and
  after a successful add-replace a table holds exactly the sessions of the rules.
\<close>

section \<open>Definitions\<close>

text \<open>
  Documented behaviour of the other calls with respect to the sessions: creating a table adds none, deleting
  one only removes sessions, and enabling features and registering node types leave them alone.
\<close>

definition present_ok ::
  "('a, 'ap, 'p, 'w) tunterm_env \<Rightarrow> ('p, 'w) redirect_api \<Rightarrow> 'w feature_api \<Rightarrow> ('w \<Rightarrow> (u32 \<times> u8 list) set) \<Rightarrow> bool" where
  "present_ok A E F present \<longleftrightarrow> classify_ok E present \<and>
     (\<forall>m n k sk v w. present (snd (vnet_classify_add_del_table A m n k sk v w)) = present w) \<and>
     (\<forall>t w. present (vnet_classify_delete_table_index A t w) \<subseteq> present w) \<and>
     (\<forall>arc node i en w. present (snd (vnet_feature_enable_disable F arc node i en w)) = present w) \<and>
     (\<forall>name w. present (snd (fib_node_register_new_type E name w)) = present w)"

text \<open>Every session of the classifier is one of the plugin's, under the table index the key ends in.\<close>

definition session_key :: "u32 \<times> u8 list \<Rightarrow> u32 \<times> u8 list" where
  "session_key = (\<lambda>(t, m). (t, m @ u32_bytes t))"

definition synced :: "('w \<Rightarrow> (u32 \<times> u8 list) set) \<Rightarrow> tunterm_acl_redirect_main \<times> 'w \<Rightarrow> bool" where
  "synced present = (\<lambda>(im, w). present w \<subseteq> session_key ` dom (sessions im))"

definition rule_keys ::
  "('a, 'ap, 'p, 'w) tunterm_env \<Rightarrow> bool \<Rightarrow> u32 \<Rightarrow> ('a, 'ap) tunterm_acl_rule list \<Rightarrow> (u32 \<times> u8 list) set" where
  "rule_keys A v6 t rules = (\<lambda>r. session_key (t, rule_match A v6 r)) ` set rules"

section \<open>Operations on sessions\<close>

lemma inj_session_key: "inj session_key"
  by (auto simp: inj_on_def session_key_def append_u32_bytes_inject)

lemma fst_session_key [simp]: "fst (session_key x) = fst x"
  by (simp add: session_key_def split_def)

lemma add_synced:
  assumes "pool_ok E" and "chain_ok E" and "classify_ok E present" and "redirect_inv im"
    and "synced present (im, w)"
    and a: "tunterm_acl_redirect_add E t 0 (if v6 then DPO_PROTO_IP6 else DPO_PROTO_IP4) m ps (im, w) = Some (rv, im', w')"
  shows "synced present (im', w') \<and> redirect_inv im' \<and>
    present w' = (if rv = RV_OK then insert (session_key (t, m)) (present w) else present w)"
proof -
  let ?proto = "if v6 then DPO_PROTO_IP6 else DPO_PROTO_IP4"
  have "fib_forw_chain_type_from_dpo_proto E ?proto \<in>
      {FIB_FORW_CHAIN_TYPE_UNICAST_IP4, FIB_FORW_CHAIN_TYPE_UNICAST_IP6}"
    using assms(2) by (simp add: chain_ok_def)
  from add_present [OF assms(1,3,4) this a]
  have p: "present w' = (if rv = RV_OK then insert (session_key (t, m)) (present w) else present w)"
    by (simp add: session_key_def)
  have "redirect_inv im' \<and> sessions im' = (sessions im)((t, m) \<mapsto> (family_type v6, 0))"
    using redirect_table.add_law [of E "(im, w)" "(t, v6, m, ps)"] assms(1,2,4) a
    by (auto simp: request_add_def request_key_def request_session_def family_type_def)
  moreover have "synced present (im', w')" if "sessions im' = (sessions im)((t, m) \<mapsto> v)" for v
    using assms(5) that p unfolding synced_def by (cases "rv = RV_OK") auto
  ultimately show ?thesis using p by blast
qed

lemma del_ipr_synced:
  assumes "classify_ok E present" and "redirect_inv im" and "synced present (im, w)"
    and "pool_elt im i = Some ipr" and "ipr_table_index ipr = t"
    and d: "tunterm_acl_redirect_del_ipr E i (im, w) = Some (rv, im', w')"
  shows "synced present (im', w') \<and> (\<forall>t' k. t' \<noteq> t \<longrightarrow> ((t', k) \<in> present w' \<longleftrightarrow> (t', k) \<in> present w))"
proof -
  obtain m where m: "match_and_table_index ipr = m @ u32_bytes t"
    using redirect_invD(2) [OF assms(2,4)] assms(5) by blast
  have p: "present w' = (if rv = RV_OK then present w - {session_key (t, m)} else present w)"
    using d assms(4,5) m classify_quiet [OF assms(1)]
      classify_call(1) [OF assms(1), of t "m @ u32_bytes t" 0 0 0 CLASSIFY_ACTION_NONE 0 False w, OF surjective_pairing]
    by (auto simp: tunterm_acl_redirect_del_ipr_def session_key_def split_def Let_def split: if_splits)
  obtain rv1 im1 w1 where s: "tunterm_acl_redirect_del_ipr E i (im, w) = Some (rv1, im1, w1)"
    "rv1 \<noteq> RV_OK \<Longrightarrow> im1 = im" "rv1 = RV_OK \<Longrightarrow> sessions im1 = (sessions im)((t, m) := None)"
    using redirect_del_ipr_spec [OF assms(2,4) m, of E w] by metis
  then have im': "rv \<noteq> RV_OK \<Longrightarrow> im' = im" "rv = RV_OK \<Longrightarrow> sessions im' = (sessions im)((t, m) := None)"
    using d by auto
  have "session_key ` (D - {(t, m)}) = session_key ` D - {session_key (t, m)}" for D
    using image_set_diff [OF inj_session_key, of D "{(t, m)}"] by simp
  then have "synced present (im', w')"
    using p assms(3) im' unfolding synced_def by (cases "rv = RV_OK") (auto simp: dom_fun_upd)
  with p show ?thesis by (auto simp: session_key_def)
qed

lemma del_all_synced:
  assumes "classify_ok E present" and "redirect_inv im" and "synced present (im, w)" and "table_entries im t is"
    and "del_all E is (im, w) = Some (rv, im', w')"
  shows "synced present (im', w') \<and> (\<forall>t' k. t' \<noteq> t \<longrightarrow> ((t', k) \<in> present w' \<longleftrightarrow> (t', k) \<in> present w))"
  using assms(2-5)
proof (induction "is" arbitrary: im w)
  case (Cons i "is")
  obtain ipr where ipr: "pool_elt im i = Some ipr" "ipr_table_index ipr = t"
    using Cons.prems(3) by (auto simp: table_entries_def)
  obtain m where m: "match_and_table_index ipr = m @ u32_bytes t"
    using redirect_invD(2) [OF Cons.prems(1) ipr(1)] ipr(2) by blast
  obtain rv1 im1 w1 where d: "tunterm_acl_redirect_del_ipr E i (im, w) = Some (rv1, im1, w1)" "redirect_inv im1"
    and "rv1 \<noteq> RV_OK \<Longrightarrow> im1 = im" and "rv1 = RV_OK \<Longrightarrow> sessions im1 = (sessions im)((t, m) := None)"
    and ok: "\<And>j. rv1 = RV_OK \<Longrightarrow> pool_elt im1 j = (if j = i then None else pool_elt im j)"
    using redirect_del_ipr_spec [OF Cons.prems(1) ipr(1) m, of E w] by blast
  note one = del_ipr_synced [OF assms(1) Cons.prems(1,2) ipr d(1)]
  show ?case
  proof (cases "rv1 = RV_OK")
    case True
    then have "table_entries im1 t is" using Cons.prems(3) ok by (auto simp: table_entries_def)
    moreover have "del_all E is (im1, w1) = Some (rv, im', w')" using Cons.prems(4) d(1) True by simp
    ultimately show ?thesis using Cons.IH [OF d(2)] one by blast
  next
    case False
    then show ?thesis using one Cons.prems(4) d(1) by auto
  qed
qed simp

lemma clear_synced:
  assumes "classify_ok E present" and im: "redirect_inv im" and "synced present (im, w)"
    and c: "tunterm_acl_redirect_clear E t (im, w) = Some (rv, im', w')"
  shows "synced present (im', w')" and "\<forall>t' k. t' \<noteq> t \<longrightarrow> ((t', k) \<in> present w' \<longleftrightarrow> (t', k) \<in> present w)"
    and "rv = RV_OK \<Longrightarrow> (t, k) \<notin> present w'"
proof -
  let ?is = "filter (\<lambda>i. case ipr_pool im ! i of None \<Rightarrow> False | Some ipr \<Rightarrow> ipr_table_index ipr = t)
      [0..<length (ipr_pool im)]"
  have "table_entries im t ?is"
    unfolding table_entries_def by (auto simp: pool_elt_def split: option.splits)
  with del_all_synced [OF assms(1-3) this] c
  show s: "synced present (im', w')" and "\<forall>t' k. t' \<noteq> t \<longrightarrow> ((t', k) \<in> present w' \<longleftrightarrow> (t', k) \<in> present w)"
    by (simp_all add: tunterm_acl_redirect_clear_def)
  show "(t, k) \<notin> present w'" if "rv = RV_OK"
  proof
    assume "(t, k) \<in> present w'"
    then obtain m where "sessions im' (t, m) \<noteq> None" using s by (force simp: synced_def session_key_def dom_def)
    moreover have "\<forall>m. sessions im' (t, m) = None" using redirect_clear_spec [OF im, of E t w] c that by auto
    ultimately show False by simp
  qed
qed

lemma add_rules_synced:
  assumes "pool_ok E" and "chain_ok E" and "classify_ok E present" and "redirect_inv im" and "synced present (im, w)"
    and "add_rules A E v6 t n rules (im, w) = Some (rv, im', w')"
  shows "synced present (im', w') \<and> present w' \<subseteq> present w \<union> rule_keys A v6 t (take n rules) \<and>
    present w \<subseteq> present w' \<and> (rv = RV_OK \<longrightarrow> rule_keys A v6 t (take n rules) \<subseteq> present w')"
  using assms(4-6)
proof (induction n arbitrary: rules im w)
  case 0
  then show ?case by (simp add: rule_keys_def)
next
  case (Suc n)
  then obtain r rs where rules: "rules = r # rs" by (cases rules) simp_all
  let ?m = "rule_match A v6 r" and ?proto = "if v6 then DPO_PROTO_IP6 else DPO_PROTO_IP4"
  obtain rv1 path where dec: "fib_api_path_decode A (rule_path r) = (rv1, path)" by fastforce
  show ?case
  proof (cases "rv1 \<noteq> RV_OK \<or> (if v6 then 1 else 0) \<noteq> rule_dst_af r")
    case True
    then have "rv \<noteq> RV_OK \<and> im' = im \<and> w' = w"
      using Suc.prems(3) dec by (cases "rv1 = RV_OK") (auto simp: rules)
    then show ?thesis using Suc.prems(2) by auto
  next
    case False
    then obtain rv2 im2 w2 where a: "tunterm_acl_redirect_add E t 0 ?proto ?m [path] (im, w) = Some (rv2, im2, w2)"
      using Suc.prems(3) dec by (auto simp: rules split: option.splits)
    note one = add_synced [OF assms(1-3) Suc.prems(1,2) a]
    have keys: "rule_keys A v6 t (take (Suc n) rules) =
        insert (session_key (t, ?m)) (rule_keys A v6 t (take n rs))" by (simp add: rules rule_keys_def)
    show ?thesis
    proof (cases "rv2 = RV_OK")
      case True
      then have "add_rules A E v6 t n rs (im2, w2) = Some (rv, im', w')"
        using Suc.prems(3) dec False a by (auto simp: rules)
      from Suc.IH [OF _ _ this] one True keys show ?thesis by auto
    next
      case bad: False
      then have "rv = rv2 \<and> im' = im2 \<and> w' = w2" using Suc.prems(3) dec False a by (auto simp: rules)
      with one bad show ?thesis by auto
    qed
  qed
qed

section \<open>Messages and histories\<close>

lemma replace_synced:
  assumes "pool_ok E" and "chain_ok E" and "classify_ok E present" and "redirect_inv im" and "synced present (im, w)"
    and r: "replace_sessions A E v6 count rules t (sm, im, w) = Some (rv, sm', im', w')"
  shows "synced present (im', w')"
    and "\<forall>t' k. t' \<noteq> t \<longrightarrow> ((t', k) \<in> present w' \<longleftrightarrow> (t', k) \<in> present w)"
    and "rv = RV_OK \<Longrightarrow> {x \<in> present w'. fst x = t} = rule_keys A v6 t (take (unat count) rules)"
proof -
  have fst_key: "fst x = t" if "x \<in> rule_keys A v6 t rs" for x rs using that by (auto simp: rule_keys_def)
  consider (same) "rv \<noteq> RV_OK" "im' = im" "w' = w"
    | (clear) rv1 im1 w1 where "tunterm_acl_redirect_clear E t (im, w) = Some (rv1, im1, w1)"
      "rv1 \<noteq> RV_OK \<and> rv = rv1 \<and> im' = im1 \<and> w' = w1 \<or>
       rv1 = RV_OK \<and> add_rules A E v6 t (unat count) rules (im1, w1) = Some (rv, im', w')"
    using r by (auto simp: replace_sessions_def split: if_splits option.splits)
  then have "synced present (im', w') \<and> (\<forall>t' k. t' \<noteq> t \<longrightarrow> ((t', k) \<in> present w' \<longleftrightarrow> (t', k) \<in> present w)) \<and>
    (rv = RV_OK \<longrightarrow> {x \<in> present w'. fst x = t} = rule_keys A v6 t (take (unat count) rules))"
  proof cases
    case same
    then show ?thesis using assms(5) by simp
  next
    case (clear rv1 im1 w1)
    note c = clear_synced [OF assms(3-5) clear(1)]
    show ?thesis
    proof (cases "rv1 = RV_OK")
      case True
      have "redirect_inv im1" using redirect_clear_spec [OF assms(4), of E t w] clear(1) by auto
      moreover have "add_rules A E v6 t (unat count) rules (im1, w1) = Some (rv, im', w')" using clear(2) True by simp
      ultimately have a: "synced present (im', w')"
        "present w' \<subseteq> present w1 \<union> rule_keys A v6 t (take (unat count) rules)" "present w1 \<subseteq> present w'"
        "rv = RV_OK \<longrightarrow> rule_keys A v6 t (take (unat count) rules) \<subseteq> present w'"
        using add_rules_synced [OF assms(1-3) _ c(1)] by blast+
      have "\<forall>k. (t, k) \<notin> present w1" using c(3) True by blast
      then have "{x \<in> present w'. fst x = t} = rule_keys A v6 t (take (unat count) rules)" if "rv = RV_OK"
        using a(2,4) fst_key that by (auto simp: subset_iff) blast
      moreover have "(t', k) \<in> present w' \<longleftrightarrow> (t', k) \<in> present w1" if "t' \<noteq> t" for t' k
        using a(2,3) fst_key [of "(t', k)"] that by auto
      ultimately show ?thesis using a(1) c(2) by blast
    next
      case False
      then show ?thesis using c(1,2) clear(2) by auto
    qed
  qed
  then show "synced present (im', w')" "\<forall>t' k. t' \<noteq> t \<longrightarrow> ((t', k) \<in> present w' \<longleftrightarrow> (t', k) \<in> present w)"
    "rv = RV_OK \<Longrightarrow> {x \<in> present w'. fst x = t} = rule_keys A v6 t (take (unat count) rules)" by blast+
qed

lemma present_okD:
  assumes "present_ok A E F present"
  shows "classify_ok E present" and "present (snd (vnet_classify_add_del_table A m n k sk v w)) = present w"
    and "present (vnet_classify_delete_table_index A t w) \<subseteq> present w"
    and "present (snd (vnet_feature_enable_disable F arc node i en w)) = present w"
    and "present (snd (fib_node_register_new_type E name w)) = present w"
  using assms by (simp_all add: present_ok_def)

text \<open>The common part of add-replace is reached with the sessions of the classifier unchanged.\<close>

lemma add_replace_present:
  assumes "present_ok A E F present"
    and "vl_api_tunterm_acl_add_replace_t_handler A E mp (sm, im, w) = Some (rv, idx, sm', im', w')"
  shows "im' = im \<and> present w' = present w \<and> rv \<noteq> RV_OK \<or>
    (\<exists>sm1 w1. present w1 = present w \<and>
      replace_sessions A E (ar_is_ipv6 mp) (clib_net_to_host_u32 (ar_count mp)) (ar_rules mp)
        (clib_net_to_host_u32 idx) (sm1, im, w1) = Some (rv, sm', im', w'))"
  using assms(2)
proof (cases rule: add_replace_shape)
  case failed
  with create_table_state [OF failed(5)] present_okD(2) [OF assms(1)] show ?thesis by simp
next
  case (created w1)
  have "present w1 = present w"
    using create_table_state [OF created(1)]
      present_okD(2) [OF assms(1), of "classify_mask (ar_is_ipv6 mp)" 32 "0x800000" 0 1 w] by simp
  with created(3) show ?thesis by blast
qed blast+

lemma add_replace_synced:
  assumes "pool_ok E" and "chain_ok E" and "present_ok A E F present" and "redirect_inv im"
    and "synced present (im, w)"
    and h: "vl_api_tunterm_acl_add_replace_t_handler A E mp (sm, im, w) = Some (rv, idx, sm', im', w')"
  shows "synced present (im', w')"
    and "\<forall>t' k. t' \<noteq> clib_net_to_host_u32 idx \<longrightarrow> ((t', k) \<in> present w' \<longleftrightarrow> (t', k) \<in> present w)"
    and "rv = RV_OK \<Longrightarrow> {x \<in> present w'. fst x = clib_net_to_host_u32 idx} =
      rule_keys A (ar_is_ipv6 mp) (clib_net_to_host_u32 idx)
        (take (unat (clib_net_to_host_u32 (ar_count mp))) (ar_rules mp))"
proof -
  have "synced present (im', w') \<and>
    (\<forall>t' k. t' \<noteq> clib_net_to_host_u32 idx \<longrightarrow> ((t', k) \<in> present w' \<longleftrightarrow> (t', k) \<in> present w)) \<and>
    (rv = RV_OK \<longrightarrow> {x \<in> present w'. fst x = clib_net_to_host_u32 idx} =
      rule_keys A (ar_is_ipv6 mp) (clib_net_to_host_u32 idx)
        (take (unat (clib_net_to_host_u32 (ar_count mp))) (ar_rules mp)))"
    using add_replace_present [OF assms(3) h]
  proof
    assume "im' = im \<and> present w' = present w \<and> rv \<noteq> RV_OK"
    with assms(5) show ?thesis by (simp add: synced_def)
  next
    assume "\<exists>sm1 w1. present w1 = present w \<and>
      replace_sessions A E (ar_is_ipv6 mp) (clib_net_to_host_u32 (ar_count mp)) (ar_rules mp)
        (clib_net_to_host_u32 idx) (sm1, im, w1) = Some (rv, sm', im', w')"
    then obtain sm1 w1 where w1: "present w1 = present w"
      and r: "replace_sessions A E (ar_is_ipv6 mp) (clib_net_to_host_u32 (ar_count mp)) (ar_rules mp)
        (clib_net_to_host_u32 idx) (sm1, im, w1) = Some (rv, sm', im', w')" by blast
    have "synced present (im, w1)" using assms(5) w1 by (simp add: synced_def)
    from replace_synced [OF assms(1,2) present_okD(1) [OF assms(3)] assms(4) this r] w1 show ?thesis by simp
  qed
  then show "synced present (im', w')"
    and "\<forall>t' k. t' \<noteq> clib_net_to_host_u32 idx \<longrightarrow> ((t', k) \<in> present w' \<longleftrightarrow> (t', k) \<in> present w)"
    and "rv = RV_OK \<Longrightarrow> {x \<in> present w'. fst x = clib_net_to_host_u32 idx} =
      rule_keys A (ar_is_ipv6 mp) (clib_net_to_host_u32 idx)
        (take (unat (clib_net_to_host_u32 (ar_count mp))) (ar_rules mp))" by blast+
qed

lemma del_synced:
  assumes "present_ok A E F present" and "redirect_inv im" and "synced present (im, w)"
    and h: "vl_api_tunterm_acl_del_t_handler A E mp (sm, im, w) = Some (rv, sm', im', w')"
  shows "synced present (im', w')"
  using h
proof (cases rule: del_shape)
  case failed
  show ?thesis by (rule clear_synced(1) [OF present_okD(1) [OF assms(1)] assms(2,3) failed(3)])
next
  case (gone w1)
  have "synced present (im', w1)" by (rule clear_synced(1) [OF present_okD(1) [OF assms(1)] assms(2,3) gone(4)])
  then show ?thesis
    unfolding gone(6) using present_okD(3) [OF assms(1), of "clib_net_to_host_u32 mp" w1] by (auto simp: synced_def)
qed (simp add: assms(3))

lemma attach_present:
  assumes "present_ok A E F present"
    and "vl_api_tunterm_acl_interface_add_del_t_handler A F mi (sm, im, w) = Some (rv, sm', im', w')"
  shows "im' = im \<and> present w' = present w"
  using assms(2) present_okD(4) [OF assms(1)]
  by (auto simp: vl_api_tunterm_acl_interface_add_del_t_handler_def tunterm_bypass_enable_disable_def
      split_def Let_def split: if_splits)

lemma back_walk_synced:
  assumes "classify_ok E present" and "redirect_inv im" and "synced present (im, w)"
    and b: "tunterm_acl_redirect_back_walk_notify E i (im, w) = Some (rv, im', w')"
  shows "synced present (im', w')"
proof -
  obtain ipr where ipr: "pool_elt im i = Some ipr"
    using b by (auto simp: tunterm_acl_redirect_back_walk_notify_def split: option.splits)
  obtain m where m: "match_and_table_index ipr = m @ u32_bytes (ipr_table_index ipr)"
    using redirect_invD(2) [OF assms(2) ipr] by blast
  have "sessions im (ipr_table_index ipr, m) \<noteq> None"
    using redirect_invD(1) [OF assms(2), of "m @ u32_bytes (ipr_table_index ipr)" i] ipr m by (simp add: sessions_eq)
  then have k: "(ipr_table_index ipr, match_and_table_index ipr) \<in> session_key ` dom (sessions im)"
    by (force simp: session_key_def m)
  have im': "sessions im' = sessions im" using back_walk_sessions [OF assms(2) ipr, of E w] b by simp
  obtain ipr' where "tunterm_acl_redirect_stack E ipr w = (rv, ipr', w')"
    using b ipr by (auto simp: tunterm_acl_redirect_back_walk_notify_def split_def Let_def prod_eq_iff)
  from stack_present [OF assms(1) this] k im' assms(3) show ?thesis by (auto simp: synced_def)
qed

lemma tun_config_synced:
  assumes "tun_config A E F w0 tabs s" and env: "tunterm_env_ok A E F" and pres: "present_ok A E F present"
    and off: "\<forall>i. \<not> enabled F w0 (''ip4-unicast'', ''tunterm-ip4-vxlan-bypass'', i)" and "present w0 = {}"
  shows "synced present (snd s)"
  using assms(1)
proof (induction rule: tun_config.induct)
  case (init base)
  show ?case using present_okD(5) [OF pres, of "''tunterm-redirect''" w0] assms(5)
    by (simp add: tunterm_acl_init_def tunterm_acl_redirect_init_def synced_def split_def Let_def)
next
  case (replace tabs s mp rv idx s')
  obtain sm im w sm' im' w' where s: "s = (sm, im, w)" "s' = (sm', im', w')" by (metis prod_cases3)
  have "redirect_inv im" using tun_config_inv [OF replace.hyps(1) env off] s by (simp add: tun_inv_iff)
  with add_replace_synced(1) [OF _ _ pres] replace s env show ?case by (simp add: tunterm_env_ok_def)
next
  case (create tabs s mp rv idx s')
  obtain sm im w sm' im' w' where s: "s = (sm, im, w)" "s' = (sm', im', w')" by (metis prod_cases3)
  have "redirect_inv im" using tun_config_inv [OF create.hyps(1) env off] s by (simp add: tun_inv_iff)
  with add_replace_synced(1) [OF _ _ pres] create s env show ?case by (simp add: tunterm_env_ok_def)
next
  case (delete tabs s mp rv s')
  obtain sm im w sm' im' w' where s: "s = (sm, im, w)" "s' = (sm', im', w')" by (metis prod_cases3)
  have "redirect_inv im" using tun_config_inv [OF delete.hyps(1) env off] s by (simp add: tun_inv_iff)
  with del_synced [OF pres] delete s show ?case by simp
next
  case (attach tabs s mi rv s')
  obtain sm im w sm' im' w' where s: "s = (sm, im, w)" "s' = (sm', im', w')" by (metis prod_cases3)
  with attach_present [OF pres, of mi sm im w rv sm' im' w'] attach show ?case by (simp add: synced_def)
next
  case (back_walk tabs sm im w i rv im' w')
  have "redirect_inv im" using tun_config_inv [OF back_walk.hyps(1) env off] by (simp add: tun_inv_iff)
  with back_walk_synced [OF present_okD(1) [OF pres]] back_walk show ?case by simp
qed

end
