(* ===== verification/Tunterm_Tables.thy ===== *)
theory Tunterm_Tables
  imports Tunterm_Classifier
begin

text \<open>
  The classifier as the data plane reads it: the sessions of each table with their actions, and the masks of
  the tables. In every state the API reaches, each existing ACL has a table with the mask of its family, and
  every session redirects.
\<close>

section \<open>Definitions\<close>

text \<open>Documented behaviour: the FIB and DPO calls do not change what \<open>obs\<close> observes.\<close>

definition fib_quiet :: "('p, 'w) redirect_api \<Rightarrow> ('w \<Rightarrow> 'x) \<Rightarrow> bool" where
  "fib_quiet E obs \<longleftrightarrow>
     (\<forall>pl sib w. obs (fib_path_list_child_remove E pl sib w) = obs w) \<and>
     (\<forall>d w. obs (snd (dpo_reset E d w)) = obs w) \<and>
     (\<forall>ps w. obs (snd (fib_path_list_create E ps w)) = obs w) \<and>
     (\<forall>pl ty i w. obs (snd (fib_path_list_child_add E pl ty i w)) = obs w) \<and>
     (\<forall>pl ty fl w. obs (snd (fib_path_list_contribute_forwarding E pl ty fl w)) = obs w) \<and>
     (\<forall>n d d' w. obs (snd (dpo_stack_from_node E n d d' w)) = obs w) \<and>
     (\<forall>name w. obs (snd (fib_node_register_new_type E name w)) = obs w)"

text \<open>
  Documented behaviour of the classifier. \<open>entries w (t, k)\<close> is the next index, the metadata and the action of
  the session with match \<open>k\<close> in table \<open>t\<close>, and \<open>masks w t\<close> the mask of table \<open>t\<close>, if it exists.
\<close>

type_synonym session_entry = "u32 \<times> u32 \<times> classify_action"

definition classifier_ok ::
  "('a, 'ap, 'p, 'w) tunterm_env \<Rightarrow> ('p, 'w) redirect_api \<Rightarrow> 'w feature_api \<Rightarrow>
   ('w \<Rightarrow> u32 \<times> u8 list \<Rightarrow> session_entry option) \<Rightarrow> ('w \<Rightarrow> u32 \<Rightarrow> u8 list option) \<Rightarrow> bool" where
  "classifier_ok A E F entries masks \<longleftrightarrow>
     (\<forall>t k hit opq adv act md is_add w rv w'.
        vnet_classify_add_del_session E t k hit opq adv act md is_add w = (rv, w') \<longrightarrow>
        masks w' = masks w \<and>
        entries w' = (if rv \<noteq> RV_OK then entries w
          else (entries w)((t, k) := (if is_add then Some (hit, md, act) else None))) \<and>
        (\<not> is_add \<and> entries w (t, k) = None \<longrightarrow> rv \<noteq> RV_OK)) \<and>
     (\<forall>m n k sk v w rv t w'. vnet_classify_add_del_table A m n k sk v w = ((rv, t), w') \<longrightarrow>
        entries w' = entries w \<and> masks w' = (if rv = RV_OK then (masks w)(t \<mapsto> m) else masks w)) \<and>
     (\<forall>t w. entries (vnet_classify_delete_table_index A t w) = (\<lambda>(t', k). if t' = t then None else entries w (t', k)) \<and>
        masks (vnet_classify_delete_table_index A t w) = (masks w)(t := None)) \<and>
     (\<forall>arc node i en w. entries (snd (vnet_feature_enable_disable F arc node i en w)) = entries w \<and>
        masks (snd (vnet_feature_enable_disable F arc node i en w)) = masks w) \<and>
     fib_quiet E entries \<and> fib_quiet E masks"

text \<open>Every existing ACL has a table with the mask of its family, and every session redirects.\<close>

definition tables_ok :: "('w \<Rightarrow> u32 \<Rightarrow> u8 list option) \<Rightarrow> u32 set \<Rightarrow> tunterm_acl_main \<Rightarrow> 'w \<Rightarrow> bool" where
  "tables_ok masks tabs sm w \<longleftrightarrow>
     (\<forall>t\<in>tabs. masks w t = Some (classify_mask (classify_table_index_is_v6 sm ! unat t)))"

definition all_redirect :: "('w \<Rightarrow> u32 \<times> u8 list \<Rightarrow> session_entry option) \<Rightarrow> 'w \<Rightarrow> bool" where
  "all_redirect entries w \<longleftrightarrow> (\<forall>x nx md act. entries w x = Some (nx, md, act) \<longrightarrow> act = CLASSIFY_ACTION_SET_METADATA)"

text \<open>A concrete state and environment: the sessions, the masks and the features are kept, the rest is fixed.\<close>

record classifier_state =
  cs_entries :: "u32 \<times> u8 list \<Rightarrow> session_entry option"
  cs_masks :: "u32 \<Rightarrow> u8 list option"
  cs_features :: "feature \<Rightarrow> nat"

definition cs_empty :: classifier_state where
  "cs_empty = \<lparr>cs_entries = Map.empty, cs_masks = Map.empty, cs_features = no_features\<rparr>"

definition cs_redirect :: "(nat, classifier_state) redirect_api" where
  "cs_redirect = redirect_null\<lparr>vnet_classify_add_del_session := (\<lambda>t k hit opq adv act md is_add w.
     if is_add then (RV_OK, w\<lparr>cs_entries := (cs_entries w)((t, k) \<mapsto> (hit, md, act))\<rparr>)
     else if cs_entries w (t, k) = None then (VNET_API_ERROR_NO_SUCH_ENTRY, w)
     else (RV_OK, w\<lparr>cs_entries := (cs_entries w)((t, k) := None)\<rparr>))\<rparr>"

definition cs_tunterm :: "(u8 list, nat, nat, classifier_state) tunterm_env" where
  "cs_tunterm = tunterm_demo
     \<lparr>vnet_classify_add_del_table := (\<lambda>m n k sk v w. ((RV_OK, 3), w\<lparr>cs_masks := (cs_masks w)(3 \<mapsto> m)\<rparr>)),
      vnet_classify_delete_table_index := (\<lambda>t w. w\<lparr>cs_masks := (cs_masks w)(t := None),
        cs_entries := (\<lambda>(t', k). if t' = t then None else cs_entries w (t', k))\<rparr>),
      ip_address_decode := (\<lambda>a. (take 4 (a @ replicate 4 0), take 16 (a @ replicate 16 0)))\<rparr>"

definition cs_feature :: "classifier_state feature_api" where
  "cs_feature =
     (let call = (\<lambda>arc node i en w. (RV_OK, w\<lparr>cs_features := count_call en (arc, node, i) (cs_features w)\<rparr>))
      in \<lparr>vnet_feature_enable_disable = call, vnet_l2_feature_enable_disable = call,
          vnet_feature_is_enabled = (\<lambda>arc node i w. 0 < cs_features w (arc, node, i)), feature_refs = cs_features\<rparr>)"

section \<open>What the classifier promises\<close>

lemma fib_quiet_calls:
  assumes "fib_quiet E obs"
  shows "obs (fib_path_list_child_remove E pl sib w) = obs w"
    and "obs (snd (dpo_reset E d w)) = obs w"
    and "obs (snd (fib_path_list_create E ps w)) = obs w"
    and "obs (snd (fib_path_list_child_add E pl ty i w)) = obs w"
    and "obs (snd (fib_path_list_contribute_forwarding E pl ty' fl w)) = obs w"
    and "obs (snd (dpo_stack_from_node E n d d' w)) = obs w"
    and "obs (snd (fib_node_register_new_type E name w)) = obs w"
  using assms by (simp_all add: fib_quiet_def)

lemma classifier_session:
  assumes "classifier_ok A E F entries masks"
  shows "masks (snd (vnet_classify_add_del_session E t k hit opq adv act md is_add w)) = masks w"
    and "entries (snd (vnet_classify_add_del_session E t k hit opq adv act md is_add w)) =
      (if fst (vnet_classify_add_del_session E t k hit opq adv act md is_add w) \<noteq> RV_OK then entries w
       else (entries w)((t, k) := (if is_add then Some (hit, md, act) else None)))"
    and "\<not> is_add \<Longrightarrow> entries w (t, k) = None \<Longrightarrow>
      fst (vnet_classify_add_del_session E t k hit opq adv act md is_add w) \<noteq> RV_OK"
  using conjunct1 [OF assms [unfolded classifier_ok_def], rule_format, OF surjective_pairing,
      of t k hit opq adv act md is_add w] by simp_all

lemma classifier_tables:
  assumes "classifier_ok A E F entries masks"
  shows "vnet_classify_add_del_table A m n k sk v w = ((rv, t), w') \<Longrightarrow>
      masks w' = (if rv = RV_OK then (masks w)(t \<mapsto> m) else masks w)"
    and "entries (vnet_classify_delete_table_index A t w) = (\<lambda>(t', k). if t' = t then None else entries w (t', k))"
    and "masks (vnet_classify_delete_table_index A t w) = (masks w)(t := None)"
    and "entries (snd (vnet_feature_enable_disable F arc node i en w)) = entries w"
    and "masks (snd (vnet_feature_enable_disable F arc node i en w)) = masks w"
    and "fib_quiet E entries" and "fib_quiet E masks"
    and "entries (snd (vnet_classify_add_del_table A m n k sk v w)) = entries w"
  using assms
  by (simp_all add: classifier_ok_def) (metis prod.collapse)

lemma classifier_present:
  assumes "classifier_ok A E F entries masks"
  shows "present_ok A E F (\<lambda>w. dom (entries w))"
proof -
  note s = classifier_session [OF assms] and t = classifier_tables [OF assms]
  have "classify_ok E (\<lambda>w. dom (entries w))"
    unfolding classify_ok_def
    using fib_quiet_calls [OF t(6)]
  proof (intro conjI allI impI)
    fix ta m hit op adv act md is_add w rv w'
    assume c: "vnet_classify_add_del_session E ta m hit op adv act md is_add w = (rv, w')"
    show "dom (entries w') = (if rv \<noteq> RV_OK then dom (entries w)
        else if is_add then insert (ta, m) (dom (entries w)) else dom (entries w) - {(ta, m)})"
      using s(2) [of ta m hit op adv act md is_add w] c by simp
    show "rv \<noteq> RV_OK" if "\<not> is_add \<and> (ta, m) \<notin> dom (entries w)"
    proof -
      have "entries w (ta, m) = None" using that by (meson domIff)
      then show ?thesis using s(3) [of is_add w ta m hit op adv act md] c that by simp
    qed
  qed simp_all
  moreover have "dom (entries (vnet_classify_delete_table_index A ti w)) \<subseteq> dom (entries w)" for ti w
    unfolding t(2) by (auto simp: dom_def split: if_splits)
  ultimately show ?thesis
    unfolding present_ok_def using t(4,8) fib_quiet_calls(7) [OF t(6)] by simp
qed

lemma masks_quiet:
  assumes "classifier_ok A E F entries masks"
  shows "redirect_quiet E masks"
  unfolding redirect_quiet_def
  using classifier_session(1) [OF assms] fib_quiet_calls [OF classifier_tables(7) [OF assms]] by simp

lemma all_redirect_stable:
  assumes "classifier_ok A E F entries masks"
  shows "redirect_stable E (all_redirect entries)"
proof -
  note s = classifier_session(2) [OF assms] and q = fib_quiet_calls [OF classifier_tables(6) [OF assms]]
  have "all_redirect entries (snd (vnet_classify_add_del_session E t m hit opq adv act md is_add w))"
    if "all_redirect entries w" "is_add \<longrightarrow> act = CLASSIFY_ACTION_SET_METADATA" for t m hit opq adv act md is_add w
    using that unfolding all_redirect_def s by (auto split: if_splits)
  moreover have same: "all_redirect entries w'" if "all_redirect entries w" "entries w' = entries w" for w w'
    using that unfolding all_redirect_def by simp
  ultimately show ?thesis
    unfolding redirect_stable_def by (intro conjI allI impI) (simp, simp, (erule same, rule q)+)
qed

section \<open>Messages and histories\<close>

lemma add_replace_tables:
  assumes cls: "classifier_ok A E F entries masks" and env: "tunterm_env_ok A E F" and inv: "tun_inv F tabs (sm, im, w)"
    and "tables_ok masks tabs sm w" and "all_redirect entries w"
    and h: "vl_api_tunterm_acl_add_replace_t_handler A E mp (sm, im, w) = Some (rv, idx, sm', im', w')"
    and ix: "clib_net_to_host_u32 (ar_tunterm_acl_index mp) \<in> tabs \<or>
      clib_net_to_host_u32 (ar_tunterm_acl_index mp) = -1 \<and> clib_net_to_host_u32 idx \<notin> tabs"
  shows "tables_ok masks (tabs \<union> {clib_net_to_host_u32 idx} - {-1}) sm' w' \<and> all_redirect entries w'"
  using h
proof (cases rule: add_replace_shape)
  case short
  have "tabs \<union> {clib_net_to_host_u32 idx} - {-1} \<subseteq> tabs" using ix short(5) by auto
  with short assms(4,5) show ?thesis by (auto simp: tables_ok_def)
next
  case failed
  obtain t where t: "vnet_classify_add_del_table A (classify_mask (ar_is_ipv6 mp)) 32 0x800000 0 1 w = ((rv, t), w')"
    using create_table_state [OF failed(5)] by (auto simp: prod_eq_iff)
  have "masks w' = masks w" using classifier_tables(1) [OF cls t] failed(1) by simp
  moreover have "entries w' = entries w"
    using classifier_tables(8) [OF cls, of "classify_mask (ar_is_ipv6 mp)" 32 "0x800000" 0 1 w] t by simp
  ultimately show ?thesis using assms(4,5) failed by (simp add: tables_ok_def all_redirect_def)
next
  case (created w1)
  let ?t = "clib_net_to_host_u32 idx"
  have c: "vnet_classify_add_del_table A (classify_mask (ar_is_ipv6 mp)) 32 0x800000 0 1 w = ((RV_OK, ?t), w1)"
    "classify_table_index_is_v6 sm' =
      (vec_grow (classify_table_index_is_v6 sm) (unat ?t) False)[unat ?t := ar_is_ipv6 mp]"
    using create_table_state [OF created(1)] env by (simp_all add: tunterm_env_ok_def vec_ok_def)
  have "masks w1 = (masks w)(?t \<mapsto> classify_mask (ar_is_ipv6 mp))" using classifier_tables(1) [OF cls c(1)] by simp
  moreover have "masks w' = masks w1"
    using stable_replace [OF quiet_stable [OF masks_quiet [OF cls]] refl created(3)] .
  moreover have "classify_table_index_is_v6 sm' ! unat t = classify_table_index_is_v6 sm ! unat t"
    if "t \<in> tabs" "t \<noteq> ?t" for t
  proof -
    have "unat t < length (classify_table_index_is_v6 sm)" using that(1) inv by (simp add: tun_inv_iff)
    with that(2) show ?thesis unfolding c(2) by (simp add: nth_vec_grow word_unat_eq_iff)
  qed
  ultimately have "tables_ok masks (tabs \<union> {?t} - {-1}) sm' w'"
    using assms(4) unfolding tables_ok_def by (auto simp: c(2))
  moreover have "entries w1 = entries w"
    using classifier_tables(8) [OF cls, of "classify_mask (ar_is_ipv6 mp)" 32 "0x800000" 0 1 w] c(1) by simp
  then have "all_redirect entries w1" using assms(5) by (simp add: all_redirect_def)
  from stable_replace [OF all_redirect_stable [OF cls] this created(3)] have "all_redirect entries w'" .
  ultimately show ?thesis by blast
next
  case given
  have "masks w' = masks w" using stable_replace [OF quiet_stable [OF masks_quiet [OF cls]] refl given(4)] .
  moreover have "tabs \<union> {clib_net_to_host_u32 idx} - {-1} \<subseteq> tabs" using ix given(3) by auto
  ultimately have "tables_ok masks (tabs \<union> {clib_net_to_host_u32 idx} - {-1}) sm' w'"
    using assms(4) given(1) by (auto simp: tables_ok_def)
  with stable_replace [OF all_redirect_stable [OF cls] assms(5) given(4)] show ?thesis by blast
qed

lemma del_tables:
  assumes cls: "classifier_ok A E F entries masks" and "tables_ok masks tabs sm w" and "all_redirect entries w"
    and h: "vl_api_tunterm_acl_del_t_handler A E mp (sm, im, w) = Some (rv, sm', im', w')"
  shows "tables_ok masks (if rv = RV_OK then tabs - {clib_net_to_host_u32 mp} else tabs) sm' w' \<and>
    all_redirect entries w'"
proof -
  note m = stable_clear [OF quiet_stable [OF masks_quiet [OF cls]] refl]
    and a = stable_clear [OF all_redirect_stable [OF cls] assms(3)]
  show ?thesis
    using h
  proof (cases rule: del_shape)
    case failed
    with m [OF failed(3)] a [OF failed(3)] assms(2) show ?thesis by (simp add: tables_ok_def)
  next
    case (gone w1)
    have "all_redirect entries w'"
      using a [OF gone(4)] by (auto simp: gone(6) all_redirect_def classifier_tables(2) [OF cls] split: if_splits)
    moreover have "tables_ok masks (tabs - {clib_net_to_host_u32 mp}) sm' w'"
      using assms(2) m [OF gone(4)]
      by (simp add: gone(5,6) tables_ok_def classifier_tables(3) [OF cls] nth_list_update word_unat_eq_iff)
    ultimately show ?thesis using gone(1) by simp
  qed (use assms(2,3) in simp)
qed

lemma attach_tables:
  assumes cls: "classifier_ok A E F entries masks"
    and "vl_api_tunterm_acl_interface_add_del_t_handler A F mi (sm, im, w) = Some (rv, sm', im', w')"
  shows "masks w' = masks w \<and> entries w' = entries w \<and> classify_table_index_is_v6 sm' = classify_table_index_is_v6 sm"
  using assms(2) classifier_tables(4,5) [OF cls]
  by (auto simp: vl_api_tunterm_acl_interface_add_del_t_handler_def tunterm_bypass_enable_disable_def
      split_def Let_def split: if_splits)

lemma tun_config_tables:
  assumes "tun_config A E F w0 tabs s" and env: "tunterm_env_ok A E F" and cls: "classifier_ok A E F entries masks"
    and off: "\<forall>i. \<not> enabled F w0 (''ip4-unicast'', ''tunterm-ip4-vxlan-bypass'', i)" and "entries w0 = Map.empty"
  shows "tables_ok masks tabs (fst s) (snd (snd s)) \<and> all_redirect entries (snd (snd s))"
  using assms(1)
proof (induction rule: tun_config.induct)
  case (init base)
  show ?case using assms(5) fib_quiet_calls(7) [OF classifier_tables(6) [OF cls]]
    by (simp add: tables_ok_def all_redirect_def tunterm_acl_init_def tunterm_acl_redirect_init_def split_def Let_def)
next
  case (replace tabs s mp rv idx s')
  obtain sm im w sm' im' w' where s: "s = (sm, im, w)" "s' = (sm', im', w')" by (metis prod_cases3)
  note inv = tun_config_inv [OF replace.hyps(1) env off]
  have "tables_ok masks (tabs \<union> {clib_net_to_host_u32 idx} - {-1}) sm' w' \<and> all_redirect entries w'"
    using add_replace_tables [OF cls env inv [unfolded s] _ _ replace.hyps(2) [unfolded s]] replace.IH replace.hyps(4) s
    by simp
  moreover have "-1 \<notin> tabs" using inv s by (simp add: tun_inv_iff)
  ultimately show ?case using s by (auto simp: tables_ok_def)
next
  case (create tabs s mp rv idx s')
  obtain sm im w sm' im' w' where s: "s = (sm, im, w)" "s' = (sm', im', w')" by (metis prod_cases3)
  then show ?case
    using add_replace_tables [OF cls env tun_config_inv [OF create.hyps(1) env off, unfolded s] _ _
        create.hyps(2) [unfolded s]] create.IH create.hyps(4,5) by simp
next
  case (delete tabs s mp rv s')
  obtain sm im w sm' im' w' where s: "s = (sm, im, w)" "s' = (sm', im', w')" by (metis prod_cases3)
  then show ?case using del_tables [OF cls, of tabs sm w mp im rv sm' im' w'] delete by simp
next
  case (attach tabs s mi rv s')
  obtain sm im w sm' im' w' where s: "s = (sm, im, w)" "s' = (sm', im', w')" by (metis prod_cases3)
  then show ?case using attach_tables [OF cls attach.hyps(2) [unfolded s]] attach.IH
    by (simp add: tables_ok_def all_redirect_def)
next
  case (back_walk tabs sm im w i rv im' w')
  obtain ipr where "pool_elt im i = Some ipr"
    using back_walk.hyps(2) by (auto simp: tunterm_acl_redirect_back_walk_notify_def split: option.splits)
  then have w': "w' = snd (snd (tunterm_acl_redirect_stack E ipr w))"
    using back_walk.hyps(2) by (auto simp: tunterm_acl_redirect_back_walk_notify_def split_def Let_def)
  have "masks w' = masks w" unfolding w'
    using stable_stack [OF quiet_stable [OF masks_quiet [OF cls], of "masks w"], of w ipr] by simp
  moreover have "all_redirect entries w'" unfolding w'
    using stable_stack [OF all_redirect_stable [OF cls]] back_walk.IH by simp
  ultimately show ?case using back_walk.IH by (simp add: tables_ok_def)
qed

lemma replaced_index:
  assumes "tunterm_env_ok A E F" and "tun_inv F tabs (sm, im, w)"
    and h: "vl_api_tunterm_acl_add_replace_t_handler A E mp (sm, im, w) = Some (RV_OK, idx, sm', im', w')"
    and "clib_net_to_host_u32 (ar_tunterm_acl_index mp) \<in> tabs \<or>
      clib_net_to_host_u32 (ar_tunterm_acl_index mp) = -1 \<and> clib_net_to_host_u32 idx \<notin> tabs"
  shows "clib_net_to_host_u32 idx \<noteq> -1"
  using h
proof (cases rule: add_replace_shape)
  case (created w1)
  with create_table_state [OF created(1)] assms(1) show ?thesis
    by (simp add: tunterm_env_ok_def) (metis fst_conv snd_conv)
next
  case given
  with assms(2,4) show ?thesis by (auto simp: tun_inv_iff)
qed simp_all

text \<open>The classifier after a successful add-replace in a reached state.\<close>

lemma classifier_after_replace:
  assumes cfg: "tun_config A E F w0 tabs (sm, im, w)" and env: "tunterm_env_ok A E F"
    and cls: "classifier_ok A E F entries masks"
    and off: "\<forall>i. \<not> enabled F w0 (''ip4-unicast'', ''tunterm-ip4-vxlan-bypass'', i)" and "entries w0 = Map.empty"
    and h: "vl_api_tunterm_acl_add_replace_t_handler A E mp (sm, im, w) = Some (RV_OK, idx, sm', im', w')"
    and ix: "clib_net_to_host_u32 (ar_tunterm_acl_index mp) \<in> tabs \<or>
      clib_net_to_host_u32 (ar_tunterm_acl_index mp) = -1 \<and> clib_net_to_host_u32 idx \<notin> tabs"
  shows "{k. entries w' (clib_net_to_host_u32 idx, k) \<noteq> None} =
      (\<lambda>r. rule_match A (ar_is_ipv6 mp) r @ u32_bytes (clib_net_to_host_u32 idx)) `
        set (take (unat (clib_net_to_host_u32 (ar_count mp))) (ar_rules mp))"
    and "all_redirect entries w'"
    and "tables_ok masks (insert (clib_net_to_host_u32 idx) tabs) sm' w'"
    and "\<forall>t' k. t' \<noteq> clib_net_to_host_u32 idx \<longrightarrow> (entries w' (t', k) \<noteq> None \<longleftrightarrow> entries w (t', k) \<noteq> None)"
proof -
  let ?t = "clib_net_to_host_u32 idx" and ?rules = "take (unat (clib_net_to_host_u32 (ar_count mp))) (ar_rules mp)"
  note inv = tun_config_inv [OF cfg env off]
  note pres = classifier_present [OF cls]
  have "redirect_inv im" "pool_ok E" "chain_ok E" using inv env by (simp_all add: tun_inv_iff tunterm_env_ok_def)
  moreover have "synced (\<lambda>w. dom (entries w)) (im, w)"
    using tun_config_synced [OF cfg env pres off] assms(5) by simp
  ultimately have s: "\<forall>t' k. t' \<noteq> ?t \<longrightarrow> ((t', k) \<in> dom (entries w') \<longleftrightarrow> (t', k) \<in> dom (entries w))"
    "{x \<in> dom (entries w'). fst x = ?t} = rule_keys A (ar_is_ipv6 mp) ?t ?rules"
    using add_replace_synced(2,3) [OF _ _ pres _ _ h] by blast+
  have "k \<in> {k. entries w' (?t, k) \<noteq> None} \<longleftrightarrow> (?t, k) \<in> rule_keys A (ar_is_ipv6 mp) ?t ?rules" for k
    unfolding s(2) [symmetric] by (simp add: domIff)
  then show "{k. entries w' (?t, k) \<noteq> None} = (\<lambda>r. rule_match A (ar_is_ipv6 mp) r @ u32_bytes ?t) ` set ?rules"
    by (auto simp: rule_keys_def session_key_def)
  show "\<forall>t' k. t' \<noteq> ?t \<longrightarrow> (entries w' (t', k) \<noteq> None \<longleftrightarrow> entries w (t', k) \<noteq> None)"
    using s(1) unfolding domIff .
  have a: "tables_ok masks (tabs \<union> {?t} - {-1}) sm' w' \<and> all_redirect entries w'"
    using add_replace_tables [OF cls env inv _ _ h ix] tun_config_tables [OF cfg env cls off assms(5)] by simp
  then show "all_redirect entries w'" ..
  have "tabs \<union> {?t} - {-1} = insert ?t tabs"
    using replaced_index [OF env inv h ix] inv by (auto simp: tun_inv_iff)
  with a show "tables_ok masks (insert ?t tabs) sm' w'" by simp
qed

section \<open>The concrete environment\<close>

lemma cs_env_ok: "tunterm_env_ok cs_tunterm cs_redirect cs_feature"
  using redirect_null_ok(1,2)
  by (auto simp: tunterm_env_ok_def pool_ok_def chain_ok_def vec_ok_def feature_ok_def redirect_quiet_def
      table_quiet_def enabled_def cs_tunterm_def cs_redirect_def cs_feature_def tunterm_demo_def redirect_null_def
      Let_def fun_eq_iff split: if_splits)

lemma cs_classifier_ok: "classifier_ok cs_tunterm cs_redirect cs_feature cs_entries cs_masks"
  by (auto simp: classifier_ok_def fib_quiet_def cs_tunterm_def cs_redirect_def cs_feature_def tunterm_demo_def
      redirect_null_def Let_def fun_eq_iff split: if_splits)

lemma cs_off: "\<forall>i. \<not> enabled cs_feature cs_empty (''ip4-unicast'', ''tunterm-ip4-vxlan-bypass'', i)"
  by (simp add: enabled_def cs_feature_def cs_empty_def no_features_def Let_def)

lemma rule_match_demo:
  "rule_match cs_tunterm False \<lparr>rule_dst_af = 0, rule_dst = [10, 0, 0, 1], rule_path = 5\<rparr> = [10, 0, 0, 1] @ replicate 12 0"
  by (simp add: rule_match_def cs_tunterm_def tunterm_demo_def bytes_matched_def upt_rec numeral_eq_Suc)

lemma cs_created:
  "\<exists>sm im w. vl_api_tunterm_acl_add_replace_t_handler cs_tunterm cs_redirect add_replace_demo
      (tunterm_acl_init cs_redirect 9 cs_empty) = Some (RV_OK, clib_host_to_net_u32 3, sm, im, w) \<and>
    classify_table_index_is_v6 sm = [False, False, False, False] \<and>
    classify_table_index_by_sw_if_index_v4 sm = [] \<and> classify_table_index_by_sw_if_index_v6 sm = [] \<and>
    w = \<lparr>cs_entries = [(3, ([10, 0, 0, 1] @ replicate 12 0) @ u32_bytes 3) \<mapsto> (3, 5, CLASSIFY_ACTION_SET_METADATA)],
      cs_masks = [3 \<mapsto> classify_mask False], cs_features = no_features\<rparr>"
  using rule_match_demo
  by (simp add: vl_api_tunterm_acl_add_replace_t_handler_def add_replace_demo_def cs_tunterm_def tunterm_demo_def
      verify_message_len_def update_classify_table_and_sessions_def create_table_def replace_sessions_def
      tunterm_acl_init_def tunterm_acl_redirect_init_def cs_redirect_def redirect_null_def redirect_demo_def Let_def
      tunterm_acl_redirect_clear_def tunterm_acl_redirect_add_def redirect_entry_def
      tunterm_acl_redirect_find_def tunterm_acl_redirect_stack_def pool_elt_def pool_set_def demo_family cs_empty_def)

section \<open>Property\<close>

text \<open>C6: When add-replace reports success, the classifier itself holds for the table exactly one session for
  each distinct match among the rules of the message and nothing else (no session of an earlier version of the
  ACL survives), every one of them redirects, the table has the mask of its address family, and the other tables hold the sessions
  they held before.\<close>

theorem tunterm_acl_classifier_exact:
  assumes "tun_config A E F w0 tabs (sm, im, w)" and "tunterm_env_ok A E F" and "classifier_ok A E F entries masks"
    and "\<forall>i. \<not> enabled F w0 (''ip4-unicast'', ''tunterm-ip4-vxlan-bypass'', i)" and "entries w0 = Map.empty"
    and "vl_api_tunterm_acl_add_replace_t_handler A E mp (sm, im, w) = Some (RV_OK, idx, sm', im', w')"
    and "clib_net_to_host_u32 (ar_tunterm_acl_index mp) \<in> tabs \<or>
      clib_net_to_host_u32 (ar_tunterm_acl_index mp) = -1 \<and> clib_net_to_host_u32 idx \<notin> tabs"
  shows "let t = clib_net_to_host_u32 idx; rules = take (unat (clib_net_to_host_u32 (ar_count mp))) (ar_rules mp)
    in {k. entries w' (t, k) \<noteq> None} = (\<lambda>r. rule_match A (ar_is_ipv6 mp) r @ u32_bytes t) ` set rules \<and>
      (\<forall>k nx md act. entries w' (t, k) = Some (nx, md, act) \<longrightarrow> act = CLASSIFY_ACTION_SET_METADATA) \<and>
      masks w' t = Some (classify_mask (classify_table_index_is_v6 sm' ! unat t)) \<and>
      (\<forall>t' k. t' \<noteq> t \<longrightarrow> (entries w' (t', k) \<noteq> None \<longleftrightarrow> entries w (t', k) \<noteq> None))"
  using classifier_after_replace [OF assms] unfolding tables_ok_def all_redirect_def Let_def by blast

theorem tunterm_acl_classifier_exact_witness:
  "\<exists>sm im w. vl_api_tunterm_acl_add_replace_t_handler cs_tunterm cs_redirect add_replace_demo
      (tunterm_acl_init cs_redirect 9 cs_empty) = Some (RV_OK, clib_host_to_net_u32 3, sm, im, w) \<and>
    {k. cs_entries w (3, k) \<noteq> None} = {([10, 0, 0, 1] @ replicate 12 0) @ u32_bytes 3} \<and>
    cs_masks w 3 = Some (classify_mask False)"
proof -
  obtain sm im w where c: "vl_api_tunterm_acl_add_replace_t_handler cs_tunterm cs_redirect add_replace_demo
      (tunterm_acl_init cs_redirect 9 cs_empty) = Some (RV_OK, clib_host_to_net_u32 3, sm, im, w)"
    "classify_table_index_is_v6 sm = [False, False, False, False]" using cs_created by blast
  obtain sm0 im0 w0 where i: "tunterm_acl_init cs_redirect 9 cs_empty = (sm0, im0, w0)" by (metis prod_cases3)
  have cfg: "tun_config cs_tunterm cs_redirect cs_feature cs_empty {} (sm0, im0, w0)"
    using tun_config.init [of cs_tunterm cs_redirect cs_feature cs_empty 9] i by simp
  have "cs_entries cs_empty = Map.empty" by (simp add: cs_empty_def)
  from tunterm_acl_classifier_exact [OF cfg cs_env_ok cs_classifier_ok cs_off this c(1) [unfolded i]]
  have "{k. cs_entries w (3, k) \<noteq> None} = {([10, 0, 0, 1] @ replicate 12 0) @ u32_bytes 3} \<and>
      cs_masks w 3 = Some (classify_mask False)"
    by (simp add: add_replace_demo_def rule_match_demo c(2) Let_def)
  with c(1) show ?thesis by blast
qed

end
