(* ===== verification/Node_Frame.thy ===== *)
theory Node_Frame
  imports Vpp_Env
begin

text \<open>
  What the packet-processing nodes share: a node handles each buffer of its frame in turn, chooses the
  buffer's next index, counts the packet under one of its error counters, and may add a trace record.

  A step yields a \<open>verdict\<close>; \<open>run_node\<close> is the frame loop around it (the
  \<^verbatim>\<open>while (n_left_from > 0)\<close> loop of the node functions, with the per-counter variables of the C code
  gathered in one function). The locale \<open>arc_node\<close> is the contract of a feature-arc node: the counter a
  packet is counted under decides where the packet goes. Every node of the plugins that runs on a
  feature arc interprets it.
\<close>

record ('d, 'b, 't) verdict =
  v_disp :: 'd
  v_next :: u16
  v_buffer :: 'b
  v_trace :: "'t list"

record ('d, 'b, 't) node_result =
  nr_nexts :: "u16 list" \<comment> \<open>argument of \<^verbatim>\<open>vlib_buffer_enqueue_to_next\<close>\<close>
  nr_buffers :: "'b list"
  nr_traces :: "'t list" \<comment> \<open>records added by \<^verbatim>\<open>vlib_add_trace\<close>\<close>
  nr_counts :: "'d \<Rightarrow> u32"

definition tally ::
  "('s \<Rightarrow> 'b \<Rightarrow> 's \<times> ('d, 'b, 't) verdict) \<Rightarrow> 's \<times> ('d \<Rightarrow> u32) \<Rightarrow> 'b \<Rightarrow>
   ('s \<times> ('d \<Rightarrow> u32)) \<times> ('d, 'b, 't) verdict" where
  "tally step sc b =
     (let (s', v) = step (fst sc) b
      in ((s', (snd sc)(v_disp v := snd sc (v_disp v) + 1)), v))"

definition node_output :: "('d \<Rightarrow> u32) \<Rightarrow> ('d, 'b, 't) verdict list \<Rightarrow> ('d, 'b, 't) node_result" where
  "node_output c vs =
     \<lparr>nr_nexts = map v_next vs, nr_buffers = map v_buffer vs,
      nr_traces = concat (map v_trace vs), nr_counts = c\<rparr>"

definition run_node ::
  "('s \<Rightarrow> 'b \<Rightarrow> 's \<times> ('d, 'b, 't) verdict) \<Rightarrow> 's \<Rightarrow> 'b list \<Rightarrow> 's \<times> ('d, 'b, 't) node_result" where
  "run_node step s bs =
     (let ((s', c), vs) = frame_loop (tally step) (s, \<lambda>_. 0) bs in (s', node_output c vs))"

text \<open>The verdicts of a frame, in order, without the counters.\<close>

definition verdicts ::
  "('s \<Rightarrow> 'b \<Rightarrow> 's \<times> ('d, 'b, 't) verdict) \<Rightarrow> 's \<Rightarrow> 'b list \<Rightarrow> ('d, 'b, 't) verdict list" where
  "verdicts step s bs = snd (frame_loop step s bs)"

text \<open>
  \<^verbatim>\<open>if (n_x) vlib_node_increment_counter (vm, node_index, X, n_x);\<close> for the counters of \<open>ds\<close> in order.
\<close>

definition counter_calls :: "'d list \<Rightarrow> ('d \<Rightarrow> u32) \<Rightarrow> ('d \<times> u32) list" where
  "counter_calls ds c = map (\<lambda>d. (d, c d)) (filter (\<lambda>d. c d \<noteq> 0) ds)"

section \<open>The unrolled loop of the validation nodes\<close>

text \<open>
  \<^verbatim>\<open>ip4-validate\<close> and \<^verbatim>\<open>ip6-validate\<close> share the shape of their node function: a check \<open>x1\<close> per packet, an
  array of counts, a loop that handles four buffers per iteration while at least four are left, and a
  loop for the rest. The quad loop traces through a helper after its four checks, the single loop
  traces in place.
\<close>

definition counted ::
  "('b \<Rightarrow> 'd \<times> u16 \<times> 'b) \<Rightarrow> ('d \<Rightarrow> u32) \<Rightarrow> 'b \<Rightarrow> ('d \<Rightarrow> u32) \<times> 'd \<times> u16 \<times> 'b" where
  "counted x1 error_counts b =
     (let (e, next, b') = x1 b in (error_counts(e := error_counts e + 1), e, next, b'))"

fun quad_loop ::
  "('b \<Rightarrow> 'd \<times> u16 \<times> 'b) \<Rightarrow> ('b \<Rightarrow> u16 \<Rightarrow> 't list) \<Rightarrow> bool \<Rightarrow> ('d \<Rightarrow> u32) \<Rightarrow> 'b list \<Rightarrow>
   ('d \<Rightarrow> u32) \<times> ('d, 'b, 't) verdict list \<times> 'b list" where
  "quad_loop x1 trace_one trace error_counts (b0 # b1 # b2 # b3 # bs) =
     (let (error_counts, e0, next0, b0) = counted x1 error_counts b0;
          (error_counts, e1, next1, b1) = counted x1 error_counts b1;
          (error_counts, e2, next2, b2) = counted x1 error_counts b2;
          (error_counts, e3, next3, b3) = counted x1 error_counts b3;
          (t0, t1, t2, t3) =
            (if trace
             then (trace_one b0 next0, trace_one b1 next1, trace_one b2 next2, trace_one b3 next3)
             else ([], [], [], []));
          (error_counts, vs, rest) = quad_loop x1 trace_one trace error_counts bs
      in (error_counts,
          \<lparr>v_disp = e0, v_next = next0, v_buffer = b0, v_trace = t0\<rparr> #
          \<lparr>v_disp = e1, v_next = next1, v_buffer = b1, v_trace = t1\<rparr> #
          \<lparr>v_disp = e2, v_next = next2, v_buffer = b2, v_trace = t2\<rparr> #
          \<lparr>v_disp = e3, v_next = next3, v_buffer = b3, v_trace = t3\<rparr> # vs, rest))"
| "quad_loop x1 trace_one trace error_counts bs = (error_counts, [], bs)"

primrec single_loop ::
  "('b \<Rightarrow> 'd \<times> u16 \<times> 'b) \<Rightarrow> ('b \<Rightarrow> u16 \<Rightarrow> 't list) \<Rightarrow> ('d \<Rightarrow> u32) \<Rightarrow> 'b list \<Rightarrow>
   ('d \<Rightarrow> u32) \<times> ('d, 'b, 't) verdict list" where
  "single_loop x1 trace_in_place error_counts [] = (error_counts, [])"
| "single_loop x1 trace_in_place error_counts (b # bs) =
     (let (error_counts, e, next, b) = counted x1 error_counts b;
          t = trace_in_place b next;
          (error_counts, vs) = single_loop x1 trace_in_place error_counts bs
      in (error_counts, \<lparr>v_disp = e, v_next = next, v_buffer = b, v_trace = t\<rparr> # vs))"

text \<open>One packet without unrolling: the reference for both loops.\<close>

definition validate_step ::
  "('b \<Rightarrow> 'd \<times> u16 \<times> 'b) \<Rightarrow> ('b \<Rightarrow> u16 \<Rightarrow> 't list) \<Rightarrow> bool \<Rightarrow> unit \<Rightarrow> 'b \<Rightarrow>
   unit \<times> ('d, 'b, 't) verdict" where
  "validate_step x1 trace_one trace s b =
     (let (e, next, b') = x1 b
      in (s, \<lparr>v_disp = e, v_next = next, v_buffer = b',
              v_trace = (if trace then trace_one b' next else [])\<rparr>))"

section \<open>Lemmas on frames\<close>

lemma four_list_induct [case_names four short]:
  assumes "\<And>a b c d xs. P xs \<Longrightarrow> P (a # b # c # d # xs)" and "\<And>xs. length xs < 4 \<Longrightarrow> P xs"
  shows "P xs"
proof (induction xs rule: length_induct)
  case (1 xs)
  show ?case
  proof (cases "length xs < 4")
    case False
    then obtain a b c d ys where xs: "xs = a # b # c # d # ys"
      by (metis Suc_le_length_iff not_less numeral_eq_Suc pred_numeral_simps(2) BitM.simps(2)
          eval_nat_numeral)
    with 1 have "P ys" by simp
    with xs assms(1) show ?thesis by simp
  qed (rule assms(2))
qed

lemma quad_loop_short:
  "length bs < 4 \<Longrightarrow> quad_loop x1 trace_one trace c bs = (c, [], bs)"
  by (cases "(x1, trace_one, trace, c, bs)" rule: quad_loop.cases) auto

lemma frame_loop_tally:
  "frame_loop (tally step) (s, c) bs =
     ((fst (frame_loop step s bs),
       \<lambda>d. c d + of_nat (length (filter (\<lambda>v. v_disp v = d) (verdicts step s bs)))),
      verdicts step s bs)"
  by (induction bs arbitrary: s c)
    (auto simp: tally_def verdicts_def split_def Let_def fun_eq_iff)

lemma run_node_verdicts:
  "snd (run_node step s bs) =
     node_output (\<lambda>d. of_nat (length (filter (\<lambda>v. v_disp v = d) (verdicts step s bs))))
       (verdicts step s bs)"
  by (simp add: run_node_def frame_loop_tally)

lemma fst_run_node: "fst (run_node step s bs) = fst (frame_loop step s bs)"
  by (simp add: run_node_def frame_loop_tally)

lemma length_verdicts [simp]: "length (verdicts step s bs) = length bs"
  by (simp add: verdicts_def)

lemma verdicts_Cons:
  "verdicts step s (b # bs) = snd (step s b) # verdicts step (fst (step s b)) bs"
  by (simp add: verdicts_def split_def Let_def)

text \<open>Each verdict is the step's, in some state.\<close>

lemma verdicts_nth:
  assumes "i < length bs"
  shows "\<exists>s'. verdicts step s bs ! i = snd (step s' (bs ! i))"
  using assms
proof (induction bs arbitrary: s i)
  case (Cons b bs)
  then show ?case by (cases i) (auto simp: verdicts_Cons)
qed simp

lemma node_output_sel [simp]:
  "nr_nexts (node_output c vs) = map v_next vs"
  "nr_buffers (node_output c vs) = map v_buffer vs"
  "nr_traces (node_output c vs) = concat (map v_trace vs)"
  "nr_counts (node_output c vs) = c"
  by (simp_all add: node_output_def)

lemma length_run_node [simp]:
  "length (nr_nexts (snd (run_node step s bs))) = length bs"
  "length (nr_buffers (snd (run_node step s bs))) = length bs"
  by (simp_all add: run_node_verdicts)

text \<open>A step without shared state maps over the frame.\<close>

lemma verdicts_stateless:
  assumes "\<And>s b. snd (step s b) = g b"
  shows "verdicts step s bs = map g bs"
  unfolding verdicts_def using assms by (rule frame_loop_map)

text \<open>Every packet is counted exactly once.\<close>

lemma sum_counts_list:
  fixes disp :: "'v \<Rightarrow> 'd::finite"
  shows "(\<Sum>d\<in>UNIV. of_nat (length (filter (\<lambda>v. disp v = d) vs)) :: u32) = of_nat (length vs)"
proof (induction vs)
  case (Cons v vs)
  have "(\<Sum>d\<in>UNIV. of_nat (length (filter (\<lambda>v. disp v = d) (v # vs))) :: u32) =
      (\<Sum>d\<in>UNIV. (if disp v = d then 1 else 0) + of_nat (length (filter (\<lambda>v. disp v = d) vs)))"
    by (rule sum.cong) auto
  also have "\<dots> = 1 + of_nat (length vs)"
    by (simp add: sum.distrib Cons.IH)
  finally show ?case by simp
qed simp

lemma sum_run_node_counts:
  fixes step :: "'s \<Rightarrow> 'b \<Rightarrow> 's \<times> ('d::finite, 'b, 't) verdict"
  shows "(\<Sum>d\<in>UNIV. nr_counts (snd (run_node step s bs)) d) = of_nat (length bs)"
  by (simp add: run_node_verdicts sum_counts_list)

section \<open>The contract of a feature-arc node\<close>

locale arc_node =
  fixes step :: "'s \<Rightarrow> 'b \<Rightarrow> 's \<times> ('d, 'b, 't) verdict"
    and feat :: "'b \<Rightarrow> u16" \<comment> \<open>where the arc continues for this buffer\<close>
    and steer :: "'d \<Rightarrow> u16 option" \<comment> \<open>the counters that take a packet off the arc\<close>
  assumes dispatch: "v_next (snd (step s b)) =
    (case steer (v_disp (snd (step s b))) of None \<Rightarrow> feat b | Some n \<Rightarrow> n)"
begin

lemma verdicts_dispatch:
  "map v_next (verdicts step s bs) =
     map (\<lambda>(b, v). case steer (v_disp v) of None \<Rightarrow> feat b | Some n \<Rightarrow> n) (zip bs (verdicts step s bs))"
proof (induction bs arbitrary: s)
  case (Cons b bs)
  then show ?case by (simp add: dispatch verdicts_Cons)
qed (simp add: verdicts_def)

lemma node_nexts:
  assumes "i < length bs"
  shows "nr_nexts (snd (run_node step s bs)) ! i =
    (case steer (v_disp (verdicts step s bs ! i)) of None \<Rightarrow> feat (bs ! i) | Some n \<Rightarrow> n)"
  using assms by (simp add: run_node_verdicts verdicts_dispatch del: nth_map)
    (simp add: nth_map)

text \<open>A packet that no steering counter counted stays on the arc.\<close>

lemma unsteered_on_arc:
  assumes "i < length bs" and "\<And>d. steer d \<noteq> None \<Longrightarrow> nr_counts (snd (run_node step s bs)) d = 0"
    and "length bs < 2 ^ 32"
  shows "nr_nexts (snd (run_node step s bs)) ! i = feat (bs ! i)"
proof -
  let ?vs = "verdicts step s bs"
  let ?d = "v_disp (?vs ! i)"
  have mem: "?vs ! i \<in> set (filter (\<lambda>v. v_disp v = ?d) ?vs)"
    using assms(1) by simp
  have "length (filter (\<lambda>v. v_disp v = ?d) ?vs) < 2 ^ 32"
    using assms(3) length_filter_le [of "\<lambda>v. v_disp v = ?d" ?vs] by simp
  moreover have "0 < length (filter (\<lambda>v. v_disp v = ?d) ?vs)"
    using mem by (rule length_pos_if_in_set)
  ultimately have "(of_nat (length (filter (\<lambda>v. v_disp v = ?d) ?vs)) :: u32) \<noteq> 0"
    by (simp add: word_of_nat_eq_0_iff nat_dvd_not_less)
  with assms(2) [of ?d] have "steer ?d = None"
    by (cases "steer ?d") (auto simp: run_node_verdicts)
  then show ?thesis using node_nexts [OF assms(1)] by simp
qed

end

section \<open>The contract of the unrolled loop\<close>

text \<open>
  The two loops of a validation node agree with the reference when they trace alike. The lemma on the
  whole node function is proved once here, for both nodes.
\<close>

locale unrolled_node =
  fixes x1 :: "'b \<Rightarrow> 'd \<times> u16 \<times> 'b"
    and trace_one :: "'b \<Rightarrow> u16 \<Rightarrow> 't list"
    and trace_in_place :: "'b \<Rightarrow> u16 \<Rightarrow> 't list"
    and trace :: bool
  assumes same_trace: "trace_in_place b n = (if trace then trace_one b n else [])"
begin

lemma tally_validate_step:
  "tally (validate_step x1 trace_one trace) ((), c) b =
     (let (c', e, n, b') = counted x1 c b
      in (((), c'), \<lparr>v_disp = e, v_next = n, v_buffer = b', v_trace = trace_in_place b' n\<rparr>))"
  by (simp add: tally_def validate_step_def counted_def same_trace split_def Let_def)

lemma single_loop_frame:
  "single_loop x1 trace_in_place c bs =
     (let ((_, c'), vs) = frame_loop (tally (validate_step x1 trace_one trace)) ((), c) bs
      in (c', vs))"
  by (induction bs arbitrary: c) (auto simp: tally_validate_step split_def Let_def)

lemma loops_frame:
  "(let (c', vs, rest) = quad_loop x1 trace_one trace c bs;
        (c'', ws) = single_loop x1 trace_in_place c' rest
    in (c'', vs @ ws)) =
   (let ((_, c'), vs) = frame_loop (tally (validate_step x1 trace_one trace)) ((), c) bs
    in (c', vs))"
proof (induction bs arbitrary: c rule: four_list_induct)
  case (four b0 b1 b2 b3 bs)
  obtain c0 e0 n0 b0' where 0: "counted x1 c b0 = (c0, e0, n0, b0')" by (metis prod_cases4)
  obtain c1 e1 n1 b1' where 1: "counted x1 c0 b1 = (c1, e1, n1, b1')" by (metis prod_cases4)
  obtain c2 e2 n2 b2' where 2: "counted x1 c1 b2 = (c2, e2, n2, b2')" by (metis prod_cases4)
  obtain c3 e3 n3 b3' where 3: "counted x1 c2 b3 = (c3, e3, n3, b3')" by (metis prod_cases4)
  from four [of c3] show ?case
    by (simp add: 0 1 2 3 tally_validate_step same_trace split_def Let_def)
next
  case (short bs)
  then show ?case
    by (simp add: quad_loop_short single_loop_frame split_def Let_def)
qed

end

end
