(* ===== verification/Speculative_Frame.thy ===== *)
theory Speculative_Frame
  imports Node_Frame
begin

text \<open>
  The dispatch loop of the tunterm_acl nodes: they enqueue each packet speculatively to the next frame of
  the last packet's next node and let VPP's macros correct the choice. The loops are generic in what is
  done with a packet; the two nodes instantiate them.

  The frames themselves are VPP's: a state \<open>'f\<close> the nodes touch only through the calls below. A packet is a
  buffer index with the buffer it stands for.
\<close>

section \<open>Environment\<close>

record 'f frame_api =
  vlib_get_next_frame :: "u32 \<Rightarrow> 'f \<Rightarrow> nat \<times> 'f" \<comment> \<open>\<^verbatim>\<open>n_left_to_next\<close>\<close>
  to_next_put :: "u32 \<Rightarrow> 'f \<Rightarrow> 'f" \<comment> \<open>\<^verbatim>\<open>to_next[0] = bi0; to_next += 1\<close>\<close>
  vlib_validate_buffer_enqueue_x1 :: "u32 \<Rightarrow> nat \<Rightarrow> u32 \<Rightarrow> u32 \<Rightarrow> 'f \<Rightarrow> (u32 \<times> nat) \<times> 'f"
    \<comment> \<open>next_index, n_left_to_next, bi0, next0; the first two are updated\<close>
  vlib_validate_buffer_enqueue_x2 :: "u32 \<Rightarrow> nat \<Rightarrow> u32 \<Rightarrow> u32 \<Rightarrow> u32 \<Rightarrow> u32 \<Rightarrow> 'f \<Rightarrow> (u32 \<times> nat) \<times> 'f"
    \<comment> \<open>next_index, n_left_to_next, bi0, bi1, next0, next1\<close>
  vlib_put_next_frame :: "u32 \<Rightarrow> nat \<Rightarrow> 'f \<Rightarrow> 'f"

text \<open>
  Documented behaviour, with \<open>sent f\<close> the packets handed to each next node so far: a frame obtained has room
  for a packet, and after the corrections each packet stored speculatively is on the frame of its own next
  node.
\<close>

definition frames_ok :: "'f frame_api \<Rightarrow> ('f \<Rightarrow> (u32 \<times> u32) list) \<Rightarrow> bool" where
  "frames_ok P sent \<longleftrightarrow>
     (\<forall>ni f. 0 < fst (vlib_get_next_frame P ni f) \<and> sent (snd (vlib_get_next_frame P ni f)) = sent f) \<and>
     (\<forall>ni n bi0 next0 f. sent (snd (vlib_validate_buffer_enqueue_x1 P ni n bi0 next0 (to_next_put P bi0 f))) =
        sent f @ [(bi0, next0)]) \<and>
     (\<forall>ni n bi0 bi1 next0 next1 f.
        sent (snd (vlib_validate_buffer_enqueue_x2 P ni n bi0 bi1 next0 next1
          (to_next_put P bi1 (to_next_put P bi0 f)))) = sent f @ [(bi0, next0), (bi1, next1)]) \<and>
     (\<forall>ni n f. sent (vlib_put_next_frame P ni n f) = sent f)"

section \<open>Loops\<close>

type_synonym 'b packet = "u32 \<times> 'b"

type_synonym ('b, 'o, 's, 'f) filled = "u32 \<times> nat \<times> 'b packet list \<times> 'o list \<times> 's \<times> 'f"
  \<comment> \<open>next_index, n_left_to_next, the packets left, the outputs of those handled, the states\<close>

text \<open>\<^verbatim>\<open>while (n_left_from > 0 && n_left_to_next > 0)\<close>\<close>

fun fill_x1 ::
  "'f frame_api \<Rightarrow> ('s \<Rightarrow> 'b \<Rightarrow> 's \<times> 'o) \<Rightarrow> ('o \<Rightarrow> u32) \<Rightarrow> u32 \<Rightarrow> nat \<Rightarrow> 'b packet list \<Rightarrow> 's \<Rightarrow> 'f \<Rightarrow>
   ('b, 'o, 's, 'f) filled" where
  "fill_x1 P step next_of next_index (Suc n) ((bi0, b0) # ps) s f =
     (let f = to_next_put P bi0 f;
          (s, o0) = step s b0;
          ((next_index, n), f) = vlib_validate_buffer_enqueue_x1 P next_index n bi0 (next_of o0) f;
          (next_index, n, ps, os, s, f) = fill_x1 P step next_of next_index n ps s f
      in (next_index, n, ps, o0 # os, s, f))"
| "fill_x1 P step next_of next_index n ps s f = (next_index, n, ps, [], s, f)"

text \<open>\<^verbatim>\<open>while (n_left_from >= 4 && n_left_to_next >= 2)\<close>\<close>

fun fill_x2 ::
  "'f frame_api \<Rightarrow> ('s \<Rightarrow> 'b \<Rightarrow> 'b \<Rightarrow> 's \<times> 'o \<times> 'o) \<Rightarrow> ('o \<Rightarrow> u32) \<Rightarrow> u32 \<Rightarrow> nat \<Rightarrow> 'b packet list \<Rightarrow> 's \<Rightarrow> 'f \<Rightarrow>
   ('b, 'o, 's, 'f) filled" where
  "fill_x2 P step2 next_of next_index (Suc (Suc n)) ((bi0, b0) # (bi1, b1) # p2 # p3 # ps) s f =
     (let f = to_next_put P bi1 (to_next_put P bi0 f);
          (s, o0, o1) = step2 s b0 b1;
          ((next_index, n), f) =
            vlib_validate_buffer_enqueue_x2 P next_index n bi0 bi1 (next_of o0) (next_of o1) f;
          (next_index, n, ps, os, s, f) = fill_x2 P step2 next_of next_index n (p2 # p3 # ps) s f
      in (next_index, n, ps, o0 # o1 # os, s, f))"
| "fill_x2 P step2 next_of next_index n ps s f = (next_index, n, ps, [], s, f)"

definition fill_x2_x1 ::
  "'f frame_api \<Rightarrow> ('s \<Rightarrow> 'b \<Rightarrow> 'b \<Rightarrow> 's \<times> 'o \<times> 'o) \<Rightarrow> ('s \<Rightarrow> 'b \<Rightarrow> 's \<times> 'o) \<Rightarrow> ('o \<Rightarrow> u32) \<Rightarrow> u32 \<Rightarrow> nat \<Rightarrow>
   'b packet list \<Rightarrow> 's \<Rightarrow> 'f \<Rightarrow> ('b, 'o, 's, 'f) filled" where
  "fill_x2_x1 P step2 step next_of next_index n ps s f =
     (let (next_index, n, ps, os, s, f) = fill_x2 P step2 next_of next_index n ps s f;
          (next_index, n, ps, os', s, f) = fill_x1 P step next_of next_index n ps s f
      in (next_index, n, ps, os @ os', s, f))"

text \<open>
  The outer loop \<^verbatim>\<open>while (n_left_from > 0)\<close> around the inner loops \<open>fill\<close>. A frame without room would make it run
  forever, which is the value \<open>None\<close>.
\<close>

partial_function (option) dispatch_frames ::
  "'f frame_api \<Rightarrow> (u32 \<Rightarrow> nat \<Rightarrow> 'b packet list \<Rightarrow> 's \<Rightarrow> 'f \<Rightarrow> ('b, 'o, 's, 'f) filled) \<Rightarrow> u32 \<Rightarrow>
   'b packet list \<Rightarrow> 's \<Rightarrow> 'f \<Rightarrow> ('o list \<times> 's \<times> 'f) option" where
  "dispatch_frames P fill next_index ps s f =
     (if ps = [] then Some ([], s, f)
      else let (n, f) = vlib_get_next_frame P next_index f;
               (next_index, n, ps, os, s, f) = fill next_index n ps s f;
               f = vlib_put_next_frame P next_index n f
           in Option.bind (dispatch_frames P fill next_index ps s f) (\<lambda>(os', s, f). Some (os @ os', s, f)))"

text \<open>A concrete environment: frames with room for \<open>cap + 1\<close> packets, and the packets sent.\<close>

definition frames_demo :: "nat \<Rightarrow> (u32 \<times> u32) list frame_api" where
  "frames_demo cap =
     \<lparr>vlib_get_next_frame = (\<lambda>ni f. (Suc cap, f)), to_next_put = (\<lambda>bi f. f),
      vlib_validate_buffer_enqueue_x1 = (\<lambda>ni n bi0 next0 f.
        ((next0, if next0 = ni then n else cap), f @ [(bi0, next0)])),
      vlib_validate_buffer_enqueue_x2 = (\<lambda>ni n bi0 bi1 next0 next1 f.
        ((ni, n), f @ [(bi0, next0), (bi1, next1)])),
      vlib_put_next_frame = (\<lambda>ni n f. f)\<rparr>"

section \<open>The contract of the inner loops\<close>

text \<open>
  Inner loops that handle a non-empty prefix of the packets one by one, in order, and send each to its own
  next node. The lemma on the outer loop is proved once for both nodes.
\<close>

locale frame_filler =
  fixes P :: "'f frame_api" and sent :: "'f \<Rightarrow> (u32 \<times> u32) list"
    and fill :: "u32 \<Rightarrow> nat \<Rightarrow> 'b packet list \<Rightarrow> 's \<Rightarrow> 'f \<Rightarrow> ('b, 'o, 's, 'f) filled"
    and step :: "'s \<Rightarrow> 'b \<Rightarrow> 's \<times> 'o" and next_of :: "'o \<Rightarrow> u32"
  assumes fill_law: "frames_ok P sent \<Longrightarrow> fill ni n ps s f = (ni', n', rest, os, s', f') \<Longrightarrow>
      \<exists>front. ps = front @ rest \<and> (0 < n \<and> ps \<noteq> [] \<longrightarrow> front \<noteq> []) \<and>
        frame_loop step s (map snd front) = (s', os) \<and>
        sent f' = sent f @ zip (map fst front) (map next_of os)"
begin

lemma dispatch_law:
  assumes ok: "frames_ok P sent"
  shows "\<exists>os s' f'. dispatch_frames P fill ni ps s f = Some (os, s', f') \<and>
    frame_loop step s (map snd ps) = (s', os) \<and> sent f' = sent f @ zip (map fst ps) (map next_of os)"
proof (induction "length ps" arbitrary: ni ps s f rule: less_induct)
  case less
  show ?case
  proof (cases "ps = []")
    case True
    then show ?thesis by (simp add: dispatch_frames.simps)
  next
    case False
    obtain n f1 where g: "vlib_get_next_frame P ni f = (n, f1)" by fastforce
    obtain ni2 n2 rest os s2 f2 where e: "fill ni n ps s f1 = (ni2, n2, rest, os, s2, f2)"
      by (metis prod_cases6)
    have n: "0 < n" "sent f1 = sent f" using ok g unfolding frames_ok_def by (metis fst_conv snd_conv)+
    obtain front where front: "ps = front @ rest" "front \<noteq> []" "frame_loop step s (map snd front) = (s2, os)"
      "sent f2 = sent f1 @ zip (map fst front) (map next_of os)"
      using fill_law [OF ok e] n(1) False by blast
    let ?f3 = "vlib_put_next_frame P ni2 n2 f2"
    have f3: "sent ?f3 = sent f2" using ok by (simp add: frames_ok_def)
    from less [of rest ni2 s2 ?f3] front(1,2) obtain os' s' f' where
      ih: "dispatch_frames P fill ni2 rest s2 ?f3 = Some (os', s', f')"
        "frame_loop step s2 (map snd rest) = (s', os')"
        "sent f' = sent ?f3 @ zip (map fst rest) (map next_of os')" by fastforce
    have len: "length os = length front" using length_frame_loop [of step s "map snd front"] front(3) by simp
    have "dispatch_frames P fill ni ps s f = Some (os @ os', s', f')"
      by (subst dispatch_frames.simps) (simp add: False g e ih(1))
    then show ?thesis
      using front f3 n(2) ih(2,3) len by (simp add: frame_loop_append zip_append)
  qed
qed

end

section \<open>The two inner loops meet the contract\<close>

lemma fill_x1_law:
  assumes ok: "frames_ok P sent" and "fill_x1 P step next_of ni n ps s f = (ni', n', rest, os, s', f')"
  shows "\<exists>front. ps = front @ rest \<and> (0 < n \<and> ps \<noteq> [] \<longrightarrow> front \<noteq> []) \<and>
    frame_loop step s (map snd front) = (s', os) \<and>
    sent f' = sent f @ zip (map fst front) (map next_of os)"
  using assms(2)
proof (induction ps arbitrary: ni n s f os)
  case Nil
  then show ?case by (cases n) auto
next
  case (Cons p ps)
  obtain bi0 b0 where p: "p = (bi0, b0)" by fastforce
  show ?case
  proof (cases n)
    case 0
    then show ?thesis using Cons.prems by auto
  next
    case (Suc k)
    obtain s1 o0 where st: "step s b0 = (s1, o0)" by fastforce
    obtain ni1 n1 f1 where e: "vlib_validate_buffer_enqueue_x1 P ni k bi0 (next_of o0) (to_next_put P bi0 f) =
        ((ni1, n1), f1)" by (metis prod.collapse)
    then have sent: "sent f1 = sent f @ [(bi0, next_of o0)]" using ok by (metis frames_ok_def snd_conv)
    obtain os1 where r: "fill_x1 P step next_of ni1 n1 ps s1 f1 = (ni', n', rest, os1, s', f')" "os = o0 # os1"
      using Cons.prems by (auto simp: p Suc st e Let_def split: prod.splits)
    from Cons.IH [OF r(1)] obtain front where "ps = front @ rest"
      "frame_loop step s1 (map snd front) = (s', os1)"
      "sent f' = sent f1 @ zip (map fst front) (map next_of os1)" by blast
    with sent r(2) st show ?thesis by (intro exI [of _ "p # front"]) (simp add: p)
  qed
qed

lemma fill_x2_law:
  assumes ok: "frames_ok P sent" and "fill_x2 P step2 next_of ni n ps s f = (ni', n', rest, os, s', f')"
    and seq: "\<And>s b0 b1. step2 s b0 b1 =
      (let (s, o0) = step s b0; (s, o1) = step s b1 in (s, o0, o1))"
  shows "\<exists>front. ps = front @ rest \<and> (n = n' \<or> front \<noteq> []) \<and>
    frame_loop step s (map snd front) = (s', os) \<and>
    sent f' = sent f @ zip (map fst front) (map next_of os)"
  using assms(2)
proof (induction "length ps" arbitrary: ni n ps s f os rule: less_induct)
  case less
  show ?case
  proof (cases "\<exists>bi0 b0 bi1 b1 p2 p3 qs k. ps = (bi0, b0) # (bi1, b1) # p2 # p3 # qs \<and> n = Suc (Suc k)")
    case True
    then obtain bi0 b0 bi1 b1 p2 p3 qs k where ps: "ps = (bi0, b0) # (bi1, b1) # p2 # p3 # qs"
      and n: "n = Suc (Suc k)" by blast
    obtain s1 o0 s2 o1 where st: "step s b0 = (s1, o0)" "step s1 b1 = (s2, o1)" by fastforce
    obtain ni1 n1 f1 where e: "vlib_validate_buffer_enqueue_x2 P ni k bi0 bi1 (next_of o0) (next_of o1)
        (to_next_put P bi1 (to_next_put P bi0 f)) = ((ni1, n1), f1)" by (metis prod.collapse)
    then have sent: "sent f1 = sent f @ [(bi0, next_of o0), (bi1, next_of o1)]"
      using ok by (metis frames_ok_def snd_conv)
    obtain os1 where r: "fill_x2 P step2 next_of ni1 n1 (p2 # p3 # qs) s2 f1 = (ni', n', rest, os1, s', f')"
      "os = o0 # o1 # os1"
      using less.prems by (auto simp: ps n st seq e Let_def split: prod.splits)
    from less.hyps [OF _ r(1)] obtain front where "p2 # p3 # qs = front @ rest"
      "frame_loop step s2 (map snd front) = (s', os1)"
      "sent f' = sent f1 @ zip (map fst front) (map next_of os1)" by (auto simp: ps)
    with sent r(2) st show ?thesis
      by (intro exI [of _ "(bi0, b0) # (bi1, b1) # front"]) (simp add: ps)
  next
    case False
    then have "fill_x2 P step2 next_of ni n ps s f = (ni, n, ps, [], s, f)"
      by (cases "(P, step2, next_of, ni, n, ps, s, f)" rule: fill_x2.cases) auto
    then show ?thesis using less.prems by simp
  qed
qed

text \<open>The inner loops of the bypass node: pairs first, then single packets.\<close>

lemma fill_x2_x1_law:
  assumes ok: "frames_ok P sent" and seq: "\<And>s b0 b1. step2 s b0 b1 =
      (let (s, o0) = step s b0; (s, o1) = step s b1 in (s, o0, o1))"
    and "fill_x2_x1 P step2 step next_of ni n ps s f = (ni', n', rest, os, s', f')"
  shows "\<exists>front. ps = front @ rest \<and> (0 < n \<and> ps \<noteq> [] \<longrightarrow> front \<noteq> []) \<and>
    frame_loop step s (map snd front) = (s', os) \<and>
    sent f' = sent f @ zip (map fst front) (map next_of os)"
proof -
  obtain ni1 n1 ps1 os1 s1 f1 where x2: "fill_x2 P step2 next_of ni n ps s f = (ni1, n1, ps1, os1, s1, f1)"
    by (metis prod_cases6)
  obtain os2 where x1: "fill_x1 P step next_of ni1 n1 ps1 s1 f1 = (ni', n', rest, os2, s', f')" "os = os1 @ os2"
    using assms(3) by (auto simp: fill_x2_x1_def x2 split: prod.splits)
  obtain front where front: "ps = front @ ps1" "n = n1 \<or> front \<noteq> []"
    "frame_loop step s (map snd front) = (s1, os1)" "sent f1 = sent f @ zip (map fst front) (map next_of os1)"
    using fill_x2_law [OF ok x2 seq] by blast
  obtain front' where front': "ps1 = front' @ rest" "0 < n1 \<and> ps1 \<noteq> [] \<longrightarrow> front' \<noteq> []"
    "frame_loop step s1 (map snd front') = (s', os2)" "sent f' = sent f1 @ zip (map fst front') (map next_of os2)"
    using fill_x1_law [OF ok x1(1)] by blast
  have "length os1 = length front" using length_frame_loop [of step s "map snd front"] front(3) by simp
  with front front' x1(2) show ?thesis
    by (intro exI [of _ "front @ front'"]) (auto simp: frame_loop_append zip_append)
qed

lemma frames_demo_ok: "frames_ok (frames_demo cap) (\<lambda>f. f)"
  by (simp add: frames_ok_def frames_demo_def)

end
