(* ===== verification/Tunterm_Node.thy ===== *)
theory Tunterm_Node
  imports Tunterm_Acl Speculative_Frame
begin

text \<open>
  The node \<^verbatim>\<open>tunterm-acl\<close> (tunterm_acl/tunterm_acl_node.c): it looks the inner destination address of a VXLAN packet
  up in the classify table attached to the ingress interface and redirects the packets that match; all
  others continue to \<^verbatim>\<open>vxlan4-input\<close>.

  The node reads the attachment vectors and the pool of classify tables without checking bounds. The model
  records in the loop state whether such a read was out of bounds (the value read is then \<^verbatim>\<open>~0\<close>).
\<close>

section \<open>State and environment\<close>

datatype tunterm_acl_error =
    TUNTERM_ACL_ERROR_REDIRECTED
  | TUNTERM_ACL_ERROR_NO_CLASSIFY_TABLE
  | TUNTERM_ACL_ERROR_ACTION_NOT_SUPPORTED
  | TUNTERM_ACL_ERROR_UNSUPPORTED_ETHERTYPE
  | TUNTERM_ACL_ERROR_NO_MATCH

record tunterm_acl_trace =
  acl_trace_sw_if_index :: u32
  acl_trace_next_index :: u32
  acl_trace_index :: u32

definition TUNTERM_ACL_NEXT_VXLAN4_INPUT :: u32 where
  "TUNTERM_ACL_NEXT_VXLAN4_INPUT = 1"

record vnet_classify_entry =
  entry_next_index :: u32
  entry_metadata :: u32
  entry_action :: classify_action

text \<open>
  The classifier: its table pool, the hash of a packet at an offset, and the lookup. The time handed to the
  lookup only stamps the entry found.
\<close>

record 'ct classify_api =
  classify_tables :: "u32 \<Rightarrow> 'ct option" \<comment> \<open>the tables in use\<close>
  vnet_classify_hash_packet :: "'ct \<Rightarrow> mem \<Rightarrow> int \<Rightarrow> u32"
  vnet_classify_find_entry :: "'ct \<Rightarrow> mem \<Rightarrow> int \<Rightarrow> u32 \<Rightarrow> vnet_classify_entry option"

record 'e dispatch_runtime =
  dr_node :: "'e node_runtime"
  n_next_nodes :: u32
  cached_next_index :: u32

text \<open>Variables of the node function that live across packets.\<close>

record tunterm_acl_loop =
  lp_table_index :: u32
  lp_counts :: "tunterm_acl_error \<Rightarrow> u32"
  lp_fault :: bool \<comment> \<open>some read was out of bounds\<close>

record 'o tunterm_acl_out =
  ao_next :: u32
  ao_buffer :: "'o vlib_buffer"
  ao_trace :: "tunterm_acl_trace list"

section \<open>The node\<close>

definition vec_read :: "u32 list \<Rightarrow> u32 \<Rightarrow> u32 \<times> bool" where
  "vec_read v i = (if unat i < length v then (v ! unat i, False) else (-1, True))"

definition acl_count :: "tunterm_acl_error \<Rightarrow> tunterm_acl_loop \<Rightarrow> tunterm_acl_loop" where
  "acl_count e st = st\<lparr>lp_counts := (lp_counts st)(e := lp_counts st e + 1)\<rparr>"

text \<open>The lookup in the table and the action, lines 164 to 211; result: the loop state, next0 and the buffer.\<close>

definition tunterm_acl_lookup ::
  "'o vlib_api \<Rightarrow> 'ct classify_api \<Rightarrow> u32 \<Rightarrow> u32 \<Rightarrow> bool \<Rightarrow> tunterm_acl_loop \<Rightarrow> u32 \<Rightarrow> 'o vlib_buffer \<Rightarrow>
   tunterm_acl_loop \<times> u32 \<times> 'o vlib_buffer" where
  "tunterm_acl_lookup V C n_next inner_dip_offset is_inner_vlan_tagged st next0 b0 =
     (if lp_table_index st = -1 then (acl_count TUNTERM_ACL_ERROR_NO_CLASSIFY_TABLE st, next0, b0)
      else case classify_tables C (lp_table_index st) of
             None \<Rightarrow> (st\<lparr>lp_fault := True\<rparr>, next0, b0)
           | Some t \<Rightarrow>
               let hash0 = vnet_classify_hash_packet C t (b_data b0) (uint inner_dip_offset)
               in (case vnet_classify_find_entry C t (b_data b0) (uint inner_dip_offset) hash0 of
                     Some e \<Rightarrow>
                       if entry_action e = CLASSIFY_ACTION_SET_METADATA
                       then
                         let b0 = vlib_buffer_advance V b0 8;
                             b0 = vlib_buffer_advance V b0 14;
                             b0 = (if is_inner_vlan_tagged then vlib_buffer_advance V b0 4 else b0);
                             next0 = (if entry_next_index e < n_next then entry_next_index e else next0);
                             b0 = b0\<lparr>adj_index_tx := entry_metadata e\<rparr>
                         in (acl_count TUNTERM_ACL_ERROR_REDIRECTED st, next0, b0)
                       else (acl_count TUNTERM_ACL_ERROR_ACTION_NOT_SUPPORTED st, next0, b0)
                   | None \<Rightarrow> (acl_count TUNTERM_ACL_ERROR_NO_MATCH st, next0, b0)))"

text \<open>The inner Ethernet header, lines 121 to 137; result: the type, whether a tag was skipped, the IP offset.\<close>

definition tunterm_acl_parse :: "mem \<Rightarrow> int \<Rightarrow> u16 \<times> bool \<times> u32" where
  "tunterm_acl_parse m cur =
     (let inner_ether_offset = word_of_int (cur + 8) :: u32;
          inner_ip_offset = inner_ether_offset + 14;
          etype = uint inner_ether_offset + 12;
          ethertype = be16 (m etype) (m (etype + 1))
      in if ethertype = 0x8100
         then let etype = etype + 4; ethertype = be16 (m etype) (m (etype + 1))
              in (ethertype, True, inner_ip_offset + 4)
         else (ethertype, False, inner_ip_offset))"

definition tunterm_acl_step ::
  "'o vlib_api \<Rightarrow> 'ct classify_api \<Rightarrow> tunterm_acl_error dispatch_runtime \<Rightarrow> tunterm_acl_main \<Rightarrow>
   tunterm_acl_loop \<Rightarrow> 'o vlib_buffer \<Rightarrow> tunterm_acl_loop \<times> 'o tunterm_acl_out" where
  "tunterm_acl_step V C node sm st b0 =
     (let next0 = TUNTERM_ACL_NEXT_VXLAN4_INPUT;
          sw_if_index0 = rx_sw_if_index b0;
          (ethertype, is_inner_vlan_tagged, inner_ip_offset) =
            tunterm_acl_parse (b_data b0) (sint (current_data b0));
          (st, next0, b0) =
            (if ethertype = 0x86DD
             then let (table_index, fault) = vec_read (classify_table_index_by_sw_if_index_v6 sm) sw_if_index0
                  in tunterm_acl_lookup V C (n_next_nodes node) (inner_ip_offset + 40 - 16) is_inner_vlan_tagged
                       (st\<lparr>lp_table_index := table_index, lp_fault := lp_fault st \<or> fault\<rparr>) next0 b0
             else if ethertype = 0x0800
             then let (table_index, fault) = vec_read (classify_table_index_by_sw_if_index_v4 sm) sw_if_index0
                  in tunterm_acl_lookup V C (n_next_nodes node) (inner_ip_offset + 20 - 4) is_inner_vlan_tagged
                       (st\<lparr>lp_table_index := table_index, lp_fault := lp_fault st \<or> fault\<rparr>) next0 b0
             else (acl_count TUNTERM_ACL_ERROR_UNSUPPORTED_ETHERTYPE st, next0, b0))
      in (st, \<lparr>ao_next = next0, ao_buffer = b0,
               ao_trace = (if traced V (dr_node node) b0
                 then [\<lparr>acl_trace_sw_if_index = sw_if_index0, acl_trace_next_index = next0,
                   acl_trace_index = adj_index_tx b0\<rparr>] else [])\<rparr>))"

text \<open>
  Result: the outputs, the counter increments in order, whether a read was out of bounds, and the frames;
  \<open>None\<close> when the loop does not end.
\<close>

definition tunterm_acl_node ::
  "'o vlib_api \<Rightarrow> 'ct classify_api \<Rightarrow> 'f frame_api \<Rightarrow> tunterm_acl_error dispatch_runtime \<Rightarrow> tunterm_acl_main \<Rightarrow>
   'o vlib_buffer packet list \<Rightarrow> 'f \<Rightarrow>
   ('o tunterm_acl_out list \<times> (tunterm_acl_error \<times> u32) list \<times> bool \<times> 'f) option" where
  "tunterm_acl_node V C P node sm ps f =
     map_option (\<lambda>(os, st, f).
         (os, map (\<lambda>e. (e, lp_counts st e))
           [TUNTERM_ACL_ERROR_REDIRECTED, TUNTERM_ACL_ERROR_NO_CLASSIFY_TABLE,
            TUNTERM_ACL_ERROR_ACTION_NOT_SUPPORTED, TUNTERM_ACL_ERROR_UNSUPPORTED_ETHERTYPE,
            TUNTERM_ACL_ERROR_NO_MATCH], lp_fault st, f))
       (dispatch_frames P (fill_x1 P (tunterm_acl_step V C node sm) ao_next) (cached_next_index node) ps
         \<lparr>lp_table_index = -1, lp_counts = (\<lambda>_. 0), lp_fault = False\<rparr> f)"

section \<open>Specification\<close>

text \<open>
  The inner packet of a VXLAN packet whose VXLAN header is at offset \<open>p\<close>: eight bytes of VXLAN header, the
  Ethernet header, at most one VLAN tag that is skipped, then the inner IP header.
\<close>

definition inner_tagged :: "mem \<Rightarrow> int \<Rightarrow> bool" where
  "inner_tagged m p \<longleftrightarrow> be16 (m (p + 20)) (m (p + 21)) = 0x8100"

definition inner_ip :: "mem \<Rightarrow> int \<Rightarrow> int" where
  "inner_ip m p = p + 22 + (if inner_tagged m p then 4 else 0)"

definition inner_type :: "mem \<Rightarrow> int \<Rightarrow> u16" where
  "inner_type m p = be16 (m (inner_ip m p - 2)) (m (inner_ip m p - 1))"

text \<open>The session that applies to a packet, and what has to happen to it.\<close>

definition acl_entry ::
  "'ct classify_api \<Rightarrow> u32 \<Rightarrow> mem \<Rightarrow> int \<Rightarrow> vnet_classify_entry option" where
  "acl_entry C t m dip =
     Option.bind (classify_tables C t) (\<lambda>ct.
       vnet_classify_find_entry C ct m dip (vnet_classify_hash_packet C ct m dip))"

definition acl_spec ::
  "'ct classify_api \<Rightarrow> u32 \<Rightarrow> tunterm_acl_main \<Rightarrow> 'o vlib_buffer \<Rightarrow> tunterm_acl_error \<times> u32 \<times> 'o vlib_buffer" where
  "acl_spec C n_next sm b =
     (let m = b_data b; p = sint (current_data b); ty = inner_type m p; ip = inner_ip m p;
          t = attached sm (ty = 0x86DD, rx_sw_if_index b)
      in if ty \<noteq> 0x86DD \<and> ty \<noteq> 0x0800
         then (TUNTERM_ACL_ERROR_UNSUPPORTED_ETHERTYPE, TUNTERM_ACL_NEXT_VXLAN4_INPUT, b)
         else if t = -1 then (TUNTERM_ACL_ERROR_NO_CLASSIFY_TABLE, TUNTERM_ACL_NEXT_VXLAN4_INPUT, b)
         else case acl_entry C t m (ip + (if ty = 0x86DD then 24 else 16)) of
                None \<Rightarrow> (TUNTERM_ACL_ERROR_NO_MATCH, TUNTERM_ACL_NEXT_VXLAN4_INPUT, b)
              | Some e \<Rightarrow>
                  if entry_action e \<noteq> CLASSIFY_ACTION_SET_METADATA
                  then (TUNTERM_ACL_ERROR_ACTION_NOT_SUPPORTED, TUNTERM_ACL_NEXT_VXLAN4_INPUT, b)
                  else (TUNTERM_ACL_ERROR_REDIRECTED,
                    (if entry_next_index e < n_next then entry_next_index e else TUNTERM_ACL_NEXT_VXLAN4_INPUT),
                    b\<lparr>current_data := current_data b + word_of_int (ip - p),
                      current_length := current_length b - word_of_int (ip - p),
                      adj_index_tx := entry_metadata e\<rparr>))"

text \<open>A packet the reads for which are in bounds.\<close>

definition acl_safe :: "'ct classify_api \<Rightarrow> tunterm_acl_main \<Rightarrow> 'o vlib_buffer \<Rightarrow> bool" where
  "acl_safe C sm b \<longleftrightarrow> -8 \<le> sint (current_data b) \<and>
     unat (rx_sw_if_index b) < length (classify_table_index_by_sw_if_index_v4 sm) \<and>
     unat (rx_sw_if_index b) < length (classify_table_index_by_sw_if_index_v6 sm) \<and>
     (\<forall>v6. attached sm (v6, rx_sw_if_index b) \<noteq> -1 \<longrightarrow>
        classify_tables C (attached sm (v6, rx_sw_if_index b)) \<noteq> None)"

definition acl_output ::
  "'o vlib_api \<Rightarrow> 'ct classify_api \<Rightarrow> tunterm_acl_error dispatch_runtime \<Rightarrow> tunterm_acl_main \<Rightarrow>
   'o vlib_buffer \<Rightarrow> 'o tunterm_acl_out" where
  "acl_output V C node sm b =
     (case acl_spec C (n_next_nodes node) sm b of (e, next0, b') \<Rightarrow>
        \<lparr>ao_next = next0, ao_buffer = b',
         ao_trace = (if traced V (dr_node node) b then [\<lparr>acl_trace_sw_if_index = rx_sw_if_index b,
           acl_trace_next_index = next0, acl_trace_index = adj_index_tx b'\<rparr>] else [])\<rparr>)"

text \<open>
  A concrete classifier with one session, for the inner destination 10.0.0.1, and a packet from interface 2
  whose inner destination is 10.0.0.\<open>d\<close>.
\<close>

definition classify_demo :: "unit classify_api" where
  "classify_demo =
     \<lparr>classify_tables = (\<lambda>t. if t = 3 then Some () else None), vnet_classify_hash_packet = (\<lambda>t m p. 0),
      vnet_classify_find_entry = (\<lambda>t m p h. if m p = 10 \<and> m (p + 1) = 0 \<and> m (p + 2) = 0 \<and> m (p + 3) = 1
        then Some \<lparr>entry_next_index = 9, entry_metadata = 77, entry_action = CLASSIFY_ACTION_SET_METADATA\<rparr>
        else None)\<rparr>"

definition inner_demo :: "u8 \<Rightarrow> unit vlib_buffer" where
  "inner_demo d =
     (buffer_demo () [8,0,0,0,0,0,1,0, 2,0,0,0,0,1, 2,0,0,0,0,2, 0x08,0x00,
        0x45,0,0,20, 0,0,0,0, 64,17,0,0, 192,168,0,1, 10,0,0,d])\<lparr>rx_sw_if_index := 2\<rparr>"

definition acl_runtime_demo :: "tunterm_acl_error dispatch_runtime" where
  "acl_runtime_demo = \<lparr>dr_node = \<lparr>node_trace = False, node_errors = (\<lambda>_. 0)\<rparr>, n_next_nodes = 10,
     cached_next_index = 0\<rparr>"

section \<open>Lemmas\<close>

interpretation acl_frames: frame_filler P sent "fill_x1 P (tunterm_acl_step V C node sm) ao_next"
  "tunterm_acl_step V C node sm" ao_next
  for P :: "'f frame_api" and sent :: "'f \<Rightarrow> (u32 \<times> u32) list" and V :: "'o vlib_api" and C :: "'ct classify_api"
    and node :: "tunterm_acl_error dispatch_runtime" and sm :: tunterm_acl_main
  by unfold_locales (rule fill_x1_law)

lemma uint_offset: "0 \<le> k \<Longrightarrow> k < 2 ^ 17 \<Longrightarrow> uint (word_of_int k :: u32) = k"
  by (simp add: uint_word_of_int)

lemma current_data_bound: "sint (current_data b) < 2 ^ 15"
  using sint_lt [of "current_data b"] by simp

text \<open>The lookup with a table that can be read is the specification's choice.\<close>

lemma acl_lookup_spec:
  assumes "vlib_ok V" and "t \<noteq> -1 \<longrightarrow> classify_tables C t \<noteq> None" and "lp_table_index st = t"
  shows "tunterm_acl_lookup V C n_next dip tg st nx b =
    (if t = -1 then (acl_count TUNTERM_ACL_ERROR_NO_CLASSIFY_TABLE st, nx, b)
     else case acl_entry C t (b_data b) (uint dip) of
            None \<Rightarrow> (acl_count TUNTERM_ACL_ERROR_NO_MATCH st, nx, b)
          | Some e \<Rightarrow>
              if entry_action e \<noteq> CLASSIFY_ACTION_SET_METADATA
              then (acl_count TUNTERM_ACL_ERROR_ACTION_NOT_SUPPORTED st, nx, b)
              else (acl_count TUNTERM_ACL_ERROR_REDIRECTED st,
                (if entry_next_index e < n_next then entry_next_index e else nx),
                b\<lparr>current_data := current_data b + (if tg then 26 else 22),
                  current_length := current_length b - (if tg then 26 else 22),
                  adj_index_tx := entry_metadata e\<rparr>))"
  using assms(2,3) vlib_okD [OF assms(1)]
  by (auto simp: tunterm_acl_lookup_def acl_entry_def Let_def add.assoc diff_diff_eq split: option.splits)

text \<open>What the node reads off the packet.\<close>

lemma acl_parse:
  assumes "-8 \<le> p" and "p < 2 ^ 15"
  shows "tunterm_acl_parse m p = (inner_type m p, inner_tagged m p, word_of_int (inner_ip m p))"
    and "uint (word_of_int (inner_ip m p) + 40 - 16 :: u32) = inner_ip m p + 24"
    and "uint (word_of_int (inner_ip m p) + 20 - 4 :: u32) = inner_ip m p + 16"
proof -
  have u: "uint (word_of_int (p + 8) :: u32) = p + 8" using assms by (intro uint_offset) simp_all
  show "tunterm_acl_parse m p = (inner_type m p, inner_tagged m p, word_of_int (inner_ip m p))"
    unfolding tunterm_acl_parse_def Let_def u
    by (simp add: inner_tagged_def inner_type_def inner_ip_def algebra_simps)
  have ip: "0 \<le> inner_ip m p" "inner_ip m p < 2 ^ 16" using assms by (simp_all add: inner_ip_def)
  have w: "word_of_int k + 40 - 16 = (word_of_int (k + 24) :: u32)"
    "word_of_int k + 20 - 4 = (word_of_int (k + 16) :: u32)" for k by simp_all
  show "uint (word_of_int (inner_ip m p) + 40 - 16 :: u32) = inner_ip m p + 24"
    unfolding w using ip by (intro uint_offset) simp_all
  show "uint (word_of_int (inner_ip m p) + 20 - 4 :: u32) = inner_ip m p + 16"
    unfolding w using ip by (intro uint_offset) simp_all
qed

lemma acl_lookup_is_spec:
  assumes "vlib_ok V" and "acl_safe C sm b" and "lp_table_index st = attached sm (v6, rx_sw_if_index b)"
    and "inner_type (b_data b) (sint (current_data b)) = (if v6 then 0x86DD else 0x0800)"
    and "uint dip = inner_ip (b_data b) (sint (current_data b)) + (if v6 then 24 else 16)"
  shows "tunterm_acl_lookup V C n_next dip (inner_tagged (b_data b) (sint (current_data b))) st
      TUNTERM_ACL_NEXT_VXLAN4_INPUT b =
    (case acl_spec C n_next sm b of (e, next0, b') \<Rightarrow> (acl_count e st, next0, b'))"
proof -
  let ?t = "attached sm (v6, rx_sw_if_index b)" and ?p = "sint (current_data b)"
  have ok: "?t \<noteq> -1 \<longrightarrow> classify_tables C ?t \<noteq> None" using assms(2) by (auto simp: acl_safe_def)
  have ty: "(inner_type (b_data b) ?p = 0x86DD) = v6"
    "\<not> v6 \<and> inner_type (b_data b) ?p \<noteq> 0x0800 \<longleftrightarrow> False"
    using assms(4) by simp_all
  have len: "word_of_int (inner_ip (b_data b) ?p - ?p) = (if inner_tagged (b_data b) ?p then 26 else 22 :: u16)"
    by (simp add: inner_ip_def)
  show ?thesis
    unfolding acl_lookup_spec [OF assms(1) ok assms(3)] acl_spec_def Let_def ty assms(5) len
    by (cases "?t = -1"; cases "acl_entry C ?t (b_data b) (inner_ip (b_data b) ?p + (if v6 then 24 else 16))")
      simp_all
qed

lemma acl_spec_traced:
  "acl_spec C n_next sm b = (e, next0, b') \<Longrightarrow> traced V node b' = traced V node b"
  by (auto simp: acl_spec_def Let_def traced_def split: if_splits option.splits)

text \<open>One packet whose reads are in bounds.\<close>

lemma acl_step_spec:
  assumes "vlib_ok V" and safe: "acl_safe C sm b"
  shows "\<exists>t. tunterm_acl_step V C node sm st b =
    (case acl_spec C (n_next_nodes node) sm b of (e, next0, b') \<Rightarrow>
      (acl_count e (st\<lparr>lp_table_index := t\<rparr>),
       \<lparr>ao_next = next0, ao_buffer = b',
        ao_trace = (if traced V (dr_node node) b then [\<lparr>acl_trace_sw_if_index = rx_sw_if_index b,
          acl_trace_next_index = next0, acl_trace_index = adj_index_tx b'\<rparr>] else [])\<rparr>))"
proof -
  let ?p = "sint (current_data b)" and ?m = "b_data b" and ?i = "rx_sw_if_index b"
  let ?ty = "inner_type ?m ?p"
  have p: "-8 \<le> ?p" "?p < 2 ^ 15" using safe current_data_bound [of b] by (simp_all add: acl_safe_def)
  have rd: "vec_read (classify_table_index_by_sw_if_index_v4 sm) ?i = (attached sm (False, ?i), False)"
    "vec_read (classify_table_index_by_sw_if_index_v6 sm) ?i = (attached sm (True, ?i), False)"
    using safe by (simp_all add: vec_read_def attached_def acl_safe_def)
  note step = tunterm_acl_step_def acl_parse(1) [OF p] rd
  obtain e next0 b' where spec: "acl_spec C (n_next_nodes node) sm b = (e, next0, b')" by (metis prod_cases3)
  note tr = acl_spec_traced [OF spec, of V "dr_node node"]
  consider (v6) "?ty = 0x86DD" | (v4) "?ty = 0x0800" | (other) "?ty \<noteq> 0x86DD" "?ty \<noteq> 0x0800" by blast
  then show ?thesis
  proof cases
    case v6
    have "tunterm_acl_lookup V C (n_next_nodes node) (word_of_int (inner_ip ?m ?p) + 40 - 16) (inner_tagged ?m ?p)
        (st\<lparr>lp_table_index := attached sm (True, ?i)\<rparr>) TUNTERM_ACL_NEXT_VXLAN4_INPUT b =
        (acl_count e (st\<lparr>lp_table_index := attached sm (True, ?i)\<rparr>), next0, b')"
      using acl_lookup_is_spec [OF assms, of _ True] v6 acl_parse(2) [OF p, of ?m] spec by simp
    then have "tunterm_acl_step V C node sm st b = (acl_count e (st\<lparr>lp_table_index := attached sm (True, ?i)\<rparr>),
       \<lparr>ao_next = next0, ao_buffer = b',
        ao_trace = (if traced V (dr_node node) b' then [\<lparr>acl_trace_sw_if_index = ?i,
          acl_trace_next_index = next0, acl_trace_index = adj_index_tx b'\<rparr>] else [])\<rparr>)"
      by (simp add: step v6 Let_def)
    then show ?thesis unfolding spec tr by auto
  next
    case v4
    have "tunterm_acl_lookup V C (n_next_nodes node) (word_of_int (inner_ip ?m ?p) + 20 - 4) (inner_tagged ?m ?p)
        (st\<lparr>lp_table_index := attached sm (False, ?i)\<rparr>) TUNTERM_ACL_NEXT_VXLAN4_INPUT b =
        (acl_count e (st\<lparr>lp_table_index := attached sm (False, ?i)\<rparr>), next0, b')"
      using acl_lookup_is_spec [OF assms, of _ False] v4 acl_parse(3) [OF p, of ?m] spec by simp
    then have "tunterm_acl_step V C node sm st b = (acl_count e (st\<lparr>lp_table_index := attached sm (False, ?i)\<rparr>),
       \<lparr>ao_next = next0, ao_buffer = b',
        ao_trace = (if traced V (dr_node node) b' then [\<lparr>acl_trace_sw_if_index = ?i,
          acl_trace_next_index = next0, acl_trace_index = adj_index_tx b'\<rparr>] else [])\<rparr>)"
      by (simp add: step v4 Let_def)
    then show ?thesis unfolding spec tr by auto
  next
    case other
    then show ?thesis
      by (intro exI [of _ "lp_table_index st"]) (simp add: step acl_spec_def Let_def)
  qed
qed

text \<open>The output for a packet, and the loop over packets whose reads are in bounds.\<close>

lemma acl_loop_spec:
  assumes "vlib_ok V" and "\<forall>b\<in>set bs. acl_safe C sm b"
  shows "\<exists>t. frame_loop (tunterm_acl_step V C node sm) st bs =
    (st\<lparr>lp_table_index := t, lp_counts := \<lambda>e. lp_counts st e +
        of_nat (length (filter (\<lambda>b. fst (acl_spec C (n_next_nodes node) sm b) = e) bs))\<rparr>,
     map (acl_output V C node sm) bs)"
  using assms(2)
proof (induction bs arbitrary: st)
  case Nil
  show ?case by (rule exI [of _ "lp_table_index st"]) simp
next
  case (Cons b bs)
  obtain e next0 b' where spec: "acl_spec C (n_next_nodes node) sm b = (e, next0, b')" by (metis prod_cases3)
  obtain t where st: "tunterm_acl_step V C node sm st b =
      (acl_count e (st\<lparr>lp_table_index := t\<rparr>), acl_output V C node sm b)"
    using acl_step_spec [OF assms(1), of C sm b node st] Cons.prems by (auto simp: spec acl_output_def)
  from Cons.IH [of "acl_count e (st\<lparr>lp_table_index := t\<rparr>)"] Cons.prems obtain t' where
    "frame_loop (tunterm_acl_step V C node sm) (acl_count e (st\<lparr>lp_table_index := t\<rparr>)) bs =
      ((acl_count e (st\<lparr>lp_table_index := t\<rparr>))\<lparr>lp_table_index := t', lp_counts := \<lambda>d.
          lp_counts (acl_count e (st\<lparr>lp_table_index := t\<rparr>)) d +
          of_nat (length (filter (\<lambda>b. fst (acl_spec C (n_next_nodes node) sm b) = d) bs))\<rparr>,
       map (acl_output V C node sm) bs)" by auto
  then show ?case
    by (intro exI [of _ t']) (auto simp: st spec acl_count_def fun_eq_iff)
qed

text \<open>A packet received where the bypass node runs is safe, when the control plane's invariant holds.\<close>

lemma acl_safe_inv:
  assumes "tun_inv F tabs (sm, im, w)" and "\<forall>t\<in>tabs. classify_tables C t \<noteq> None"
    and "enabled F w (''ip4-unicast'', ''tunterm-ip4-vxlan-bypass'', rx_sw_if_index b)"
    and "-8 \<le> sint (current_data b)"
  shows "acl_safe C sm b"
proof -
  have i: "attached_ok tabs (classify_table_index_is_v6 sm) False (classify_table_index_by_sw_if_index_v4 sm)"
    "attached_ok tabs (classify_table_index_is_v6 sm) True (classify_table_index_by_sw_if_index_v6 sm)"
    "bypass_ok (enabled F w) (classify_table_index_by_sw_if_index_v4 sm) (classify_table_index_by_sw_if_index_v6 sm)"
    using assms(1) by (simp_all add: tun_inv_iff)
  have len: "unat (rx_sw_if_index b) < length (classify_table_index_by_sw_if_index_v4 sm)"
    "unat (rx_sw_if_index b) < length (classify_table_index_by_sw_if_index_v6 sm)"
    using i(3) assms(3) by (auto simp: bypass_ok_def)
  have "attached sm (v6, rx_sw_if_index b) \<in> tabs" if "attached sm (v6, rx_sw_if_index b) \<noteq> -1" for v6
    using that i(1,2) len by (cases v6) (simp_all add: attached_ok_def attached_def)
  with assms(2,4) len show ?thesis by (auto simp: acl_safe_def)
qed

text \<open>A frame of packets whose reads are in bounds.\<close>

lemma acl_node_run:
  assumes "vlib_ok V" and "frames_ok P sent" and "\<forall>b\<in>set (map snd ps). acl_safe C sm b"
  shows "\<exists>f'. tunterm_acl_node V C P node sm ps f =
      Some (map (acl_output V C node sm) (map snd ps),
        map (\<lambda>e. (e, of_nat (length (filter (\<lambda>(bi, b). fst (acl_spec C (n_next_nodes node) sm b) = e) ps))))
          [TUNTERM_ACL_ERROR_REDIRECTED, TUNTERM_ACL_ERROR_NO_CLASSIFY_TABLE,
           TUNTERM_ACL_ERROR_ACTION_NOT_SUPPORTED, TUNTERM_ACL_ERROR_UNSUPPORTED_ETHERTYPE,
           TUNTERM_ACL_ERROR_NO_MATCH], False, f') \<and>
    sent f' = sent f @ zip (map fst ps) (map ao_next (map (acl_output V C node sm) (map snd ps)))"
proof -
  let ?st = "\<lparr>lp_table_index = -1, lp_counts = (\<lambda>_. 0), lp_fault = False\<rparr>"
  obtain t where loop: "frame_loop (tunterm_acl_step V C node sm) ?st (map snd ps) =
      (?st\<lparr>lp_table_index := t, lp_counts := \<lambda>e. lp_counts ?st e +
          of_nat (length (filter (\<lambda>b. fst (acl_spec C (n_next_nodes node) sm b) = e) (map snd ps)))\<rparr>,
       map (acl_output V C node sm) (map snd ps))"
    using acl_loop_spec [OF assms(1,3), of node ?st] by blast
  obtain f' where d: "dispatch_frames P (fill_x1 P (tunterm_acl_step V C node sm) ao_next)
      (cached_next_index node) ps ?st f = Some (map (acl_output V C node sm) (map snd ps),
        ?st\<lparr>lp_table_index := t, lp_counts := \<lambda>e. lp_counts ?st e +
          of_nat (length (filter (\<lambda>b. fst (acl_spec C (n_next_nodes node) sm b) = e) (map snd ps)))\<rparr>, f')"
    "sent f' = sent f @ zip (map fst ps) (map ao_next (map (acl_output V C node sm) (map snd ps)))"
    using acl_frames.dispatch_law [OF assms(2), of V C node sm "cached_next_index node" ps ?st f] loop by auto
  show ?thesis
    unfolding tunterm_acl_node_def d(1) using d(2) by (simp add: filter_map comp_def split_def)
qed

lemma acl_output_simps:
  "ao_next (acl_output V C node sm b) = fst (snd (acl_spec C (n_next_nodes node) sm b))"
  "ao_buffer (acl_output V C node sm b) = snd (snd (acl_spec C (n_next_nodes node) sm b))"
  by (simp_all add: acl_output_def split: prod.split)

section \<open>Properties\<close>

text \<open>C8: In every state the API reaches, for packets received where the bypass node is enabled, the node handles
  the whole frame, never reads outside the attachment vectors or the table pool, and treats each packet by
  the table attached to its ingress interface for the family of its inner packet: a packet that hits a
  session is stripped to the inner IP header and sent where the session says, every other packet continues
  unchanged to vxlan4-input. The packets go out in order and the five counters count the verdicts.\<close>

theorem tunterm_acl_node_correct:
  assumes "vlib_ok V" and "frames_ok P sent"
    and "tun_inv F tabs (sm, im, w)" and "\<forall>t\<in>tabs. classify_tables C t \<noteq> None"
    and "\<forall>b\<in>snd ` set ps. enabled F w (''ip4-unicast'', ''tunterm-ip4-vxlan-bypass'', rx_sw_if_index b) \<and>
      -8 \<le> sint (current_data b)"
  shows "\<exists>os counts f'. tunterm_acl_node V C P node sm ps f = Some (os, counts, False, f') \<and>
    map (\<lambda>y. (ao_next y, ao_buffer y)) os = map (\<lambda>(bi, b). snd (acl_spec C (n_next_nodes node) sm b)) ps \<and>
    sent f' = sent f @ map (\<lambda>(bi, b). (bi, fst (snd (acl_spec C (n_next_nodes node) sm b)))) ps \<and>
    map fst counts = [TUNTERM_ACL_ERROR_REDIRECTED, TUNTERM_ACL_ERROR_NO_CLASSIFY_TABLE,
      TUNTERM_ACL_ERROR_ACTION_NOT_SUPPORTED, TUNTERM_ACL_ERROR_UNSUPPORTED_ETHERTYPE, TUNTERM_ACL_ERROR_NO_MATCH] \<and>
    (\<forall>(e, n)\<in>set counts.
      n = of_nat (length (filter (\<lambda>(bi, b). fst (acl_spec C (n_next_nodes node) sm b) = e) ps)))"
proof -
  have "\<forall>b\<in>set (map snd ps). acl_safe C sm b" using acl_safe_inv [OF assms(3,4)] assms(5) by auto
  from acl_node_run [OF assms(1,2) this, of node f] show ?thesis
    by (auto simp: acl_output_simps split_def comp_def zip_map_map zip_same_conv_map)
qed

theorem tunterm_acl_node_correct_witness:
  "\<exists>sm os counts. classify_table_index_by_sw_if_index_v4 sm = [-1, -1, 3] \<and>
     tunterm_acl_node (vlib_demo 7) classify_demo (frames_demo 0) acl_runtime_demo sm
       [(5, inner_demo 1), (6, inner_demo 2)] [] = Some (os, counts, False, [(5, 9), (6, 1)])"
proof -
  obtain sm im w where i: "tun_inv (feature_counts {}) {3} (sm, im, w)"
    "classify_table_index_by_sw_if_index_v4 sm = [-1, -1, 3]"
    "enabled (feature_counts {}) w (''ip4-unicast'', ''tunterm-ip4-vxlan-bypass'', 2)"
    using demo_attached by blast
  have t: "attached sm (False, 2) = 3" using i(2) by (simp add: attached_def)
  have "\<forall>t\<in>{3}. classify_tables classify_demo t \<noteq> None" by (simp add: classify_demo_def)
  moreover have "\<forall>b\<in>snd ` set [(5 :: u32, inner_demo 1), (6, inner_demo 2)].
      enabled (feature_counts {}) w (''ip4-unicast'', ''tunterm-ip4-vxlan-bypass'', rx_sw_if_index b) \<and>
      -8 \<le> sint (current_data b)"
    using i(3) by (simp add: inner_demo_def buffer_demo_def)
  moreover have "fst (snd (acl_spec classify_demo 10 sm (inner_demo d))) = (if d = 1 then 9 else 1)" for d
    using t by (simp add: acl_spec_def inner_demo_def buffer_demo_def inner_type_def inner_ip_def inner_tagged_def
        be16_eq_numeral acl_entry_def classify_demo_def Let_def TUNTERM_ACL_NEXT_VXLAN4_INPUT_def)
  ultimately show ?thesis
    using tunterm_acl_node_correct [OF vlib_demo_ok frames_demo_ok i(1), of classify_demo
        "[(5, inner_demo 1), (6, inner_demo 2)]" 7 0 acl_runtime_demo "[]"] i(2)
    by (force simp: acl_runtime_demo_def)
qed

end
