(* ===== verification/Vxlan_Tunnel.thy ===== *)
theory Vxlan_Tunnel
  imports Vpp_Env
begin

text \<open>
  How the bypass node of tunterm_acl finds the VXLAN tunnel of a packet (the first half of
  tunterm_acl/tunterm_acl_decap.c): a one-entry cache in front of the tunnel hash of the vxlan plugin, with a
  second attempt for multicast destinations. The hash tables, the tunnels and the decoding of a stored value
  belong to the vxlan plugin and are parameters.
\<close>

section \<open>State and environment\<close>

type_synonym vxlan4_tunnel_key = "(u64 \<times> u64) \<times> u64" \<comment> \<open>\<^verbatim>\<open>key[0]\<close>, \<^verbatim>\<open>key[1]\<close>, \<^verbatim>\<open>value\<close>\<close>
type_synonym vxlan6_tunnel_key = "(u64 \<times> u64 \<times> u64) \<times> u64"

datatype vxlan_error = VXLAN_ERROR_NONE | VXLAN_ERROR_NO_SUCH_TUNNEL | VXLAN_ERROR_BAD_FLAGS | VXLAN_ERROR_OTHER u8

record vxlan_decap_info =
  di_sw_if_index :: u32
  di_next_index :: u16
  di_error :: vxlan_error

record vxlan_tunnel =
  tunnel_src_ip6 :: "u64 \<times> u64"
  tunnel_sw_if_index :: u32
  tunnel_decap_next_index :: u16

record vxlan_api =
  vxlan4_tunnel_by_key :: "u64 \<times> u64 \<Rightarrow> u64 option"
  vxlan6_tunnel_by_key :: "u64 \<times> u64 \<times> u64 \<Rightarrow> u64 option"
  vxlan_tunnels :: "u64 \<Rightarrow> vxlan_tunnel option" \<comment> \<open>the pool of tunnels\<close>
  decap_info_of_u64 :: "u64 \<Rightarrow> vxlan_decap_info"
  decap_info_local_ip :: "u64 \<Rightarrow> u32"
  ip4_address_is_multicast :: "u32 \<Rightarrow> bool"
  ip6_address_is_multicast :: "u64 \<times> u64 \<Rightarrow> bool"
  ip4_next_header :: "mem \<Rightarrow> int \<Rightarrow> int"
  ip6_next_header :: "mem \<Rightarrow> int \<Rightarrow> int"
  VXLAN_FLAGS_I :: u8
  VXLAN_INPUT_NEXT_DROP :: u16

text \<open>
  Documented behaviour: a stored value begins with its interface index, so all ones decodes to an invalid
  interface; the limited broadcast address is not multicast; no tunnel has the key of all ones; an IPv6
  tunnel in the hash exists in the pool.
\<close>

definition vxlan_ok :: "vxlan_api \<Rightarrow> bool" where
  "vxlan_ok X \<longleftrightarrow> di_sw_if_index (decap_info_of_u64 X (-1)) = -1 \<and> \<not> ip4_address_is_multicast X (-1) \<and>
     vxlan4_tunnel_by_key X (-1, -1) = None \<and> vxlan6_tunnel_by_key X (-1, -1, -1) = None \<and>
     (\<forall>k v. vxlan6_tunnel_by_key X k = Some v \<longrightarrow> vxlan_tunnels X v \<noteq> None)"

section \<open>The search\<close>

definition decap_not_found :: "vxlan_api \<Rightarrow> vxlan_decap_info" where
  "decap_not_found X =
     \<lparr>di_sw_if_index = -1, di_next_index = VXLAN_INPUT_NEXT_DROP X, di_error = VXLAN_ERROR_NO_SUCH_TUNNEL\<rparr>"

definition decap_bad_flags :: "vxlan_api \<Rightarrow> vxlan_decap_info" where
  "decap_bad_flags X =
     \<lparr>di_sw_if_index = -1, di_next_index = VXLAN_INPUT_NEXT_DROP X, di_error = VXLAN_ERROR_BAD_FLAGS\<rparr>"

text \<open>\<^verbatim>\<open>((u64) hi << 32) | lo\<close> and \<^verbatim>\<open>((u64) port << 48) | ((u64) fib_index << 32) | vni\<close>\<close>

definition key_addresses :: "u32 \<Rightarrow> u32 \<Rightarrow> u64" where
  "key_addresses hi lo = push_bit 32 (ucast hi) OR ucast lo"

definition key_port_fib_vni :: "u16 \<Rightarrow> u32 \<Rightarrow> u32 \<Rightarrow> u64" where
  "key_port_fib_vni port fib_index vni = push_bit 48 (ucast port) OR push_bit 32 (ucast fib_index) OR ucast vni"

text \<open>Result: the decap info, the cache and \<^verbatim>\<open>stats_sw_if_index\<close>.\<close>

definition tunterm_acl_vxlan4_find_tunnel ::
  "vxlan_api \<Rightarrow> vxlan4_tunnel_key \<Rightarrow> u32 \<Rightarrow> mem \<Rightarrow> int \<Rightarrow> int \<Rightarrow> u32 \<Rightarrow>
   vxlan_decap_info \<times> vxlan4_tunnel_key \<times> u32" where
  "tunterm_acl_vxlan4_find_tunnel X cache fib_index m ip4_0 vxlan0 stats_sw_if_index =
     (if m vxlan0 \<noteq> VXLAN_FLAGS_I X then (decap_bad_flags X, cache, stats_sw_if_index)
      else
        let dst = ip4_dst_address m ip4_0;
            src = ip4_src_address m ip4_0;
            udp = ip4_next_header X m ip4_0;
            key0 = key_addresses dst src;
            key1 = key_port_fib_vni (load_u16 m (udp + 2)) fib_index (load_u32 m (vxlan0 + 4))
        in if key0 = fst (fst cache) \<and> key1 = snd (fst cache)
           then let di = decap_info_of_u64 X (snd cache) in (di, cache, di_sw_if_index di)
           else case vxlan4_tunnel_by_key X (key0, key1) of
                  Some v \<Rightarrow> let di = decap_info_of_u64 X v in (di, ((key0, key1), v), di_sw_if_index di)
                | None \<Rightarrow>
                    if \<not> ip4_address_is_multicast X dst then (decap_not_found X, cache, stats_sw_if_index)
                    else case vxlan4_tunnel_by_key X (ucast dst, key1) of
                           None \<Rightarrow> (decap_not_found X, cache, stats_sw_if_index)
                         | Some mv \<Rightarrow>
                             let mdi = decap_info_of_u64 X mv;
                                 key0 = key_addresses (decap_info_local_ip X mv) src
                             in (case vxlan4_tunnel_by_key X (key0, key1) of
                                   None \<Rightarrow> (decap_not_found X, cache, stats_sw_if_index)
                                 | Some v \<Rightarrow> (decap_info_of_u64 X v, cache, di_sw_if_index mdi)))"

text \<open>
  \<open>None\<close> where the C code would read a tunnel that is not in the pool. The search of a key of the cache is a
  comparison of all three words.
\<close>

definition vxlan6_check_tunnel ::
  "vxlan_api \<Rightarrow> u64 \<times> u64 \<Rightarrow> u64 \<Rightarrow> u32 \<Rightarrow> vxlan6_tunnel_key \<Rightarrow>
   (vxlan_decap_info \<times> vxlan6_tunnel_key \<times> u32) option" where
  "vxlan6_check_tunnel X dst key2 stats_sw_if_index cache =
     (case vxlan_tunnels X (snd cache) of
        None \<Rightarrow> None
      | Some t0 \<Rightarrow>
          let di = \<lparr>di_sw_if_index = tunnel_sw_if_index t0, di_next_index = tunnel_decap_next_index t0,
                di_error = VXLAN_ERROR_NONE\<rparr>
          in if dst = tunnel_src_ip6 t0 then Some (di, cache, tunnel_sw_if_index t0)
             else if \<not> ip6_address_is_multicast X dst
             then Some (decap_not_found X, cache, stats_sw_if_index)
             else case vxlan6_tunnel_by_key X (fst dst, snd dst, key2) of
                    None \<Rightarrow> Some (decap_not_found X, cache, stats_sw_if_index)
                  | Some mv \<Rightarrow>
                      (case vxlan_tunnels X mv of
                         None \<Rightarrow> None
                       | Some mcast_t0 \<Rightarrow> Some (di, cache, tunnel_sw_if_index mcast_t0)))"

definition tunterm_acl_vxlan6_find_tunnel ::
  "vxlan_api \<Rightarrow> vxlan6_tunnel_key \<Rightarrow> u32 \<Rightarrow> mem \<Rightarrow> int \<Rightarrow> int \<Rightarrow> u32 \<Rightarrow>
   (vxlan_decap_info \<times> vxlan6_tunnel_key \<times> u32) option" where
  "tunterm_acl_vxlan6_find_tunnel X cache fib_index m ip6_0 vxlan0 stats_sw_if_index =
     (if m vxlan0 \<noteq> VXLAN_FLAGS_I X then Some (decap_bad_flags X, cache, stats_sw_if_index)
      else
        let udp = ip6_next_header X m ip6_0;
            src = (load_u64 m (ip6_0 + 8), load_u64 m (ip6_0 + 16));
            dst = (load_u64 m (ip6_0 + 24), load_u64 m (ip6_0 + 32));
            key2 = key_port_fib_vni (load_u16 m (udp + 2)) fib_index (load_u32 m (vxlan0 + 4));
            key = (fst src, snd src, key2)
        in case (if key \<noteq> fst cache
                 then map_option (\<lambda>v. (key, v)) (vxlan6_tunnel_by_key X key) else Some cache) of
             None \<Rightarrow> Some (decap_not_found X, cache, stats_sw_if_index)
           | Some cache \<Rightarrow> vxlan6_check_tunnel X dst key2 stats_sw_if_index cache)"

text \<open>\<^verbatim>\<open>clib_memset (&last, 0xff, sizeof last)\<close>\<close>

definition last4_init :: vxlan4_tunnel_key where
  "last4_init = ((-1, -1), -1)"

definition last6_init :: vxlan6_tunnel_key where
  "last6_init = ((-1, -1, -1), -1)"

section \<open>Specification\<close>

text \<open>
  The tunnel interface of an IPv4 packet, without a cache: the tunnel of its addresses, port, FIB and VNI, or
  for a multicast destination the unicast tunnel of the group's local address. \<^verbatim>\<open>~0\<close> when there is none.
\<close>

definition tunnel4 :: "vxlan_api \<Rightarrow> u32 \<Rightarrow> u32 \<Rightarrow> u64 \<Rightarrow> u64 option" where
  "tunnel4 X dst src key1 =
     (case vxlan4_tunnel_by_key X (key_addresses dst src, key1) of
        Some v \<Rightarrow> Some v
      | None \<Rightarrow>
          if ip4_address_is_multicast X dst
          then Option.bind (vxlan4_tunnel_by_key X (ucast dst, key1)) (\<lambda>mv.
                 vxlan4_tunnel_by_key X (key_addresses (decap_info_local_ip X mv) src, key1))
          else None)"

definition tunnel4_of_packet :: "vxlan_api \<Rightarrow> u32 \<Rightarrow> mem \<Rightarrow> int \<Rightarrow> int \<Rightarrow> u32" where
  "tunnel4_of_packet X fib_index m ip vxlan =
     (if m vxlan \<noteq> VXLAN_FLAGS_I X then -1
      else case tunnel4 X (ip4_dst_address m ip) (ip4_src_address m ip)
                  (key_port_fib_vni (load_u16 m (ip4_next_header X m ip + 2)) fib_index (load_u32 m (vxlan + 4))) of
             None \<Rightarrow> -1 | Some v \<Rightarrow> di_sw_if_index (decap_info_of_u64 X v))"

text \<open>A cache entry agrees with the hash, or is the initial one.\<close>

definition cache4_ok :: "vxlan_api \<Rightarrow> vxlan4_tunnel_key \<Rightarrow> bool" where
  "cache4_ok X c \<longleftrightarrow> c = last4_init \<or> vxlan4_tunnel_by_key X (fst c) = Some (snd c)"

definition cache6_ok :: "vxlan_api \<Rightarrow> vxlan6_tunnel_key \<Rightarrow> bool" where
  "cache6_ok X c \<longleftrightarrow> c = last6_init \<or> vxlan6_tunnel_by_key X (fst c) = Some (snd c)"

section \<open>Lemmas\<close>

lemma key_addresses_le64: "key_addresses a b = le64 b a"
  by (simp add: key_addresses_def le64_def or.commute)

lemma key_addresses_inject: "key_addresses a b = key_addresses a' b' \<longleftrightarrow> a = a' \<and> b = b'"
  by (auto simp: key_addresses_le64)

lemma all_ones_le64: "(-1 :: u64) = le64 (-1) (-1)"
  by (rule word_eq_all_bits) (auto simp: le64_def bit_simps)

text \<open>The port and the FIB index share the upper half of the word.\<close>

lemma key_port_fib_vni_le64: "key_port_fib_vni port fib vni = le64 vni (push_bit 16 (ucast port) OR fib)"
  by (rule word_eq_all_bits) (auto simp: key_port_fib_vni_def le64_def bit_simps)

lemma port_fib_halves:
  assumes "fib < 2 ^ 16"
  shows "ucast (drop_bit 16 (push_bit 16 (ucast (port :: u16)) OR fib :: u32)) = port"
    and "take_bit 16 (push_bit 16 (ucast port) OR fib :: u32) = fib"
proof -
  have fib: "take_bit 16 fib = fib" using less_mask_eq [of fib 16] assms by (simp add: take_bit_eq_mask)
  then have "\<not> bit fib n" if "16 \<le> n" for n using that by (metis bit_take_bit_iff not_less)
  then show "ucast (drop_bit 16 (push_bit 16 (ucast port) OR fib :: u32)) = port"
    by (intro word_eq_all_bits) (auto simp: bit_simps)
  have "take_bit 16 (push_bit 16 (ucast port) :: u32) = 0" by (simp add: take_bit_push_bit)
  then show "take_bit 16 (push_bit 16 (ucast port) OR fib :: u32) = fib" by (simp add: fib take_bit_or)
qed

lemma port_fib_inject:
  assumes "fib < 2 ^ 16" and "fib' < 2 ^ 16"
  shows "push_bit 16 (ucast (port :: u16)) OR fib = (push_bit 16 (ucast port') OR fib' :: u32) \<longleftrightarrow>
    port = port' \<and> fib = fib'"
  by (metis assms port_fib_halves)

lemma key_port_fib_vni_inject:
  assumes "fib < 2 ^ 16" and "fib' < 2 ^ 16"
  shows "key_port_fib_vni port fib vni = key_port_fib_vni port' fib' vni' \<longleftrightarrow> port = port' \<and> fib = fib' \<and> vni = vni'"
  using port_fib_inject [OF assms] by (auto simp: key_port_fib_vni_le64)

lemma find4_cached:
  assumes ok: "vxlan_ok X" and "cache4_ok X c"
    and "tunterm_acl_vxlan4_find_tunnel X c fib m ip vx st = (di, c', st')"
  shows "di_sw_if_index di = tunnel4_of_packet X fib m ip vx \<and> cache4_ok X c'"
proof (cases "m vx = VXLAN_FLAGS_I X")
  case False
  then show ?thesis
    using assms(2,3) by (auto simp: tunterm_acl_vxlan4_find_tunnel_def tunnel4_of_packet_def decap_bad_flags_def)
next
  case True
  let ?dst = "ip4_dst_address m ip" and ?src = "ip4_src_address m ip"
  let ?k0 = "key_addresses ?dst ?src"
  let ?k1 = "key_port_fib_vni (load_u16 m (ip4_next_header X m ip + 2)) fib (load_u32 m (vx + 4))"
  show ?thesis
  proof (cases "fst c = (?k0, ?k1)")
    case hit: True
    have t: "tunnel4_of_packet X fib m ip vx = di_sw_if_index (decap_info_of_u64 X (snd c))"
    proof (cases "c = last4_init")
      case init: True
      have k: "?k0 = -1" "?k1 = -1" using hit unfolding init last4_init_def by (metis fst_conv snd_conv)+
      then have "?dst = -1" by (metis all_ones_le64 key_addresses_le64 le64_inject)
      with k init ok True show ?thesis
        by (simp add: tunnel4_of_packet_def tunnel4_def vxlan_ok_def last4_init_def)
    next
      case False
      with assms(2) hit True show ?thesis by (simp add: cache4_ok_def tunnel4_of_packet_def tunnel4_def)
    qed
    have "di = decap_info_of_u64 X (snd c) \<and> c' = c"
      using assms(3) True hit by (auto simp: tunterm_acl_vxlan4_find_tunnel_def Let_def)
    with t assms(2) show ?thesis by simp
  next
    case miss: False
    then have "\<not> (?k0 = fst (fst c) \<and> ?k1 = snd (fst c))" by (metis prod.collapse)
    then show ?thesis
      using assms(2,3) True
      by (auto simp: tunterm_acl_vxlan4_find_tunnel_def tunnel4_of_packet_def tunnel4_def Let_def cache4_ok_def
          decap_not_found_def split: option.splits if_splits)
  qed
qed

text \<open>The IPv6 search never leaves the pool of tunnels, except for a packet whose key is all ones.\<close>

lemma find6_defined:
  assumes ok: "vxlan_ok X" and c: "cache6_ok X c" and src: "load_u64 m (ip + 8) \<noteq> -1"
  shows "\<exists>di c' st'. tunterm_acl_vxlan6_find_tunnel X c fib m ip vx st = Some (di, c', st') \<and> cache6_ok X c'"
proof (cases "m vx = VXLAN_FLAGS_I X")
  case False
  then show ?thesis using c by (simp add: tunterm_acl_vxlan6_find_tunnel_def)
next
  case True
  let ?k2 = "key_port_fib_vni (load_u16 m (ip6_next_header X m ip + 2)) fib (load_u32 m (vx + 4))"
  let ?k = "(load_u64 m (ip + 8), load_u64 m (ip + 16), ?k2)"
  let ?c = "if ?k \<noteq> fst c then map_option (\<lambda>v. (?k, v)) (vxlan6_tunnel_by_key X ?k) else Some c"
  have pool: "vxlan_tunnels X v \<noteq> None" if "vxlan6_tunnel_by_key X k = Some v" for k v
    using ok that unfolding vxlan_ok_def by blast
  have find: "tunterm_acl_vxlan6_find_tunnel X c fib m ip vx st =
      (case ?c of None \<Rightarrow> Some (decap_not_found X, c, st)
       | Some c1 \<Rightarrow> vxlan6_check_tunnel X (load_u64 m (ip + 24), load_u64 m (ip + 32)) ?k2 st c1)"
    using True by (simp only: tunterm_acl_vxlan6_find_tunnel_def Let_def fst_conv snd_conv simp_thms if_False)
  show ?thesis
  proof (cases ?c)
    case None
    then show ?thesis using c by (simp only: find option.case) blast
  next
    case (Some c1)
    have c1: "vxlan6_tunnel_by_key X (fst c1) = Some (snd c1)"
      using Some c src by (auto simp: cache6_ok_def last6_init_def split: if_splits)
    then obtain t0 where t0: "vxlan_tunnels X (snd c1) = Some t0" using pool by blast
    have "cache6_ok X c1" using c1 by (simp add: cache6_ok_def)
    moreover have "\<exists>di st'. vxlan6_check_tunnel X d k st c1 = Some (di, c1, st')" for d k
      using pool by (force simp: vxlan6_check_tunnel_def t0 Let_def split: option.split)
    ultimately show ?thesis unfolding find Some option.case by blast
  qed
qed

section \<open>Properties\<close>

text \<open>C39: As long as FIB indices fit in 16 bits, two IPv4 packets with the same tunnel key agree on both addresses, the
  UDP port, the FIB and the VNI. Beyond that the index runs into the port: port \<open>p\<close> in FIB \<open>f\<close> has the key of the
  port with the overflowing bits set in FIB \<open>f mod 65536\<close>.\<close>

theorem vxlan_tunnel_key_exact:
  "(fib < 2 ^ 16 \<longrightarrow> fib' < 2 ^ 16 \<longrightarrow>
      ((key_addresses dst src, key_port_fib_vni port fib vni) =
         (key_addresses dst' src', key_port_fib_vni port' fib' vni') \<longleftrightarrow>
       (dst, src, port, fib, vni) = (dst', src', port', fib', vni'))) \<and>
   key_port_fib_vni port (fib OR push_bit 16 (ucast hi)) vni = key_port_fib_vni (port OR hi) fib vni"
proof -
  have "key_port_fib_vni port (fib OR push_bit 16 (ucast hi)) vni = key_port_fib_vni (port OR hi) fib vni"
    unfolding key_port_fib_vni_le64 le64_inject
    by (intro conjI refl word_eq_all_bits) (auto simp: bit_simps)
  then show ?thesis by (auto simp: key_addresses_inject key_port_fib_vni_inject)
qed

theorem vxlan_tunnel_key_exact_witness:
  "key_port_fib_vni 4789 0 7 \<noteq> key_port_fib_vni 4789 1 7 \<and> key_port_fib_vni 4788 0x10000 7 = key_port_fib_vni 4789 0 7"
  using vxlan_tunnel_key_exact [of 0 1 0 0 4789 7 0 0 4789 7 0] vxlan_tunnel_key_exact [of 0 0 0 0 4788 7 0 0 0 0 1]
  by (simp add: push_bit_eq_mult)

end
