(* ===== verification/Tunterm_Bypass.thy ===== *)
theory Tunterm_Bypass
  imports Vxlan_Tunnel Speculative_Frame
begin

text \<open>
  The node \<^verbatim>\<open>tunterm-ip4-vxlan-bypass\<close> (the second half of tunterm_acl/tunterm_acl_decap.c): it takes the VXLAN packets of
  a known tunnel that are addressed to a local tunnel end point off the \<^verbatim>\<open>ip4-unicast\<close> arc, checks their UDP length
  and checksum, and hands them to \<^verbatim>\<open>tunterm-acl\<close>. It works on pairs of packets while it can.

  The C code repeats the handling of a packet three times (packet 0 and packet 1 of a pair, and the single
  loop); the copies are the same code, so the model has it once.
\<close>

section \<open>State and environment\<close>

definition IP_VXLAN_BYPASS_NEXT_DROP :: u32 where
  "IP_VXLAN_BYPASS_NEXT_DROP = 0"

definition IP_VXLAN_BYPASS_NEXT_TUNTERM :: u32 where
  "IP_VXLAN_BYPASS_NEXT_TUNTERM = 2"

text \<open>\<open>'v\<close> is the type of the caches for the last local end point that matched, which VPP keeps for the node.\<close>

record ('o, 'v) bypass_api =
  bp_vxlan :: vxlan_api
  ip4_is_fragment :: "mem \<Rightarrow> int \<Rightarrow> bool"
  vlib_buffer_get_ip_fib_index :: "'o vlib_buffer \<Rightarrow> bool \<Rightarrow> u32"
  vtep4_key_init :: 'v
  vtep6_key_init :: 'v
  vtep4_check :: "'o vlib_buffer \<Rightarrow> int \<Rightarrow> 'v \<Rightarrow> bool \<times> 'v" \<comment> \<open>or its vectorised variant\<close>
  vtep6_check :: "'o vlib_buffer \<Rightarrow> int \<Rightarrow> 'v \<Rightarrow> bool \<times> 'v"
  ip4_tcp_udp_validate_checksum :: "'o vlib_buffer \<Rightarrow> u32 \<times> 'o vlib_buffer"
  ip6_tcp_udp_icmp_validate_checksum :: "'o vlib_buffer \<Rightarrow> u32 \<times> 'o vlib_buffer"
  VNET_BUFFER_F_L4_CHECKSUM_CORRECT :: u32
  IP4_ERROR_UDP_CHECKSUM :: u8
  IP4_ERROR_UDP_LENGTH :: u8
  IP6_ERROR_UDP_CHECKSUM :: u8
  IP6_ERROR_UDP_LENGTH :: u8
  ip4_input_errors :: "u8 \<Rightarrow> u16" \<comment> \<open>\<^verbatim>\<open>error_node->errors\<close>\<close>

text \<open>
  Documented behaviour, for IPv4: whatever valid end point cache the check gets, it answers whether the
  destination is a local end point (\<open>vtep\<close>) and leaves a valid cache; validating a checksum stores the flags
  it returns in the buffer; the two error codes are not zero.
\<close>

definition bypass_env_ok :: "('o, 'v) bypass_api \<Rightarrow> ('v \<Rightarrow> bool) \<Rightarrow> ('o vlib_buffer \<Rightarrow> int \<Rightarrow> bool) \<Rightarrow> bool" where
  "bypass_env_ok E valid vtep \<longleftrightarrow> vxlan_ok (bp_vxlan E) \<and> valid (vtep4_key_init E) \<and>
     (\<forall>b ip v. valid v \<longrightarrow> fst (vtep4_check E b ip v) = vtep b ip \<and> valid (snd (vtep4_check E b ip v))) \<and>
     (\<forall>b. snd (ip4_tcp_udp_validate_checksum E b) = b\<lparr>b_flags := fst (ip4_tcp_udp_validate_checksum E b)\<rparr>) \<and>
     IP4_ERROR_UDP_CHECKSUM E \<noteq> 0 \<and> IP4_ERROR_UDP_LENGTH E \<noteq> 0"

text \<open>The variables that live across packets.\<close>

record 'v bypass_state =
  bs_last4 :: vxlan4_tunnel_key
  bs_last6 :: vxlan6_tunnel_key
  bs_last_vtep4 :: 'v
  bs_last_vtep6 :: 'v
  bs_fault :: bool \<comment> \<open>a tunnel outside the pool was read\<close>

record 'o bypass_out =
  bo_next :: u32
  bo_buffer :: "'o vlib_buffer"

section \<open>One packet\<close>

text \<open>The part done for both packets of a pair first: the IP header, the next feature and the protocol.\<close>

definition bypass_setup ::
  "'o vlib_api \<Rightarrow> ('o, 'v) bypass_api \<Rightarrow> bool \<Rightarrow> 'o vlib_buffer \<Rightarrow> int \<times> u32 \<times> u8 \<times> 'o vlib_buffer" where
  "bypass_setup V E is_ip4 b0 =
     (let ip = vlib_buffer_get_current V b0;
          (next0, b0) = vnet_feature_next V b0;
          proto0 = (if is_ip4 then if ip4_is_fragment E (b_data b0) ip then 0xfe else b_data b0 (ip + 9)
            else b_data b0 (ip + 6))
      in (ip, next0, proto0, b0))"

definition bypass_find_tunnel ::
  "('o, 'v) bypass_api \<Rightarrow> bool \<Rightarrow> u32 \<Rightarrow> mem \<Rightarrow> int \<Rightarrow> int \<Rightarrow> 'v bypass_state \<Rightarrow> u32 \<times> 'v bypass_state" where
  "bypass_find_tunnel E is_ip4 fi0 m ip vxlan0 s =
     (if is_ip4
      then let (di0, c, stats_if0) = tunterm_acl_vxlan4_find_tunnel (bp_vxlan E) (bs_last4 s) fi0 m ip vxlan0 (-1)
           in (di_sw_if_index di0, s\<lparr>bs_last4 := c\<rparr>)
      else case tunterm_acl_vxlan6_find_tunnel (bp_vxlan E) (bs_last6 s) fi0 m ip vxlan0 (-1) of
             None \<Rightarrow> (-1, s\<lparr>bs_fault := True\<rparr>)
           | Some (di0, c, stats_if0) \<Rightarrow> (di_sw_if_index di0, s\<lparr>bs_last6 := c\<rparr>))"

definition bypass_check_vtep ::
  "('o, 'v) bypass_api \<Rightarrow> bool \<Rightarrow> 'o vlib_buffer \<Rightarrow> int \<Rightarrow> 'v bypass_state \<Rightarrow> bool \<times> 'v bypass_state" where
  "bypass_check_vtep E is_ip4 b0 ip s =
     (if is_ip4 then let (r, v) = vtep4_check E b0 ip (bs_last_vtep4 s) in (r, s\<lparr>bs_last_vtep4 := v\<rparr>)
      else let (r, v) = vtep6_check E b0 ip (bs_last_vtep6 s) in (r, s\<lparr>bs_last_vtep6 := v\<rparr>))"

text \<open>The UDP checks and the decision; \<^verbatim>\<open>len_diff0\<close> is the signed 32-bit difference.\<close>

definition bypass_decide ::
  "'o vlib_api \<Rightarrow> ('o, 'v) bypass_api \<Rightarrow> bool \<Rightarrow> int \<Rightarrow> int \<Rightarrow> 'o vlib_buffer \<Rightarrow> 'o bypass_out" where
  "bypass_decide V E is_ip4 ip udp0 b0 =
     (let m = b_data b0;
          good_udp0 = b_flags b0 AND VNET_BUFFER_F_L4_CHECKSUM_CORRECT E \<noteq> 0;
          good_udp0 = (good_udp0 \<or> load_u16 m (udp0 + 6) = 0);
          ip_len0 = ucast (clib_net_to_host_u16 (load_u16 m (if is_ip4 then ip + 2 else ip + 4))) :: u32;
          udp_len0 = ucast (clib_net_to_host_u16 (load_u16 m (udp0 + 4))) :: u32;
          len_diff0 = ip_len0 - udp_len0;
          (good_udp0, b0) =
            (if \<not> good_udp0
             then let (flags0, b0) = (if is_ip4 then ip4_tcp_udp_validate_checksum E b0
                        else ip6_tcp_udp_icmp_validate_checksum E b0)
                  in (flags0 AND VNET_BUFFER_F_L4_CHECKSUM_CORRECT E \<noteq> 0, b0)
             else (good_udp0, b0));
          error0 = (if good_udp0 then 0 else if is_ip4 then IP4_ERROR_UDP_CHECKSUM E else IP6_ERROR_UDP_CHECKSUM E);
          error0 = (if 0 \<le> sint len_diff0 then error0
            else if is_ip4 then IP4_ERROR_UDP_LENGTH E else IP6_ERROR_UDP_LENGTH E);
          next0 = (if error0 \<noteq> 0 then IP_VXLAN_BYPASS_NEXT_DROP else IP_VXLAN_BYPASS_NEXT_TUNTERM);
          b0 = b0\<lparr>b_error := (if error0 \<noteq> 0 then ip4_input_errors E error0 else 0)\<rparr>;
          b0 = vlib_buffer_advance V b0 (if is_ip4 then 28 else 48)
      in \<lparr>bo_next = next0, bo_buffer = b0\<rparr>)"

definition bypass_process ::
  "'o vlib_api \<Rightarrow> ('o, 'v) bypass_api \<Rightarrow> bool \<Rightarrow> 'v bypass_state \<Rightarrow> int \<times> u32 \<times> u8 \<times> 'o vlib_buffer \<Rightarrow>
   'v bypass_state \<times> 'o bypass_out" where
  "bypass_process V E is_ip4 s = (\<lambda>(ip, next0, proto0, b0).
     let exit0 = \<lparr>bo_next = next0, bo_buffer = b0\<rparr>
     in if proto0 \<noteq> 17 then (s, exit0)
        else
          let m = b_data b0;
              udp0 = (if is_ip4 then ip4_next_header (bp_vxlan E) m ip else ip6_next_header (bp_vxlan E) m ip);
              fi0 = vlib_buffer_get_ip_fib_index E b0 is_ip4;
              vxlan0 = vlib_buffer_get_current V b0 + 8 + 20;
              (sw_if_index0, s) = bypass_find_tunnel E is_ip4 fi0 m ip vxlan0 s
          in if sw_if_index0 = -1 then (s, exit0)
             else let (local_vtep, s) = bypass_check_vtep E is_ip4 b0 ip s
                  in if \<not> local_vtep then (s, exit0) else (s, bypass_decide V E is_ip4 ip udp0 b0))"

definition bypass_step ::
  "'o vlib_api \<Rightarrow> ('o, 'v) bypass_api \<Rightarrow> bool \<Rightarrow> 'v bypass_state \<Rightarrow> 'o vlib_buffer \<Rightarrow>
   'v bypass_state \<times> 'o bypass_out" where
  "bypass_step V E is_ip4 s b0 = bypass_process V E is_ip4 s (bypass_setup V E is_ip4 b0)"

definition bypass_step2 ::
  "'o vlib_api \<Rightarrow> ('o, 'v) bypass_api \<Rightarrow> bool \<Rightarrow> 'v bypass_state \<Rightarrow> 'o vlib_buffer \<Rightarrow> 'o vlib_buffer \<Rightarrow>
   'v bypass_state \<times> 'o bypass_out \<times> 'o bypass_out" where
  "bypass_step2 V E is_ip4 s b0 b1 =
     (let x0 = bypass_setup V E is_ip4 b0;
          x1 = bypass_setup V E is_ip4 b1;
          (s, o0) = bypass_process V E is_ip4 s x0;
          (s, o1) = bypass_process V E is_ip4 s x1
      in (s, o0, o1))"

section \<open>The node\<close>

text \<open>
  Result: the outputs, the final state, whether \<^verbatim>\<open>ip4_forward_next_trace\<close> was called for the frame, and the
  frames. The end point cache and the tunnel cache of the other family are not initialised and not used.
\<close>

definition tunterm_acl_ip_vxlan_bypass_inline ::
  "'o vlib_api \<Rightarrow> ('o, 'v) bypass_api \<Rightarrow> 'f frame_api \<Rightarrow> bool \<Rightarrow> u32 \<Rightarrow> 'v bypass_state \<Rightarrow> bool \<Rightarrow>
   'o vlib_buffer packet list \<Rightarrow> 'f \<Rightarrow> ('o bypass_out list \<times> 'v bypass_state \<times> bool \<times> 'f) option" where
  "tunterm_acl_ip_vxlan_bypass_inline V E P trace_flag cached_next uninit is_ip4 ps f =
     (let s = (if is_ip4 then uninit\<lparr>bs_last_vtep4 := vtep4_key_init E, bs_last4 := last4_init\<rparr>
            else uninit\<lparr>bs_last_vtep6 := vtep6_key_init E, bs_last6 := last6_init\<rparr>)
      in map_option (\<lambda>(os, s, f). (os, s, trace_flag, f))
           (dispatch_frames P
             (fill_x2_x1 P (bypass_step2 V E is_ip4) (bypass_step V E is_ip4) bo_next) cached_next ps s f))"

definition tunterm_acl_ip4_vxlan_bypass_node ::
  "'o vlib_api \<Rightarrow> ('o, 'v) bypass_api \<Rightarrow> 'f frame_api \<Rightarrow> bool \<Rightarrow> u32 \<Rightarrow> 'v bypass_state \<Rightarrow>
   'o vlib_buffer packet list \<Rightarrow> 'f \<Rightarrow> ('o bypass_out list \<times> 'v bypass_state \<times> bool \<times> 'f) option" where
  "tunterm_acl_ip4_vxlan_bypass_node V E P trace_flag cached_next uninit ps f =
     tunterm_acl_ip_vxlan_bypass_inline V E P trace_flag cached_next uninit True ps f"

text \<open>The initialisation: the symbol of the vxlan plugin, or an error. Result: the pointer and the error.\<close>

definition tunterm_acl_ip4_vxlan_bypass_init :: "(string \<Rightarrow> string \<Rightarrow> 'x option) \<Rightarrow> 'x option \<times> string option" where
  "tunterm_acl_ip4_vxlan_bypass_init vlib_get_plugin_symbol =
     (let vxm = vlib_get_plugin_symbol ''vxlan_plugin.so'' ''vxlan_main''
      in if vxm = None then (vxm, Some ''cannot get vxlan_main symbol'') else (vxm, None))"

section \<open>Specification\<close>

text \<open>
  What happens to an IPv4 packet, without caches: it is taken when it is an unfragmented UDP packet of a
  known tunnel to a local end point, and dropped then if its UDP length exceeds the IP length or its checksum
  is wrong.
\<close>

definition bypass_taken ::
  "('o, 'v) bypass_api \<Rightarrow> ('o vlib_buffer \<Rightarrow> int \<Rightarrow> bool) \<Rightarrow> int \<Rightarrow> 'o vlib_buffer \<Rightarrow> bool" where
  "bypass_taken E vtep p b \<longleftrightarrow> \<not> ip4_is_fragment E (b_data b) p \<and> b_data b (p + 9) = 17 \<and>
     tunnel4_of_packet (bp_vxlan E) (vlib_buffer_get_ip_fib_index E b True) (b_data b) p (p + 28) \<noteq> -1 \<and>
     vtep b p"

definition udp_error :: "('o, 'v) bypass_api \<Rightarrow> int \<Rightarrow> int \<Rightarrow> 'o vlib_buffer \<Rightarrow> u8 \<times> 'o vlib_buffer" where
  "udp_error E p udp b =
     (let m = b_data b;
          (ok, b') = (if b_flags b AND VNET_BUFFER_F_L4_CHECKSUM_CORRECT E \<noteq> 0 \<or> be16 (m (udp + 6)) (m (udp + 7)) = 0
             then (True, b)
             else let fl = fst (ip4_tcp_udp_validate_checksum E b)
                  in (fl AND VNET_BUFFER_F_L4_CHECKSUM_CORRECT E \<noteq> 0, b\<lparr>b_flags := fl\<rparr>))
      in (if be16 (m (p + 2)) (m (p + 3)) < be16 (m (udp + 4)) (m (udp + 5)) then IP4_ERROR_UDP_LENGTH E
          else if ok then 0 else IP4_ERROR_UDP_CHECKSUM E, b'))"

definition bypass_spec ::
  "'o vlib_api \<Rightarrow> ('o, 'v) bypass_api \<Rightarrow> ('o vlib_buffer \<Rightarrow> int \<Rightarrow> bool) \<Rightarrow> 'o vlib_buffer \<Rightarrow> 'o bypass_out" where
  "bypass_spec V E vtep b0 =
     (let (next0, b) = vnet_feature_next V b0; p = sint (current_data b0)
      in if \<not> bypass_taken E vtep p b then \<lparr>bo_next = next0, bo_buffer = b\<rparr>
         else let (e, b') = udp_error E p (ip4_next_header (bp_vxlan E) (b_data b) p) b
              in \<lparr>bo_next = (if e = 0 then IP_VXLAN_BYPASS_NEXT_TUNTERM else IP_VXLAN_BYPASS_NEXT_DROP),
                  bo_buffer = b'\<lparr>b_error := (if e = 0 then 0 else ip4_input_errors E e),
                    current_data := current_data b' + 28, current_length := current_length b' - 28\<rparr>\<rparr>)"

text \<open>The caches are valid, and the state has not met a bad tunnel.\<close>

definition state_ok :: "('o, 'v) bypass_api \<Rightarrow> ('v \<Rightarrow> bool) \<Rightarrow> bool \<Rightarrow> 'v bypass_state \<Rightarrow> bool" where
  "state_ok E valid fault s \<longleftrightarrow> cache4_ok (bp_vxlan E) (bs_last4 s) \<and> valid (bs_last_vtep4 s) \<and> bs_fault s = fault"

text \<open>
  A concrete environment with the one tunnel of the packet \<open>vxlan_packet_demo\<close>, every destination a local end
  point, and no hardware checksums.
\<close>

definition vxlan_packet_demo :: "unit vlib_buffer" where
  "vxlan_packet_demo =
     buffer_demo () [0x45,0,0,50, 0,0,0,0, 64,17,0,0, 192,168,0,1, 10,0,0,9, 0x30,0,0x12,0xb5, 0,30,0,0, 8,0,0,0, 0,0,7,0]"

definition vxlan_demo :: vxlan_api where
  "vxlan_demo =
     (let m = b_data vxlan_packet_demo;
          k = (key_addresses (ip4_dst_address m 0) (ip4_src_address m 0),
            key_port_fib_vni (load_u16 m 22) 0 (load_u32 m 32))
      in \<lparr>vxlan4_tunnel_by_key = (\<lambda>k'. if k' = k \<and> k' \<noteq> (-1, -1) then Some 5 else None),
          vxlan6_tunnel_by_key = (\<lambda>k. None), vxlan_tunnels = (\<lambda>i. None),
          decap_info_of_u64 = (\<lambda>v. \<lparr>di_sw_if_index = ucast v, di_next_index = 0, di_error = VXLAN_ERROR_NONE\<rparr>),
          decap_info_local_ip = (\<lambda>v. 0), ip4_address_is_multicast = (\<lambda>a. False),
          ip6_address_is_multicast = (\<lambda>a. False), ip4_next_header = (\<lambda>m p. p + 20),
          ip6_next_header = (\<lambda>m p. p + 40), VXLAN_FLAGS_I = 8, VXLAN_INPUT_NEXT_DROP = 0\<rparr>)"

definition bypass_demo :: "(unit, unit) bypass_api" where
  "bypass_demo =
     \<lparr>bp_vxlan = vxlan_demo, ip4_is_fragment = (\<lambda>m p. False), vlib_buffer_get_ip_fib_index = (\<lambda>b v4. 0),
      vtep4_key_init = (), vtep6_key_init = (), vtep4_check = (\<lambda>b p v. (True, v)), vtep6_check = (\<lambda>b p v. (True, v)),
      ip4_tcp_udp_validate_checksum = (\<lambda>b. (b_flags b, b)), ip6_tcp_udp_icmp_validate_checksum = (\<lambda>b. (b_flags b, b)),
      VNET_BUFFER_F_L4_CHECKSUM_CORRECT = 4, IP4_ERROR_UDP_CHECKSUM = 1, IP4_ERROR_UDP_LENGTH = 2,
      IP6_ERROR_UDP_CHECKSUM = 1, IP6_ERROR_UDP_LENGTH = 2, ip4_input_errors = (\<lambda>e. 100)\<rparr>"

definition bypass_state_demo :: "unit bypass_state" where
  "bypass_state_demo = \<lparr>bs_last4 = ((0, 0), 0), bs_last6 = ((0, 0, 0), 0), bs_last_vtep4 = (), bs_last_vtep6 = (),
     bs_fault = False\<rparr>"

section \<open>Lemmas\<close>

text \<open>Handling two packets at a time is handling one after the other.\<close>

lemma bypass_step2_seq:
  "bypass_step2 V E is_ip4 s b0 b1 =
     (let (s, o0) = bypass_step V E is_ip4 s b0; (s, o1) = bypass_step V E is_ip4 s b1 in (s, o0, o1))"
  by (simp add: bypass_step2_def bypass_step_def Let_def)

interpretation bypass_frames: frame_filler P sent
  "fill_x2_x1 P (bypass_step2 V E is_ip4) (bypass_step V E is_ip4) bo_next" "bypass_step V E is_ip4" bo_next
  for P :: "'f frame_api" and sent :: "'f \<Rightarrow> (u32 \<times> u32) list" and V :: "'o vlib_api"
    and E :: "('o, 'v) bypass_api" and is_ip4 :: bool
  by unfold_locales (rule fill_x2_x1_law [OF _ bypass_step2_seq])

text \<open>The signed difference of two lengths.\<close>

lemma len_diff: "0 \<le> sint (ucast (a :: u16) - ucast b :: u32) \<longleftrightarrow> \<not> a < b"
proof -
  have r: "- 65536 < uint a - uint b" "uint a - uint b < 65536"
    using unsigned_less [of a, where ?'a = int] unsigned_less [of b, where ?'a = int] uint_ge_0 [of a] uint_ge_0 [of b]
    by (simp_all, linarith+)
  have "ucast a - ucast b = (word_of_int (uint a - uint b) :: u32)" by simp
  then have "sint (ucast a - ucast b :: u32) = uint a - uint b"
    using r by (simp only: signed_of_int) (simp add: signed_take_bit_int_eq_self)
  then show ?thesis by (simp add: word_less_def not_less)
qed

lemma load_u16_eq_0: "load_u16 m p = 0 \<longleftrightarrow> be16 (m p) (m (p + 1)) = 0"
  using le16_inject [of "m p" "m (p + 1)" 0 0] le16_inject [of "m (p + 1)" "m p" 0 0]
  by (auto simp: load_u16_def be16_def le16_def)

lemma decide_spec:
  assumes "vlib_ok V" and "bypass_env_ok E valid vtep" and "vlib_buffer_get_current V b = p"
  shows "bypass_decide V E True p udp b =
    (let (e, b') = udp_error E p udp b
     in \<lparr>bo_next = (if e = 0 then IP_VXLAN_BYPASS_NEXT_TUNTERM else IP_VXLAN_BYPASS_NEXT_DROP),
         bo_buffer = b'\<lparr>b_error := (if e = 0 then 0 else ip4_input_errors E e),
           current_data := current_data b' + 28, current_length := current_length b' - 28\<rparr>\<rparr>)"
proof -
  have chk: "snd (ip4_tcp_udp_validate_checksum E b) = b\<lparr>b_flags := fst (ip4_tcp_udp_validate_checksum E b)\<rparr>"
    and err: "IP4_ERROR_UDP_CHECKSUM E \<noteq> 0" "IP4_ERROR_UDP_LENGTH E \<noteq> 0"
    using assms(2) by (simp_all add: bypass_env_ok_def)
  show ?thesis
    using err vlib_okD [OF assms(1)] chk
    by (simp add: bypass_decide_def udp_error_def Let_def split_def len_diff load_u16_eq_0 net_load_u16
        add.assoc)
qed

lemma bypass_step_spec:
  assumes V: "vlib_ok V" and E: "bypass_env_ok E valid vtep" and s: "state_ok E valid fault s"
  shows "snd (bypass_step V E True s b) = bypass_spec V E vtep b \<and>
    state_ok E valid fault (fst (bypass_step V E True s b))"
proof -
  let ?p = "sint (current_data b)" and ?X = "bp_vxlan E"
  obtain ci where ci: "snd (vnet_feature_next V b) = b\<lparr>current_config_index := ci\<rparr>"
    by (rule feature_next_buffer [OF V])
  obtain nxt b1 where f: "vnet_feature_next V b = (nxt, b1)" by fastforce
  have cur: "vlib_buffer_get_current V b = ?p" "vlib_buffer_get_current V b1 = ?p"
    using ci f by (simp_all add: vlib_okD(1) [OF V])
  let ?m = "b_data b1" and ?fi = "vlib_buffer_get_ip_fib_index E b1 True"
  obtain di c st where t: "tunterm_acl_vxlan4_find_tunnel ?X (bs_last4 s) ?fi ?m ?p (?p + 28) (-1) = (di, c, st)"
    by (metis prod_cases3)
  have c: "di_sw_if_index di = tunnel4_of_packet ?X ?fi ?m ?p (?p + 28)" "cache4_ok ?X c"
    using find4_cached [OF _ _ t] s E by (simp_all add: state_ok_def bypass_env_ok_def)
  obtain r v where v: "vtep4_check E b1 ?p (bs_last_vtep4 s) = (r, v)" by fastforce
  then have r: "r = vtep b1 ?p" "valid v"
    using E s unfolding bypass_env_ok_def state_ok_def by (metis fst_conv snd_conv)+
  have vx: "?p + 8 + 20 = ?p + 28" by simp
  show ?thesis
    using s c r decide_spec [OF V E cur(2)] t v
    unfolding bypass_step_def bypass_setup_def bypass_process_def cur f Let_def split_def fst_conv snd_conv vx
    by (simp add: bypass_step_def bypass_setup_def bypass_process_def bypass_find_tunnel_def bypass_check_vtep_def
        bypass_spec_def bypass_taken_def f cur Let_def split_def state_ok_def)
qed

lemma bypass_loop_spec:
  assumes "vlib_ok V" and "bypass_env_ok E valid vtep" and "state_ok E valid fault s"
  shows "snd (frame_loop (bypass_step V E True) s bs) = map (bypass_spec V E vtep) bs \<and>
    state_ok E valid fault (fst (frame_loop (bypass_step V E True) s bs))"
  using assms(3)
proof (induction bs arbitrary: s)
  case (Cons b bs)
  with bypass_step_spec [OF assms(1,2) Cons.prems, of b] show ?case by (auto simp: split_def Let_def)
qed simp

lemma all_ones_low: "ucast (-1 :: u64) = (-1 :: u32)"
  by (metis all_ones_le64 le64_words(1))

lemma bypass_demo_ok: "bypass_env_ok bypass_demo (\<lambda>v. True) (\<lambda>b p. True)"
  by (simp add: all_ones_low bypass_env_ok_def bypass_demo_def vxlan_ok_def vxlan_demo_def Let_def)

lemma bypass_demo_taken: "bo_next (bypass_spec (vlib_demo 7) bypass_demo (\<lambda>b p. True) vxlan_packet_demo) = 2"
proof -
  let ?m = "b_data vxlan_packet_demo"
  have "ip4_dst_address ?m 0 \<noteq> -1"
    by (simp add: ip4_dst_address_def load_u32_def le32_def vxlan_packet_demo_def buffer_demo_def)
  then have k: "key_addresses (ip4_dst_address ?m 0) (ip4_src_address ?m 0) \<noteq> -1"
    by (metis all_ones_le64 key_addresses_le64 le64_inject)
  have cd: "sint (current_data vxlan_packet_demo) = 0"
    by (simp add: vxlan_packet_demo_def buffer_demo_def)
  have "bypass_taken bypass_demo (\<lambda>b p. True) 0 (vxlan_packet_demo\<lparr>current_config_index := ci\<rparr>)" for ci
    using k by (simp add: bypass_taken_def tunnel4_of_packet_def tunnel4_def bypass_demo_def vxlan_demo_def Let_def)
      (simp add: vxlan_packet_demo_def buffer_demo_def)
  moreover have "fst (udp_error bypass_demo 0 20 (vxlan_packet_demo\<lparr>current_config_index := ci\<rparr>)) = 0" for ci
    by (simp add: udp_error_def Let_def) (simp add: vxlan_packet_demo_def buffer_demo_def be16_def le16_def)
  moreover have "ip4_next_header (bp_vxlan bypass_demo) m 0 = 20" for m
    by (simp add: bypass_demo_def vxlan_demo_def Let_def)
  ultimately show ?thesis
    by (simp add: bypass_spec_def cd vlib_demo_def split_def Let_def IP_VXLAN_BYPASS_NEXT_TUNTERM_def)
qed

lemma bypass_node_run:
  assumes "vlib_ok V" and "frames_ok P sent" and "bypass_env_ok E valid vtep"
  shows "\<exists>s' f'. tunterm_acl_ip4_vxlan_bypass_node V E P trace_flag cached_next uninit ps f =
      Some (map (\<lambda>(bi, b). bypass_spec V E vtep b) ps, s', trace_flag, f') \<and>
    sent f' = sent f @ map (\<lambda>(bi, b). (bi, bo_next (bypass_spec V E vtep b))) ps \<and> bs_fault s' = bs_fault uninit"
proof -
  let ?s = "uninit\<lparr>bs_last_vtep4 := vtep4_key_init E, bs_last4 := last4_init\<rparr>"
  have "state_ok E valid (bs_fault uninit) ?s"
    using assms(3) by (simp add: state_ok_def bypass_env_ok_def cache4_ok_def)
  note loop = bypass_loop_spec [OF assms(1,3) this, of "map snd ps"]
  obtain os s' f' where d: "dispatch_frames P (fill_x2_x1 P (bypass_step2 V E True) (bypass_step V E True) bo_next)
      cached_next ps ?s f = Some (os, s', f')" "frame_loop (bypass_step V E True) ?s (map snd ps) = (s', os)"
      "sent f' = sent f @ zip (map fst ps) (map bo_next os)"
    using bypass_frames.dispatch_law [OF assms(2), of V E True cached_next ps ?s f] by blast
  have os: "os = map (\<lambda>(bi, b). bypass_spec V E vtep b) ps" "bs_fault s' = bs_fault uninit"
    using loop d(2) by (simp_all add: comp_def split_def state_ok_def)
  show ?thesis
    unfolding tunterm_acl_ip4_vxlan_bypass_node_def tunterm_acl_ip_vxlan_bypass_inline_def
    using d(1,3) os by (simp add: zip_map_map zip_same_conv_map split_def comp_def)
qed

section \<open>Properties\<close>

text \<open>C7: Working on pairs of packets, with caches for the last tunnel and the last local end point, and with
  speculative enqueueing, the bypass node does to every packet of a frame, in order, what a lookup without
  caches says: a packet that is not an unfragmented VXLAN packet of a known tunnel to a local end point
  continues on its arc untouched; any other goes to tunterm-acl with the current data at the VXLAN header,
  or is dropped when its UDP length exceeds the IP length or its checksum is wrong.\<close>

theorem tunterm_acl_bypass_node_correct:
  assumes "vlib_ok V" and "frames_ok P sent" and "bypass_env_ok E valid vtep"
  shows "\<exists>s' f'. tunterm_acl_ip4_vxlan_bypass_node V E P trace_flag cached_next uninit ps f =
      Some (map (\<lambda>(bi, b). bypass_spec V E vtep b) ps, s', trace_flag, f') \<and>
    sent f' = sent f @ map (\<lambda>(bi, b). (bi, bo_next (bypass_spec V E vtep b))) ps \<and> bs_fault s' = bs_fault uninit"
  by (rule bypass_node_run [OF assms])

theorem tunterm_acl_bypass_node_correct_witness:
  "\<exists>os s'. tunterm_acl_ip4_vxlan_bypass_node (vlib_demo 7) bypass_demo (frames_demo 1) False 0 bypass_state_demo
      [(5, vxlan_packet_demo), (6, vxlan_packet_demo)] [] = Some (os, s', False, [(5, 2), (6, 2)])"
  using tunterm_acl_bypass_node_correct [OF vlib_demo_ok frames_demo_ok bypass_demo_ok, of 7 1 False 0
      bypass_state_demo "[(5, vxlan_packet_demo), (6, vxlan_packet_demo)]" "[]"]
  by (auto simp: bypass_demo_taken)

end
