(* ===== verification/Tunterm_System.thy ===== *)
theory Tunterm_System
  imports Tunterm_Tables Tunterm_Node Tunterm_Bypass
begin

text \<open>
  The tunterm_acl plugin as a whole: what an ACL configured through the API makes of VXLAN packets that pass the
  bypass node and the tunterm-acl node.
\<close>

section \<open>Definitions\<close>

text \<open>
  Documented behaviour of the lookup: the tables in use are those with a mask; a lookup at an offset finds a
  session of the table whose match agrees with the packet under the mask of the table, and finds one if there is
  one.
\<close>

definition packet_bytes :: "nat \<Rightarrow> mem \<Rightarrow> int \<Rightarrow> u8 list" where
  "packet_bytes n m p = map (\<lambda>i. m (p + int i)) [0..<n]"

definition masked :: "u8 list \<Rightarrow> u8 list \<Rightarrow> u8 list" where
  "masked mk k = map2 (AND) mk k"

definition lookup_ok ::
  "'ct classify_api \<Rightarrow> (u32 \<times> u8 list \<Rightarrow> session_entry option) \<Rightarrow> (u32 \<Rightarrow> u8 list option) \<Rightarrow> bool" where
  "lookup_ok C entries masks \<longleftrightarrow>
     (\<forall>t. classify_tables C t \<noteq> None \<longleftrightarrow> masks t \<noteq> None) \<and>
     (\<forall>t mk m p. masks t = Some mk \<longrightarrow>
        (\<forall>e. acl_entry C t m p = Some e \<longrightarrow>
           (\<exists>k. entries (t, k) = Some (entry_next_index e, entry_metadata e, entry_action e) \<and>
              masked mk (packet_bytes 16 m p) = masked mk (take 16 k))) \<and>
        (\<forall>k. entries (t, k) \<noteq> None \<and> masked mk (packet_bytes 16 m p) = masked mk (take 16 k) \<longrightarrow>
           acl_entry C t m p \<noteq> None))"

text \<open>The inner destination address of a VXLAN packet with the VXLAN header at \<open>p\<close>.\<close>

definition inner_dst :: "bool \<Rightarrow> mem \<Rightarrow> int \<Rightarrow> u8 list" where
  "inner_dst v6 m p = packet_bytes (bytes_matched v6) m (inner_ip m p + (if v6 then 24 else 16))"

text \<open>The destination of a rule.\<close>

definition rule_address :: "('a, 'ap, 'p, 'w) tunterm_env \<Rightarrow> bool \<Rightarrow> ('a, 'ap) tunterm_acl_rule \<Rightarrow> u8 list" where
  "rule_address A v6 r =
     (let (ip4, ip6) = ip_address_decode A (rule_dst r) in take (bytes_matched v6) (if v6 then ip6 else ip4))"

text \<open>Documented behaviour of the address decoding: four bytes for IPv4 and sixteen for IPv6.\<close>

definition address_ok :: "('a, 'ap, 'p, 'w) tunterm_env \<Rightarrow> bool" where
  "address_ok A \<longleftrightarrow> (\<forall>a. length (fst (ip_address_decode A a)) = 4 \<and> length (snd (ip_address_decode A a)) = 16)"

text \<open>
  What has to happen to a packet whose VXLAN header is at \<open>p\<close>, when the table \<open>t\<close> of family \<open>v6\<close> holds the
  sessions \<open>ents\<close> of \<open>rules\<close>: if its inner destination is one of the rules', the packet leaves at the inner IP
  header with the metadata of the session and for the session's next node; otherwise it continues unchanged.
\<close>

definition redirect_outcome ::
  "('a, 'ap, 'p, 'w) tunterm_env \<Rightarrow> (u32 \<times> u8 list \<Rightarrow> session_entry option) \<Rightarrow> u32 \<Rightarrow> bool \<Rightarrow>
   ('a, 'ap) tunterm_acl_rule list \<Rightarrow> u32 \<Rightarrow> 'o vlib_buffer \<Rightarrow> u32 \<Rightarrow> 'o vlib_buffer \<Rightarrow> bool" where
  "redirect_outcome A ents t v6 rules n_next b next0 b' \<longleftrightarrow>
     (let p = sint (current_data b); dst = inner_dst v6 (b_data b) p
      in if dst \<in> rule_address A v6 ` set rules
         then \<exists>nx md. ents (t, (dst @ replicate (16 - bytes_matched v6) 0) @ u32_bytes t) =
             Some (nx, md, CLASSIFY_ACTION_SET_METADATA) \<and>
           next0 = (if nx < n_next then nx else TUNTERM_ACL_NEXT_VXLAN4_INPUT) \<and>
           b' = b\<lparr>current_data := current_data b + word_of_int (inner_ip (b_data b) p - p),
             current_length := current_length b - word_of_int (inner_ip (b_data b) p - p), adj_index_tx := md\<rparr>
         else next0 = TUNTERM_ACL_NEXT_VXLAN4_INPUT \<and> b' = b)"

text \<open>
  A packet received on \<open>sw\<close> that the bypass node sends on to tunterm-acl, with an inner packet of family \<open>v6\<close>. The
  IP header is in the buffer, less than \<^verbatim>\<open>2^15 - 28\<close> bytes from the start of the data area, and not so far in the
  headroom that the inner Ethernet header would be outside the data area.
\<close>

definition vxlan_packet ::
  "'o vlib_api \<Rightarrow> ('o, 'v) bypass_api \<Rightarrow> ('o vlib_buffer \<Rightarrow> int \<Rightarrow> bool) \<Rightarrow> u32 \<Rightarrow> bool \<Rightarrow> 'o vlib_buffer \<Rightarrow> bool" where
  "vxlan_packet V B vtep sw v6 b \<longleftrightarrow>
     rx_sw_if_index b = sw \<and> -36 \<le> sint (current_data b) \<and> sint (current_data b) < 2 ^ 15 - 28 \<and>
     bypass_taken B vtep (sint (current_data b)) (snd (vnet_feature_next V b)) \<and>
     bo_next (bypass_spec V B vtep b) = IP_VXLAN_BYPASS_NEXT_TUNTERM \<and>
     inner_type (b_data b) (sint (current_data b) + 28) = (if v6 then 0x86DD else 0x0800)"

text \<open>
  A concrete classifier with the session of the rule of \<open>add_replace_demo\<close>, and a VXLAN packet of the tunnel of
  \<open>bypass_demo\<close>, received on interface 2, with the inner destination 10.0.0.\<open>d\<close>.
\<close>

definition classify_cs :: "unit classify_api" where
  "classify_cs = classify_demo\<lparr>vnet_classify_find_entry := (\<lambda>t m p h. if packet_bytes 4 m p = [10, 0, 0, 1]
     then Some \<lparr>entry_next_index = 3, entry_metadata = 5, entry_action = CLASSIFY_ACTION_SET_METADATA\<rparr> else None)\<rparr>"

definition flow_demo :: "u8 \<Rightarrow> unit vlib_buffer" where
  "flow_demo d =
     (buffer_demo () [0x45,0,0,50, 0,0,0,0, 64,17,0,0, 192,168,0,1, 10,0,0,9, 0x30,0,0x12,0xb5, 0,30,0,0,
        8,0,0,0, 0,0,7,0, 2,0,0,0,0,1, 2,0,0,0,0,2, 0x08,0x00,
        0x45,0,0,20, 0,0,0,0, 64,17,0,0, 192,168,0,1, 10,0,0,d])\<lparr>rx_sw_if_index := 2\<rparr>"

section \<open>Matching\<close>

lemma length_packet_bytes [simp]: "length (packet_bytes n m p) = n"
  by (simp add: packet_bytes_def)

lemma take_packet_bytes: "k \<le> n \<Longrightarrow> take k (packet_bytes n m p) = packet_bytes k m p"
  by (simp add: packet_bytes_def take_map)

lemma bytes_matched_le [simp]: "bytes_matched v6 \<le> 16"
  by (simp add: bytes_matched_def)

lemma and_ones: "(0xff :: u8) AND x = x"
proof -
  have "(0xff :: u8) = -1" by simp
  then show ?thesis by (metis and.left_neutral)
qed

lemma map2_and_ones: "length k = n \<Longrightarrow> map2 (AND) (replicate n (0xff :: u8)) k = k"
  by (induction k arbitrary: n) (auto simp: and_ones)

lemma map2_and_zeros: "length k = n \<Longrightarrow> map2 (AND) (replicate n (0 :: u8)) k = replicate n 0"
  by (induction k arbitrary: n) auto

text \<open>The mask of a table keeps the bytes of the address.\<close>

lemma masked_classify:
  assumes "length k = 16"
  shows "masked (classify_mask v6) k = take (bytes_matched v6) k @ replicate (16 - bytes_matched v6) 0"
proof -
  let ?n = "bytes_matched v6"
  have "masked (classify_mask v6) (take ?n k @ drop ?n k) =
      map2 (AND) (replicate ?n 0xff) (take ?n k) @ map2 (AND) (replicate (16 - ?n) 0) (drop ?n k)"
    unfolding masked_def classify_mask_def using assms by (subst zip_append) simp_all
  also have "\<dots> = take ?n k @ replicate (16 - ?n) 0"
    using assms by (simp add: map2_and_ones map2_and_zeros)
  finally show ?thesis by simp
qed

lemma rule_match_address:
  assumes "address_ok A"
  shows "rule_match A v6 r = rule_address A v6 r @ replicate (16 - bytes_matched v6) 0"
    and "length (rule_address A v6 r) = bytes_matched v6"
proof -
  obtain ip4 ip6 where d: "ip_address_decode A (rule_dst r) = (ip4, ip6)" by fastforce
  have len: "length ip4 = 4" "length ip6 = 16"
    using assms d unfolding address_ok_def by (metis fst_conv, metis snd_conv)
  have nth: "map (\<lambda>i. xs ! i) [0..<n] = take n xs" if "n \<le> length xs" for n and xs :: "u8 list"
    using that by (simp add: list_eq_iff_nth_eq)
  show "rule_match A v6 r = rule_address A v6 r @ replicate (16 - bytes_matched v6) 0"
    using len nth [of 4 ip4] nth [of 16 ip6] by (simp add: rule_match_def rule_address_def d bytes_matched_def)
  show "length (rule_address A v6 r) = bytes_matched v6"
    using len by (simp add: rule_address_def d bytes_matched_def)
qed

lemma match_iff:
  assumes "address_ok A"
  shows "masked (classify_mask v6) (packet_bytes 16 m p) = masked (classify_mask v6) (take 16 (rule_match A v6 r @ ext)) \<longleftrightarrow>
    packet_bytes (bytes_matched v6) m p = rule_address A v6 r"
proof -
  have "length (rule_match A v6 r) = 16" by (simp add: rule_match_address [OF assms])
  then show ?thesis
    by (simp add: masked_classify take_packet_bytes rule_match_address [OF assms])
qed

text \<open>The lookup in a table that holds exactly the sessions of the rules.\<close>

lemma acl_entry_rules:
  assumes "address_ok A" and "lookup_ok C ents masks" and "masks t = Some (classify_mask v6)"
    and keys: "{k. ents (t, k) \<noteq> None} = (\<lambda>r. rule_match A v6 r @ u32_bytes t) ` set rules"
  shows "acl_entry C t m p \<noteq> None \<longleftrightarrow> packet_bytes (bytes_matched v6) m p \<in> rule_address A v6 ` set rules"
    and "acl_entry C t m p = Some e \<Longrightarrow>
      ents (t, (packet_bytes (bytes_matched v6) m p @ replicate (16 - bytes_matched v6) 0) @ u32_bytes t) =
        Some (entry_next_index e, entry_metadata e, entry_action e)"
proof -
  let ?dst = "packet_bytes (bytes_matched v6) m p"
  have sound: "\<exists>k. ents (t, k) = Some (entry_next_index e, entry_metadata e, entry_action e) \<and>
      masked (classify_mask v6) (packet_bytes 16 m p) = masked (classify_mask v6) (take 16 k)"
    if "acl_entry C t m p = Some e" for e
    using assms(2,3) that unfolding lookup_ok_def by blast
  have complete: "acl_entry C t m p \<noteq> None"
    if "ents (t, k) \<noteq> None" "masked (classify_mask v6) (packet_bytes 16 m p) = masked (classify_mask v6) (take 16 k)" for k
    using assms(2,3) that unfolding lookup_ok_def by blast
  have found: "\<exists>r\<in>set rules. ?dst = rule_address A v6 r \<and>
      ents (t, rule_match A v6 r @ u32_bytes t) = Some (entry_next_index e, entry_metadata e, entry_action e)"
    if "acl_entry C t m p = Some e" for e
  proof -
    obtain k where k: "ents (t, k) = Some (entry_next_index e, entry_metadata e, entry_action e)"
      "masked (classify_mask v6) (packet_bytes 16 m p) = masked (classify_mask v6) (take 16 k)"
      using sound [OF \<open>acl_entry C t m p = Some e\<close>] by blast
    then have "k \<in> {k. ents (t, k) \<noteq> None}" by simp
    then obtain r where "r \<in> set rules" "k = rule_match A v6 r @ u32_bytes t" unfolding keys by blast
    with k match_iff [OF assms(1)] show ?thesis by blast
  qed
  show "ents (t, (?dst @ replicate (16 - bytes_matched v6) 0) @ u32_bytes t) =
      Some (entry_next_index e, entry_metadata e, entry_action e)" if "acl_entry C t m p = Some e"
    using found [OF that] rule_match_address(1) [OF assms(1)] by auto
  show "acl_entry C t m p \<noteq> None \<longleftrightarrow> ?dst \<in> rule_address A v6 ` set rules"
  proof
    assume "acl_entry C t m p \<noteq> None"
    then show "?dst \<in> rule_address A v6 ` set rules" using found by blast
  next
    assume "?dst \<in> rule_address A v6 ` set rules"
    then obtain r where r: "r \<in> set rules" "?dst = rule_address A v6 r" by blast
    then have "rule_match A v6 r @ u32_bytes t \<in> {k. ents (t, k) \<noteq> None}" unfolding keys by blast
    then show "acl_entry C t m p \<noteq> None" using complete match_iff [OF assms(1)] r(2) by blast
  qed
qed

lemma acl_spec_outcome:
  assumes "address_ok A" and "lookup_ok C ents masks" and "masks t = Some (classify_mask v6)"
    and keys: "{k. ents (t, k) \<noteq> None} = (\<lambda>r. rule_match A v6 r @ u32_bytes t) ` set rules"
    and act: "\<forall>k nx md act. ents (t, k) = Some (nx, md, act) \<longrightarrow> act = CLASSIFY_ACTION_SET_METADATA"
    and "t \<noteq> -1" and "attached sm (v6, rx_sw_if_index b) = t"
    and "inner_type (b_data b) (sint (current_data b)) = (if v6 then 0x86DD else 0x0800)"
  shows "redirect_outcome A ents t v6 rules n b (fst (snd (acl_spec C n sm b))) (snd (snd (acl_spec C n sm b)))"
proof -
  let ?m = "b_data b" and ?p = "sint (current_data b)"
  let ?dip = "inner_ip ?m ?p + (if v6 then 24 else 16)"
  have ty: "(inner_type ?m ?p = 0x86DD) = v6" "\<not> v6 \<and> inner_type ?m ?p \<noteq> 0x0800 \<longleftrightarrow> False"
    using assms(8) by simp_all
  note e = acl_entry_rules [OF assms(1-4), of ?m ?dip]
  show ?thesis
  proof (cases "acl_entry C t ?m ?dip")
    case None
    then have "inner_dst v6 ?m ?p \<notin> rule_address A v6 ` set rules" using e(1) by (simp add: inner_dst_def)
    then show ?thesis
      unfolding acl_spec_def redirect_outcome_def Let_def ty using None assms(6,7) by simp
  next
    case (Some x)
    have dst: "inner_dst v6 ?m ?p \<in> rule_address A v6 ` set rules" using e(1) Some by (simp add: inner_dst_def)
    have ent: "ents (t, (inner_dst v6 ?m ?p @ replicate (16 - bytes_matched v6) 0) @ u32_bytes t) =
        Some (entry_next_index x, entry_metadata x, entry_action x)" using e(2) [OF Some] by (simp add: inner_dst_def)
    then have "entry_action x = CLASSIFY_ACTION_SET_METADATA" using act by blast
    then show ?thesis
      unfolding acl_spec_def redirect_outcome_def Let_def ty using Some assms(6,7) dst ent by simp
  qed
qed

section \<open>A configured ACL\<close>

lemma replaced_config:
  assumes cfg: "tun_config A E F w0 tabs (sm, im, w)" and env: "tunterm_env_ok A E F"
    and off: "\<forall>i. \<not> enabled F w0 (''ip4-unicast'', ''tunterm-ip4-vxlan-bypass'', i)"
    and h: "vl_api_tunterm_acl_add_replace_t_handler A E mp (sm, im, w) = Some (RV_OK, idx, s1)"
    and fit: "rules_fit A mp"
    and ix: "clib_net_to_host_u32 (ar_tunterm_acl_index mp) \<in> tabs \<or>
      clib_net_to_host_u32 (ar_tunterm_acl_index mp) = -1 \<and> clib_net_to_host_u32 idx \<notin> tabs"
  shows "tun_config A E F w0 (insert (clib_net_to_host_u32 idx) tabs) s1"
proof -
  note inv = tun_config_inv [OF cfg env off]
  obtain sm1 im1 w1 where s1: "s1 = (sm1, im1, w1)" by (metis prod_cases3)
  show ?thesis
    using ix
  proof
    assume a: "clib_net_to_host_u32 (ar_tunterm_acl_index mp) \<in> tabs"
    then have "clib_net_to_host_u32 (ar_tunterm_acl_index mp) \<noteq> -1" using inv by (auto simp: tun_inv_iff)
    with h [unfolded s1] have "clib_net_to_host_u32 idx = clib_net_to_host_u32 (ar_tunterm_acl_index mp)"
      by (elim add_replace_shape) simp_all
    with a show ?thesis using tun_config.replace [OF cfg h fit] by (simp add: insert_absorb)
  next
    assume new: "clib_net_to_host_u32 (ar_tunterm_acl_index mp) = -1 \<and> clib_net_to_host_u32 idx \<notin> tabs"
    have "tabs \<union> {clib_net_to_host_u32 idx} - {-1} = insert (clib_net_to_host_u32 idx) tabs"
      using replaced_index [OF env inv h [unfolded s1] ix] inv by (auto simp: tun_inv_iff)
    then show ?thesis using tun_config.create [OF cfg h fit] new by simp
  qed
qed

lemma replaced_family:
  assumes "tunterm_env_ok A E F" and "tun_inv F tabs (sm, im, w)"
    and h: "vl_api_tunterm_acl_add_replace_t_handler A E mp (sm, im, w) = Some (RV_OK, idx, sm1, im1, w1)"
    and "take (unat (clib_net_to_host_u32 (ar_count mp))) (ar_rules mp) \<noteq> []"
  shows "classify_table_index_is_v6 sm1 ! unat (clib_net_to_host_u32 idx) = ar_is_ipv6 mp"
proof -
  have "0 < clib_net_to_host_u32 (ar_count mp)" using assms(4) by (auto simp: word_gt_0)
  moreover obtain sm3 w3 where r: "replace_sessions A E (ar_is_ipv6 mp) (clib_net_to_host_u32 (ar_count mp))
      (ar_rules mp) (clib_net_to_host_u32 idx) (sm3, im, w3) = Some (RV_OK, sm1, im1, w1)"
    using add_replace_ok [OF h] by blast
  moreover have "pool_ok E" "chain_ok E" "redirect_inv im"
    using assms(1,2) by (simp_all add: tunterm_env_ok_def tun_inv_iff)
  ultimately show ?thesis using replace_sessions_exact(4) [OF _ _ _ r] by blast
qed

text \<open>
  The state after an ACL was created or replaced and then attached to an interface, both with success, in a
  state the API reached.
\<close>

lemma configured_acl:
  fixes idx :: u32
  defines "t \<equiv> clib_net_to_host_u32 idx"
  assumes cfg: "tun_config A E F w0 tabs (sm, im, w)" and env: "tunterm_env_ok A E F"
    and cls: "classifier_ok A E F entries masks"
    and off: "\<forall>i. \<not> enabled F w0 (''ip4-unicast'', ''tunterm-ip4-vxlan-bypass'', i)" and empty: "entries w0 = Map.empty"
    and h: "vl_api_tunterm_acl_add_replace_t_handler A E mp (sm, im, w) = Some (RV_OK, idx, sm1, im1, w1)"
    and fit: "rules_fit A mp"
    and ix: "clib_net_to_host_u32 (ar_tunterm_acl_index mp) \<in> tabs \<or>
      clib_net_to_host_u32 (ar_tunterm_acl_index mp) = -1 \<and> clib_net_to_host_u32 idx \<notin> tabs"
    and at: "vl_api_tunterm_acl_interface_add_del_t_handler A F \<lparr>iad_is_add = True,
      iad_sw_if_index = clib_host_to_net_u32 sw, iad_tunterm_acl_index = idx\<rparr> (sm1, im1, w1) =
      Some (RV_OK, sm2, im2, w2)"
  shows "tun_inv F (insert t tabs) (sm2, im2, w2)" and "t \<noteq> -1"
    and "attached sm2 (classify_table_index_is_v6 sm2 ! unat t, sw) = t"
    and "enabled F w2 (''ip4-unicast'', ''tunterm-ip4-vxlan-bypass'', sw)"
    and "tables_ok masks (insert t tabs) sm2 w2" and "all_redirect entries w2"
    and "{k. entries w2 (t, k) \<noteq> None} = (\<lambda>r. rule_match A (classify_table_index_is_v6 sm2 ! unat t) r @ u32_bytes t) `
      set (take (unat (clib_net_to_host_u32 (ar_count mp))) (ar_rules mp))"
proof -
  let ?rules = "take (unat (clib_net_to_host_u32 (ar_count mp))) (ar_rules mp)"
  note inv = tun_config_inv [OF cfg env off]
  note c = classifier_after_replace [OF cfg env cls off empty h ix, folded t_def]
  note same = attach_tables [OF cls at]
  show t: "t \<noteq> -1" unfolding t_def by (rule replaced_index [OF env inv h ix])
  note cfg1 = replaced_config [OF cfg env off h fit ix, folded t_def]
  note inv1 = tun_config_inv [OF cfg1 env off]
  have "tun_config A E F w0 (insert t tabs) (sm2, im2, w2)"
    using tun_config.attach [OF cfg1 at] by (simp add: t_def)
  then show "tun_inv F (insert t tabs) (sm2, im2, w2)" by (rule tun_config_inv [OF _ env off])
  have "\<not> tunterm_sw_is_free_index A sw"
    using at by (auto simp: vl_api_tunterm_acl_interface_add_del_t_handler_def Let_def split: if_splits)
  from attach_spec [OF env inv1 insertI1 this] at
  have a: "attached sm2 = (attached sm1)((classify_table_index_is_v6 sm1 ! unat t, sw) := t)"
    "enabled F w2 (''ip4-unicast'', ''tunterm-ip4-vxlan-bypass'', sw)" by (simp_all add: t_def)
  then show "attached sm2 (classify_table_index_is_v6 sm2 ! unat t, sw) = t"
    "enabled F w2 (''ip4-unicast'', ''tunterm-ip4-vxlan-bypass'', sw)" using same by simp_all
  show "tables_ok masks (insert t tabs) sm2 w2" "all_redirect entries w2"
    using c(2,3) same by (simp_all add: tables_ok_def all_redirect_def)
  note fam = replaced_family [OF env inv h, folded t_def]
  show "{k. entries w2 (t, k) \<noteq> None} = (\<lambda>r. rule_match A (classify_table_index_is_v6 sm2 ! unat t) r @ u32_bytes t) ` set ?rules"
  proof (cases "?rules = []")
    case True
    with c(1) same show ?thesis by simp
  next
    case False
    with c(1) same fam show ?thesis by simp
  qed
qed

lemma bypass_taken_buffer:
  assumes V: "vlib_ok V" and "bypass_env_ok B valid vtep"
    and "bypass_taken B vtep (sint (current_data b)) (snd (vnet_feature_next V b))"
    and "-36 \<le> sint (current_data b)" and "sint (current_data b) < 2 ^ 15 - 28"
  shows "b_data (bo_buffer (bypass_spec V B vtep b)) = b_data b"
    and "rx_sw_if_index (bo_buffer (bypass_spec V B vtep b)) = rx_sw_if_index b"
    and "sint (current_data (bo_buffer (bypass_spec V B vtep b))) = sint (current_data b) + 28"
proof -
  obtain ci where ci: "snd (vnet_feature_next V b) = b\<lparr>current_config_index := ci\<rparr>"
    by (rule feature_next_buffer [OF V])
  then obtain nx where f: "vnet_feature_next V b = (nx, b\<lparr>current_config_index := ci\<rparr>)" by (metis prod.collapse)
  have u: "\<exists>e fl. udp_error B p udp b1 = (e, b1\<lparr>b_flags := fl\<rparr>)" for p udp and b1 :: "'a vlib_buffer"
    by (auto simp: udp_error_def Let_def split_def intro: exI [of _ "b_flags b1"])
  from u [of "sint (current_data b)" "ip4_next_header (bp_vxlan B) (b_data b) (sint (current_data b))"
      "b\<lparr>current_config_index := ci\<rparr>"] obtain e fl where
    o: "bo_buffer (bypass_spec V B vtep b) = b\<lparr>current_config_index := ci, b_flags := fl,
      b_error := (if e = 0 then 0 else ip4_input_errors B e),
      current_data := current_data b + 28, current_length := current_length b - 28\<rparr>"
    using assms(3) by (auto simp: bypass_spec_def f)
  show "b_data (bo_buffer (bypass_spec V B vtep b)) = b_data b"
    "rx_sw_if_index (bo_buffer (bypass_spec V B vtep b)) = rx_sw_if_index b" by (simp_all add: o)
  have "sint (current_data b + 28) = sint (current_data b) + 28"
    using assms(4,5) by (simp add: signed_take_bit_int_eq_self sint_word_ariths)
  then show "sint (current_data (bo_buffer (bypass_spec V B vtep b))) = sint (current_data b) + 28" by (simp add: o)
qed

section \<open>The concrete system\<close>

lemma cs_attach:
  assumes "classify_table_index_is_v6 sm = [False, False, False, False]"
    and "classify_table_index_by_sw_if_index_v4 sm = []" and "classify_table_index_by_sw_if_index_v6 sm = []"
    and "cs_features w = no_features"
  shows "vl_api_tunterm_acl_interface_add_del_t_handler cs_tunterm cs_feature attach_demo (sm, im, w) =
    Some (RV_OK, sm\<lparr>classify_table_index_by_sw_if_index_v6 := [-1, -1, -1],
        classify_table_index_by_sw_if_index_v4 := [-1, -1, 3]\<rparr>, im,
      w\<lparr>cs_features := no_features((''ip4-unicast'', ''tunterm-ip4-vxlan-bypass'', 2) := 1)\<rparr>)"
  using assms vectors_grown
  by (simp add: vl_api_tunterm_acl_interface_add_del_t_handler_def tunterm_bypass_enable_disable_def cs_tunterm_def
      tunterm_demo_def cs_feature_def attach_demo_def count_call_def no_features_def Let_def)

lemma cs_address_ok: "address_ok cs_tunterm"
  by (auto simp: address_ok_def cs_tunterm_def)

lemma classify_cs_lookup:
  "lookup_ok classify_cs [(3, ([10, 0, 0, 1] @ replicate 12 0) @ u32_bytes 3) \<mapsto> (3, 5, CLASSIFY_ACTION_SET_METADATA)]
    [3 \<mapsto> classify_mask False]"
proof -
  have "masked (classify_mask False) (packet_bytes 16 m p) =
      masked (classify_mask False) (take 16 (([10, 0, 0, 1] @ replicate 12 0) @ u32_bytes 3)) \<longleftrightarrow>
      packet_bytes 4 m p = [10, 0, 0, 1]" for m p
    by (simp add: masked_classify bytes_matched_def take_packet_bytes)
  moreover have "acl_entry classify_cs 3 m p = (if packet_bytes 4 m p = [10, 0, 0, 1]
      then Some \<lparr>entry_next_index = 3, entry_metadata = 5, entry_action = CLASSIFY_ACTION_SET_METADATA\<rparr> else None)" for m p
    by (simp add: acl_entry_def classify_cs_def classify_demo_def)
  moreover have "classify_tables classify_cs t \<noteq> None \<longleftrightarrow> t = 3" for t
    by (simp add: classify_cs_def classify_demo_def)
  ultimately show ?thesis unfolding lookup_ok_def by auto
qed

lemma flow_demo_header:
  "ip4_dst_address (b_data (flow_demo d)) 0 = ip4_dst_address (b_data vxlan_packet_demo) 0"
  "ip4_src_address (b_data (flow_demo d)) 0 = ip4_src_address (b_data vxlan_packet_demo) 0"
  "load_u16 (b_data (flow_demo d)) 22 = load_u16 (b_data vxlan_packet_demo) 22"
  "load_u32 (b_data (flow_demo d)) 32 = load_u32 (b_data vxlan_packet_demo) 32"
  "b_data (flow_demo d) 9 = 17" "b_data (flow_demo d) 28 = 8" "sint (current_data (flow_demo d)) = 0"
  "rx_sw_if_index (flow_demo d) = 2"
  by (simp_all add: flow_demo_def vxlan_packet_demo_def buffer_demo_def ip4_dst_address_def ip4_src_address_def
      load_u32_def load_u16_def)

lemma flow_demo_vxlan: "vxlan_packet (vlib_demo 7) bypass_demo (\<lambda>b p. True) 2 False (flow_demo d)"
proof -
  let ?m = "b_data (flow_demo d)" and ?v = "b_data vxlan_packet_demo"
  have "ip4_dst_address ?v 0 \<noteq> -1"
    by (simp add: ip4_dst_address_def load_u32_def le32_def vxlan_packet_demo_def buffer_demo_def)
  then have k: "key_addresses (ip4_dst_address ?v 0) (ip4_src_address ?v 0) \<noteq> -1"
    by (metis all_ones_le64 key_addresses_le64 le64_inject)
  have t: "bypass_taken bypass_demo (\<lambda>b p. True) 0 ((flow_demo d)\<lparr>current_config_index := ci\<rparr>)" for ci
    using k by (simp add: bypass_taken_def tunnel4_of_packet_def tunnel4_def bypass_demo_def vxlan_demo_def Let_def
        flow_demo_header)
  have u: "fst (udp_error bypass_demo 0 20 ((flow_demo d)\<lparr>current_config_index := ci\<rparr>)) = 0" for ci
    by (simp add: udp_error_def Let_def) (simp add: flow_demo_def buffer_demo_def be16_def le16_def)
  have "ip4_next_header (bp_vxlan bypass_demo) m 0 = 20" for m
    by (simp add: bypass_demo_def vxlan_demo_def Let_def)
  with t u have "bo_next (bypass_spec (vlib_demo 7) bypass_demo (\<lambda>b p. True) (flow_demo d)) = IP_VXLAN_BYPASS_NEXT_TUNTERM"
    by (simp add: bypass_spec_def flow_demo_header vlib_demo_def split_def Let_def)
  moreover have "inner_type ?m 28 = 0x0800"
    by (simp add: inner_type_def inner_ip_def inner_tagged_def flow_demo_def buffer_demo_def be16_eq_numeral)
  ultimately show ?thesis
    using t by (simp add: vxlan_packet_def flow_demo_header vlib_demo_def)
qed

section \<open>Property\<close>

lemma flow_demo_dst: "inner_dst False (b_data (flow_demo d)) 28 = [10, 0, 0, d]"
  by (simp add: inner_dst_def inner_ip_def inner_tagged_def packet_bytes_def bytes_matched_def flow_demo_def
      buffer_demo_def be16_eq_numeral upt_rec)

lemma add_replace_demo_addresses:
  "rule_address cs_tunterm False ` set (take (unat (clib_net_to_host_u32 (ar_count add_replace_demo)))
    (ar_rules add_replace_demo)) = {[10, 0, 0, 1]}"
  by (simp add: rule_address_def add_replace_demo_def cs_tunterm_def bytes_matched_def)

text \<open>C1: Once an ACL was created or replaced and attached to an interface, both with success and in a state the API
  reached, VXLAN packets received there are redirected exactly as the ACL says, through the whole pipeline of
  nodes: the bypass node sends every one of them on with the current data at the VXLAN header, and the
  tunterm-acl node strips the ones whose inner destination address is the destination of a rule of the
  message down to the inner IP header and sends them with the metadata of the rule's session to its next
  node, while every other packet continues unchanged to vxlan4-input; no read is out of bounds.\<close>

theorem tunterm_acl_redirects_configured_flows:
  assumes "tunterm_env_ok A E F" and "classifier_ok A E F entries masks" and "address_ok A"
    and "vlib_ok V" and "frames_ok P sent" and "bypass_env_ok B valid vtep"
    and "tun_config A E F w0 tabs (sm, im, w)"
    and "\<forall>i. \<not> enabled F w0 (''ip4-unicast'', ''tunterm-ip4-vxlan-bypass'', i)" and "entries w0 = Map.empty"
    and "vl_api_tunterm_acl_add_replace_t_handler A E mp (sm, im, w) = Some (RV_OK, idx, sm1, im1, w1)"
    and "rules_fit A mp"
    and "clib_net_to_host_u32 (ar_tunterm_acl_index mp) \<in> tabs \<or>
      clib_net_to_host_u32 (ar_tunterm_acl_index mp) = -1 \<and> clib_net_to_host_u32 idx \<notin> tabs"
    and "vl_api_tunterm_acl_interface_add_del_t_handler A F \<lparr>iad_is_add = True,
      iad_sw_if_index = clib_host_to_net_u32 sw, iad_tunterm_acl_index = idx\<rparr> (sm1, im1, w1) =
      Some (RV_OK, sm2, im2, w2)"
    and "lookup_ok C (entries w2) (masks w2)"
    and "t = clib_net_to_host_u32 idx" and "v6 = classify_table_index_is_v6 sm2 ! unat t"
    and "\<forall>b\<in>snd ` set ps. vxlan_packet V B vtep sw v6 b"
  shows "\<exists>os1 s' f1 os2 counts f2.
    tunterm_acl_ip4_vxlan_bypass_node V B P trace_flag cached_next uninit ps f = Some (os1, s', trace_flag, f1) \<and>
    sent f1 = sent f @ map (\<lambda>(bi, b). (bi, IP_VXLAN_BYPASS_NEXT_TUNTERM)) ps \<and>
    tunterm_acl_node V C P node sm2 (zip (map fst ps) (map bo_buffer os1)) g = Some (os2, counts, False, f2) \<and>
    length os1 = length ps \<and> length os2 = length ps \<and>
    (\<forall>i<length ps.
      b_data (bo_buffer (os1 ! i)) = b_data (snd (ps ! i)) \<and>
      sint (current_data (bo_buffer (os1 ! i))) = sint (current_data (snd (ps ! i))) + 28 \<and>
      redirect_outcome A (entries w2) t v6 (take (unat (clib_net_to_host_u32 (ar_count mp))) (ar_rules mp))
        (n_next_nodes node) (bo_buffer (os1 ! i)) (ao_next (os2 ! i)) (ao_buffer (os2 ! i)))"
proof -
  let ?rules = "take (unat (clib_net_to_host_u32 (ar_count mp))) (ar_rules mp)"
  note k = configured_acl [OF assms(7,1,2,8-13), folded assms(15), folded assms(16)]
  obtain s' f1 where by1: "tunterm_acl_ip4_vxlan_bypass_node V B P trace_flag cached_next uninit ps f =
      Some (map (\<lambda>(bi, b). bypass_spec V B vtep b) ps, s', trace_flag, f1)"
    "sent f1 = sent f @ map (\<lambda>(bi, b). (bi, bo_next (bypass_spec V B vtep b))) ps"
    using bypass_node_run [OF assms(4-6), of trace_flag cached_next uninit ps f] by blast
  let ?out = "\<lambda>b. bo_buffer (bypass_spec V B vtep b)"
  have pkt: "b_data (?out b) = b_data b" "rx_sw_if_index (?out b) = sw"
    "sint (current_data (?out b)) = sint (current_data b) + 28"
    "inner_type (b_data (?out b)) (sint (current_data (?out b))) = (if v6 then 0x86DD else 0x0800)"
    "-8 \<le> sint (current_data (?out b))" if "b \<in> snd ` set ps" for b
    using bypass_taken_buffer [OF assms(4,6), of b] bspec [OF assms(17) that] unfolding vxlan_packet_def by simp_all
  let ?ps = "zip (map fst ps) (map bo_buffer (map (\<lambda>(bi, b). bypass_spec V B vtep b) ps))"
  have ps: "map snd ?ps = map (\<lambda>x. ?out (snd x)) ps" by (simp add: split_def comp_def)
  have tab: "\<forall>t\<in>insert t tabs. classify_tables C t \<noteq> None"
    using k(5) assms(14) by (simp add: lookup_ok_def tables_ok_def)
  have "acl_safe C sm2 (?out b)" if "b \<in> snd ` set ps" for b
    using k(4) pkt(2,5) [OF that] by (intro acl_safe_inv [OF k(1) tab]) simp_all
  then have "\<forall>b\<in>set (map snd ?ps). acl_safe C sm2 b" unfolding ps by auto
  from acl_node_run [OF assms(4,5) this, of node g] obtain counts f2 where
    acl: "tunterm_acl_node V C P node sm2 ?ps g =
      Some (map (acl_output V C node sm2) (map snd ?ps), counts, False, f2)" by blast
  have "masks w2 t = Some (classify_mask v6)" using k(5) assms(16) by (simp add: tables_ok_def)
  then have out: "redirect_outcome A (entries w2) t v6 ?rules (n_next_nodes node) (?out b)
      (ao_next (acl_output V C node sm2 (?out b))) (ao_buffer (acl_output V C node sm2 (?out b)))"
    if "b \<in> snd ` set ps" for b
    unfolding acl_output_simps
    using acl_spec_outcome [OF assms(3,14) _ k(7) _ k(2), of sm2 "?out b" "n_next_nodes node"] k(3,6) pkt(2,4) [OF that]
    by (simp add: all_redirect_def)
  have sent: "map (\<lambda>(bi, b). (bi, bo_next (bypass_spec V B vtep b))) ps = map (\<lambda>(bi, b). (bi, IP_VXLAN_BYPASS_NEXT_TUNTERM)) ps"
    using assms(17) by (auto simp: vxlan_packet_def split_def)
  have "snd (ps ! i) \<in> snd ` set ps" if "i < length ps" for i using that by simp
  with pkt(1,3) out by1 acl show ?thesis
    unfolding ps sent by (intro exI conjI) (assumption | simp add: split_def)+
qed

theorem tunterm_acl_redirects_configured_flows_witness:
  "\<exists>sm1 im1 w1 sm2 im2 w2 os1 s' f1 os2 counts f2.
     vl_api_tunterm_acl_add_replace_t_handler cs_tunterm cs_redirect add_replace_demo
       (tunterm_acl_init cs_redirect 9 cs_empty) = Some (RV_OK, clib_host_to_net_u32 3, sm1, im1, w1) \<and>
     vl_api_tunterm_acl_interface_add_del_t_handler cs_tunterm cs_feature attach_demo (sm1, im1, w1) =
       Some (RV_OK, sm2, im2, w2) \<and>
     tunterm_acl_ip4_vxlan_bypass_node (vlib_demo 7) bypass_demo (frames_demo 1) False 0 bypass_state_demo
       [(5, flow_demo 1), (6, flow_demo 2)] [] = Some (os1, s', False, f1) \<and>
     tunterm_acl_node (vlib_demo 7) classify_cs (frames_demo 1) acl_runtime_demo sm2
       (zip [5, 6] (map bo_buffer os1)) [] = Some (os2, counts, False, f2) \<and>
     ao_next (os2 ! 0) = 3 \<and> ao_next (os2 ! 1) = TUNTERM_ACL_NEXT_VXLAN4_INPUT"
proof -
  let ?ps = "[(5, flow_demo 1), (6, flow_demo 2)] :: unit vlib_buffer packet list"
  let ?ents = "[(3, ([10, 0, 0, 1] @ replicate 12 0) @ u32_bytes 3) \<mapsto> (3, 5, CLASSIFY_ACTION_SET_METADATA)]"
  obtain sm1 im1 w1 where c: "vl_api_tunterm_acl_add_replace_t_handler cs_tunterm cs_redirect add_replace_demo
      (tunterm_acl_init cs_redirect 9 cs_empty) = Some (RV_OK, clib_host_to_net_u32 3, sm1, im1, w1)"
    "classify_table_index_is_v6 sm1 = [False, False, False, False]"
    "classify_table_index_by_sw_if_index_v4 sm1 = []" "classify_table_index_by_sw_if_index_v6 sm1 = []"
    "w1 = \<lparr>cs_entries = ?ents, cs_masks = [3 \<mapsto> classify_mask False], cs_features = no_features\<rparr>" using cs_created by blast
  obtain sm0 im0 w0 where i: "tunterm_acl_init cs_redirect 9 cs_empty = (sm0, im0, w0)" by (metis prod_cases3)
  have cfg: "tun_config cs_tunterm cs_redirect cs_feature cs_empty {} (sm0, im0, w0)"
    using tun_config.init [of cs_tunterm cs_redirect cs_feature cs_empty 9] i by simp
  obtain sm2 w2 where a: "vl_api_tunterm_acl_interface_add_del_t_handler cs_tunterm cs_feature attach_demo (sm1, im1, w1) =
      Some (RV_OK, sm2, im1, w2)" "classify_table_index_is_v6 sm2 = classify_table_index_is_v6 sm1"
    "cs_entries w2 = ?ents" "cs_masks w2 = [3 \<mapsto> classify_mask False]"
    using cs_attach [OF c(2-4), of w1 im1] c(5) by simp
  have hyp: "cs_entries cs_empty = Map.empty" "rules_fit cs_tunterm add_replace_demo"
    "clib_net_to_host_u32 (ar_tunterm_acl_index add_replace_demo) \<in> {} \<or>
      clib_net_to_host_u32 (ar_tunterm_acl_index add_replace_demo) = -1 \<and> clib_net_to_host_u32 (clib_host_to_net_u32 3) \<notin> {}"
    "lookup_ok classify_cs (cs_entries w2) (cs_masks w2)" "\<forall>b\<in>snd ` set ?ps. vxlan_packet (vlib_demo 7) bypass_demo (\<lambda>b p. True) 2 False b"
    using add_replace_demo_fits classify_cs_lookup a(3,4) flow_demo_vxlan
    by (simp_all add: cs_empty_def add_replace_demo_def rules_fit_def cs_tunterm_def)
  have v6: "False = classify_table_index_is_v6 sm2 ! unat (3 :: u32)" using a(2) c(2) by simp
  from tunterm_acl_redirects_configured_flows [OF cs_env_ok cs_classifier_ok cs_address_ok vlib_demo_ok frames_demo_ok
      bypass_demo_ok cfg cs_off hyp(1) c(1) [unfolded i] hyp(2,3) a(1) [unfolded attach_demo_def] hyp(4) _ v6 hyp(5),
      of 1 False 0 bypass_state_demo "[]" acl_runtime_demo "[]"]
  obtain os1 s' f1 os2 counts f2 where n: "tunterm_acl_ip4_vxlan_bypass_node (vlib_demo 7) bypass_demo (frames_demo 1) False 0
      bypass_state_demo ?ps [] = Some (os1, s', False, f1)"
    "tunterm_acl_node (vlib_demo 7) classify_cs (frames_demo 1) acl_runtime_demo sm2
      (zip (map fst ?ps) (map bo_buffer os1)) [] = Some (os2, counts, False, f2)"
    and out: "\<forall>i<length ?ps. b_data (bo_buffer (os1 ! i)) = b_data (snd (?ps ! i)) \<and>
      sint (current_data (bo_buffer (os1 ! i))) = sint (current_data (snd (?ps ! i))) + 28 \<and>
      redirect_outcome cs_tunterm (cs_entries w2) 3 False
        (take (unat (clib_net_to_host_u32 (ar_count add_replace_demo))) (ar_rules add_replace_demo))
        (n_next_nodes acl_runtime_demo) (bo_buffer (os1 ! i)) (ao_next (os2 ! i)) (ao_buffer (os2 ! i))"
    by (metis net_host_u32)
  have o0: "b_data (bo_buffer (os1 ! 0)) = b_data (flow_demo 1)" "sint (current_data (bo_buffer (os1 ! 0))) = 28"
    and o1: "b_data (bo_buffer (os1 ! 1)) = b_data (flow_demo 2)" "sint (current_data (bo_buffer (os1 ! 1))) = 28"
    using out [THEN spec, of 0] out [THEN spec, of 1] by (simp_all add: flow_demo_header)
  have "ao_next (os2 ! 0) = 3"
    using out [THEN spec, of 0]
    by (simp add: redirect_outcome_def o0 flow_demo_dst add_replace_demo_addresses a(3) acl_runtime_demo_def bytes_matched_def)
  moreover have "ao_next (os2 ! 1) = TUNTERM_ACL_NEXT_VXLAN4_INPUT"
    using out [THEN spec, of 1] by (simp add: redirect_outcome_def o1 [simplified] flow_demo_dst
        add_replace_demo_addresses)
  ultimately show ?thesis using c(1) a(1) n by fastforce
qed

end
