(* ===== verification/Tunterm_Paths.thy ===== *)
theory Tunterm_Paths
  imports Tunterm_Tables
begin

text \<open>
  Which path a session of a tunnel termination ACL redirects to: the entry of the plugin is stacked on the path list that was
  created for the path of a rule, and the session of the classifier leads to the forwarding object of that entry. Of the rules of a message
  with the same match it is the path of the last one.
\<close>

section \<open>Definitions\<close>

text \<open>The entry of the plugin for a table and a match.\<close>

definition session_of :: "tunterm_acl_redirect_main \<Rightarrow> u32 \<times> u8 list \<Rightarrow> tunterm_acl_redirect option" where
  "session_of im = (\<lambda>(t, m). Option.bind (tunterm_acl_redirect_find im t m) (pool_elt im))"

text \<open>
  The path list of the entry is one that VPP created for the paths \<open>ps\<close>, the entry is a child of it, and its forwarding object is what
  VPP stacked on the forwarding that this path list contributed.
\<close>

definition stacked_on :: "('p, 'w) redirect_api \<Rightarrow> 'p list \<Rightarrow> tunterm_acl_redirect \<Rightarrow> bool" where
  "stacked_on E ps ipr \<longleftrightarrow> (\<exists>w ty i flags d.
     let (pl, w) = fib_path_list_create E ps w;
         (sibling, w) = fib_path_list_child_add E pl ty i w;
         (dpo, w) = fib_path_list_contribute_forwarding E pl (ipr_payload_type ipr) flags w
     in ipr_pl ipr = pl \<and> ipr_sibling ipr = sibling \<and>
        ipr_dpo ipr = fst (dpo_stack_from_node E (node_index_by_name E ''tunterm-acl'') d dpo w))"

text \<open>The session redirects to the paths \<open>ps\<close>: the plugin has such an entry, and the classifier leads to its forwarding object.\<close>

definition redirects_to ::
  "('p, 'w) redirect_api \<Rightarrow> ('w \<Rightarrow> u32 \<times> u8 list \<Rightarrow> session_entry option) \<Rightarrow> 'p list \<Rightarrow>
   tunterm_acl_redirect_main \<times> 'w \<Rightarrow> u32 \<Rightarrow> u8 list \<Rightarrow> bool" where
  "redirects_to E entries ps = (\<lambda>(im, w) t m. \<exists>ipr. session_of im (t, m) = Some ipr \<and> stacked_on E ps ipr \<and>
     entries w (t, m @ u32_bytes t) =
       Some (ucast (dpoi_next_node (ipr_dpo ipr)), dpoi_index (ipr_dpo ipr), CLASSIFY_ACTION_SET_METADATA))"

text \<open>What both the plugin and the classifier hold for a table and a match.\<close>

definition installed ::
  "('w \<Rightarrow> u32 \<times> u8 list \<Rightarrow> session_entry option) \<Rightarrow> tunterm_acl_redirect_main \<times> 'w \<Rightarrow> u32 \<Rightarrow> u8 list \<Rightarrow>
   tunterm_acl_redirect option \<times> session_entry option" where
  "installed entries = (\<lambda>(im, w) t m. (session_of im (t, m), entries w (t, m @ u32_bytes t)))"

text \<open>The rules of a message, by their matches: the last one counts.\<close>

abbreviation rule_of ::
  "('a, 'ap, 'p, 'w) tunterm_env \<Rightarrow> bool \<Rightarrow> ('a, 'ap) tunterm_acl_rule list \<Rightarrow> u8 list \<Rightarrow> ('a, 'ap) tunterm_acl_rule option" where
  "rule_of A v6 rules \<equiv> map_of (rev (map (\<lambda>r. (rule_match A v6 r, r)) rules))"

text \<open>A message with two rules for the same address.\<close>

definition two_rules_demo :: "(u8 list, nat) tunterm_acl_add_replace_msg" where
  "two_rules_demo =
     \<lparr>ar_tunterm_acl_index = clib_host_to_net_u32 (-1), ar_is_ipv6 = False, ar_count = clib_host_to_net_u32 2,
      ar_rules = [\<lparr>rule_dst_af = 0, rule_dst = [10, 0, 0, 1], rule_path = 5\<rparr>,
        \<lparr>rule_dst_af = 0, rule_dst = [10, 0, 0, 1], rule_path = 7\<rparr>], ar_msg_length = 220\<rparr>"

section \<open>One session\<close>

lemma session_of_iff:
  assumes "redirect_inv im"
  shows "session_of im (t, m) = Some ipr \<longleftrightarrow>
    (\<exists>i. pool_elt im i = Some ipr \<and> match_and_table_index ipr = m @ u32_bytes t)"
proof -
  have hash: "tunterm_acl_redirect_find im t m = Some i \<longleftrightarrow>
      (\<exists>ipr. pool_elt im i = Some ipr \<and> match_and_table_index ipr = m @ u32_bytes t)" for i
    using redirect_invD(1) [OF assms] by (simp add: tunterm_acl_redirect_find_def)
  then show ?thesis
    unfolding session_of_def by (auto simp: bind_eq_Some_conv)
qed

lemma session_of_cong:
  assumes "redirect_inv im" and "redirect_inv im'"
    and "\<And>i ipr. match_and_table_index ipr = m @ u32_bytes t \<Longrightarrow> pool_elt im' i = Some ipr \<longleftrightarrow> pool_elt im i = Some ipr"
  shows "session_of im' (t, m) = session_of im (t, m)"
proof -
  have "session_of im' (t, m) = Some ipr \<longleftrightarrow> session_of im (t, m) = Some ipr" for ipr
    using assms(3) by (auto simp: session_of_iff [OF assms(1)] session_of_iff [OF assms(2)])
  then show ?thesis by (metis option.exhaust)
qed

lemma redirects_to_installed:
  "\<lbrakk>redirects_to E entries ps s t m; installed entries s' t m = installed entries s t m\<rbrakk> \<Longrightarrow>
    redirects_to E entries ps s' t m"
  by (auto simp: redirects_to_def installed_def split_def)

text \<open>Stacking keeps the path list, and the session of the classifier leads to the new forwarding object.\<close>

lemma stack_installs:
  assumes "classifier_ok A E F entries masks" and "tunterm_acl_redirect_stack E ipr w = (RV_OK, ipr', w')"
  shows "ipr_pl ipr' = ipr_pl ipr" and "ipr_sibling ipr' = ipr_sibling ipr"
    and "entries w' = (entries w)((ipr_table_index ipr, match_and_table_index ipr) \<mapsto>
      (ucast (dpoi_next_node (ipr_dpo ipr')), dpoi_index (ipr_dpo ipr'), CLASSIFY_ACTION_SET_METADATA))"
    and "\<exists>flags. ipr_dpo ipr' = (let (dpo, w) = fib_path_list_contribute_forwarding E (ipr_pl ipr) (ipr_payload_type ipr) flags w
      in fst (dpo_stack_from_node E (ipr_parent_node_index ipr) (ipr_dpo ipr) dpo w))"
proof -
  note s = classifier_session(2) [OF assms(1)] and q = fib_quiet_calls [OF classifier_tables(6) [OF assms(1)]]
  show "ipr_pl ipr' = ipr_pl ipr" "ipr_sibling ipr' = ipr_sibling ipr"
    "\<exists>flags. ipr_dpo ipr' = (let (dpo, w) = fib_path_list_contribute_forwarding E (ipr_pl ipr) (ipr_payload_type ipr) flags w
      in fst (dpo_stack_from_node E (ipr_parent_node_index ipr) (ipr_dpo ipr) dpo w))"
    using assms(2) by (auto simp: tunterm_acl_redirect_stack_def split_def Let_def)
  show "entries w' = (entries w)((ipr_table_index ipr, match_and_table_index ipr) \<mapsto>
      (ucast (dpoi_next_node (ipr_dpo ipr')), dpoi_index (ipr_dpo ipr'), CLASSIFY_ACTION_SET_METADATA))"
    using assms(2) by (auto simp: tunterm_acl_redirect_stack_def split_def Let_def s q prod_eq_iff)
qed

text \<open>Finding or allocating the entry touches no other slot, and not the classifier.\<close>

lemma entry_slots:
  assumes "pool_ok E" and "redirect_inv im" and "fib_quiet E entries"
    and e: "redirect_entry E t m (im, w) = Some (i, im1, w1)"
  shows "entries w1 = entries w" and "\<And>j. j \<noteq> i \<Longrightarrow> pool_elt im1 j = pool_elt im j"
    and "\<And>ipr. pool_elt im i = Some ipr \<Longrightarrow> match_and_table_index ipr = m @ u32_bytes t"
proof -
  have "entries w1 = entries w \<and> (\<forall>j. j \<noteq> i \<longrightarrow> pool_elt im1 j = pool_elt im j) \<and>
      (\<forall>ipr. pool_elt im i = Some ipr \<longrightarrow> match_and_table_index ipr = m @ u32_bytes t)"
  proof (cases "tunterm_acl_redirect_find im t m")
    case None
    then show ?thesis
      using e pool_get_free [OF assms(1), of im] by (auto simp: redirect_entry_def Let_def pool_elt_set)
  next
    case (Some k)
    then obtain ipr where ipr: "pool_elt im k = Some ipr" "match_and_table_index ipr = m @ u32_bytes t"
      using redirect_invD(1) [OF assms(2)] by (auto simp: tunterm_acl_redirect_find_def)
    then show ?thesis
      using Some e fib_quiet_calls [OF assms(3)] pool_elt_set [OF pool_elt_bound [OF ipr(1)]]
      by (auto simp: redirect_entry_def Let_def split_def)
  qed
  then show "entries w1 = entries w" "\<And>j. j \<noteq> i \<Longrightarrow> pool_elt im1 j = pool_elt im j"
    "\<And>ipr. pool_elt im i = Some ipr \<Longrightarrow> match_and_table_index ipr = m @ u32_bytes t" by blast+
qed

text \<open>A successful addition, step by step.\<close>

lemma add_steps:
  assumes "pool_ok E" and "redirect_inv im"
    and "fib_forw_chain_type_from_dpo_proto E proto \<in> {FIB_FORW_CHAIN_TYPE_UNICAST_IP4, FIB_FORW_CHAIN_TYPE_UNICAST_IP6}"
    and a: "tunterm_acl_redirect_add E t opq proto m ps (im, w) = Some (rv, im', w')"
  obtains i im1 w1 ipr pl w2 sibling w3 ipr' where "redirect_entry E t m (im, w) = Some (i, im1, w1)"
    and "i \<le> length (ipr_pool im1)"
    and "fib_path_list_create E ps w1 = (pl, w2)"
    and "fib_path_list_child_add E pl (ipr_fib_node_type im1) i w2 = (sibling, w3)"
    and "ipr_pl ipr = pl" and "ipr_sibling ipr = sibling"
    and "ipr_parent_node_index ipr = node_index_by_name E ''tunterm-acl''"
    and "match_and_table_index ipr = m @ u32_bytes t" and "ipr_table_index ipr = t"
    and "tunterm_acl_redirect_stack E ipr w3 = (rv, ipr', w')" and "im' = pool_set i (Some ipr') im1"
proof -
  let ?pt = "fib_forw_chain_type_from_dpo_proto E proto"
  obtain i im1 w1 ipr0 where ent: "redirect_entry E t m (im, w) = Some (i, im1, w1)"
    "redirect_inv im1" "pool_elt im1 i = Some ipr0" "match_and_table_index ipr0 = m @ u32_bytes t"
    "ipr_table_index ipr0 = t" and "\<forall>key. key \<noteq> (t, m) \<longrightarrow> sessions im1 key = sessions im key"
    using redirect_entry_spec [OF assms(1,2), of t m w] by blast
  obtain pl w2 where pl: "fib_path_list_create E ps w1 = (pl, w2)" by fastforce
  obtain sib w3 where sib: "fib_path_list_child_add E pl (ipr_fib_node_type im1) i w2 = (sib, w3)" by fastforce
  let ?ipr = "ipr0\<lparr>ipr_payload_type := ?pt, ipr_pl := pl, ipr_sibling := sib,
      ipr_parent_node_index := node_index_by_name E ''tunterm-acl'', ipr_opaque_index := opq,
      ipr_is_ip6 := (?pt = FIB_FORW_CHAIN_TYPE_UNICAST_IP6)\<rparr>"
  obtain rv1 ipr' w4 where st: "tunterm_acl_redirect_stack E ?ipr w3 = (rv1, ipr', w4)" by (metis prod_cases3)
  have "tunterm_acl_redirect_add E t opq proto m ps (im, w) = Some (rv1, pool_set i (Some ipr') im1, w4)"
    using assms(3) ent pl sib st by (cases ?pt) (simp_all add: tunterm_acl_redirect_add_def Let_def)
  with a st that [OF ent(1) pool_elt_bound [OF ent(3)] pl sib, of ?ipr] ent(4,5) show thesis by simp
qed

lemma add_installs:
  assumes "pool_ok E" and "chain_ok E" and cls: "classifier_ok A E F entries masks" and inv: "redirect_inv im"
    and a: "tunterm_acl_redirect_add E t 0 (if v6 then DPO_PROTO_IP6 else DPO_PROTO_IP4) m ps (im, w) = Some (RV_OK, im', w')"
  shows "redirect_inv im'" and "redirects_to E entries ps (im', w') t m"
    and "(t', m') \<noteq> (t, m) \<Longrightarrow> installed entries (im', w') t' m' = installed entries (im, w) t' m'"
proof -
  have ty: "fib_forw_chain_type_from_dpo_proto E (if v6 then DPO_PROTO_IP6 else DPO_PROTO_IP4) \<in>
      {FIB_FORW_CHAIN_TYPE_UNICAST_IP4, FIB_FORW_CHAIN_TYPE_UNICAST_IP6}" using assms(2) by (simp add: chain_ok_def)
  show inv': "redirect_inv im'"
    using redirect_add_spec [OF assms(1) inv, of t 0 "if v6 then DPO_PROTO_IP6 else DPO_PROTO_IP4" m ps w] a by auto
  obtain i im1 w1 ipr pl w2 sib w3 ipr' where e: "redirect_entry E t m (im, w) = Some (i, im1, w1)"
    "i \<le> length (ipr_pool im1)" and pl: "fib_path_list_create E ps w1 = (pl, w2)"
    "fib_path_list_child_add E pl (ipr_fib_node_type im1) i w2 = (sib, w3)" "ipr_pl ipr = pl" "ipr_sibling ipr = sib"
    "ipr_parent_node_index ipr = node_index_by_name E ''tunterm-acl''"
    and k: "match_and_table_index ipr = m @ u32_bytes t" "ipr_table_index ipr = t"
    and st: "tunterm_acl_redirect_stack E ipr w3 = (RV_OK, ipr', w')" and im': "im' = pool_set i (Some ipr') im1"
    by (rule add_steps [OF assms(1) inv ty a])
  note q = fib_quiet_calls [OF classifier_tables(6) [OF cls]] and s = stack_installs [OF cls st]
    and slots = entry_slots [OF assms(1) inv classifier_tables(6) [OF cls] e(1)]
  have ipr': "match_and_table_index ipr' = m @ u32_bytes t" "ipr_payload_type ipr' = ipr_payload_type ipr"
    using stack_keeps [OF st] k by simp_all
  have elt: "pool_elt im' j = (if j = i then Some ipr' else pool_elt im1 j)" for j
    unfolding im' using pool_elt_set [OF e(2)] .
  have "entries w3 = entries w" using slots(1) q(3) [of ps w1] q(4) [of pl "ipr_fib_node_type im1" i w2] pl by simp
  then have w': "entries w' = (entries w)((t, m @ u32_bytes t) \<mapsto>
      (ucast (dpoi_next_node (ipr_dpo ipr')), dpoi_index (ipr_dpo ipr'), CLASSIFY_ACTION_SET_METADATA))"
    using s(3) k by simp
  have "stacked_on E ps ipr'"
  proof -
    obtain flags where "ipr_dpo ipr' =
        (let (dpo, w) = fib_path_list_contribute_forwarding E (ipr_pl ipr) (ipr_payload_type ipr) flags w3
         in fst (dpo_stack_from_node E (ipr_parent_node_index ipr) (ipr_dpo ipr) dpo w))" using s(4) by blast
    then show ?thesis
      unfolding stacked_on_def using s(1,2) pl ipr'(2)
      by (intro exI [of _ w1] exI [of _ "ipr_fib_node_type im1"] exI [of _ i] exI [of _ flags] exI [of _ "ipr_dpo ipr"])
        (simp add: split_def Let_def)
  qed
  moreover have "session_of im' (t, m) = Some ipr'"
    using session_of_iff [OF inv'] elt ipr'(1) by auto
  ultimately show "redirects_to E entries ps (im', w') t m" using w' by (simp add: redirects_to_def)
  assume d: "(t', m') \<noteq> (t, m)"
  then have d': "m' @ u32_bytes t' \<noteq> m @ u32_bytes t" by (auto simp: append_u32_bytes_inject)
  have "session_of im' (t', m') = session_of im (t', m')"
    using session_of_cong [OF inv inv'] elt ipr'(1) slots(2,3) d' by (metis option.inject)
  then show "installed entries (im', w') t' m' = installed entries (im, w) t' m'"
    using w' d d' by (auto simp: installed_def)
qed

section \<open>The sessions of a table\<close>

lemma del_ipr_keeps:
  assumes cls: "classifier_ok A E F entries masks" and inv: "redirect_inv im" and "pool_elt im i = Some ipr"
    and "ipr_table_index ipr = t" and d: "tunterm_acl_redirect_del_ipr E i (im, w) = Some (rv, im', w')" and "t' \<noteq> t"
  shows "installed entries (im', w') t' m = installed entries (im, w) t' m"
proof -
  obtain n where n: "match_and_table_index ipr = n @ u32_bytes t" using redirect_invD(2) [OF inv assms(3)] assms(4) by blast
  obtain rv1 im1 w1 where s: "tunterm_acl_redirect_del_ipr E i (im, w) = Some (rv1, im1, w1)" "redirect_inv im1"
    "rv1 \<noteq> RV_OK \<Longrightarrow> im1 = im" and "rv1 = RV_OK \<Longrightarrow> sessions im1 = (sessions im)((t, n) := None)"
    and ok: "\<And>j. rv1 = RV_OK \<Longrightarrow> pool_elt im1 j = (if j = i then None else pool_elt im j)"
    using redirect_del_ipr_spec [OF inv assms(3) n, of E w] by blast
  have r: "rv1 = rv" "im1 = im'" using s(1) d by simp_all
  have key: "match_and_table_index ipr \<noteq> m @ u32_bytes t'" using n assms(6) by (simp add: append_u32_bytes_inject)
  have "session_of im' (t', m) = session_of im (t', m)"
  proof (cases "rv = RV_OK")
    case True
    show ?thesis
    proof (rule session_of_cong [OF inv s(2) [unfolded r]])
      fix j and x :: tunterm_acl_redirect assume "match_and_table_index x = m @ u32_bytes t'"
      then show "pool_elt im' j = Some x \<longleftrightarrow> pool_elt im j = Some x" using ok [of j] True key assms(3) unfolding r by auto
    qed
  qed (use s(3) r in simp)
  moreover have "entries w' (t', k) = entries w (t', k)" for k
    using d assms(3,4,6) classifier_session(2) [OF cls] fib_quiet_calls [OF classifier_tables(6) [OF cls]]
    by (auto simp: tunterm_acl_redirect_del_ipr_def split_def Let_def split: if_splits)
  ultimately show ?thesis by (simp add: installed_def)
qed

lemma del_all_keeps:
  assumes cls: "classifier_ok A E F entries masks" and "redirect_inv im" and "table_entries im t is"
    and "del_all E is (im, w) = Some (rv, im', w')" and "t' \<noteq> t"
  shows "installed entries (im', w') t' m = installed entries (im, w) t' m"
  using assms(2-4)
proof (induction "is" arbitrary: im w)
  case (Cons i "is")
  obtain ipr where ipr: "pool_elt im i = Some ipr" "ipr_table_index ipr = t"
    using Cons.prems(2) by (auto simp: table_entries_def)
  obtain n where n: "match_and_table_index ipr = n @ u32_bytes t"
    using redirect_invD(2) [OF Cons.prems(1) ipr(1)] ipr(2) by blast
  obtain rv1 im1 w1 where d: "tunterm_acl_redirect_del_ipr E i (im, w) = Some (rv1, im1, w1)" "redirect_inv im1"
    and "rv1 \<noteq> RV_OK \<Longrightarrow> im1 = im" and "rv1 = RV_OK \<Longrightarrow> sessions im1 = (sessions im)((t, n) := None)"
    and ok: "\<And>j. rv1 = RV_OK \<Longrightarrow> pool_elt im1 j = (if j = i then None else pool_elt im j)"
    using redirect_del_ipr_spec [OF Cons.prems(1) ipr(1) n, of E w] by blast
  note one = del_ipr_keeps [OF cls Cons.prems(1) ipr d(1) assms(5)]
  show ?case
  proof (cases "rv1 = RV_OK")
    case True
    then have "table_entries im1 t is" using Cons.prems(2) ok by (auto simp: table_entries_def)
    moreover have "del_all E is (im1, w1) = Some (rv, im', w')" using Cons.prems(3) d(1) True by simp
    ultimately show ?thesis using Cons.IH [OF d(2)] one by simp
  next
    case False
    then show ?thesis using one Cons.prems(3) d(1) by auto
  qed
qed simp

lemma clear_keeps:
  assumes "classifier_ok A E F entries masks" and "redirect_inv im"
    and "tunterm_acl_redirect_clear E t (im, w) = Some (rv, im', w')" and "t' \<noteq> t"
  shows "installed entries (im', w') t' m = installed entries (im, w) t' m"
proof -
  have "table_entries im t (filter (\<lambda>i. case ipr_pool im ! i of None \<Rightarrow> False | Some ipr \<Rightarrow> ipr_table_index ipr = t)
      [0..<length (ipr_pool im)])"
    unfolding table_entries_def by (auto simp: pool_elt_def split: option.splits)
  from del_all_keeps [OF assms(1,2) this _ assms(4)] assms(3) show ?thesis
    by (simp add: tunterm_acl_redirect_clear_def)
qed

lemma rule_of_Cons: "rule_of A v6 (r # rules) m = (case rule_of A v6 rules m of
    None \<Rightarrow> if m = rule_match A v6 r then Some r else None | Some r' \<Rightarrow> Some r')"
  by (auto simp: map_add_def split: option.splits)

lemma add_rules_installs:
  assumes "pool_ok E" and "chain_ok E" and cls: "classifier_ok A E F entries masks" and "redirect_inv im"
    and "add_rules A E v6 t n rules (im, w) = Some (RV_OK, im', w')"
  shows "case rule_of A v6 (take n rules) m of
      None \<Rightarrow> installed entries (im', w') t m = installed entries (im, w) t m
    | Some r \<Rightarrow> redirects_to E entries [snd (fib_api_path_decode A (rule_path r))] (im', w') t m"
    and "t' \<noteq> t \<Longrightarrow> installed entries (im', w') t' m' = installed entries (im, w) t' m'"
proof -
  have "(case rule_of A v6 (take n rules) m of
      None \<Rightarrow> installed entries (im', w') t m = installed entries (im, w) t m
    | Some r \<Rightarrow> redirects_to E entries [snd (fib_api_path_decode A (rule_path r))] (im', w') t m) \<and>
    (t' \<noteq> t \<longrightarrow> installed entries (im', w') t' m' = installed entries (im, w) t' m')"
    using assms(4,5)
  proof (induction n arbitrary: rules im w)
    case (Suc n)
    then obtain r rs where rules: "rules = r # rs" by (cases rules) simp_all
    let ?p = "[snd (fib_api_path_decode A (rule_path r))]"
    obtain s1 where "request_add E (rule_request A v6 t r) (im, w) = Some (RV_OK, s1)"
      "add_rules A E v6 t n rs s1 = Some (RV_OK, im', w')"
      using Suc.prems(2) unfolding rules by (rule add_rules_SucD)
    then obtain im1 w1 where a: "tunterm_acl_redirect_add E t 0 (if v6 then DPO_PROTO_IP6 else DPO_PROTO_IP4)
        (rule_match A v6 r) ?p (im, w) = Some (RV_OK, im1, w1)"
      "add_rules A E v6 t n rs (im1, w1) = Some (RV_OK, im', w')"
      by (cases s1) (simp add: request_add_def rule_request_def)
    note add = add_installs [OF assms(1,2) cls Suc.prems(1) a(1)]
    note ih = Suc.IH [OF add(1) a(2)]
    have "redirects_to E entries ?p (im', w') t m" if "rule_of A v6 (take n rs) m = None" "m = rule_match A v6 r"
      using redirects_to_installed [OF add(2)] ih that by simp
    moreover have "installed entries (im', w') t m = installed entries (im, w) t m"
      if "rule_of A v6 (take n rs) m = None" "m \<noteq> rule_match A v6 r"
      using ih add(3) [of t m] that by simp
    ultimately show ?case
      using ih add(3) [of t' m'] unfolding rules take_Suc_Cons rule_of_Cons by (auto split: option.splits)
  qed simp
  then show "case rule_of A v6 (take n rules) m of
      None \<Rightarrow> installed entries (im', w') t m = installed entries (im, w) t m
    | Some r \<Rightarrow> redirects_to E entries [snd (fib_api_path_decode A (rule_path r))] (im', w') t m"
    "t' \<noteq> t \<Longrightarrow> installed entries (im', w') t' m' = installed entries (im, w) t' m'" by simp_all
qed

lemma rule_of_last: "rule_match A v6 r \<notin> rule_match A v6 ` set post \<Longrightarrow> rule_of A v6 (pre @ r # post) (rule_match A v6 r) = Some r"
  by (force simp: map_add_def split: option.splits dest: map_of_SomeD)

lemma replace_installs:
  assumes "pool_ok E" and "chain_ok E" and cls: "classifier_ok A E F entries masks" and inv: "redirect_inv im"
    and r: "replace_sessions A E v6 count rules t (sm, im, w) = Some (RV_OK, sm', im', w')"
  shows "take (unat count) rules = pre @ r # post \<Longrightarrow> rule_match A v6 r \<notin> rule_match A v6 ` set post \<Longrightarrow>
      redirects_to E entries [snd (fib_api_path_decode A (rule_path r))] (im', w') t (rule_match A v6 r)"
    and "t' \<noteq> t \<Longrightarrow> installed entries (im', w') t' m' = installed entries (im, w) t' m'"
proof -
  obtain im1 w1 where c: "tunterm_acl_redirect_clear E t (im, w) = Some (RV_OK, im1, w1)"
    and a: "add_rules A E v6 t (unat count) rules (im1, w1) = Some (RV_OK, im', w')"
    using r by (auto simp: replace_sessions_def split: if_splits option.splits)
  have "redirect_inv im1" using redirect_clear_spec [OF inv, of E t w] c by auto
  note add = add_rules_installs [OF assms(1,2) cls this a]
  show "redirects_to E entries [snd (fib_api_path_decode A (rule_path r))] (im', w') t (rule_match A v6 r)"
    if "take (unat count) rules = pre @ r # post" "rule_match A v6 r \<notin> rule_match A v6 ` set post"
    using add(1) [of "rule_match A v6 r"] rule_of_last [OF that(2), of pre] unfolding that(1) by simp
  show "installed entries (im', w') t' m' = installed entries (im, w) t' m'" if "t' \<noteq> t"
    using add(2) clear_keeps [OF cls inv c] that by simp
qed

section \<open>Property\<close>

text \<open>C10: When add-replace reports success in a state that satisfies the invariant of the control plane, the table holds exactly the sessions of the message's rules: the old
  sessions of the table are gone and every rule has the message's address family. Of the rules with the same match the last one is in
  force: the entry of the plugin is stacked on the path list created for its path, and the session of the classifier leads to the
  forwarding object of that entry. Of every other table, neither an entry of the plugin nor a session of the classifier has
  changed. This assumes that the pool, vector, feature and
  classifier calls of VPP behave as documented.\<close>

theorem tunterm_acl_add_replace_installs_rules:
  assumes "tunterm_env_ok A E F" and "tun_inv F tabs (sm, im, w)" and "classifier_ok A E F entries masks"
    and "vl_api_tunterm_acl_add_replace_t_handler A E mp (sm, im, w) = Some (RV_OK, idx, sm', im', w')"
  shows "let t = clib_net_to_host_u32 idx; v6 = ar_is_ipv6 mp;
      rules = take (unat (clib_net_to_host_u32 (ar_count mp))) (ar_rules mp)
    in sessions im' = (\<lambda>(t', m). if t' = t then None else sessions im (t', m)) ++
        map_of (rev (map (\<lambda>r. ((t, rule_match A v6 r), (family_type v6, 0))) rules)) \<and>
      length rules = unat (clib_net_to_host_u32 (ar_count mp)) \<and>
      (\<forall>r\<in>set rules. rule_dst_af r = (if v6 then 1 else 0)) \<and>
      (rules \<noteq> [] \<longrightarrow> classify_table_index_is_v6 sm' ! unat t = v6) \<and>
      (\<forall>pre r post. rules = pre @ r # post \<and> rule_match A v6 r \<notin> rule_match A v6 ` set post \<longrightarrow>
        redirects_to E entries [snd (fib_api_path_decode A (rule_path r))] (im', w') t (rule_match A v6 r)) \<and>
      (\<forall>t' m. t' \<noteq> t \<longrightarrow> installed entries (im', w') t' m = installed entries (im, w) t' m)"
proof -
  let ?t = "clib_net_to_host_u32 idx" and ?v6 = "ar_is_ipv6 mp" and ?n = "clib_net_to_host_u32 (ar_count mp)"
  obtain sm1 w1 where r: "entries w1 = entries w"
    "replace_sessions A E ?v6 ?n (ar_rules mp) ?t (sm1, im, w1) = Some (RV_OK, sm', im', w')"
    using assms(4)
  proof (cases rule: add_replace_shape)
    case (created w1)
    have "entries w1 = entries w"
      using create_table_state [OF created(1)]
        classifier_tables(8) [OF assms(3), of "classify_mask (ar_is_ipv6 mp)" 32 "0x800000" 0 1 w] by simp
    with created(3) that show ?thesis by blast
  next
    case given
    then show ?thesis using that by blast
  qed simp_all
  have inv: "pool_ok E" "chain_ok E" "redirect_inv im"
    using assms(1,2) by (simp_all add: tunterm_env_ok_def tun_inv_iff)
  note s = replace_sessions_exact [OF inv r(2)] and i = replace_installs [OF inv(1,2) assms(3) inv(3) r(2)]
  have "installed entries (im', w') t' m = installed entries (im, w) t' m" if "t' \<noteq> ?t" for t' m
    using i(2) [OF that] r(1) by (simp add: installed_def)
  with s i(1) show ?thesis by (auto simp: Let_def word_gt_0 unat_gt_0)
qed

lemma two_rules_match: "rule_match cs_tunterm False \<lparr>rule_dst_af = 0, rule_dst = [10, 0, 0, 1], rule_path = p\<rparr> =
    [10, 0, 0, 1] @ replicate 12 0"
  by (simp add: rule_match_def cs_tunterm_def tunterm_demo_def bytes_matched_def upt_rec numeral_eq_Suc)

lemma two_rules_created:
  "\<exists>sm im w. vl_api_tunterm_acl_add_replace_t_handler cs_tunterm cs_redirect two_rules_demo
      (tunterm_acl_init cs_redirect 9 cs_empty) = Some (RV_OK, clib_host_to_net_u32 3, sm, im, w)"
proof -
  have "map_option (\<lambda>(rv, idx, s). (rv, idx)) (vl_api_tunterm_acl_add_replace_t_handler cs_tunterm cs_redirect two_rules_demo
      (tunterm_acl_init cs_redirect 9 cs_empty)) = Some (RV_OK, clib_host_to_net_u32 3)" by code_simp
  then show ?thesis by (auto simp: split_def)
qed

theorem tunterm_acl_add_replace_installs_rules_witness:
  "\<exists>sm im w. vl_api_tunterm_acl_add_replace_t_handler cs_tunterm cs_redirect two_rules_demo
      (tunterm_acl_init cs_redirect 9 cs_empty) = Some (RV_OK, clib_host_to_net_u32 3, sm, im, w) \<and>
    cs_entries w (3, ([10, 0, 0, 1] @ replicate 12 0) @ u32_bytes 3) = Some (3, 7, CLASSIFY_ACTION_SET_METADATA)"
proof -
  obtain sm im w where c: "vl_api_tunterm_acl_add_replace_t_handler cs_tunterm cs_redirect two_rules_demo
      (tunterm_acl_init cs_redirect 9 cs_empty) = Some (RV_OK, clib_host_to_net_u32 3, sm, im, w)"
    using two_rules_created by blast
  obtain sm0 im0 w0 where i: "tunterm_acl_init cs_redirect 9 cs_empty = (sm0, im0, w0)" by (metis prod_cases3)
  let ?r = "\<lambda>p :: nat. \<lparr>rule_dst_af = 0, rule_dst = [10, 0, 0, 1 :: u8], rule_path = p\<rparr>"
  have inv: "tun_inv cs_feature {} (sm0, im0, w0)" using tunterm_init_inv [OF cs_env_ok cs_off, of 9] i by simp
  have rules: "take (unat (clib_net_to_host_u32 (ar_count two_rules_demo))) (ar_rules two_rules_demo) = [?r 5] @ ?r 7 # []"
    by (simp add: two_rules_demo_def)
  have "redirects_to cs_redirect cs_entries [snd (fib_api_path_decode cs_tunterm (rule_path (?r 7)))] (im, w)
      (clib_net_to_host_u32 (clib_host_to_net_u32 3)) (rule_match cs_tunterm (ar_is_ipv6 two_rules_demo) (?r 7))"
    by (rule tunterm_acl_add_replace_installs_rules [OF cs_env_ok inv cs_classifier_ok c [unfolded i], unfolded Let_def,
        THEN conjunct2, THEN conjunct2, THEN conjunct2, THEN conjunct2, THEN conjunct1, rule_format, OF conjI [OF rules]]) simp
  moreover have "\<not> ar_is_ipv6 two_rules_demo" "snd (fib_api_path_decode cs_tunterm (rule_path (?r 7))) = 7"
    by (simp_all add: two_rules_demo_def cs_tunterm_def tunterm_demo_def)
  ultimately have "redirects_to cs_redirect cs_entries [7] (im, w) 3 ([10, 0, 0, 1] @ replicate 12 0)"
    by (simp add: two_rules_match)
  then have "cs_entries w (3, ([10, 0, 0, 1] @ replicate 12 0) @ u32_bytes 3) = Some (3, 7, CLASSIFY_ACTION_SET_METADATA)"
    by (auto simp: redirects_to_def stacked_on_def cs_redirect_def redirect_null_def Let_def)
  with c show ?thesis by blast
qed

end
