(* ===== verification/Tunterm_Cli.thy ===== *)
theory Tunterm_Cli
  imports Tunterm_Acl
begin

text \<open>
  The command \<^verbatim>\<open>show tunterm interfaces\<close> (tunterm_acl/tunterm_acl_cli.c). A line of output is kept as the values it
  prints.
\<close>

section \<open>The command\<close>

datatype cli_line =
    Cli_head "string list" \<comment> \<open>column titles\<close>
  | Cli_row u32 u32 u32 \<comment> \<open>interface (name and index), IPv4 and IPv6 table\<close>

definition show_row :: "'w feature_api \<Rightarrow> tunterm_acl_main \<Rightarrow> 'w \<Rightarrow> u32 \<Rightarrow> cli_line list" where
  "show_row F sm w sw_if_index =
     (if vnet_feature_is_enabled F ''ip4-unicast'' ''tunterm-ip4-vxlan-bypass'' sw_if_index w
      then
        let tunterm_acl_index_v4 =
              (if unat sw_if_index < length (classify_table_index_by_sw_if_index_v4 sm)
               then classify_table_index_by_sw_if_index_v4 sm ! unat sw_if_index else -1);
            tunterm_acl_index_v6 =
              (if unat sw_if_index < length (classify_table_index_by_sw_if_index_v6 sm)
               then classify_table_index_by_sw_if_index_v6 sm ! unat sw_if_index else -1)
        in [Cli_row sw_if_index tunterm_acl_index_v4 tunterm_acl_index_v6]
      else [])"

definition show_tunterm_acl_interfaces_command_fn ::
  "'w feature_api \<Rightarrow> u32 list \<Rightarrow> tunterm_acl_main \<Rightarrow> 'w \<Rightarrow> cli_line list" where
  "show_tunterm_acl_interfaces_command_fn F sw_interfaces sm w =
     Cli_head [''Interface'', ''Index'', ''IPv4 Tunterm Index'', ''IPv6 Tunterm Index''] #
     concat (map (show_row F sm w) sw_interfaces)"

section \<open>Property\<close>

text \<open>In every state the API reaches, the command prints one row for each interface where the bypass node is
  enabled, in order, with the tables attached to it, and every row names at least one existing table.\<close>

theorem show_tunterm_acl_interfaces_correct:
  assumes "tun_inv F tabs (sm, im, w)" and "feature_ok sub F"
  shows "tl (show_tunterm_acl_interfaces_command_fn F sw_interfaces sm w) =
      map (\<lambda>i. Cli_row i (attached sm (False, i)) (attached sm (True, i)))
        (filter (\<lambda>i. enabled F w (''ip4-unicast'', ''tunterm-ip4-vxlan-bypass'', i)) sw_interfaces) \<and>
    (\<forall>i t4 t6. Cli_row i t4 t6 \<in> set (show_tunterm_acl_interfaces_command_fn F sw_interfaces sm w) \<longrightarrow>
      t4 \<in> tabs \<or> t6 \<in> tabs)"
proof -
  let ?on = "\<lambda>i. enabled F w (''ip4-unicast'', ''tunterm-ip4-vxlan-bypass'', i)"
  have row: "show_row F sm w i = (if ?on i then [Cli_row i (attached sm (False, i)) (attached sm (True, i))] else [])"
    for i by (simp add: show_row_def feature_is_enabled [OF assms(2)] attached_def Let_def)
  have rows: "concat (map (show_row F sm w) is) =
      map (\<lambda>i. Cli_row i (attached sm (False, i)) (attached sm (True, i))) (filter ?on is)" for "is"
    by (induction "is") (simp_all add: row)
  have "attached sm (False, i) \<in> tabs \<or> attached sm (True, i) \<in> tabs" if "?on i" for i
    using attached_where_enabled [OF assms(1) that] .
  then show ?thesis by (auto simp: show_tunterm_acl_interfaces_command_fn_def rows)
qed

theorem show_tunterm_acl_interfaces_correct_witness:
  "\<exists>sm w t6. tl (show_tunterm_acl_interfaces_command_fn (feature_counts {}) [1, 2] sm w) = [Cli_row 2 3 t6]"
proof -
  obtain sm im w where i: "tun_inv (feature_counts {}) {3} (sm, im, w)"
    "classify_table_index_by_sw_if_index_v4 sm = [-1, -1, 3]"
    "w = no_features((''ip4-unicast'', ''tunterm-ip4-vxlan-bypass'', 2) := 1)"
    using demo_attached by blast
  from show_tunterm_acl_interfaces_correct [OF i(1) feature_counts_ok, of "[1, 2]"] i(2,3) show ?thesis
    by (auto simp: attached_def enabled_def no_features_def)
qed

end
