(* ===== verification/Sonic_Ext_Main.thy ===== *)
theory Sonic_Ext_Main
  imports Node_Frame
begin

text \<open>
  The core of the sonic_ext plugin (sonic_ext/sonic_ext.h, sonic_ext.c): the per-buffer capture record, the
  global state, the interface and linux-cp tables the plugin reads, and the redirection of a captured
  packet to the host tap of its ingress port, with the contract (locale \<open>tap_redirect\<close>) the two redirecting
  nodes rely on.
\<close>

section \<open>State\<close>

definition SONIC_EXT_BUFFER_MAGIC :: u32 where
  "SONIC_EXT_BUFFER_MAGIC = 0x534e4358"

record sonic_ext_buffer_opaque =
  magic :: u32
  orig_rx_sw_if_index :: u32
  orig_vlan_tag :: u32

type_synonym sbuffer = "sonic_ext_buffer_opaque vlib_buffer"

definition sonic_ext_buffer :: "sbuffer \<Rightarrow> sonic_ext_buffer_opaque" where
  "sonic_ext_buffer b = opaque2_unused b"

record sonic_ext_main =
  msg_id_base :: u16
  punt_via_member :: u8
  host_xc :: u8
  capture_enabled :: u8
  host_xc_enabled :: u8
  glean_redirect_enabled :: u8
  captures :: u64
  aggr_tap_redirects :: u64
  glean_redirects :: u64
  host_xc_direct :: u64
  l2_trap_fixups :: u64
  ip2me_hits :: u64

text \<open>The state \<^verbatim>\<open>clib_memset (sem, 0, sizeof (*sem))\<close> leaves.\<close>

definition sonic_ext_main_zero :: sonic_ext_main where
  "sonic_ext_main_zero =
     \<lparr>msg_id_base = 0, punt_via_member = 0, host_xc = 0, capture_enabled = 0, host_xc_enabled = 0,
      glean_redirect_enabled = 0, captures = 0, aggr_tap_redirects = 0, glean_redirects = 0,
      host_xc_direct = 0, l2_trap_fixups = 0, ip2me_hits = 0\<rparr>"

section \<open>Interfaces and linux-cp pairs\<close>

text \<open>
  VPP's interface tables and the linux-cp pair registry. A lookup of a pair yields the pair itself
  (\<open>None\<close> for \<^verbatim>\<open>INDEX_INVALID\<close>): the code hands every index it finds straight to \<^verbatim>\<open>lcp_itf_pair_get\<close>.
  \<open>lcp_itf_pairs\<close> are the pairs \<^verbatim>\<open>lcp_itf_pair_walk\<close> visits, in order, as \<^verbatim>\<open>lcp_itf_pair_get\<close> returns them.
\<close>

datatype sw_interface_type = VNET_SW_INTERFACE_TYPE_SUB | VNET_SW_INTERFACE_TYPE_OTHER

record vnet_sw_interface =
  sw_type :: sw_interface_type
  sup_sw_if_index :: u32

record lcp_itf_pair =
  lip_phy_sw_if_index :: u32
  lip_host_sw_if_index :: u32

record vnet_api =
  vnet_get_sw_interface_or_null :: "u32 \<Rightarrow> vnet_sw_interface option"
  sw_interfaces_is_free_index :: "u32 \<Rightarrow> bool"
  vnet_get_sw_interface :: "u32 \<Rightarrow> vnet_sw_interface"
  vnet_get_sup_hw_interface :: "u32 \<Rightarrow> u32 option" \<comment> \<open>the device class index of the hw interface\<close>
  vnet_get_device_class :: "u32 \<Rightarrow> string option option" \<comment> \<open>the class and its name may be null\<close>
  l2input_configs :: "bool list" \<comment> \<open>\<^verbatim>\<open>l2_input_is_bvi\<close> of each entry of \<^verbatim>\<open>l2im->configs\<close>\<close>
  lcp_itf_pair_find_by_phy :: "u32 \<Rightarrow> lcp_itf_pair option"
  lcp_itf_pair_find_by_host :: "u32 \<Rightarrow> lcp_itf_pair option"
  lcp_itf_pairs :: "lcp_itf_pair option list"

section \<open>Redirection to the ingress tap\<close>

definition ETHERNET_TYPE_VLAN :: u16 where
  "ETHERNET_TYPE_VLAN = 0x8100"

definition ETHERNET_TYPE_DOT1AD :: u16 where
  "ETHERNET_TYPE_DOT1AD = 0x88a8"

definition ETHERNET_TYPE_VLAN_9100 :: u16 where
  "ETHERNET_TYPE_VLAN_9100 = 0x9100"

text \<open>
  Result: the return value, the buffer, and the values stored through \<^verbatim>\<open>host_tap\<close>, \<^verbatim>\<open>pushed_tpid\<close> and
  \<^verbatim>\<open>pushed_vlan_id\<close>.
\<close>

definition sonic_ext_redirect_to_ingress_tap ::
  "sonic_ext_buffer_opaque vlib_api \<Rightarrow> vnet_api \<Rightarrow> sbuffer \<Rightarrow> u32 \<Rightarrow> u32 \<Rightarrow>
   bool \<times> sbuffer \<times> u32 \<times> u16 \<times> u16" where
  "sonic_ext_redirect_to_ingress_tap V N b orig_rx excluded_tap =
     (let saved_vlan_tag = orig_vlan_tag (sonic_ext_buffer b)
      in case vnet_get_sw_interface_or_null N orig_rx of
           None \<Rightarrow> (False, b, -1, 0, 0)
         | Some swo \<Rightarrow>
             (let phy_sw = (if sw_type swo = VNET_SW_INTERFACE_TYPE_SUB
                            then sup_sw_if_index swo else orig_rx)
              in case lcp_itf_pair_find_by_phy N phy_sw of
                   None \<Rightarrow> (False, b, -1, 0, 0)
                 | Some lip \<Rightarrow>
                     (let host_tap = lip_host_sw_if_index lip
                      in if host_tap = excluded_tap then (False, b, host_tap, 0, 0)
                         else
                           let b = b\<lparr>opaque2_unused := (sonic_ext_buffer b)\<lparr>magic := 0\<rparr>\<rparr>;
                               adv = sint (l2_hdr_offset b) - sint (current_data b);
                               b = vlib_buffer_advance V b adv;
                               cur = vlib_buffer_get_current V b;
                               cur_etype = clib_net_to_host_u16 (load_u16 (b_data b) (cur + 12))
                           in if saved_vlan_tag \<noteq> 0 \<and> 4 \<le> sint (current_data b) \<and>
                                 cur_etype \<noteq> ETHERNET_TYPE_VLAN \<and>
                                 cur_etype \<noteq> ETHERNET_TYPE_DOT1AD \<and>
                                 cur_etype \<noteq> ETHERNET_TYPE_VLAN_9100
                              then
                                let save_macs = read_bytes (b_data b) cur 12;
                                    b = vlib_buffer_advance V b (-4);
                                    new_cur = vlib_buffer_get_current V b;
                                    m = write_bytes (b_data b) new_cur save_macs;
                                    m = write_bytes m (new_cur + 12) (u32_bytes saved_vlan_tag);
                                    b = b\<lparr>b_data := m, l2_hdr_offset := l2_hdr_offset b - 4\<rparr>;
                                    pushed_tpid = clib_net_to_host_u16 (ucast saved_vlan_tag);
                                    pushed_vlan_id =
                                      clib_net_to_host_u16 (ucast (drop_bit 16 saved_vlan_tag)) AND 0x0fff
                                in (True, b\<lparr>tx_sw_if_index := host_tap\<rparr>, host_tap, pushed_tpid,
                                    pushed_vlan_id)
                              else (True, b\<lparr>tx_sw_if_index := host_tap\<rparr>, host_tap, 0, 0))))"

text \<open>The tap of the port a cookie names: the pair of the port, or of the parent of a sub-interface.\<close>

definition ingress_tap :: "vnet_api \<Rightarrow> u32 \<Rightarrow> u32 option" where
  "ingress_tap N rx =
     Option.bind (vnet_get_sw_interface_or_null N rx) (\<lambda>swo.
       map_option lip_host_sw_if_index (lcp_itf_pair_find_by_phy N
         (if sw_type swo = VNET_SW_INTERFACE_TYPE_SUB then sup_sw_if_index swo else rx)))"

section \<open>A concrete environment\<close>

text \<open>
  A switch with a wire port 1 and its host tap 2, a sub-interface 3 of the port, a BVI 5 with its host tap 6,
  and linux-cp pairs for the port and the BVI.
\<close>

definition pair_demo :: "u32 \<Rightarrow> u32 \<Rightarrow> lcp_itf_pair" where
  "pair_demo phy host = \<lparr>lip_phy_sw_if_index = phy, lip_host_sw_if_index = host\<rparr>"

definition sw_demo :: "u32 \<Rightarrow> vnet_sw_interface option" where
  "sw_demo i =
     (if i = 3 then Some \<lparr>sw_type = VNET_SW_INTERFACE_TYPE_SUB, sup_sw_if_index = 1\<rparr>
      else if i < 8 then Some \<lparr>sw_type = VNET_SW_INTERFACE_TYPE_OTHER, sup_sw_if_index = i\<rparr>
      else None)"

definition vnet_demo :: vnet_api where
  "vnet_demo =
     \<lparr>vnet_get_sw_interface_or_null = sw_demo,
      sw_interfaces_is_free_index = (\<lambda>i. sw_demo i = None),
      vnet_get_sw_interface = (\<lambda>i. the (sw_demo i)),
      vnet_get_sup_hw_interface = (\<lambda>i. if i < 8 then Some 0 else None),
      vnet_get_device_class = (\<lambda>c. Some (Some ''dpdk'')),
      l2input_configs = [False, False, False, False, False, True],
      lcp_itf_pair_find_by_phy = (\<lambda>i. if i = 1 then Some (pair_demo 1 2)
        else if i = 5 then Some (pair_demo 5 6) else None),
      lcp_itf_pair_find_by_host = (\<lambda>i. if i = 2 then Some (pair_demo 1 2)
        else if i = 6 then Some (pair_demo 5 6) else None),
      lcp_itf_pairs = [Some (pair_demo 1 2), Some (pair_demo 5 6)]\<rparr>"

section \<open>The contract of the redirection\<close>

text \<open>
  What the redirecting nodes rely on: a refusal leaves the buffer alone; a success sends the packet to a
  tap other than the excluded one, consumes the cookie, so that no later node redirects the packet again,
  and leaves the receive interface, the flags and the adjacency index as they were.
\<close>

locale tap_redirect =
  fixes V :: "sonic_ext_buffer_opaque vlib_api"
    and redirect :: "sbuffer \<Rightarrow> u32 \<Rightarrow> u32 \<Rightarrow> bool \<times> sbuffer \<times> u32 \<times> u16 \<times> u16"
  assumes refused: "redirect b orig_rx excl = (False, b', tap, tpid, vid) \<Longrightarrow>
      b' = b \<and> tpid = 0 \<and> vid = 0"
    and redirected: "redirect b orig_rx excl = (True, b', tap, tpid, vid) \<Longrightarrow>
      tap \<noteq> excl \<and> tx_sw_if_index b' = tap"
    and consumed: "vlib_ok V \<Longrightarrow> redirect b orig_rx excl = (True, b', tap, tpid, vid) \<Longrightarrow>
      sonic_ext_buffer b' = (sonic_ext_buffer b)\<lparr>magic := 0\<rparr> \<and>
      rx_sw_if_index b' = rx_sw_if_index b \<and> b_flags b' = b_flags b \<and> b_error b' = b_error b \<and>
      adj_index_tx b' = adj_index_tx b"
begin

lemma cookie_spent:
  assumes "vlib_ok V" and "redirect b orig_rx excl = (True, b', tap, tpid, vid)"
  shows "magic (sonic_ext_buffer b') \<noteq> SONIC_EXT_BUFFER_MAGIC"
  using consumed [OF assms] by (simp add: SONIC_EXT_BUFFER_MAGIC_def)

lemma refused_buffer: "\<not> fst (redirect b orig_rx excl) \<Longrightarrow> fst (snd (redirect b orig_rx excl)) = b"
  using refused by (cases "redirect b orig_rx excl") auto

lemma redirected_flags:
  assumes "vlib_ok V"
  shows "b_flags (fst (snd (redirect b orig_rx excl))) = b_flags b"
  using refused [of b orig_rx excl] consumed [OF assms, of b orig_rx excl]
  by (cases "redirect b orig_rx excl"; cases "fst (redirect b orig_rx excl)") fastforce+

end

interpretation ingress: tap_redirect V "sonic_ext_redirect_to_ingress_tap V N"
  for V N
proof unfold_locales
  fix b orig_rx excl b' tap tpid vid
  let ?r = "sonic_ext_redirect_to_ingress_tap V N b orig_rx excl"
  show "b' = b \<and> tpid = 0 \<and> vid = 0" if "?r = (False, b', tap, tpid, vid)"
    using that by (auto simp: sonic_ext_redirect_to_ingress_tap_def Let_def
        split: option.splits if_splits)
  show "tap \<noteq> excl \<and> tx_sw_if_index b' = tap" if "?r = (True, b', tap, tpid, vid)"
    using that by (auto simp: sonic_ext_redirect_to_ingress_tap_def Let_def
        split: option.splits if_splits)
  show "sonic_ext_buffer b' = (sonic_ext_buffer b)\<lparr>magic := 0\<rparr> \<and>
      rx_sw_if_index b' = rx_sw_if_index b \<and> b_flags b' = b_flags b \<and> b_error b' = b_error b \<and>
      adj_index_tx b' = adj_index_tx b"
    if "vlib_ok V" "?r = (True, b', tap, tpid, vid)"
    using that by (auto simp: sonic_ext_redirect_to_ingress_tap_def Let_def vlib_okD sonic_ext_buffer_def
        split: option.splits if_splits)
qed

lemma redirect_succeeds:
  "fst (sonic_ext_redirect_to_ingress_tap V N b rx excl) \<longleftrightarrow>
     ingress_tap N rx \<noteq> None \<and> ingress_tap N rx \<noteq> Some excl"
  by (auto simp: sonic_ext_redirect_to_ingress_tap_def ingress_tap_def Let_def
      split: option.splits if_splits)

lemma redirect_tap:
  assumes "sonic_ext_redirect_to_ingress_tap V N b rx excl = (True, b', tap, tpid, vid)"
  shows "ingress_tap N rx = Some tap"
  using assms by (auto simp: sonic_ext_redirect_to_ingress_tap_def ingress_tap_def Let_def
      split: option.splits if_splits)

end
