(* ===== verification/Sonic_Ext_Config.thy ===== *)
theory Sonic_Ext_Config
  imports Sonic_Ext_Main
begin

text \<open>
  The configuration plane of the sonic_ext plugin (sonic_ext/sonic_ext.c, sonic_ext_api.c): the helpers that
  enable features, the classification of interfaces, the toggle functions, the linux-cp pair callbacks,
  the initialisation and the API handler, with the histories they generate (\<open>ext_config\<close>) and the
  invariants of those histories.
\<close>

section \<open>Feature helpers\<close>

definition sonic_ext_sw_is_sub :: "vnet_api \<Rightarrow> u32 \<Rightarrow> bool" where
  "sonic_ext_sw_is_sub N sw_if_index =
     (case vnet_get_sw_interface_or_null N sw_if_index of
        None \<Rightarrow> False | Some swi \<Rightarrow> sw_type swi = VNET_SW_INTERFACE_TYPE_SUB)"

definition sonic_ext_capture_enable_disable ::
  "vnet_api \<Rightarrow> 'w feature_api \<Rightarrow> u32 \<Rightarrow> bool \<Rightarrow> 'w \<Rightarrow> 'w" where
  "sonic_ext_capture_enable_disable N F sw_if_index enable w =
     (if sonic_ext_sw_is_sub N sw_if_index then w
      else snd (vnet_feature_enable_disable F ''device-input'' ''sonic-ext-capture'' sw_if_index enable w))"

definition sonic_ext_host_xc_enable_disable ::
  "vnet_api \<Rightarrow> 'w feature_api \<Rightarrow> u32 \<Rightarrow> bool \<Rightarrow> 'w \<Rightarrow> 'w" where
  "sonic_ext_host_xc_enable_disable N F sw_if_index enable w =
     (if sonic_ext_sw_is_sub N sw_if_index then w
      else snd (vnet_feature_enable_disable F ''device-input'' ''sonic-ext-host-xc'' sw_if_index enable w))"

definition sonic_ext_aggr_tap_redirect_enable_disable ::
  "'w feature_api \<Rightarrow> u32 \<Rightarrow> bool \<Rightarrow> 'w \<Rightarrow> 'w" where
  "sonic_ext_aggr_tap_redirect_enable_disable F sw_if_index enable w =
     snd (vnet_feature_enable_disable F ''interface-output'' ''sonic-ext-aggr-tap-redirect''
       sw_if_index enable w)"

definition sonic_ext_glean_redirect_enable_disable :: "'w feature_api \<Rightarrow> bool \<Rightarrow> 'w \<Rightarrow> 'w" where
  "sonic_ext_glean_redirect_enable_disable F enable w =
     (let w = snd (vnet_feature_enable_disable F ''ip4-drop'' ''sonic-ext-glean-redirect'' 0 enable w)
      in snd (vnet_feature_enable_disable F ''ip6-drop'' ''sonic-ext-glean-redirect'' 0 enable w))"

definition sonic_ext_ip2me_enable_disable :: "'w feature_api \<Rightarrow> u32 \<Rightarrow> bool \<Rightarrow> 'w \<Rightarrow> 'w" where
  "sonic_ext_ip2me_enable_disable F sw_if_index enable w =
     (let w = snd (vnet_l2_feature_enable_disable F ''l2-input-ip4'' ''sonic-ext-ip2me-ip4''
                sw_if_index enable w)
      in snd (vnet_l2_feature_enable_disable F ''l2-input-ip6'' ''sonic-ext-ip2me-ip6''
           sw_if_index enable w))"

section \<open>Classification of interfaces\<close>

definition sonic_ext_phy_is_bvi :: "vnet_api \<Rightarrow> u32 \<Rightarrow> bool" where
  "sonic_ext_phy_is_bvi N phy_sw_if_index =
     (if phy_sw_if_index = -1 then False
      else case vnet_get_sw_interface_or_null N phy_sw_if_index of
             None \<Rightarrow> False
           | Some swi \<Rightarrow>
               if sw_type swi = VNET_SW_INTERFACE_TYPE_SUB then False
               else unat phy_sw_if_index < length (l2input_configs N) \<and>
                    l2input_configs N ! unat phy_sw_if_index)"

definition sonic_ext_phy_is_bond :: "vnet_api \<Rightarrow> u32 \<Rightarrow> bool" where
  "sonic_ext_phy_is_bond N phy_sw_if_index =
     (if phy_sw_if_index = -1 then False
      else case vnet_get_sw_interface_or_null N phy_sw_if_index of
             None \<Rightarrow> False
           | Some swi \<Rightarrow>
               (case vnet_get_sup_hw_interface N phy_sw_if_index of
                  None \<Rightarrow> False
                | Some dev_class_index \<Rightarrow>
                    vnet_get_device_class N dev_class_index = Some (Some ''bond'')))"

definition sonic_ext_phy_is_aggregate :: "vnet_api \<Rightarrow> u32 \<Rightarrow> bool" where
  "sonic_ext_phy_is_aggregate N phy_sw_if_index =
     (if sonic_ext_phy_is_bvi N phy_sw_if_index then True
      else if sonic_ext_phy_is_bond N phy_sw_if_index then True
      else False)"

section \<open>Toggles and linux-cp callbacks\<close>

definition sonic_ext_host_xc_walk_enable_cb ::
  "vnet_api \<Rightarrow> 'w feature_api \<Rightarrow> lcp_itf_pair option \<Rightarrow> 'w \<Rightarrow> 'w" where
  "sonic_ext_host_xc_walk_enable_cb N F lip w =
     (case lip of None \<Rightarrow> w
      | Some lip \<Rightarrow> sonic_ext_host_xc_enable_disable N F (lip_host_sw_if_index lip) True w)"

definition sonic_ext_capture_walk_enable_cb ::
  "vnet_api \<Rightarrow> 'w feature_api \<Rightarrow> lcp_itf_pair option \<Rightarrow> 'w \<Rightarrow> 'w" where
  "sonic_ext_capture_walk_enable_cb N F lip w =
     (case lip of None \<Rightarrow> w
      | Some lip \<Rightarrow>
          if \<not> sonic_ext_phy_is_aggregate N (lip_phy_sw_if_index lip)
          then sonic_ext_capture_enable_disable N F (lip_phy_sw_if_index lip) True w else w)"

definition sonic_ext_set_punt_via_member ::
  "vnet_api \<Rightarrow> 'w feature_api \<Rightarrow> u8 \<Rightarrow> sonic_ext_main \<times> 'w \<Rightarrow> sonic_ext_main \<times> 'w" where
  "sonic_ext_set_punt_via_member N F is_enable =
     (\<lambda>(sem, w).
        let sem = sem\<lparr>punt_via_member := (if is_enable \<noteq> 0 then 1 else 0)\<rparr>;
            (sem, w) =
              (if is_enable \<noteq> 0 \<and> capture_enabled sem = 0
               then (sem\<lparr>capture_enabled := 1\<rparr>,
                     fold (sonic_ext_capture_walk_enable_cb N F) (lcp_itf_pairs N) w)
               else (sem, w))
        in if is_enable \<noteq> 0 \<and> glean_redirect_enabled sem = 0
           then (sem\<lparr>glean_redirect_enabled := 1\<rparr>, sonic_ext_glean_redirect_enable_disable F True w)
           else (sem, w))"

definition sonic_ext_set_host_xc ::
  "vnet_api \<Rightarrow> 'w feature_api \<Rightarrow> u8 \<Rightarrow> sonic_ext_main \<times> 'w \<Rightarrow> sonic_ext_main \<times> 'w" where
  "sonic_ext_set_host_xc N F is_enable =
     (\<lambda>(sem, w).
        let sem = sem\<lparr>host_xc := (if is_enable \<noteq> 0 then 1 else 0)\<rparr>
        in if is_enable \<noteq> 0 \<and> host_xc_enabled sem = 0
           then (sem\<lparr>host_xc_enabled := 1\<rparr>,
                 fold (sonic_ext_host_xc_walk_enable_cb N F) (lcp_itf_pairs N) w)
           else (sem, w))"

definition sonic_ext_lcp_pair_add_cb ::
  "vnet_api \<Rightarrow> 'w feature_api \<Rightarrow> sonic_ext_main \<Rightarrow> lcp_itf_pair option \<Rightarrow> 'w \<Rightarrow> 'w" where
  "sonic_ext_lcp_pair_add_cb N F sem lip w =
     (case lip of None \<Rightarrow> w
      | Some lip \<Rightarrow>
          let phy = lip_phy_sw_if_index lip; host = lip_host_sw_if_index lip;
              w = (if capture_enabled sem \<noteq> 0 \<and> \<not> sonic_ext_phy_is_aggregate N phy
                   then sonic_ext_capture_enable_disable N F phy True w else w);
              w = (if host_xc_enabled sem \<noteq> 0
                   then sonic_ext_host_xc_enable_disable N F host True w else w)
          in if sonic_ext_phy_is_aggregate N phy
             then sonic_ext_aggr_tap_redirect_enable_disable F host True w else w)"

definition sonic_ext_lcp_pair_del_cb ::
  "vnet_api \<Rightarrow> 'w feature_api \<Rightarrow> sonic_ext_main \<Rightarrow> lcp_itf_pair option \<Rightarrow> 'w \<Rightarrow> 'w" where
  "sonic_ext_lcp_pair_del_cb N F sem lip w =
     (case lip of None \<Rightarrow> w
      | Some lip \<Rightarrow>
          let phy = lip_phy_sw_if_index lip; host = lip_host_sw_if_index lip;
              w = (if capture_enabled sem \<noteq> 0 \<and> \<not> sonic_ext_phy_is_aggregate N phy
                   then sonic_ext_capture_enable_disable N F phy False w else w);
              w = (if host_xc_enabled sem \<noteq> 0
                   then sonic_ext_host_xc_enable_disable N F host False w else w)
          in if sonic_ext_phy_is_aggregate N phy
             then sonic_ext_aggr_tap_redirect_enable_disable F host False w else w)"

text \<open>
  The initialisation clears the state and turns both toggles on; the registration of the two callbacks
  with linux-cp has no effect on the modelled state.
\<close>

definition sonic_ext_init :: "vnet_api \<Rightarrow> 'w feature_api \<Rightarrow> 'w \<Rightarrow> sonic_ext_main \<times> 'w" where
  "sonic_ext_init N F w =
     sonic_ext_set_host_xc N F 1 (sonic_ext_set_punt_via_member N F 1 (sonic_ext_main_zero, w))"

section \<open>API\<close>

record sonic_ext_ip2me_enable_disable_msg =
  ip2me_mp_sw_if_index :: u32
  ip2me_mp_enable :: bool

definition vl_api_sonic_ext_ip2me_enable_disable_t_handler ::
  "vnet_api \<Rightarrow> 'w feature_api \<Rightarrow> sonic_ext_ip2me_enable_disable_msg \<Rightarrow> 'w \<Rightarrow> retval \<times> 'w" where
  "vl_api_sonic_ext_ip2me_enable_disable_t_handler N F mp w =
     (let sw_if_index = clib_net_to_host_u32 (ip2me_mp_sw_if_index mp)
      in if sw_interfaces_is_free_index N sw_if_index then (VNET_API_ERROR_INVALID_SW_IF_INDEX, w)
         else (RV_OK, sonic_ext_ip2me_enable_disable F sw_if_index (ip2me_mp_enable mp) w))"

definition sonic_ext_api_init :: "u16 \<Rightarrow> sonic_ext_main \<Rightarrow> sonic_ext_main" where
  "sonic_ext_api_init setup_message_id_table sem = sem\<lparr>msg_id_base := setup_message_id_table\<rparr>"

section \<open>Configuration histories\<close>

text \<open>
  The states the configuration plane reaches: initialisation, the two toggles, the linux-cp callbacks
  and ip2me requests (from the API or the CLI), in any order. \<open>ps\<close> are the live linux-cp pairs; linux-cp keeps at most one pair per
  phy and per host interface. The interface tables of \<open>N\<close> stay fixed along a history.
\<close>

abbreviation with_pairs :: "vnet_api \<Rightarrow> lcp_itf_pair list \<Rightarrow> vnet_api" where
  "with_pairs N ps \<equiv> N\<lparr>lcp_itf_pairs := map Some ps\<rparr>"

definition fresh_pair :: "lcp_itf_pair \<Rightarrow> lcp_itf_pair list \<Rightarrow> bool" where
  "fresh_pair lip ps \<longleftrightarrow> list_all (\<lambda>p. lip_phy_sw_if_index p \<noteq> lip_phy_sw_if_index lip \<and>
     lip_host_sw_if_index p \<noteq> lip_host_sw_if_index lip) ps"

inductive ext_config ::
  "vnet_api \<Rightarrow> 'w feature_api \<Rightarrow> 'w \<Rightarrow> lcp_itf_pair list \<Rightarrow> sonic_ext_main \<Rightarrow> 'w \<Rightarrow> bool"
  for N :: vnet_api and F :: "'w feature_api" and w0 :: 'w where
  init: "sonic_ext_init (with_pairs N []) F w0 = (sem, w) \<Longrightarrow> ext_config N F w0 [] sem w"
| punt: "ext_config N F w0 ps sem w \<Longrightarrow>
    sonic_ext_set_punt_via_member (with_pairs N ps) F is_enable (sem, w) = (sem', w') \<Longrightarrow>
    ext_config N F w0 ps sem' w'"
| host: "ext_config N F w0 ps sem w \<Longrightarrow>
    sonic_ext_set_host_xc (with_pairs N ps) F is_enable (sem, w) = (sem', w') \<Longrightarrow>
    ext_config N F w0 ps sem' w'"
| add: "ext_config N F w0 ps sem w \<Longrightarrow> fresh_pair lip ps \<Longrightarrow>
    sonic_ext_lcp_pair_add_cb N F sem (Some lip) w = w' \<Longrightarrow>
    ext_config N F w0 (ps @ [lip]) sem w'"
| del: "ext_config N F w0 ps sem w \<Longrightarrow> lip \<in> set ps \<Longrightarrow>
    sonic_ext_lcp_pair_del_cb N F sem (Some lip) w = w' \<Longrightarrow>
    ext_config N F w0 (remove1 lip ps) sem w'"
| api: "ext_config N F w0 ps sem w \<Longrightarrow>
    vl_api_sonic_ext_ip2me_enable_disable_t_handler N F mp w = (rv, w') \<Longrightarrow>
    ext_config N F w0 ps sem w'"
| ip2me: "ext_config N F w0 ps sem w \<Longrightarrow>
    sonic_ext_ip2me_enable_disable F i en w = w' \<Longrightarrow> ext_config N F w0 ps sem w'"

text \<open>
  The features of the plugin and the interfaces they belong on: capture on the wire ports that have a live
  pair, host-xc on the host taps, the redirect on the host taps of aggregates, glean-redirect on both drop
  arcs. Each is governed by one of the two toggles.
\<close>

definition ext_nodes :: "string set" where
  "ext_nodes = {''sonic-ext-capture'', ''sonic-ext-host-xc'', ''sonic-ext-aggr-tap-redirect'',
     ''sonic-ext-glean-redirect''}"

definition ext_wanted :: "vnet_api \<Rightarrow> lcp_itf_pair list \<Rightarrow> feature \<Rightarrow> bool" where
  "ext_wanted N ps = (\<lambda>(arc, node, i).
     if node = ''sonic-ext-capture''
     then arc = ''device-input'' \<and> \<not> sonic_ext_sw_is_sub N i \<and> \<not> sonic_ext_phy_is_aggregate N i \<and>
       i \<in> lip_phy_sw_if_index ` set ps
     else if node = ''sonic-ext-host-xc''
     then arc = ''device-input'' \<and> \<not> sonic_ext_sw_is_sub N i \<and> i \<in> lip_host_sw_if_index ` set ps
     else if node = ''sonic-ext-aggr-tap-redirect''
     then arc = ''interface-output'' \<and>
       (\<exists>p\<in>set ps. lip_host_sw_if_index p = i \<and> sonic_ext_phy_is_aggregate N (lip_phy_sw_if_index p))
     else node = ''sonic-ext-glean-redirect'' \<and> arc \<in> {''ip4-drop'', ''ip6-drop''} \<and> i = 0)"

definition ext_toggle :: "sonic_ext_main \<Rightarrow> string \<Rightarrow> u8" where
  "ext_toggle sem node = (if node = ''sonic-ext-host-xc'' then host_xc sem else punt_via_member sem)"

text \<open>
  The configuration plane is in sync: a feature is never referenced twice and never where it does not belong,
  and while its toggle is on it is referenced wherever it belongs. What a toggle that is off means for pairs
  that appear meanwhile is left open: the comments on \<^verbatim>\<open>sonic_ext_lcp_pair_add_cb\<close> and
  \<^verbatim>\<open>sonic_ext_set_punt_via_member\<close> differ on it. \<open>ext_exact\<close> is what the code does: the toggles
  do not matter.
\<close>

definition ext_sync ::
  "vnet_api \<Rightarrow> lcp_itf_pair list \<Rightarrow> sonic_ext_main \<Rightarrow> (feature \<Rightarrow> nat) \<Rightarrow> bool" where
  "ext_sync N ps sem r \<longleftrightarrow>
     (\<forall>arc i. \<forall>node\<in>ext_nodes. r (arc, node, i) \<le> of_bool (ext_wanted N ps (arc, node, i)) \<and>
        (ext_toggle sem node \<noteq> 0 \<longrightarrow> r (arc, node, i) = of_bool (ext_wanted N ps (arc, node, i))))"

definition ext_exact :: "vnet_api \<Rightarrow> lcp_itf_pair list \<Rightarrow> (feature \<Rightarrow> nat) \<Rightarrow> bool" where
  "ext_exact N ps r \<longleftrightarrow>
     (\<forall>arc i. \<forall>node\<in>ext_nodes. r (arc, node, i) = of_bool (ext_wanted N ps (arc, node, i)))"

text \<open>What the two callbacks do to the references of each feature.\<close>

definition pair_refs :: "vnet_api \<Rightarrow> bool \<Rightarrow> lcp_itf_pair \<Rightarrow> (feature \<Rightarrow> nat) \<Rightarrow> feature \<Rightarrow> nat" where
  "pair_refs N en lip r = (\<lambda>(arc, node, i).
     let n = r (arc, node, i); n' = (if en then n + 1 else n - 1);
         phy = lip_phy_sw_if_index lip; host = lip_host_sw_if_index lip
     in if arc = ''device-input'' \<and> node = ''sonic-ext-capture'' \<and> i = phy \<and> \<not> sonic_ext_phy_is_aggregate N phy \<and>
             \<not> sonic_ext_sw_is_sub N phy \<or>
           arc = ''device-input'' \<and> node = ''sonic-ext-host-xc'' \<and> i = host \<and> \<not> sonic_ext_sw_is_sub N host \<or>
           arc = ''interface-output'' \<and> node = ''sonic-ext-aggr-tap-redirect'' \<and> i = host \<and>
             sonic_ext_phy_is_aggregate N phy
        then n' else n)"

definition toggles_ok :: "sonic_ext_main \<Rightarrow> bool" where
  "toggles_ok sem \<longleftrightarrow>
     punt_via_member sem \<in> {0, 1} \<and> host_xc sem \<in> {0, 1} \<and>
     capture_enabled sem = 1 \<and> glean_redirect_enabled sem = 1 \<and> host_xc_enabled sem = 1"

text \<open>A live pair is the only one on its two interfaces, so removing it clears them.\<close>

definition distinct_pairs :: "lcp_itf_pair list \<Rightarrow> bool" where
  "distinct_pairs ps \<longleftrightarrow>
     distinct (map lip_phy_sw_if_index ps) \<and> distinct (map lip_host_sw_if_index ps)"

text \<open>No recorded call names a device-input feature on a sub-interface.\<close>

definition sub_port_free :: "vnet_api \<Rightarrow> feature_call list \<Rightarrow> bool" where
  "sub_port_free N w \<longleftrightarrow> list_all (\<lambda>c. case c of
       FeatureCall arc node i en \<Rightarrow> arc = ''device-input'' \<longrightarrow> \<not> sonic_ext_sw_is_sub N i
     | L2FeatureCall arc node i en \<Rightarrow> True) w"

section \<open>Lemmas on the configuration plane\<close>

lemma with_pairs_classify [simp]:
  "sonic_ext_sw_is_sub (N\<lparr>lcp_itf_pairs := xs\<rparr>) i = sonic_ext_sw_is_sub N i"
  "sonic_ext_phy_is_bvi (N\<lparr>lcp_itf_pairs := xs\<rparr>) i = sonic_ext_phy_is_bvi N i"
  "sonic_ext_phy_is_bond (N\<lparr>lcp_itf_pairs := xs\<rparr>) i = sonic_ext_phy_is_bond N i"
  "sonic_ext_phy_is_aggregate (N\<lparr>lcp_itf_pairs := xs\<rparr>) i = sonic_ext_phy_is_aggregate N i"
  by (auto simp: sonic_ext_sw_is_sub_def sonic_ext_phy_is_aggregate_def
      sonic_ext_phy_is_bvi_def sonic_ext_phy_is_bond_def split: option.splits)

lemma refs_helpers:
  assumes "feature_ok (sonic_ext_sw_is_sub N) F" and "feature_total F"
  shows "feature_refs F (sonic_ext_capture_enable_disable N F i en w) =
      (if sonic_ext_sw_is_sub N i then feature_refs F w
       else count_call en (''device-input'', ''sonic-ext-capture'', i) (feature_refs F w))"
    and "feature_refs F (sonic_ext_host_xc_enable_disable N F i en w) =
      (if sonic_ext_sw_is_sub N i then feature_refs F w
       else count_call en (''device-input'', ''sonic-ext-host-xc'', i) (feature_refs F w))"
    and "feature_refs F (sonic_ext_aggr_tap_redirect_enable_disable F i en w) =
      count_call en (''interface-output'', ''sonic-ext-aggr-tap-redirect'', i) (feature_refs F w)"
    and "feature_refs F (sonic_ext_glean_redirect_enable_disable F en w) =
      count_call en (''ip6-drop'', ''sonic-ext-glean-redirect'', 0)
        (count_call en (''ip4-drop'', ''sonic-ext-glean-redirect'', 0) (feature_refs F w))"
    and "feature_refs F (sonic_ext_ip2me_enable_disable F i en w) =
      count_call en (''l2-input-ip6'', ''sonic-ext-ip2me-ip6'', i)
        (count_call en (''l2-input-ip4'', ''sonic-ext-ip2me-ip4'', i) (feature_refs F w))"
  by (simp_all add: sonic_ext_capture_enable_disable_def sonic_ext_host_xc_enable_disable_def
      sonic_ext_aggr_tap_redirect_enable_disable_def sonic_ext_glean_redirect_enable_disable_def
      sonic_ext_ip2me_enable_disable_def Let_def feature_call_refs [OF assms])

text \<open>The initialisation enables glean-redirect once; later toggles find their once-only flags set.\<close>

lemma init_exact:
  assumes "feature_ok (sonic_ext_sw_is_sub N) F" and "feature_total F" and "\<forall>f. \<not> enabled F w0 f"
    and "sonic_ext_init (with_pairs N []) F w0 = (sem, w)"
  shows "ext_exact N [] (feature_refs F w)"
proof -
  have "w = sonic_ext_glean_redirect_enable_disable F True w0"
    using assms(4) by (simp add: sonic_ext_init_def sonic_ext_set_host_xc_def sonic_ext_main_zero_def
        sonic_ext_set_punt_via_member_def Let_def prod_eq_iff)
  then show ?thesis using assms(3)
    by (auto simp: refs_helpers [OF assms(1,2)] ext_exact_def ext_wanted_def ext_nodes_def count_call_def
        enabled_def)
qed

lemma toggles_unchanged:
  assumes "toggles_ok sem"
  shows "sonic_ext_set_punt_via_member N F e (sem, w) = (sem', w') \<Longrightarrow> w' = w"
    and "sonic_ext_set_host_xc N F e (sem, w) = (sem', w') \<Longrightarrow> w' = w"
  using assms by (simp_all add: toggles_ok_def sonic_ext_set_punt_via_member_def sonic_ext_set_host_xc_def
      Let_def split: if_splits)

lemma lcp_pair_refs:
  assumes "feature_ok (sonic_ext_sw_is_sub N) F" and "feature_total F" and "toggles_ok sem"
  shows "feature_refs F (sonic_ext_lcp_pair_add_cb N F sem (Some lip) w) = pair_refs N True lip (feature_refs F w)"
    and "feature_refs F (sonic_ext_lcp_pair_del_cb N F sem (Some lip) w) = pair_refs N False lip (feature_refs F w)"
  using assms(3)
  by (auto simp: toggles_ok_def sonic_ext_lcp_pair_add_cb_def sonic_ext_lcp_pair_del_cb_def Let_def
      refs_helpers [OF assms(1,2)] count_call_def pair_refs_def fun_eq_iff)

lemma ext_exact_iff:
  "ext_exact N ps r \<longleftrightarrow>
     (\<forall>arc i. r (arc, ''sonic-ext-capture'', i) = of_bool (arc = ''device-input'' \<and> \<not> sonic_ext_sw_is_sub N i \<and>
        \<not> sonic_ext_phy_is_aggregate N i \<and> i \<in> lip_phy_sw_if_index ` set ps)) \<and>
     (\<forall>arc i. r (arc, ''sonic-ext-host-xc'', i) = of_bool (arc = ''device-input'' \<and> \<not> sonic_ext_sw_is_sub N i \<and>
        i \<in> lip_host_sw_if_index ` set ps)) \<and>
     (\<forall>arc i. r (arc, ''sonic-ext-aggr-tap-redirect'', i) = of_bool (arc = ''interface-output'' \<and>
        (\<exists>p\<in>set ps. lip_host_sw_if_index p = i \<and> sonic_ext_phy_is_aggregate N (lip_phy_sw_if_index p)))) \<and>
     (\<forall>arc i. r (arc, ''sonic-ext-glean-redirect'', i) = of_bool (arc \<in> {''ip4-drop'', ''ip6-drop''} \<and> i = 0))"
  by (simp add: ext_exact_def ext_nodes_def ext_wanted_def all_conj_distrib)

lemma pair_add_exact:
  assumes "fresh_pair lip ps" and "ext_exact N ps r"
  shows "ext_exact N (ps @ [lip]) (pair_refs N True lip r)"
proof -
  have "\<forall>p\<in>set ps. lip_phy_sw_if_index p \<noteq> lip_phy_sw_if_index lip"
    "\<forall>p\<in>set ps. lip_host_sw_if_index p \<noteq> lip_host_sw_if_index lip"
    using assms(1) by (auto simp: fresh_pair_def list_all_iff)
  then show ?thesis using assms(2) unfolding ext_exact_iff
    by (intro conjI) (auto simp: pair_refs_def Let_def)
qed

lemma distinct_pairs_append:
  "distinct_pairs ps \<Longrightarrow> fresh_pair lip ps \<Longrightarrow> distinct_pairs (ps @ [lip])"
  by (auto simp: distinct_pairs_def fresh_pair_def list_all_iff)

lemma remove1_pair:
  assumes "distinct_pairs ps" and "lip \<in> set ps"
  shows "set (remove1 lip ps) = {p \<in> set ps. lip_phy_sw_if_index p \<noteq> lip_phy_sw_if_index lip}"
    and "set (remove1 lip ps) = {p \<in> set ps. lip_host_sw_if_index p \<noteq> lip_host_sw_if_index lip}"
    and "distinct_pairs (remove1 lip ps)"
proof -
  have d: "distinct ps" "inj_on lip_phy_sw_if_index (set ps)" "inj_on lip_host_sw_if_index (set ps)"
    using assms(1) by (auto simp: distinct_pairs_def distinct_map)
  then have r: "set (remove1 lip ps) = set ps - {lip}" by (simp add: set_remove1_eq)
  show "set (remove1 lip ps) = {p \<in> set ps. lip_phy_sw_if_index p \<noteq> lip_phy_sw_if_index lip}"
    using r assms(2) inj_onD [OF d(2)] by auto
  show "set (remove1 lip ps) = {p \<in> set ps. lip_host_sw_if_index p \<noteq> lip_host_sw_if_index lip}"
    using r assms(2) inj_onD [OF d(3)] by auto
  show "distinct_pairs (remove1 lip ps)"
    using d r by (auto simp: distinct_pairs_def distinct_map intro: inj_on_subset)
qed

lemma pair_del_exact:
  assumes "distinct_pairs ps" and "lip \<in> set ps" and "ext_exact N ps r"
  shows "ext_exact N (remove1 lip ps) (pair_refs N False lip r)"
proof -
  note rm = remove1_pair [OF assms(1,2)]
  have phys: "lip_phy_sw_if_index ` set (remove1 lip ps) =
      lip_phy_sw_if_index ` set ps - {lip_phy_sw_if_index lip}"
    by (auto simp: rm(1))
  have hosts: "lip_host_sw_if_index ` set (remove1 lip ps) =
      lip_host_sw_if_index ` set ps - {lip_host_sw_if_index lip}"
    by (auto simp: rm(2))
  have aggr: "(\<exists>p\<in>set (remove1 lip ps). lip_host_sw_if_index p = i \<and> Q p) \<longleftrightarrow>
      (\<exists>p\<in>set ps. lip_host_sw_if_index p = i \<and> Q p) \<and> i \<noteq> lip_host_sw_if_index lip" for i Q
    by (auto simp: rm(2))
  have "lip' = lip" if "lip' \<in> set ps" "lip_host_sw_if_index lip' = lip_host_sw_if_index lip" for lip'
    using assms(1,2) that by (auto simp: distinct_pairs_def distinct_map inj_on_def)
  with assms(2,3) show ?thesis unfolding ext_exact_iff phys hosts aggr
    by (intro conjI) (auto simp: pair_refs_def Let_def)
qed

lemma ext_config_distinct: "ext_config N F w0 ps sem w \<Longrightarrow> distinct_pairs ps"
  by (induction rule: ext_config.induct)
    (auto simp: remove1_pair distinct_pairs_append, simp add: distinct_pairs_def)

lemma ext_config_toggles: "ext_config N F w0 ps sem w \<Longrightarrow> toggles_ok sem"
  by (induction rule: ext_config.induct)
    (auto simp: toggles_ok_def sonic_ext_init_def sonic_ext_main_zero_def
      sonic_ext_set_punt_via_member_def sonic_ext_set_host_xc_def Let_def split: if_splits)

lemma ext_config_exact:
  assumes "ext_config N F w0 ps sem w" and F: "feature_ok (sonic_ext_sw_is_sub N) F" "feature_total F"
    and "\<forall>f. \<not> enabled F w0 f"
  shows "ext_exact N ps (feature_refs F w)"
  using assms(1)
proof (induction rule: ext_config.induct)
  case (init sem w)
  then show ?case by (rule init_exact [OF F assms(4)])
next
  case (punt ps sem w is_enable sem' w')
  then show ?case using toggles_unchanged(1) ext_config_toggles by metis
next
  case (host ps sem w is_enable sem' w')
  then show ?case using toggles_unchanged(2) ext_config_toggles by metis
next
  case (add ps sem w lip w')
  then show ?case using lcp_pair_refs(1) [OF F ext_config_toggles] pair_add_exact by metis
next
  case (del ps sem w lip w')
  then show ?case using lcp_pair_refs(2) [OF F ext_config_toggles] pair_del_exact ext_config_distinct by metis
next
  case (api ps sem w mp rv w')
  then show ?case
    by (auto simp: vl_api_sonic_ext_ip2me_enable_disable_t_handler_def Let_def ext_exact_def ext_nodes_def
        refs_helpers [OF F] split: if_splits)
next
  case (ip2me ps sem w i en w')
  then show ?case by (auto simp: ext_exact_def ext_nodes_def refs_helpers [OF F])
qed

text \<open>The calls of every operation, in the recorder.\<close>

lemma helper_calls:
  "sonic_ext_capture_enable_disable N feature_recorder i en w =
     w @ (if sonic_ext_sw_is_sub N i then []
          else [FeatureCall ''device-input'' ''sonic-ext-capture'' i en])"
  "sonic_ext_host_xc_enable_disable N feature_recorder i en w =
     w @ (if sonic_ext_sw_is_sub N i then []
          else [FeatureCall ''device-input'' ''sonic-ext-host-xc'' i en])"
  "sonic_ext_aggr_tap_redirect_enable_disable feature_recorder i en w =
     w @ [FeatureCall ''interface-output'' ''sonic-ext-aggr-tap-redirect'' i en]"
  "sonic_ext_glean_redirect_enable_disable feature_recorder en w =
     w @ [FeatureCall ''ip4-drop'' ''sonic-ext-glean-redirect'' 0 en,
          FeatureCall ''ip6-drop'' ''sonic-ext-glean-redirect'' 0 en]"
  "sonic_ext_ip2me_enable_disable feature_recorder i en w =
     w @ [L2FeatureCall ''l2-input-ip4'' ''sonic-ext-ip2me-ip4'' i en,
          L2FeatureCall ''l2-input-ip6'' ''sonic-ext-ip2me-ip6'' i en]"
  by (simp_all add: sonic_ext_capture_enable_disable_def sonic_ext_host_xc_enable_disable_def
      sonic_ext_aggr_tap_redirect_enable_disable_def sonic_ext_glean_redirect_enable_disable_def
      sonic_ext_ip2me_enable_disable_def Let_def feature_recorder_def)

lemma sub_port_free_helpers:
  assumes "sub_port_free N w"
  shows "sub_port_free N (sonic_ext_capture_enable_disable N feature_recorder i en w)"
    and "sub_port_free N (sonic_ext_host_xc_enable_disable N feature_recorder i en w)"
    and "sub_port_free N (sonic_ext_aggr_tap_redirect_enable_disable feature_recorder i en w)"
    and "sub_port_free N (sonic_ext_glean_redirect_enable_disable feature_recorder en w)"
    and "sub_port_free N (sonic_ext_ip2me_enable_disable feature_recorder i en w)"
  using assms by (simp_all add: sub_port_free_def helper_calls)

lemma sub_port_free_walks:
  assumes "sub_port_free N w"
  shows "sub_port_free N (fold (sonic_ext_capture_walk_enable_cb N feature_recorder) ps w)"
    and "sub_port_free N (fold (sonic_ext_host_xc_walk_enable_cb N feature_recorder) ps w)"
  using assms
  by (induction ps arbitrary: w)
    (simp_all add: sonic_ext_capture_walk_enable_cb_def sonic_ext_host_xc_walk_enable_cb_def
      sub_port_free_helpers split: option.split)

lemma sub_port_free_toggles:
  assumes "sub_port_free N w"
  shows "sub_port_free N (snd (sonic_ext_set_punt_via_member N feature_recorder e (sem, w)))"
    and "sub_port_free N (snd (sonic_ext_set_host_xc N feature_recorder e (sem, w)))"
  using assms
  by (simp_all add: sonic_ext_set_punt_via_member_def sonic_ext_set_host_xc_def Let_def
      sub_port_free_helpers sub_port_free_walks)

lemma sub_port_free_with_pairs [simp]: "sub_port_free (N\<lparr>lcp_itf_pairs := xs\<rparr>) w = sub_port_free N w"
  by (simp add: sub_port_free_def cong: feature_call.case_cong)

lemma ext_config_recorded:
  assumes "ext_config N feature_recorder [] ps sem w"
  shows "sub_port_free N w"
  using assms
proof (induction rule: ext_config.induct)
  case (init sem w)
  have "sub_port_free (with_pairs N []) []" by (simp add: sub_port_free_def)
  then have "sub_port_free (with_pairs N []) (snd (sonic_ext_init (with_pairs N []) feature_recorder []))"
    unfolding sonic_ext_init_def using sub_port_free_toggles by (metis surjective_pairing)
  with init show ?case by simp
next
  case (punt ps sem w is_enable sem' w')
  then show ?case using sub_port_free_toggles(1) [of "with_pairs N ps" w is_enable sem] by simp
next
  case (host ps sem w is_enable sem' w')
  then show ?case using sub_port_free_toggles(2) [of "with_pairs N ps" w is_enable sem] by simp
next
  case (add ps sem w lip w')
  then show ?case by (auto simp: sonic_ext_lcp_pair_add_cb_def Let_def sub_port_free_helpers)
next
  case (del ps sem w lip w')
  then show ?case by (auto simp: sonic_ext_lcp_pair_del_cb_def Let_def sub_port_free_helpers)
next
  case (api ps sem w mp rv w')
  then show ?case
    by (auto simp: vl_api_sonic_ext_ip2me_enable_disable_t_handler_def Let_def sub_port_free_helpers
        split: if_splits)
next
  case (ip2me ps sem w i en w')
  then show ?case by (auto simp: sub_port_free_helpers)
qed

section \<open>Properties\<close>

text \<open>C3: The features follow the linux-cp pairs. After any history of initialisation, toggles, pair additions and
  removals and ip2me requests, in which the feature calls succeed and which starts with every feature off: each
  feature of the plugin holds at most one reference on an interface, and none where it does not belong (capture
  belongs on the wire ports with a live pair, host-xc on their host taps, the redirect on the host taps of
  aggregates, glean-redirect on the two drop arcs; capture and host-xc never on a sub-interface); and while the
  toggle of a feature is on (host-xc for host-xc, punt-via-member for the others) it holds exactly one reference
  wherever it belongs, also for pairs that appeared while the toggle was off. The once-only flags are set and the two
  toggles are 0 or 1.\<close>

theorem sonic_ext_features_in_sync:
  assumes "ext_config N F w0 ps sem w" and "feature_ok (sonic_ext_sw_is_sub N) F" and "feature_total F"
    and "\<forall>f. \<not> enabled F w0 f"
  shows "ext_sync N ps sem (feature_refs F w) \<and> toggles_ok sem"
  using ext_config_exact [OF assms] ext_config_toggles [OF assms(1)] by (simp add: ext_exact_def ext_sync_def)

theorem sonic_ext_features_in_sync_witness:
  "\<exists>sem w. ext_config vnet_demo (feature_counts {}) no_features [pair_demo 5 6] sem w \<and>
     ext_sync vnet_demo [pair_demo 5 6] sem w \<and> toggles_ok sem"
proof -
  let ?F = "feature_counts {}"
  obtain s1 w1 where 1: "ext_config vnet_demo ?F no_features [] s1 w1"
    using ext_config.init [of vnet_demo ?F "no_features"] by (metis surj_pair)
  obtain s2 w2 where 2: "ext_config vnet_demo ?F no_features [pair_demo 1 2] s2 w2"
    using ext_config.add [OF 1, of "pair_demo 1 2"] by (force simp: fresh_pair_def)
  obtain s3 w3 where 3: "ext_config vnet_demo ?F no_features [pair_demo 1 2] s3 w3"
    using ext_config.punt [OF 2, of 0] by (metis surj_pair)
  obtain s4 w4 where 4: "ext_config vnet_demo ?F no_features [pair_demo 1 2, pair_demo 5 6] s4 w4"
    using ext_config.add [OF 3, of "pair_demo 5 6"] by (force simp: fresh_pair_def pair_demo_def)
  obtain s5 w5 where 5: "ext_config vnet_demo ?F no_features [pair_demo 5 6] s5 w5"
    using ext_config.del [OF 4, of "pair_demo 1 2"] by (force simp: pair_demo_def)
  have "\<forall>f. \<not> enabled ?F no_features f" by simp
  with 5 sonic_ext_features_in_sync [OF 5 feature_counts_ok feature_counts_total] show ?thesis by auto
qed

text \<open>The toggles do not matter for what is enabled: a pair that appears while punt-via-member is off gets capture
  and the redirect all the same.\<close>

theorem sonic_ext_features_ignore_toggles:
  assumes "ext_config N F w0 ps sem w" and "feature_ok (sonic_ext_sw_is_sub N) F" and "feature_total F"
    and "\<forall>f. \<not> enabled F w0 f"
  shows "ext_exact N ps (feature_refs F w)"
  by (rule ext_config_exact [OF assms])

text \<open>Whatever the history and whether or not the calls succeed, the plugin never asks for a device-input
  feature on a sub-interface. A sub-interface shares the device-input dispatch of its parent, so such a
  call would switch the feature on or off for the parent port.\<close>

theorem sonic_ext_no_device_input_on_sub:
  assumes "ext_config N feature_recorder [] ps sem w"
    and "FeatureCall ''device-input'' node i en \<in> set w"
  shows "\<not> sonic_ext_sw_is_sub N i"
  using ext_config_recorded [OF assms(1)] assms(2) by (auto simp: sub_port_free_def list_all_iff)

theorem sonic_ext_no_device_input_on_sub_witness:
  "\<exists>sem w. ext_config vnet_demo feature_recorder [] [pair_demo 1 2] sem w \<and>
     FeatureCall ''device-input'' ''sonic-ext-capture'' 1 True \<in> set w \<and>
     \<not> sonic_ext_sw_is_sub vnet_demo 1"
proof -
  obtain s1 w1 where 1: "sonic_ext_init (with_pairs vnet_demo []) feature_recorder [] = (s1, w1)"
    by fastforce
  then have c1: "capture_enabled s1 = 1"
    using ext_config_toggles [OF ext_config.init [OF 1]] by (simp add: toggles_ok_def)
  let ?w = "sonic_ext_lcp_pair_add_cb vnet_demo feature_recorder s1 (Some (pair_demo 1 2)) w1"
  have 2: "ext_config vnet_demo feature_recorder [] [pair_demo 1 2] s1 ?w"
    using ext_config.add [OF ext_config.init [OF 1], of "pair_demo 1 2"] by (simp add: fresh_pair_def)
  have 3: "FeatureCall ''device-input'' ''sonic-ext-capture'' 1 True \<in> set ?w"
    by (simp add: c1 sonic_ext_lcp_pair_add_cb_def sonic_ext_capture_enable_disable_def
        sonic_ext_host_xc_enable_disable_def sonic_ext_phy_is_aggregate_def sonic_ext_phy_is_bvi_def
        sonic_ext_phy_is_bond_def sonic_ext_sw_is_sub_def vnet_demo_def sw_demo_def pair_demo_def
        feature_recorder_def Let_def)
  from 2 3 sonic_ext_no_device_input_on_sub [OF 2 3] show ?thesis by blast
qed

text \<open>The message-id base depends on the order of the two init functions, which the code leaves open: set
  after \<^verbatim>\<open>sonic_ext_init\<close> it stays, set before it is cleared with the rest of the state.\<close>

theorem sonic_ext_init_clears_msg_id_base:
  "msg_id_base (sonic_ext_api_init base (fst (sonic_ext_init N F w))) = base \<and>
   msg_id_base (fst (sonic_ext_init N F w)) = 0"
  by (simp add: sonic_ext_api_init_def sonic_ext_init_def sonic_ext_set_host_xc_def
      sonic_ext_set_punt_via_member_def sonic_ext_main_zero_def split_def Let_def)

end
