(* ===== verification/Sonic_Ext_Cli.thy ===== *)
theory Sonic_Ext_Cli
  imports Sonic_Ext_Config
begin

text \<open>
  The CLI of the sonic_ext plugin (sonic_ext/cli.c). VPP's parser is a parameter: matching a keyword or an
  interface name yields the rest of the input. The loops are partial functions (\<open>None\<close> for a loop that
  never ends); that they end is proved from the parser consuming input on every match.
\<close>

section \<open>The parser\<close>

record 'i unformat_api =
  unformat_line_input :: "'i \<Rightarrow> 'i option"
  unformat_check_end :: "'i \<Rightarrow> bool" \<comment> \<open>\<^verbatim>\<open>unformat_check_input () == UNFORMAT_END_OF_INPUT\<close>\<close>
  unformat :: "string \<Rightarrow> 'i \<Rightarrow> 'i option"
  unformat_vnet_sw_interface :: "'i \<Rightarrow> (u32 \<times> 'i) option"
  unformat_free :: "'i \<Rightarrow> 'i"
  format_unformat_error :: "'i \<Rightarrow> string"

text \<open>Every match consumes input, measured by \<open>size_of\<close>.\<close>

definition unformat_ok :: "'i unformat_api \<Rightarrow> ('i \<Rightarrow> nat) \<Rightarrow> bool" where
  "unformat_ok U size_of \<longleftrightarrow>
     (\<forall>word i i'. unformat U word i = Some i' \<longrightarrow> size_of i' < size_of i) \<and>
     (\<forall>i sw i'. unformat_vnet_sw_interface U i = Some (sw, i') \<longrightarrow> size_of i' < size_of i)"

definition unformat_or :: "'i unformat_api \<Rightarrow> string \<Rightarrow> string \<Rightarrow> 'i \<Rightarrow> 'i option" where
  "unformat_or U a b i = (case unformat U a i of Some i' \<Rightarrow> Some i' | None \<Rightarrow> unformat U b i)"

definition unknown_input :: "'i unformat_api \<Rightarrow> 'i \<Rightarrow> string" where
  "unknown_input U i = ''unknown input `'' @ format_unformat_error U i @ [CHR 0x27]"

section \<open>Commands\<close>

text \<open>
  The loop the punt-via-member and host-xc commands share; the result is the error, if any, and the state.
  The code frees the line input before it formats the error from it.
\<close>

partial_function (option) toggle_loop ::
  "'i unformat_api \<Rightarrow> (u8 \<Rightarrow> 's \<Rightarrow> 's) \<Rightarrow> 'i \<Rightarrow> 's \<Rightarrow> (string option \<times> 's) option" where
  "toggle_loop U set_toggle line_input s =
     (if unformat_check_end U line_input then Some (None, s)
      else case unformat_or U ''on'' ''enable'' line_input of
             Some line_input \<Rightarrow> toggle_loop U set_toggle line_input (set_toggle 1 s)
           | None \<Rightarrow>
               (case unformat_or U ''off'' ''disable'' line_input of
                  Some line_input \<Rightarrow> toggle_loop U set_toggle line_input (set_toggle 0 s)
                | None \<Rightarrow> Some (Some (unknown_input U (unformat_free U line_input)), s)))"

definition sonic_ext_punt_via_member_command_fn ::
  "'i unformat_api \<Rightarrow> vnet_api \<Rightarrow> 'w feature_api \<Rightarrow> 'i \<Rightarrow> sonic_ext_main \<times> 'w \<Rightarrow>
   (string option \<times> sonic_ext_main \<times> 'w) option" where
  "sonic_ext_punt_via_member_command_fn U N F input s =
     (case unformat_line_input U input of
        None \<Rightarrow> Some (None, s)
      | Some line_input \<Rightarrow> toggle_loop U (sonic_ext_set_punt_via_member N F) line_input s)"

definition sonic_ext_host_xc_command_fn ::
  "'i unformat_api \<Rightarrow> vnet_api \<Rightarrow> 'w feature_api \<Rightarrow> 'i \<Rightarrow> sonic_ext_main \<times> 'w \<Rightarrow>
   (string option \<times> sonic_ext_main \<times> 'w) option" where
  "sonic_ext_host_xc_command_fn U N F input s =
     (case unformat_line_input U input of
        None \<Rightarrow> Some (None, s)
      | Some line_input \<Rightarrow> toggle_loop U (sonic_ext_set_host_xc N F) line_input s)"

text \<open>The parsing loop of the ip2me command: an error, or the interface, the value and whether it was given.\<close>

partial_function (option) ip2me_loop ::
  "'i unformat_api \<Rightarrow> 'i \<Rightarrow> u32 \<Rightarrow> bool \<Rightarrow> bool \<Rightarrow> (string + u32 \<times> bool \<times> bool) option" where
  "ip2me_loop U line_input sw_if_index enable got_enable =
     (if unformat_check_end U line_input then Some (Inr (sw_if_index, enable, got_enable))
      else case unformat_vnet_sw_interface U line_input of
             Some r \<Rightarrow> ip2me_loop U (snd r) (fst r) enable got_enable
           | None \<Rightarrow>
               (case unformat_or U ''on'' ''enable'' line_input of
                  Some line_input \<Rightarrow> ip2me_loop U line_input sw_if_index True True
                | None \<Rightarrow>
                    (case unformat_or U ''off'' ''disable'' line_input of
                       Some line_input \<Rightarrow> ip2me_loop U line_input sw_if_index False True
                     | None \<Rightarrow> Some (Inl (unknown_input U line_input)))))"

definition ip2me_finish ::
  "'w feature_api \<Rightarrow> string + u32 \<times> bool \<times> bool \<Rightarrow> 'w \<Rightarrow> string option \<times> 'w" where
  "ip2me_finish F r w =
     (case r of
        Inl error \<Rightarrow> (Some error, w)
      | Inr (sw_if_index, enable, got_enable) \<Rightarrow>
          if sw_if_index = -1 then (Some ''please specify an interface'', w)
          else if \<not> got_enable then (Some ''please specify on|off'', w)
          else (None, sonic_ext_ip2me_enable_disable F sw_if_index enable w))"

definition sonic_ext_ip2me_command_fn ::
  "'i unformat_api \<Rightarrow> 'w feature_api \<Rightarrow> 'i \<Rightarrow> 'w \<Rightarrow> (string option \<times> 'w) option" where
  "sonic_ext_ip2me_command_fn U F input w =
     (case unformat_line_input U input of
        None \<Rightarrow> Some (None, w)
      | Some line_input \<Rightarrow>
          map_option (\<lambda>r. ip2me_finish F r w) (ip2me_loop U line_input (-1) True False))"

text \<open>The lines of \<^verbatim>\<open>show sonic-ext\<close>: format strings with their argument.\<close>

datatype cli_arg = Cli_none | Cli_string string | Cli_u64 u64

definition show_sonic_ext_command_fn :: "sonic_ext_main \<Rightarrow> (string \<times> cli_arg) list" where
  "show_sonic_ext_command_fn sem =
     [(''sonic-ext state:'', Cli_none),
      (''  punt-via-member : %s'', Cli_string (if punt_via_member sem \<noteq> 0 then ''on'' else ''off'')),
      (''  host-xc         : %s'', Cli_string (if host_xc sem \<noteq> 0 then ''on'' else ''off'')),
      (''  captures        : %llu'', Cli_u64 (captures sem)),
      (''  aggr-tap redir  : %llu'', Cli_u64 (aggr_tap_redirects sem)),
      (''  glean redirect  : %llu'', Cli_u64 (glean_redirects sem)),
      (''  host-xc direct  : %llu'', Cli_u64 (host_xc_direct sem)),
      (''  l2 trap fixups  : %llu'', Cli_u64 (l2_trap_fixups sem)),
      (''  ip2me hits      : %llu'', Cli_u64 (ip2me_hits sem))]"

section \<open>A concrete parser\<close>

text \<open>Input as a list of words; interface \<^verbatim>\<open>eth1\<close> is number 1. Freeing leaves nothing to print.\<close>

definition words_parser :: "string list unformat_api" where
  "words_parser =
     \<lparr>unformat_line_input = Some, unformat_check_end = (\<lambda>i. i = []),
      unformat = (\<lambda>w i. case i of [] \<Rightarrow> None | x # xs \<Rightarrow> if x = w then Some xs else None),
      unformat_vnet_sw_interface = (\<lambda>i. case i of [] \<Rightarrow> None
        | x # xs \<Rightarrow> if x = ''eth1'' then Some (1, xs) else None),
      unformat_free = (\<lambda>i. []), format_unformat_error = concat\<rparr>"

section \<open>Lemmas\<close>

lemma words_parser_ok: "unformat_ok words_parser length"
  by (auto simp: unformat_ok_def words_parser_def split: list.splits if_splits)

lemma unformat_or_less:
  "unformat_ok U size_of \<Longrightarrow> unformat_or U a b i = Some i' \<Longrightarrow> size_of i' < size_of i"
  by (auto simp: unformat_ok_def unformat_or_def split: option.splits)

text \<open>The loop ends, and a property that both settings keep holds after it.\<close>

lemma toggle_loop_ends:
  assumes "unformat_ok U size_of" and "P s" and "\<And>e s. P s \<Longrightarrow> P (set_toggle e s)"
  shows "\<exists>err s'. toggle_loop U set_toggle i s = Some (err, s') \<and> P s'"
  using assms(2)
proof (induction "size_of i" arbitrary: i s rule: less_induct)
  case less
  then show ?case
    using unformat_or_less [OF assms(1)] assms(3)
    by (subst toggle_loop.simps) (auto split: option.split)
qed

lemma ip2me_loop_ends:
  assumes "unformat_ok U size_of"
  shows "\<exists>r. ip2me_loop U i sw en got = Some r"
proof (induction "size_of i" arbitrary: i sw en got rule: less_induct)
  case less
  have "\<exists>r. ip2me_loop U i' sw' en' got' = Some r" if "size_of i' < size_of i" for i' sw' en' got'
    using less that by blast
  moreover have "size_of (snd r) < size_of i" if "unformat_vnet_sw_interface U i = Some r" for r
    using assms that unfolding unformat_ok_def by (metis surjective_pairing)
  ultimately show ?case
    using unformat_or_less [OF assms] by (subst ip2me_loop.simps) (auto split: option.split)
qed

section \<open>Properties\<close>

text \<open>C38: Every command returns on every input, and from a configuration the plugin can be in it leads to another
  one, so all invariants of configuration histories also hold under the CLI.\<close>

theorem sonic_ext_cli_returns:
  assumes "unformat_ok U size_of" and "ext_config N F w0 ps sem w"
  shows "(\<exists>err sem' w'. sonic_ext_punt_via_member_command_fn U (with_pairs N ps) F input (sem, w) =
        Some (err, sem', w') \<and> ext_config N F w0 ps sem' w') \<and>
    (\<exists>err sem' w'. sonic_ext_host_xc_command_fn U (with_pairs N ps) F input (sem, w) =
        Some (err, sem', w') \<and> ext_config N F w0 ps sem' w') \<and>
    (\<exists>err w'. sonic_ext_ip2me_command_fn U F input w = Some (err, w') \<and>
        ext_config N F w0 ps sem w')"
proof -
  let ?P = "\<lambda>(sem, w). ext_config N F w0 ps sem w"
  have punt: "?P (sonic_ext_set_punt_via_member (with_pairs N ps) F e s)" if "?P s" for e s
    using that ext_config.punt [of N F w0 ps "fst s" "snd s" e] by (cases s) (auto simp: split_def)
  have host: "?P (sonic_ext_set_host_xc (with_pairs N ps) F e s)" if "?P s" for e s
    using that ext_config.host [of N F w0 ps "fst s" "snd s" e] by (cases s) (auto simp: split_def)
  have "\<exists>err sem' w'. sonic_ext_punt_via_member_command_fn U (with_pairs N ps) F input (sem, w) =
      Some (err, sem', w') \<and> ext_config N F w0 ps sem' w'"
  proof (cases "unformat_line_input U input")
    case (Some li)
    then show ?thesis
      using toggle_loop_ends [OF assms(1), of ?P "(sem, w)", OF _ punt] assms(2)
      by (fastforce simp: sonic_ext_punt_via_member_command_fn_def)
  qed (use assms(2) in \<open>simp add: sonic_ext_punt_via_member_command_fn_def\<close>)
  moreover have "\<exists>err sem' w'. sonic_ext_host_xc_command_fn U (with_pairs N ps) F input (sem, w) =
      Some (err, sem', w') \<and> ext_config N F w0 ps sem' w'"
  proof (cases "unformat_line_input U input")
    case (Some li)
    then show ?thesis
      using toggle_loop_ends [OF assms(1), of ?P "(sem, w)", OF _ host] assms(2)
      by (fastforce simp: sonic_ext_host_xc_command_fn_def)
  qed (use assms(2) in \<open>simp add: sonic_ext_host_xc_command_fn_def\<close>)
  moreover have "\<exists>err w'. sonic_ext_ip2me_command_fn U F input w = Some (err, w') \<and>
      ext_config N F w0 ps sem w'"
  proof (cases "unformat_line_input U input")
    case None
    then show ?thesis using assms(2) by (simp add: sonic_ext_ip2me_command_fn_def)
  next
    case (Some line_input)
    obtain r where r: "ip2me_loop U line_input (-1) True False = Some r"
      using ip2me_loop_ends [OF assms(1)] by blast
    obtain err w' where "ip2me_finish F r w = (err, w')" by fastforce
    then have "sonic_ext_ip2me_command_fn U F input w = Some (err, w')"
      by (simp add: sonic_ext_ip2me_command_fn_def Some r)
    moreover have "ext_config N F w0 ps sem (snd (ip2me_finish F r w))"
      using assms(2) ext_config.ip2me [OF assms(2)]
      by (cases r) (auto simp: ip2me_finish_def)
    ultimately show ?thesis using \<open>ip2me_finish F r w = (err, w')\<close> by auto
  qed
  ultimately show ?thesis by blast
qed

theorem sonic_ext_cli_returns_witness:
  "\<exists>sem w err sem' w'. ext_config vnet_demo feature_recorder [] [] sem w \<and>
     sonic_ext_punt_via_member_command_fn words_parser (with_pairs vnet_demo []) feature_recorder
       [''off'', ''what''] (sem, w) = Some (err, sem', w') \<and>
     ext_config vnet_demo feature_recorder [] [] sem' w'"
proof -
  obtain sem w where c: "ext_config vnet_demo feature_recorder [] [] sem w"
    using ext_config.init [of vnet_demo feature_recorder "[]"] by (metis surj_pair)
  with sonic_ext_cli_returns [OF words_parser_ok c, of "[''off'', ''what'']"] show ?thesis by blast
qed

text \<open>The interface of an ip2me command is only changed when the line named an interface and a value and
  contained nothing else; any error leaves the configuration alone.\<close>

theorem sonic_ext_ip2me_command_errors:
  assumes "sonic_ext_ip2me_command_fn U F input w = Some (Some err, w')"
  shows "w' = w"
proof (cases "unformat_line_input U input")
  case None
  then show ?thesis using assms by (simp add: sonic_ext_ip2me_command_fn_def)
next
  case (Some line_input)
  then obtain r where "ip2me_finish F r w = (Some err, w')"
    using assms by (auto simp: sonic_ext_ip2me_command_fn_def)
  then show ?thesis by (cases r) (auto simp: ip2me_finish_def split: if_splits)
qed

theorem sonic_ext_ip2me_command_errors_witness:
  "sonic_ext_ip2me_command_fn words_parser feature_recorder [''on''] [] =
     Some (Some ''please specify an interface'', [])"
proof -
  have "ip2me_loop words_parser [''on''] (-1) True False = Some (Inr (-1, True, True))"
    by (simp add: ip2me_loop.simps words_parser_def unformat_or_def)
  then have r: "sonic_ext_ip2me_command_fn words_parser feature_recorder [''on''] [] =
      Some (Some ''please specify an interface'', [])"
    by (simp add: sonic_ext_ip2me_command_fn_def words_parser_def ip2me_finish_def)
  show ?thesis using r sonic_ext_ip2me_command_errors [OF r] by simp
qed

end
