(* ===== verification/Capture_Node.thy ===== *)
theory Capture_Node
  imports Sonic_Ext_Main
begin

text \<open>
  The node \<^verbatim>\<open>sonic-ext-capture\<close> (sonic_ext/capture_node.c): it stamps each packet with its ingress interface
  and its outermost VLAN tag.
\<close>

section \<open>The node\<close>

datatype sonic_ext_capture_error = SONIC_EXT_CAPTURE_ERROR_CAPTURED

record sonic_ext_capture_trace =
  capture_trace_sw_if_index :: u32

definition sonic_ext_capture_step ::
  "sonic_ext_buffer_opaque vlib_api \<Rightarrow> sonic_ext_capture_error node_runtime \<Rightarrow> unit \<Rightarrow> sbuffer \<Rightarrow>
   unit \<times> (sonic_ext_capture_error, sbuffer, sonic_ext_capture_trace) verdict" where
  "sonic_ext_capture_step V node s b =
     (let (next0, b) = vnet_feature_next V b;
          seb = (sonic_ext_buffer b)\<lparr>orig_rx_sw_if_index := rx_sw_if_index b\<rparr>;
          p = vlib_buffer_get_current V b;
          etype = clib_net_to_host_u16 (load_u16 (b_data b) (p + 12));
          seb = (if etype = ETHERNET_TYPE_VLAN \<or> etype = ETHERNET_TYPE_DOT1AD \<or>
                    etype = ETHERNET_TYPE_VLAN_9100
                 then seb\<lparr>orig_vlan_tag := load_u32 (b_data b) (p + 12)\<rparr>
                 else seb\<lparr>orig_vlan_tag := 0\<rparr>);
          seb = seb\<lparr>magic := SONIC_EXT_BUFFER_MAGIC\<rparr>;
          b = b\<lparr>opaque2_unused := seb\<rparr>
      in (s, \<lparr>v_disp = SONIC_EXT_CAPTURE_ERROR_CAPTURED, v_next = ucast next0, v_buffer = b,
              v_trace = (if traced V node b
                then [\<lparr>capture_trace_sw_if_index = rx_sw_if_index b\<rparr>] else [])\<rparr>))"

definition sonic_ext_capture_node ::
  "sonic_ext_buffer_opaque vlib_api \<Rightarrow> sonic_ext_capture_error node_runtime \<Rightarrow> sonic_ext_main \<Rightarrow>
   sbuffer list \<Rightarrow> sonic_ext_main \<times>
   (sonic_ext_capture_error, sbuffer, sonic_ext_capture_trace) node_result \<times>
   (sonic_ext_capture_error \<times> u32) list" where
  "sonic_ext_capture_node V node sem bs =
     (let (_, r) = run_node (sonic_ext_capture_step V node) () bs;
          n_captured = nr_counts r SONIC_EXT_CAPTURE_ERROR_CAPTURED
      in (sem\<lparr>captures := captures sem + ucast n_captured\<rparr>, r,
          counter_calls [SONIC_EXT_CAPTURE_ERROR_CAPTURED] (nr_counts r)))"

section \<open>Specification\<close>

text \<open>Does the Ethernet frame at offset \<open>p\<close> start with one of the three VLAN tag protocol identifiers?\<close>

definition vlan_tagged :: "mem \<Rightarrow> int \<Rightarrow> bool" where
  "vlan_tagged m p \<longleftrightarrow> be16 (m (p + 12)) (m (p + 13)) \<in> {0x8100, 0x88a8, 0x9100}"

definition capture_record :: "mem \<Rightarrow> int \<Rightarrow> u32 \<Rightarrow> sonic_ext_buffer_opaque" where
  "capture_record m p rx =
     \<lparr>magic = SONIC_EXT_BUFFER_MAGIC, orig_rx_sw_if_index = rx,
      orig_vlan_tag = (if vlan_tagged m p then load_u32 m (p + 12) else 0)\<rparr>"

section \<open>Lemmas\<close>

lemma tagged_tag_nonzero:
  assumes "vlan_tagged m p"
  shows "load_u32 m (p + 12) \<noteq> 0"
proof
  assume "load_u32 m (p + 12) = 0"
  then have "m (p + 12) = 0" by (simp add: load_u32_def le32_eq_iff)
  with assms show False by (auto simp: vlan_tagged_def be16_eq_numeral)
qed

lemma capture_etype:
  "(clib_net_to_host_u16 (load_u16 m (p + 12)) = ETHERNET_TYPE_VLAN \<or>
    clib_net_to_host_u16 (load_u16 m (p + 12)) = ETHERNET_TYPE_DOT1AD \<or>
    clib_net_to_host_u16 (load_u16 m (p + 12)) = ETHERNET_TYPE_VLAN_9100) \<longleftrightarrow> vlan_tagged m p"
  by (simp add: net_load_u16 vlan_tagged_def ETHERNET_TYPE_VLAN_def ETHERNET_TYPE_DOT1AD_def
      ETHERNET_TYPE_VLAN_9100_def add.assoc)

lemma capture_step_verdict:
  "snd (sonic_ext_capture_step V node s b) =
     (let b1 = snd (vnet_feature_next V b);
          b2 = b1\<lparr>opaque2_unused :=
            capture_record (b_data b1) (vlib_buffer_get_current V b1) (rx_sw_if_index b1)\<rparr>
      in \<lparr>v_disp = SONIC_EXT_CAPTURE_ERROR_CAPTURED, v_next = ucast (fst (vnet_feature_next V b)),
          v_buffer = b2,
          v_trace = (if traced V node b1 then [\<lparr>capture_trace_sw_if_index = rx_sw_if_index b1\<rparr>]
            else [])\<rparr>)"
  unfolding sonic_ext_capture_step_def capture_record_def capture_etype split_def Let_def
  by (simp add: traced_def)

interpretation capture_arc: arc_node "sonic_ext_capture_step V node"
  "\<lambda>b. ucast (fst (vnet_feature_next V b))" "\<lambda>_. None"
  for V node
  by unfold_locales (simp add: capture_step_verdict Let_def)

lemma capture_verdicts:
  "verdicts (sonic_ext_capture_step V node) () bs =
     map (\<lambda>b. snd (sonic_ext_capture_step V node () b)) bs"
  by (rule verdicts_stateless) (simp add: capture_step_verdict)

section \<open>Properties\<close>

text \<open>C29: Every packet of a frame continues on its feature arc and leaves with a complete capture record: the
  magic, the ingress interface, and the four raw tag bytes when the frame is tagged (never zero) or zero
  when it is not. Nothing else of the buffer changes but the arc position. The summary counter grows by
  the number of packets.\<close>

theorem sonic_ext_capture_node_correct:
  assumes "vlib_ok V"
  shows "let (sem', r, calls) = sonic_ext_capture_node V node sem bs
    in nr_nexts r = map (\<lambda>b. ucast (fst (vnet_feature_next V b))) bs \<and>
       list_all2 (\<lambda>b b'. (\<exists>ci. b' = b\<lparr>current_config_index := ci, opaque2_unused :=
         capture_record (b_data b) (sint (current_data b)) (rx_sw_if_index b)\<rparr>) \<and>
         (orig_vlan_tag (sonic_ext_buffer b') \<noteq> 0 \<longleftrightarrow> vlan_tagged (b_data b) (sint (current_data b))))
         bs (nr_buffers r) \<and>
       captures sem' = captures sem + ucast (of_nat (length bs) :: u32) \<and>
       calls = (if (of_nat (length bs) :: u32) = 0 then []
         else [(SONIC_EXT_CAPTURE_ERROR_CAPTURED, of_nat (length bs))])"
proof -
  have buf: "\<exists>ci. v_buffer (snd (sonic_ext_capture_step V node () b)) =
      b\<lparr>current_config_index := ci, opaque2_unused :=
         capture_record (b_data b) (sint (current_data b)) (rx_sw_if_index b)\<rparr>" for b
    by (rule feature_next_buffer [OF assms, of b])
      (auto simp: capture_step_verdict Let_def vlib_okD [OF assms])
  have tag: "orig_vlan_tag (capture_record m p rx) \<noteq> 0 \<longleftrightarrow> vlan_tagged m p" for m p rx
    using tagged_tag_nonzero [of m p] by (simp add: capture_record_def)
  have disp: "v_disp (snd (sonic_ext_capture_step V node () b)) = SONIC_EXT_CAPTURE_ERROR_CAPTURED" for b
    by (cases "v_disp (snd (sonic_ext_capture_step V node () b))") simp
  have nxt: "v_next (snd (sonic_ext_capture_step V node () b)) = ucast (fst (vnet_feature_next V b))"
    for b using capture_arc.dispatch [of V node "()" b] by simp
  have one: "(\<exists>ci. v_buffer (snd (sonic_ext_capture_step V node () b)) =
        b\<lparr>current_config_index := ci, opaque2_unused :=
          capture_record (b_data b) (sint (current_data b)) (rx_sw_if_index b)\<rparr>) \<and>
      (orig_vlan_tag (sonic_ext_buffer (v_buffer (snd (sonic_ext_capture_step V node () b)))) \<noteq> 0 \<longleftrightarrow>
       vlan_tagged (b_data b) (sint (current_data b)))" for b
  proof -
    obtain ci where ci: "v_buffer (snd (sonic_ext_capture_step V node () b)) =
        b\<lparr>current_config_index := ci, opaque2_unused :=
          capture_record (b_data b) (sint (current_data b)) (rx_sw_if_index b)\<rparr>"
      using buf by blast
    then show ?thesis using buf [of b] by (simp add: tag sonic_ext_buffer_def)
  qed
  show ?thesis
    by (simp add: sonic_ext_capture_node_def split_def Let_def run_node_verdicts capture_verdicts
        counter_calls_def comp_def disp nxt filter_map list_all2_map2 list_all2_same one)
qed

theorem sonic_ext_capture_node_correct_witness:
  "\<exists>b'. nr_buffers (fst (snd (sonic_ext_capture_node (vlib_demo 7) \<lparr>node_trace = False, node_errors = (\<lambda>_. 0)\<rparr>
       sonic_ext_main_zero [buffer_demo \<lparr>magic = 0, orig_rx_sw_if_index = 0, orig_vlan_tag = 0\<rparr>
         [0,0,0,0,0,0, 0,0,0,0,0,0, 0x81,0x00, 0x00,0x0a]]))) = [b'] \<and>
     orig_vlan_tag (sonic_ext_buffer b') \<noteq> 0"
  using sonic_ext_capture_node_correct [OF vlib_demo_ok, of 7
      "\<lparr>node_trace = False, node_errors = (\<lambda>_. 0)\<rparr>" sonic_ext_main_zero
      "[buffer_demo \<lparr>magic = 0, orig_rx_sw_if_index = 0, orig_vlan_tag = 0\<rparr>
         [0,0,0,0,0,0, 0,0,0,0,0,0, 0x81,0x00, 0x00,0x0a]]"]
  by (auto simp: split_def Let_def list_all2_Cons1 vlan_tagged_def be16_eq_numeral buffer_demo_def)

end
