(* ===== verification/Aggr_Tap_Redirect_Node.thy ===== *)
theory Aggr_Tap_Redirect_Node
  imports Sonic_Ext_Main
begin

text \<open>
  The node \<^verbatim>\<open>sonic-ext-aggr-tap-redirect\<close> (sonic_ext/aggr_tap_redirect_node.c): a packet punted to the host tap
  of an aggregate is moved to the host tap of the member port it entered on.
\<close>

section \<open>The node\<close>

datatype sonic_ext_aggr_tap_redirect_error =
    SONIC_EXT_AGGR_TAP_REDIRECT_ERROR_REDIRECTED
  | SONIC_EXT_AGGR_TAP_REDIRECT_ERROR_NO_COOKIE
  | SONIC_EXT_AGGR_TAP_REDIRECT_ERROR_NO_LCP
  | SONIC_EXT_AGGR_TAP_REDIRECT_ERROR_DISABLED

definition SONIC_EXT_AGGR_TAP_REDIRECT_NEXT_INTERFACE_OUTPUT :: u16 where
  "SONIC_EXT_AGGR_TAP_REDIRECT_NEXT_INTERFACE_OUTPUT = 0"

record sonic_ext_aggr_tap_redirect_trace =
  aggr_trace_aggr_tap_sw_if_index :: u32
  aggr_trace_orig_rx_sw_if_index :: u32
  aggr_trace_member_tap_sw_if_index :: u32
  aggr_trace_pushed_tpid :: u16
  aggr_trace_pushed_vlan_id :: u16
  aggr_trace_redirected :: u32

definition sonic_ext_aggr_tap_redirect_step ::
  "sonic_ext_buffer_opaque vlib_api \<Rightarrow> vnet_api \<Rightarrow> sonic_ext_aggr_tap_redirect_error node_runtime \<Rightarrow>
   sonic_ext_main \<Rightarrow> unit \<Rightarrow> sbuffer \<Rightarrow>
   unit \<times> (sonic_ext_aggr_tap_redirect_error, sbuffer, sonic_ext_aggr_tap_redirect_trace) verdict" where
  "sonic_ext_aggr_tap_redirect_step V N node sem s b =
     (let aggr_tap = tx_sw_if_index b;
          (next0, b) = vnet_feature_next V b;
          (e, next0, b, orig_rx, member_tap, pushed_tpid, pushed_vlan_id, did_redirect) =
            (if punt_via_member sem = 0
             then (SONIC_EXT_AGGR_TAP_REDIRECT_ERROR_DISABLED, ucast next0, b, -1, -1, 0, 0, 0)
             else if magic (sonic_ext_buffer b) \<noteq> SONIC_EXT_BUFFER_MAGIC
             then (SONIC_EXT_AGGR_TAP_REDIRECT_ERROR_NO_COOKIE, ucast next0, b, -1, -1, 0, 0, 0)
             else
               let orig_rx = orig_rx_sw_if_index (sonic_ext_buffer b);
                   (ret, b, member_tap, pushed_tpid, pushed_vlan_id) =
                     sonic_ext_redirect_to_ingress_tap V N b orig_rx aggr_tap
               in if \<not> ret
                  then (SONIC_EXT_AGGR_TAP_REDIRECT_ERROR_NO_LCP, ucast next0,
                        b\<lparr>opaque2_unused := (sonic_ext_buffer b)\<lparr>magic := 0\<rparr>\<rparr>, orig_rx, member_tap,
                        pushed_tpid, pushed_vlan_id, 0)
                  else (SONIC_EXT_AGGR_TAP_REDIRECT_ERROR_REDIRECTED,
                        SONIC_EXT_AGGR_TAP_REDIRECT_NEXT_INTERFACE_OUTPUT, b, orig_rx, member_tap,
                        pushed_tpid, pushed_vlan_id, 1))
      in (s, \<lparr>v_disp = e, v_next = next0, v_buffer = b,
              v_trace = (if traced V node b
                then [\<lparr>aggr_trace_aggr_tap_sw_if_index = aggr_tap,
                       aggr_trace_orig_rx_sw_if_index = orig_rx,
                       aggr_trace_member_tap_sw_if_index = member_tap,
                       aggr_trace_pushed_tpid = pushed_tpid,
                       aggr_trace_pushed_vlan_id = pushed_vlan_id,
                       aggr_trace_redirected = did_redirect\<rparr>] else [])\<rparr>))"

definition sonic_ext_aggr_tap_redirect_node ::
  "sonic_ext_buffer_opaque vlib_api \<Rightarrow> vnet_api \<Rightarrow> sonic_ext_aggr_tap_redirect_error node_runtime \<Rightarrow>
   sonic_ext_main \<Rightarrow> sbuffer list \<Rightarrow> sonic_ext_main \<times>
   (sonic_ext_aggr_tap_redirect_error, sbuffer, sonic_ext_aggr_tap_redirect_trace) node_result \<times>
   (sonic_ext_aggr_tap_redirect_error \<times> u32) list" where
  "sonic_ext_aggr_tap_redirect_node V N node sem bs =
     (let (_, r) = run_node (sonic_ext_aggr_tap_redirect_step V N node sem) () bs;
          n_redirected = nr_counts r SONIC_EXT_AGGR_TAP_REDIRECT_ERROR_REDIRECTED
      in (sem\<lparr>aggr_tap_redirects := aggr_tap_redirects sem + ucast n_redirected\<rparr>, r,
          counter_calls [SONIC_EXT_AGGR_TAP_REDIRECT_ERROR_REDIRECTED,
            SONIC_EXT_AGGR_TAP_REDIRECT_ERROR_NO_COOKIE, SONIC_EXT_AGGR_TAP_REDIRECT_ERROR_NO_LCP,
            SONIC_EXT_AGGR_TAP_REDIRECT_ERROR_DISABLED] (nr_counts r)))"

section \<open>Specification\<close>

definition aggr_steer :: "sonic_ext_aggr_tap_redirect_error \<Rightarrow> u16 option" where
  "aggr_steer e = (if e = SONIC_EXT_AGGR_TAP_REDIRECT_ERROR_REDIRECTED
     then Some SONIC_EXT_AGGR_TAP_REDIRECT_NEXT_INTERFACE_OUTPUT else None)"

text \<open>What happens to one packet, as a table over the toggle, the cookie and the target tap.\<close>

definition aggr_outcome :: "vnet_api \<Rightarrow> sonic_ext_main \<Rightarrow> sbuffer \<Rightarrow> sonic_ext_aggr_tap_redirect_error" where
  "aggr_outcome N sem b =
     (if punt_via_member sem = 0 then SONIC_EXT_AGGR_TAP_REDIRECT_ERROR_DISABLED
      else if magic (sonic_ext_buffer b) \<noteq> SONIC_EXT_BUFFER_MAGIC
      then SONIC_EXT_AGGR_TAP_REDIRECT_ERROR_NO_COOKIE
      else if ingress_tap N (orig_rx_sw_if_index (sonic_ext_buffer b)) \<in> {None, Some (tx_sw_if_index b)}
      then SONIC_EXT_AGGR_TAP_REDIRECT_ERROR_NO_LCP
      else SONIC_EXT_AGGR_TAP_REDIRECT_ERROR_REDIRECTED)"

section \<open>Lemmas\<close>

interpretation aggr_arc: arc_node "sonic_ext_aggr_tap_redirect_step V N node sem"
  "\<lambda>b. ucast (fst (vnet_feature_next V b))" aggr_steer
  for V N node sem
  by unfold_locales
    (simp add: sonic_ext_aggr_tap_redirect_step_def aggr_steer_def split_def Let_def)

text \<open>One packet, in an environment where the step along the arc changes only the arc position.\<close>

lemma aggr_step_disp:
  assumes "vlib_ok V"
  shows "v_disp (snd (sonic_ext_aggr_tap_redirect_step V N node sem s b)) = aggr_outcome N sem b"
proof -
  obtain ci where "snd (vnet_feature_next V b) = b\<lparr>current_config_index := ci\<rparr>"
    using feature_next_buffer [OF assms] by blast
  then show ?thesis
    using redirect_succeeds [of V N "b\<lparr>current_config_index := ci\<rparr>"
        "orig_rx_sw_if_index (sonic_ext_buffer b)" "tx_sw_if_index b"]
    by (simp add: sonic_ext_aggr_tap_redirect_step_def aggr_outcome_def split_def Let_def
        sonic_ext_buffer_def)
qed

lemma aggr_step_spent:
  assumes "vlib_ok V"
    and "aggr_outcome N sem b \<in> {SONIC_EXT_AGGR_TAP_REDIRECT_ERROR_REDIRECTED,
      SONIC_EXT_AGGR_TAP_REDIRECT_ERROR_NO_LCP}"
  shows "magic (sonic_ext_buffer (v_buffer (snd (sonic_ext_aggr_tap_redirect_step V N node sem s b)))) = 0"
proof -
  obtain ci where nx: "snd (vnet_feature_next V b) = b\<lparr>current_config_index := ci\<rparr>"
    using feature_next_buffer [OF assms(1)] by blast
  let ?b = "b\<lparr>current_config_index := ci\<rparr>"
  obtain ret b' tap tpid vid where r: "sonic_ext_redirect_to_ingress_tap V N ?b
      (orig_rx_sw_if_index (sonic_ext_buffer b)) (tx_sw_if_index b) = (ret, b', tap, tpid, vid)"
    by (metis prod_cases5)
  have "magic (sonic_ext_buffer b') = 0" if "ret"
    using ingress.consumed [OF assms(1), of N ?b _ _ b' tap tpid vid] r that by simp
  with assms(2) r nx show ?thesis
    by (auto simp: sonic_ext_aggr_tap_redirect_step_def aggr_outcome_def split_def Let_def
        sonic_ext_buffer_def split: if_splits)
qed

text \<open>A packet that is not redirected leaves as it came, less its cookie when it had to give it up.\<close>

lemma aggr_step_kept:
  assumes "vlib_ok V" and "aggr_outcome N sem b \<noteq> SONIC_EXT_AGGR_TAP_REDIRECT_ERROR_REDIRECTED"
  shows "v_buffer (snd (sonic_ext_aggr_tap_redirect_step V N node sem s b)) =
    (let b' = snd (vnet_feature_next V b)
     in if aggr_outcome N sem b = SONIC_EXT_AGGR_TAP_REDIRECT_ERROR_NO_LCP
        then b'\<lparr>opaque2_unused := (sonic_ext_buffer b')\<lparr>magic := 0\<rparr>\<rparr> else b')"
proof -
  obtain ci where nx: "snd (vnet_feature_next V b) = b\<lparr>current_config_index := ci\<rparr>"
    using feature_next_buffer [OF assms(1)] by blast
  let ?b = "b\<lparr>current_config_index := ci\<rparr>"
  let ?rx = "orig_rx_sw_if_index (sonic_ext_buffer b)"
  obtain ret b' tap tpid vid where r: "sonic_ext_redirect_to_ingress_tap V N ?b ?rx (tx_sw_if_index b) =
      (ret, b', tap, tpid, vid)"
    by (metis prod_cases5)
  have "b' = ?b" if "\<not> ret"
    using ingress.refused [of V N ?b ?rx "tx_sw_if_index b" b' tap tpid vid] r that by simp
  moreover have "ret \<longleftrightarrow> ingress_tap N ?rx \<noteq> None \<and> ingress_tap N ?rx \<noteq> Some (tx_sw_if_index b)"
    using redirect_succeeds [of V N ?b ?rx "tx_sw_if_index b"] r by simp
  ultimately show ?thesis using r nx assms(2)
    by (auto simp: sonic_ext_aggr_tap_redirect_step_def aggr_outcome_def split_def Let_def
        sonic_ext_buffer_def split: if_splits)
qed

lemma aggr_step_tx:
  assumes "vlib_ok V"
  shows "tx_sw_if_index (v_buffer (snd (sonic_ext_aggr_tap_redirect_step V N node sem s b))) =
    (if aggr_outcome N sem b = SONIC_EXT_AGGR_TAP_REDIRECT_ERROR_REDIRECTED
     then the (ingress_tap N (orig_rx_sw_if_index (sonic_ext_buffer b))) else tx_sw_if_index b)"
proof -
  obtain ci where nx: "snd (vnet_feature_next V b) = b\<lparr>current_config_index := ci\<rparr>"
    using feature_next_buffer [OF assms(1)] by blast
  let ?b = "b\<lparr>current_config_index := ci\<rparr>"
  let ?rx = "orig_rx_sw_if_index (sonic_ext_buffer b)"
  obtain ret b' tap tpid vid where r: "sonic_ext_redirect_to_ingress_tap V N ?b ?rx (tx_sw_if_index b) =
      (ret, b', tap, tpid, vid)"
    by (metis prod_cases5)
  have "tx_sw_if_index b' = tap \<and> ingress_tap N ?rx = Some tap" if ret
    using ingress.redirected [of V N ?b ?rx "tx_sw_if_index b" b' tap tpid vid]
      redirect_tap [of V N ?b ?rx "tx_sw_if_index b" b' tap tpid vid] r that by simp
  moreover have "b' = ?b" if "\<not> ret"
    using ingress.refused [of V N ?b ?rx "tx_sw_if_index b" b' tap tpid vid] r that by simp
  moreover have "ret \<longleftrightarrow> ingress_tap N ?rx \<noteq> None \<and> ingress_tap N ?rx \<noteq> Some (tx_sw_if_index b)"
    using redirect_succeeds [of V N ?b ?rx "tx_sw_if_index b"] r by simp
  ultimately show ?thesis using r nx
    by (auto simp: sonic_ext_aggr_tap_redirect_step_def aggr_outcome_def split_def Let_def
        sonic_ext_buffer_def)
qed

lemma aggr_verdicts:
  "verdicts (sonic_ext_aggr_tap_redirect_step V N node sem) () bs =
     map (\<lambda>b. snd (sonic_ext_aggr_tap_redirect_step V N node sem () b)) bs"
  by (rule verdicts_stateless) simp

section \<open>Properties\<close>

text \<open>C22: For every packet of a frame the counter is the one the table of toggle, cookie and target tap gives;
  the packet re-enters interface-output exactly when it is redirected and otherwise continues on the arc;
  a redirected packet is transmitted on the tap of the port it entered on and leaves with its cookie consumed, so that
  it is not redirected again; a packet with a valid cookie but no other tap to go to (NO_LCP) leaves as it came with
  the cookie consumed; and while punt-via-member is off (DISABLED), or without a valid cookie, the packet leaves as it
  came, cookie included. The summary counter grows by the redirected packets.\<close>

theorem sonic_ext_aggr_tap_redirect_node_correct:
  assumes "vlib_ok V"
  shows "let (sem', r, calls) = sonic_ext_aggr_tap_redirect_node V N node sem bs;
             out = aggr_outcome N sem
    in nr_counts r = (\<lambda>e. of_nat (length (filter (\<lambda>b. out b = e) bs))) \<and>
       nr_nexts r = map (\<lambda>b. if out b = SONIC_EXT_AGGR_TAP_REDIRECT_ERROR_REDIRECTED
         then SONIC_EXT_AGGR_TAP_REDIRECT_NEXT_INTERFACE_OUTPUT
         else ucast (fst (vnet_feature_next V b))) bs \<and>
       map tx_sw_if_index (nr_buffers r) =
         map (\<lambda>b. if out b = SONIC_EXT_AGGR_TAP_REDIRECT_ERROR_REDIRECTED
           then the (ingress_tap N (orig_rx_sw_if_index (sonic_ext_buffer b)))
           else tx_sw_if_index b) bs \<and>
       (\<forall>i < length bs. let b' = snd (vnet_feature_next V (bs ! i))
          in if out (bs ! i) = SONIC_EXT_AGGR_TAP_REDIRECT_ERROR_REDIRECTED
             then magic (sonic_ext_buffer (nr_buffers r ! i)) = 0
             else nr_buffers r ! i = (if out (bs ! i) = SONIC_EXT_AGGR_TAP_REDIRECT_ERROR_NO_LCP
               then b'\<lparr>opaque2_unused := (sonic_ext_buffer b')\<lparr>magic := 0\<rparr>\<rparr> else b')) \<and>
       sem' = sem\<lparr>aggr_tap_redirects := aggr_tap_redirects sem +
         ucast (nr_counts r SONIC_EXT_AGGR_TAP_REDIRECT_ERROR_REDIRECTED)\<rparr>"
proof -
  note step = aggr_step_disp [OF assms] aggr_step_tx [OF assms]
  have nxt: "v_next (snd (sonic_ext_aggr_tap_redirect_step V N node sem () b)) =
      (if aggr_outcome N sem b = SONIC_EXT_AGGR_TAP_REDIRECT_ERROR_REDIRECTED
       then SONIC_EXT_AGGR_TAP_REDIRECT_NEXT_INTERFACE_OUTPUT
       else ucast (fst (vnet_feature_next V b)))" for b
    using aggr_arc.dispatch [of V N node sem "()" b] by (simp add: step aggr_steer_def)
  have left: "\<forall>i < length bs. let b' = snd (vnet_feature_next V (bs ! i));
        b = map (\<lambda>b. v_buffer (snd (sonic_ext_aggr_tap_redirect_step V N node sem () b))) bs ! i
      in if aggr_outcome N sem (bs ! i) = SONIC_EXT_AGGR_TAP_REDIRECT_ERROR_REDIRECTED
         then magic (sonic_ext_buffer b) = 0
         else b = (if aggr_outcome N sem (bs ! i) = SONIC_EXT_AGGR_TAP_REDIRECT_ERROR_NO_LCP
           then b'\<lparr>opaque2_unused := (sonic_ext_buffer b')\<lparr>magic := 0\<rparr>\<rparr> else b')"
    using aggr_step_spent [OF assms] aggr_step_kept [OF assms] by (simp add: Let_def)
  show ?thesis
    using left unfolding sonic_ext_aggr_tap_redirect_node_def split_def Let_def run_node_verdicts
      aggr_verdicts fst_conv snd_conv node_output_sel list.map_comp comp_def filter_map length_map step nxt
    by simp
qed

text \<open>Witness: an uncaptured packet and a captured one that leaves on tap 2 instead of the BVI tap 6.\<close>

theorem sonic_ext_aggr_tap_redirect_node_correct_witness:
  "map tx_sw_if_index (nr_buffers (fst (snd (sonic_ext_aggr_tap_redirect_node (vlib_demo 7) vnet_demo
       \<lparr>node_trace = False, node_errors = (\<lambda>_. 0)\<rparr> (sonic_ext_main_zero\<lparr>punt_via_member := 1\<rparr>)
       [(buffer_demo \<lparr>magic = SONIC_EXT_BUFFER_MAGIC, orig_rx_sw_if_index = 3, orig_vlan_tag = 0\<rparr> [])
          \<lparr>tx_sw_if_index := 6\<rparr>,
        (buffer_demo \<lparr>magic = 0, orig_rx_sw_if_index = 3, orig_vlan_tag = 0\<rparr> [])
          \<lparr>tx_sw_if_index := 6\<rparr>])))) = [2, 6]"
  using sonic_ext_aggr_tap_redirect_node_correct [OF vlib_demo_ok, of 7 vnet_demo
      "\<lparr>node_trace = False, node_errors = (\<lambda>_. 0)\<rparr>" "sonic_ext_main_zero\<lparr>punt_via_member := 1\<rparr>"
      "[(buffer_demo \<lparr>magic = SONIC_EXT_BUFFER_MAGIC, orig_rx_sw_if_index = 3, orig_vlan_tag = 0\<rparr> [])
          \<lparr>tx_sw_if_index := 6\<rparr>,
        (buffer_demo \<lparr>magic = 0, orig_rx_sw_if_index = 3, orig_vlan_tag = 0\<rparr> [])
          \<lparr>tx_sw_if_index := 6\<rparr>]"]
  by (simp add: split_def Let_def aggr_outcome_def ingress_tap_def vnet_demo_def sw_demo_def
      sonic_ext_buffer_def buffer_demo_def pair_demo_def SONIC_EXT_BUFFER_MAGIC_def)

end
