(* ===== verification/Sonic_Ext_Frames.thy ===== *)
theory Sonic_Ext_Frames
  imports Capture_Node Aggr_Tap_Redirect_Node
begin

text \<open>
  What capture and redirection do to the bytes of a frame, together: the tag capture saw on the wire is
  put back when the bridge removed it, and only then.
\<close>

text \<open>
  Between capture and redirection the packet may pass a tag-removing rewrite: the cookie is kept, the
  Ethernet header now starts four bytes later with the same addresses, and the rest is as it was.
\<close>

definition vlan_popped :: "sbuffer \<Rightarrow> sbuffer \<Rightarrow> bool" where
  "vlan_popped b b' \<longleftrightarrow>
     opaque2_unused b' = opaque2_unused b \<and> l2_hdr_offset b' = current_data b + 4 \<and>
     (\<forall>k. 0 \<le> k \<and> k < 12 \<longrightarrow> b_data b' (sint (current_data b) + 4 + k) = b_data b (sint (current_data b) + k)) \<and>
     (\<forall>i. sint (current_data b) + 16 \<le> i \<longrightarrow> b_data b' i = b_data b i)"

text \<open>A concrete frame, tagged with VLAN 10, and the same packet after its tag was removed.\<close>

definition wire_demo :: "u8 list \<Rightarrow> sbuffer" where
  "wire_demo rest = buffer_demo \<lparr>magic = 0, orig_rx_sw_if_index = 0, orig_vlan_tag = 0\<rparr>
     ([1, 2, 3, 4, 5, 6, 7, 8, 9, 10, 11, 12, 0x81, 0x00, 0x00, 0x0a] @ rest)"

definition capture_demo :: "u8 list \<Rightarrow> sbuffer" where
  "capture_demo rest = v_buffer (snd (sonic_ext_capture_step (vlib_demo 7)
     \<lparr>node_trace = False, node_errors = (\<lambda>_. 0)\<rparr> () (wire_demo rest)))"

definition popped_demo :: "u8 list \<Rightarrow> sbuffer" where
  "popped_demo rest =
     (let b = capture_demo rest
      in b\<lparr>b_data := write_bytes (b_data b) 4 (read_bytes (b_data b) 0 12), l2_hdr_offset := 4\<rparr>)"

section \<open>Offsets\<close>

lemma sint_i16_plus:
  fixes w :: i16
  assumes "- (2 ^ 15) \<le> sint w + n" and "sint w + n < 2 ^ 15"
  shows "sint (w + word_of_int n) = sint w + n"
proof -
  have "w + word_of_int n = word_of_int (sint w + n)" by simp
  then have "sint (w + word_of_int n) = signed_take_bit 15 (sint w + n)"
    by (simp only: sint_sbintrunc') simp
  also have "\<dots> = sint w + n"
    using assms by (intro signed_take_bit_int_eq_self) simp_all
  finally show ?thesis .
qed

lemma rewind_offset:
  fixes c l :: i16
  shows "c + word_of_int (sint l - sint c) = l"
  by (simp add: of_int_diff)

section \<open>The redirected frame\<close>

lemma redirect_untouched:
  assumes "vlib_ok V"
    and "sonic_ext_redirect_to_ingress_tap V N b rx excl = (True, b', tap, tpid, vid)"
    and "orig_vlan_tag (sonic_ext_buffer b) = 0 \<or> sint (l2_hdr_offset b) < 4 \<or>
      vlan_tagged (b_data b) (sint (l2_hdr_offset b))"
  shows "b_data b' = b_data b" and "current_data b' = l2_hdr_offset b" and "tpid = 0" and "vid = 0"
    and "l2_hdr_offset b' = l2_hdr_offset b"
  using assms(2,3)
  by (auto simp: sonic_ext_redirect_to_ingress_tap_def Let_def vlib_okD [OF assms(1)] rewind_offset
      capture_etype [symmetric] sonic_ext_buffer_def split: option.splits if_splits)

lemma redirect_pushed:
  assumes "vlib_ok V"
    and "sonic_ext_redirect_to_ingress_tap V N b rx excl = (True, b', tap, tpid, vid)"
    and "orig_vlan_tag (sonic_ext_buffer b) \<noteq> 0" and "4 \<le> sint (l2_hdr_offset b)"
    and "\<not> vlan_tagged (b_data b) (sint (l2_hdr_offset b))"
  shows "b_data b' = (let q = sint (l2_hdr_offset b)
      in write_bytes (write_bytes (b_data b) (q - 4) (read_bytes (b_data b) q 12)) (q + 8)
           (u32_bytes (orig_vlan_tag (sonic_ext_buffer b))))"
    and "current_data b' = l2_hdr_offset b - 4" and "l2_hdr_offset b' = l2_hdr_offset b - 4"
    and "tpid = clib_net_to_host_u16 (ucast (orig_vlan_tag (sonic_ext_buffer b)))"
    and "vid = clib_net_to_host_u16 (ucast (drop_bit 16 (orig_vlan_tag (sonic_ext_buffer b)))) AND 0x0fff"
proof -
  have q: "sint (l2_hdr_offset b - 4) = sint (l2_hdr_offset b) - 4"
    using sint_i16_plus [of "l2_hdr_offset b" "-4"] assms(4) sint_lt [of "l2_hdr_offset b"] by simp
  note red = assms(2) [unfolded sonic_ext_redirect_to_ingress_tap_def Let_def vlib_okD [OF assms(1)]]
  note simps = rewind_offset capture_etype [symmetric] sonic_ext_buffer_def q
    add.commute [of 8 "sint (l2_hdr_offset b)"]
  show "b_data b' = (let q = sint (l2_hdr_offset b)
      in write_bytes (write_bytes (b_data b) (q - 4) (read_bytes (b_data b) q 12)) (q + 8)
           (u32_bytes (orig_vlan_tag (sonic_ext_buffer b))))"
    and "current_data b' = l2_hdr_offset b - 4" and "l2_hdr_offset b' = l2_hdr_offset b - 4"
    and "tpid = clib_net_to_host_u16 (ucast (orig_vlan_tag (sonic_ext_buffer b)))"
    and "vid = clib_net_to_host_u16 (ucast (drop_bit 16 (orig_vlan_tag (sonic_ext_buffer b)))) AND 0x0fff"
    using red assms(3-5) by (auto simp: simps Let_def split: option.splits if_splits)
qed

text \<open>Putting back the addresses and the captured tag gives the bytes of the wire frame.\<close>

lemma repushed_bytes:
  assumes "\<forall>k. 0 \<le> k \<and> k < 12 \<longrightarrow> m' (p + 4 + k) = m (p + k)" and "\<forall>i. p + 16 \<le> i \<longrightarrow> m' i = m i"
    and "p \<le> i"
  shows "write_bytes (write_bytes m' p (read_bytes m' (p + 4) 12)) (p + 12)
      (u32_bytes (load_u32 m (p + 12))) i = (m i :: u8)"
proof -
  consider (macs) k where "i = p + int k" "k < 12" | (tag) k where "i = p + 12 + int k" "k < 4"
    | (rest) "p + 16 \<le> i"
  proof -
    have "i = p + int (nat (i - p))" "nat (i - p) < 12" if "i < p + 12"
      using that assms(3) by linarith+
    moreover have "i = p + 12 + int (nat (i - p - 12))" "nat (i - p - 12) < 4"
      if "p + 12 \<le> i" "i < p + 16"
      using that by linarith+
    ultimately show thesis using macs tag rest by (meson not_le)
  qed
  then show ?thesis
  proof cases
    case (macs k)
    then show ?thesis using assms(1) by (simp add: write_bytes_out write_bytes_in)
  next
    case (tag k)
    then show ?thesis by (simp add: write_bytes_in load_u32_bytes)
  next
    case rest
    then show ?thesis using assms(2) by (simp add: write_bytes_out)
  qed
qed

section \<open>The concrete frames\<close>

lemma wire_demo_start: "current_data (wire_demo rest) = 0"
  by (simp add: wire_demo_def buffer_demo_def)

lemma wire_demo_tagged: "vlan_tagged (b_data (wire_demo rest)) 0"
  by (simp add: vlan_tagged_def wire_demo_def buffer_demo_def be16_eq_numeral)

lemma popped_demo_data:
  "b_data (popped_demo rest) =
     write_bytes (b_data (wire_demo rest)) 4 (read_bytes (b_data (wire_demo rest)) 0 12)"
  by (simp add: popped_demo_def capture_demo_def Let_def capture_step_verdict vlib_demo_def)

lemma popped_demo_popped: "vlan_popped (capture_demo rest) (popped_demo rest)"
proof -
  have cap: "b_data (capture_demo rest) = b_data (wire_demo rest)" "current_data (capture_demo rest) = 0"
    by (simp_all add: capture_demo_def capture_step_verdict Let_def vlib_demo_def wire_demo_start)
  have "write_bytes (b_data (wire_demo rest)) 4 (read_bytes (b_data (wire_demo rest)) 0 12) (4 + k) =
      b_data (wire_demo rest) k" if "0 \<le> k" "k < 12" for k
    using write_bytes_in [of "nat k" "read_bytes (b_data (wire_demo rest)) 0 12"
        "b_data (wire_demo rest)" 4] that by simp
  then show ?thesis
    unfolding vlan_popped_def popped_demo_data cap by (auto simp: popped_demo_def Let_def write_bytes_out)
qed

lemma redirect_demo:
  obtains b' tap tpid vid where "sonic_ext_redirect_to_ingress_tap (vlib_demo 7) vnet_demo b 1 6 =
    (True, b', tap, tpid, vid)"
proof -
  have "fst (sonic_ext_redirect_to_ingress_tap (vlib_demo 7) vnet_demo b 1 6)"
    by (simp add: redirect_succeeds ingress_tap_def vnet_demo_def sw_demo_def pair_demo_def)
  then show thesis
    using that by (cases "sonic_ext_redirect_to_ingress_tap (vlib_demo 7) vnet_demo b 1 6") auto
qed

section \<open>Properties\<close>

text \<open>C9: The VLAN round trip: a single-tagged frame that was captured on the wire and lost its tag on the way
  leaves the redirection as the very frame that came in: same start, same bytes, and the trace reports
  the tag's protocol identifier and VLAN id.\<close>

theorem vlan_roundtrip:
  assumes "vlib_ok V" and "vlan_tagged (b_data b) (sint (current_data b))"
    and "0 \<le> sint (current_data b)" and "sint (current_data b) + 4 < 2 ^ 15"
    and "vlan_popped (v_buffer (snd (sonic_ext_capture_step V node () b))) b'"
    and "\<not> vlan_tagged (b_data b') (sint (current_data b) + 4)"
    and "sonic_ext_redirect_to_ingress_tap V N b' rx excl = (True, b'', tap, tpid, vid)"
  shows "current_data b'' = current_data b \<and> l2_hdr_offset b'' = current_data b \<and>
    (\<forall>n. read_bytes (b_data b'') (sint (current_data b)) n =
         read_bytes (b_data b) (sint (current_data b)) n) \<and>
    tpid = be16 (b_data b (sint (current_data b) + 12)) (b_data b (sint (current_data b) + 13)) \<and>
    vid = be16 (b_data b (sint (current_data b) + 14)) (b_data b (sint (current_data b) + 15)) AND 0x0fff"
proof -
  let ?p = "sint (current_data b)"
  obtain ci where nx: "snd (vnet_feature_next V b) = b\<lparr>current_config_index := ci\<rparr>"
    using feature_next_buffer [OF assms(1)] by blast
  have cap: "sonic_ext_buffer (v_buffer (snd (sonic_ext_capture_step V node () b))) =
      capture_record (b_data b) ?p (rx_sw_if_index b)"
    "b_data (v_buffer (snd (sonic_ext_capture_step V node () b))) = b_data b"
    "current_data (v_buffer (snd (sonic_ext_capture_step V node () b))) = current_data b"
    by (simp_all add: capture_step_verdict nx Let_def sonic_ext_buffer_def vlib_okD [OF assms(1)])
  note pop = assms(5) [unfolded vlan_popped_def cap]
  have l2: "l2_hdr_offset b' = current_data b + 4" "sint (l2_hdr_offset b') = ?p + 4"
    using pop sint_i16_plus [of "current_data b" 4] assms(3,4) by simp_all
  have tag: "orig_vlan_tag (sonic_ext_buffer b') = load_u32 (b_data b) (?p + 12)"
    using pop cap(1) assms(2) by (simp add: sonic_ext_buffer_def capture_record_def)
  have pre: "orig_vlan_tag (sonic_ext_buffer b') \<noteq> 0" "4 \<le> sint (l2_hdr_offset b')"
      "\<not> vlan_tagged (b_data b') (sint (l2_hdr_offset b'))"
    using tag tagged_tag_nonzero [OF assms(2)] l2 assms(3,6) by simp_all
  note red = redirect_pushed [OF assms(1,7) pre]
  have "b_data b'' i = b_data b i" if "?p \<le> i" for i
    using repushed_bytes [of "b_data b'" ?p "b_data b" i] pop that red(1) tag l2(2)
    by (simp add: Let_def add.commute add.assoc)
  then have "read_bytes (b_data b'') ?p n = read_bytes (b_data b) ?p n" for n
    by (simp add: read_bytes_def)
  moreover have "tpid = be16 (b_data b (?p + 12)) (b_data b (?p + 13))"
    unfolding red(4) tag load_u32_def le32_halves clib_net_to_host_u16_def le16_bytes
    by (simp add: add.assoc)
  moreover have "vid = be16 (b_data b (?p + 14)) (b_data b (?p + 15)) AND 0x0fff"
    unfolding red(5) tag load_u32_def le32_halves clib_net_to_host_u16_def le16_bytes
    by (simp add: add.assoc)
  ultimately show ?thesis using red(2,3) l2(1) by simp
qed

theorem vlan_roundtrip_witness:
  "\<exists>b'' tap. sonic_ext_redirect_to_ingress_tap (vlib_demo 7) vnet_demo (popped_demo [0x08, 0x00, 0x45]) 1 6 =
      (True, b'', tap, 0x8100, 10) \<and>
    read_bytes (b_data b'') 0 19 =
      [1, 2, 3, 4, 5, 6, 7, 8, 9, 10, 11, 12, 0x81, 0x00, 0x00, 0x0a, 0x08, 0x00, 0x45]"
proof -
  let ?b = "wire_demo [0x08, 0x00, 0x45]" and ?b' = "popped_demo [0x08, 0x00, 0x45]"
  obtain b'' tap tpid vid where red:
    "sonic_ext_redirect_to_ingress_tap (vlib_demo 7) vnet_demo ?b' 1 6 = (True, b'', tap, tpid, vid)"
    by (rule redirect_demo)
  have "\<not> vlan_tagged (b_data ?b') 4"
    by (simp add: popped_demo_data vlan_tagged_def write_bytes_out wire_demo_def buffer_demo_def
        be16_eq_numeral)
  then have rt: "read_bytes (b_data b'') 0 19 = read_bytes (b_data ?b) 0 19"
    "tpid = be16 (b_data ?b 12) (b_data ?b 13)" "vid = be16 (b_data ?b 14) (b_data ?b 15) AND 0x0fff"
    using vlan_roundtrip [OF vlib_demo_ok _ _ _ popped_demo_popped [unfolded capture_demo_def] _ red]
    by (simp_all add: wire_demo_tagged wire_demo_start)
  moreover have "b_data ?b 12 = 0x81" "b_data ?b 13 = 0" "b_data ?b 14 = 0" "b_data ?b 15 = 0x0a"
    by (simp_all add: wire_demo_def buffer_demo_def)
  moreover have "be16 0x81 0x00 = 0x8100" "be16 0x00 0x0a = 10" by (simp_all add: be16_eq_numeral)
  moreover have "read_bytes (b_data ?b) 0 19 =
      [1, 2, 3, 4, 5, 6, 7, 8, 9, 10, 11, 12, 0x81, 0x00, 0x00, 0x0a, 0x08, 0x00, 0x45]"
    by (simp add: read_bytes_def wire_demo_def buffer_demo_def upt_rec)
  ultimately show ?thesis using red by auto
qed

text \<open>Redirection never tags a frame twice: when the frame at the restored L2 start already carries a tag,
  or was untagged on the wire, its bytes are left alone and no push is reported.\<close>

theorem redirect_never_double_tags:
  assumes "vlib_ok V"
    and "sonic_ext_redirect_to_ingress_tap V N b rx excl = (True, b', tap, tpid, vid)"
    and "orig_vlan_tag (sonic_ext_buffer b) = 0 \<or> vlan_tagged (b_data b) (sint (l2_hdr_offset b))"
  shows "b_data b' = b_data b \<and> current_data b' = l2_hdr_offset b \<and> tpid = 0 \<and> vid = 0"
  using redirect_untouched [OF assms(1,2)] assms(3) by blast

theorem redirect_never_double_tags_witness:
  "\<exists>b' tap. sonic_ext_redirect_to_ingress_tap (vlib_demo 7) vnet_demo (capture_demo []) 1 6 =
      (True, b', tap, 0, 0) \<and> b_data b' = b_data (capture_demo [])"
proof -
  obtain b' tap tpid vid where red:
    "sonic_ext_redirect_to_ingress_tap (vlib_demo 7) vnet_demo (capture_demo []) 1 6 =
      (True, b', tap, tpid, vid)"
    by (rule redirect_demo)
  have "vlan_tagged (b_data (capture_demo [])) (sint (l2_hdr_offset (capture_demo [])))"
    using wire_demo_tagged [of "[]"]
    by (simp add: capture_demo_def capture_step_verdict vlib_demo_def Let_def)
      (simp add: wire_demo_def buffer_demo_def)
  with redirect_never_double_tags [OF vlib_demo_ok red] red show ?thesis by auto
qed

text \<open>
  A double-tagged frame whose outer tag was removed is delivered without it: the inner tag blocks the
  push, so Linux sees the inner VLAN as the outer one.\<close>

theorem redirect_loses_outer_tag:
  assumes "vlib_ok V" and "vlan_tagged (b_data b) (sint (current_data b))"
    and "0 \<le> sint (current_data b)" and "sint (current_data b) + 4 < 2 ^ 15"
    and "vlan_popped (v_buffer (snd (sonic_ext_capture_step V node () b))) b'"
    and "vlan_tagged (b_data b') (sint (current_data b) + 4)"
    and "sonic_ext_redirect_to_ingress_tap V N b' rx excl = (True, b'', tap, tpid, vid)"
  shows "current_data b'' = current_data b + 4 \<and> b_data b'' = b_data b' \<and> tpid = 0"
proof -
  obtain ci where nx: "snd (vnet_feature_next V b) = b\<lparr>current_config_index := ci\<rparr>"
    using feature_next_buffer [OF assms(1)] by blast
  have "current_data (v_buffer (snd (sonic_ext_capture_step V node () b))) = current_data b"
    by (simp add: capture_step_verdict nx Let_def)
  then have l2: "l2_hdr_offset b' = current_data b + 4" "sint (l2_hdr_offset b') = sint (current_data b) + 4"
    using assms(5) sint_i16_plus [of "current_data b" 4] assms(3,4) by (simp_all add: vlan_popped_def)
  with redirect_untouched [OF assms(1,7)] assms(6) show ?thesis by simp
qed

theorem redirect_loses_outer_tag_witness:
  "\<exists>b'' tap vid. sonic_ext_redirect_to_ingress_tap (vlib_demo 7) vnet_demo
      (popped_demo [0x81, 0x00, 0x00, 0x14, 0x08, 0x00]) 1 6 = (True, b'', tap, 0, vid) \<and>
    current_data b'' = 4"
proof -
  let ?b' = "popped_demo [0x81, 0x00, 0x00, 0x14, 0x08, 0x00]"
  obtain b'' tap tpid vid where red:
    "sonic_ext_redirect_to_ingress_tap (vlib_demo 7) vnet_demo ?b' 1 6 = (True, b'', tap, tpid, vid)"
    by (rule redirect_demo)
  have "vlan_tagged (b_data ?b') 4"
    by (simp add: popped_demo_data vlan_tagged_def write_bytes_out wire_demo_def buffer_demo_def
        be16_eq_numeral)
  with red show ?thesis
    using redirect_loses_outer_tag [OF vlib_demo_ok _ _ _ popped_demo_popped [unfolded capture_demo_def] _ red]
      wire_demo_tagged wire_demo_start by fastforce
qed

end
