(* ===== verification/Ip4_Validate.thy ===== *)
theory Ip4_Validate
  imports Node_Frame
begin

text \<open>
  The node \<^verbatim>\<open>ip4-validate\<close> (ip_validate/ip4_validate_node.c): per-packet checks of the IPv4 addresses
  and of the Ethernet destination, the node function with its unrolled loop, and its counters.
\<close>

section \<open>Counters and next nodes\<close>

datatype ip4_validate_error =
    IP4_VALIDATE_ERROR_VALID
  | IP4_VALIDATE_ERROR_SRC_LOOPBACK
  | IP4_VALIDATE_ERROR_SRC_MULTICAST
  | IP4_VALIDATE_ERROR_SRC_CLASS_E
  | IP4_VALIDATE_ERROR_SRC_UNSPECIFIED
  | IP4_VALIDATE_ERROR_SRC_LINK_LOCAL
  | IP4_VALIDATE_ERROR_DST_LOOPBACK
  | IP4_VALIDATE_ERROR_DST_LINK_LOCAL
  | IP4_VALIDATE_ERROR_L2_MCAST_BCAST

text \<open>The enumerators in the order of the C enumeration.\<close>

instantiation ip4_validate_error :: enum
begin

definition enum_ip4_validate_error :: "ip4_validate_error list" where
  "enum_ip4_validate_error =
     [IP4_VALIDATE_ERROR_VALID, IP4_VALIDATE_ERROR_SRC_LOOPBACK, IP4_VALIDATE_ERROR_SRC_MULTICAST,
      IP4_VALIDATE_ERROR_SRC_CLASS_E, IP4_VALIDATE_ERROR_SRC_UNSPECIFIED,
      IP4_VALIDATE_ERROR_SRC_LINK_LOCAL, IP4_VALIDATE_ERROR_DST_LOOPBACK,
      IP4_VALIDATE_ERROR_DST_LINK_LOCAL, IP4_VALIDATE_ERROR_L2_MCAST_BCAST]"

definition enum_all_ip4_validate_error :: "(ip4_validate_error \<Rightarrow> bool) \<Rightarrow> bool" where
  "enum_all_ip4_validate_error P = list_all P enum_class.enum"

definition enum_ex_ip4_validate_error :: "(ip4_validate_error \<Rightarrow> bool) \<Rightarrow> bool" where
  "enum_ex_ip4_validate_error P = list_ex P enum_class.enum"

instance
proof
  show univ: "(UNIV :: ip4_validate_error set) = set enum_class.enum"
    using ip4_validate_error.exhaust by (auto simp: enum_ip4_validate_error_def)
  show "distinct (enum_class.enum :: ip4_validate_error list)"
    by (simp add: enum_ip4_validate_error_def)
  show "enum_class.enum_all P = Ball (UNIV :: ip4_validate_error set) P" for P
    using univ by (auto simp: enum_all_ip4_validate_error_def list_all_iff)
  show "enum_class.enum_ex P = Bex (UNIV :: ip4_validate_error set) P" for P
    using univ by (auto simp: enum_ex_ip4_validate_error_def list_ex_iff)
qed

end

definition IP4_VALIDATE_NEXT_DROP :: u16 where
  "IP4_VALIDATE_NEXT_DROP = 0"

record ip4_validate_trace =
  ip4_trace_sw_if_index :: u32
  ip4_trace_next_index :: u32
  ip4_trace_src_addr :: u32
  ip4_trace_dst_addr :: u32

section \<open>One packet\<close>

definition ip4_validate_x1 ::
  "'o vlib_api \<Rightarrow> 'o vlib_buffer \<Rightarrow> ip4_validate_error \<times> u16 \<times> 'o vlib_buffer" where
  "ip4_validate_x1 V b0 =
     (let ip = vlib_buffer_get_current V b0;
          (feat_next, b) = vnet_feature_next V b0;
          src = clib_net_to_host_u32 (ip4_src_address (b_data b) ip);
          dst = clib_net_to_host_u32 (ip4_dst_address (b_data b) ip)
      in if dst = 0xFFFFFFFF \<or> drop_bit 28 dst = 0xE
         then (IP4_VALIDATE_ERROR_VALID, ucast feat_next, b)
         else if b_data b (ethernet_buffer_get_header V b) AND 0x01 \<noteq> 0
         then (IP4_VALIDATE_ERROR_L2_MCAST_BCAST, IP4_VALIDATE_NEXT_DROP, b)
         else if drop_bit 24 src = 127
         then (IP4_VALIDATE_ERROR_SRC_LOOPBACK, IP4_VALIDATE_NEXT_DROP, b)
         else if drop_bit 28 src = 0xE
         then (IP4_VALIDATE_ERROR_SRC_MULTICAST, IP4_VALIDATE_NEXT_DROP, b)
         else if drop_bit 28 src = 0xF
         then (IP4_VALIDATE_ERROR_SRC_CLASS_E, IP4_VALIDATE_NEXT_DROP, b)
         else if src = 0
         then (IP4_VALIDATE_ERROR_SRC_UNSPECIFIED, IP4_VALIDATE_NEXT_DROP, b)
         else if drop_bit 16 src = 0xA9FE
         then (IP4_VALIDATE_ERROR_SRC_LINK_LOCAL, IP4_VALIDATE_NEXT_DROP, b)
         else if drop_bit 24 dst = 127
         then (IP4_VALIDATE_ERROR_DST_LOOPBACK, IP4_VALIDATE_NEXT_DROP, b)
         else if drop_bit 16 dst = 0xA9FE
         then (IP4_VALIDATE_ERROR_DST_LINK_LOCAL, IP4_VALIDATE_NEXT_DROP, b)
         else (IP4_VALIDATE_ERROR_VALID, ucast feat_next, b))"

text \<open>
  \<^verbatim>\<open>ip4_validate_trace_one\<close> tests the buffer's trace flag only; its callers test the node's.
\<close>

definition ip4_validate_trace_one ::
  "'o vlib_api \<Rightarrow> 'o vlib_buffer \<Rightarrow> u16 \<Rightarrow> ip4_validate_trace list" where
  "ip4_validate_trace_one V b next =
     (if b_flags b AND VLIB_BUFFER_IS_TRACED V \<noteq> 0
      then let ip = vlib_buffer_get_current V b
           in [\<lparr>ip4_trace_sw_if_index = rx_sw_if_index b, ip4_trace_next_index = ucast next,
                ip4_trace_src_addr = ip4_src_address (b_data b) ip,
                ip4_trace_dst_addr = ip4_dst_address (b_data b) ip\<rparr>]
      else [])"

section \<open>The node function\<close>

text \<open>
  The unrolled loop runs only where \<^verbatim>\<open>CLIB_N_PREFETCHES >= 8\<close> (the flag \<open>prefetch8\<close>); prefetches have no
  effect on the result. The single loop adds its trace record in place.
\<close>

definition ip4_validate_trace_in_place ::
  "'o vlib_api \<Rightarrow> ip4_validate_error node_runtime \<Rightarrow> 'o vlib_buffer \<Rightarrow> u16 \<Rightarrow>
   ip4_validate_trace list" where
  "ip4_validate_trace_in_place V node b next =
     (if traced V node b
      then let ip = vlib_buffer_get_current V b
           in [\<lparr>ip4_trace_sw_if_index = rx_sw_if_index b, ip4_trace_next_index = ucast next,
                ip4_trace_src_addr = ip4_src_address (b_data b) ip,
                ip4_trace_dst_addr = ip4_dst_address (b_data b) ip\<rparr>]
      else [])"

definition ip4_validate_node ::
  "'o vlib_api \<Rightarrow> ip4_validate_error node_runtime \<Rightarrow> bool \<Rightarrow> 'o vlib_buffer list \<Rightarrow>
   (ip4_validate_error, 'o vlib_buffer, ip4_validate_trace) node_result \<times>
   (ip4_validate_error \<times> u32) list" where
  "ip4_validate_node V node prefetch8 bs =
     (let (error_counts, vs, rest) =
            (if prefetch8
             then quad_loop (ip4_validate_x1 V) (ip4_validate_trace_one V) (node_trace node) (\<lambda>_. 0) bs
             else ((\<lambda>_. 0), [], bs));
          (error_counts, ws) =
            single_loop (ip4_validate_x1 V) (ip4_validate_trace_in_place V node) error_counts rest
      in (node_output error_counts (vs @ ws), counter_calls enum_class.enum error_counts))"

section \<open>The documented filters\<close>

text \<open>
  FEATURE.yaml describes the filters by prefixes. An address is in a prefix when the two agree after
  dropping the host part.
\<close>

definition dotted :: "nat \<Rightarrow> nat \<Rightarrow> nat \<Rightarrow> nat \<Rightarrow> nat" where
  "dotted a b c d = ((a * 256 + b) * 256 + c) * 256 + d"

definition in_prefix :: "nat \<Rightarrow> nat \<times> nat \<Rightarrow> bool" where
  "in_prefix a p = (a div 2 ^ (32 - snd p) = fst p div 2 ^ (32 - snd p))"

definition ip4_src_filter :: "(ip4_validate_error \<times> nat \<times> nat) list" where
  "ip4_src_filter =
     [(IP4_VALIDATE_ERROR_SRC_LOOPBACK, dotted 127 0 0 0, 8),
      (IP4_VALIDATE_ERROR_SRC_MULTICAST, dotted 224 0 0 0, 4),
      (IP4_VALIDATE_ERROR_SRC_CLASS_E, dotted 240 0 0 0, 4),
      (IP4_VALIDATE_ERROR_SRC_UNSPECIFIED, dotted 0 0 0 0, 32),
      (IP4_VALIDATE_ERROR_SRC_LINK_LOCAL, dotted 169 254 0 0, 16)]"

definition ip4_dst_filter :: "(ip4_validate_error \<times> nat \<times> nat) list" where
  "ip4_dst_filter =
     [(IP4_VALIDATE_ERROR_DST_LOOPBACK, dotted 127 0 0 0, 8),
      (IP4_VALIDATE_ERROR_DST_LINK_LOCAL, dotted 169 254 0 0, 16)]"

text \<open>The value of the four bytes at \<open>p\<close> read in network order.\<close>

definition net_u32 :: "mem \<Rightarrow> int \<Rightarrow> nat" where
  "net_u32 m p = unat (be32 (m p) (m (p + 1)) (m (p + 2)) (m (p + 3)))"

definition ip4_unicast :: "nat \<Rightarrow> bool" where
  "ip4_unicast a \<longleftrightarrow> a \<noteq> dotted 255 255 255 255 \<and> \<not> in_prefix a (dotted 224 0 0 0, 4)"

text \<open>
  The verdict the documentation asks for: packets that are not unicast pass; then the Ethernet
  destination, the source filters and the destination filters apply in that order, and the first
  filter that matches names the counter.
\<close>

definition ip4_spec :: "nat \<Rightarrow> nat \<Rightarrow> bool \<Rightarrow> ip4_validate_error" where
  "ip4_spec src dst l2_group =
     (if \<not> ip4_unicast dst then IP4_VALIDATE_ERROR_VALID
      else if l2_group then IP4_VALIDATE_ERROR_L2_MCAST_BCAST
      else case find (\<lambda>(e, p). in_prefix src p) ip4_src_filter of
             Some (e, p) \<Rightarrow> e
           | None \<Rightarrow>
               (case find (\<lambda>(e, p). in_prefix dst p) ip4_dst_filter of
                  Some (e, p) \<Rightarrow> e
                | None \<Rightarrow> IP4_VALIDATE_ERROR_VALID))"

abbreviation ip4_step ::
  "'o vlib_api \<Rightarrow> ip4_validate_error node_runtime \<Rightarrow> unit \<Rightarrow> 'o vlib_buffer \<Rightarrow>
   unit \<times> (ip4_validate_error, 'o vlib_buffer, ip4_validate_trace) verdict" where
  "ip4_step V node \<equiv> validate_step (ip4_validate_x1 V) (ip4_validate_trace_one V) (node_trace node)"

definition ip4_steer :: "ip4_validate_error \<Rightarrow> u16 option" where
  "ip4_steer e = (if e = IP4_VALIDATE_ERROR_VALID then None else Some IP4_VALIDATE_NEXT_DROP)"

section \<open>The checks meet the documentation\<close>

lemma word_shift_eq_iff:
  fixes w :: u32
  shows "drop_bit n w = k \<longleftrightarrow> unat w div 2 ^ n = unat k"
  by (metis drop_bit_eq_div unat_drop_bit_eq word_unat_eq_iff)

lemma ip4_shift_prefixes:
  fixes w :: u32
  shows "drop_bit 24 w = 127 \<longleftrightarrow> in_prefix (unat w) (dotted 127 0 0 0, 8)"
    and "drop_bit 28 w = 0xE \<longleftrightarrow> in_prefix (unat w) (dotted 224 0 0 0, 4)"
    and "drop_bit 28 w = 0xF \<longleftrightarrow> in_prefix (unat w) (dotted 240 0 0 0, 4)"
    and "w = 0 \<longleftrightarrow> in_prefix (unat w) (dotted 0 0 0 0, 32)"
    and "drop_bit 16 w = 0xA9FE \<longleftrightarrow> in_prefix (unat w) (dotted 169 254 0 0, 16)"
    and "w = 0xFFFFFFFF \<longleftrightarrow> unat w = dotted 255 255 255 255"
  by (simp_all add: word_shift_eq_iff in_prefix_def dotted_def unat_eq_0)
    (simp add: word_unat_eq_iff)

lemma case_find_Cons:
  "(case find P (x # xs) of None \<Rightarrow> n | Some y \<Rightarrow> f y) =
     (if P x then f x else case find P xs of None \<Rightarrow> n | Some y \<Rightarrow> f y)"
  by simp

lemma ip4_spec_checks:
  "ip4_spec src dst l2_group =
     (if dst = dotted 255 255 255 255 \<or> in_prefix dst (dotted 224 0 0 0, 4)
      then IP4_VALIDATE_ERROR_VALID
      else if l2_group then IP4_VALIDATE_ERROR_L2_MCAST_BCAST
      else if in_prefix src (dotted 127 0 0 0, 8) then IP4_VALIDATE_ERROR_SRC_LOOPBACK
      else if in_prefix src (dotted 224 0 0 0, 4) then IP4_VALIDATE_ERROR_SRC_MULTICAST
      else if in_prefix src (dotted 240 0 0 0, 4) then IP4_VALIDATE_ERROR_SRC_CLASS_E
      else if in_prefix src (dotted 0 0 0 0, 32) then IP4_VALIDATE_ERROR_SRC_UNSPECIFIED
      else if in_prefix src (dotted 169 254 0 0, 16) then IP4_VALIDATE_ERROR_SRC_LINK_LOCAL
      else if in_prefix dst (dotted 127 0 0 0, 8) then IP4_VALIDATE_ERROR_DST_LOOPBACK
      else if in_prefix dst (dotted 169 254 0 0, 16) then IP4_VALIDATE_ERROR_DST_LINK_LOCAL
      else IP4_VALIDATE_ERROR_VALID)"
  unfolding ip4_spec_def ip4_unicast_def ip4_src_filter_def ip4_dst_filter_def
  by (simp only: case_find_Cons find.simps(1) option.case prod.case de_Morgan_conj not_not)

lemma ip4_validate_x1_spec:
  fixes V :: "'o vlib_api" and b :: "'o vlib_buffer"
  defines "b' \<equiv> snd (vnet_feature_next V b)" and "p \<equiv> vlib_buffer_get_current V b"
  shows "fst (ip4_validate_x1 V b) =
    ip4_spec (net_u32 (b_data b') (p + 12)) (net_u32 (b_data b') (p + 16))
      (odd (b_data b' (ethernet_buffer_get_header V b')))"
proof -
  have odd_iff: "odd w \<longleftrightarrow> w AND 1 \<noteq> 0" for w :: u8
    by (simp add: and_one_eq odd_iff_mod_2_eq_one)
  have shift: "p + 12 + k = p + (12 + k)" "p + 16 + k = p + (16 + k)" for k
    by simp_all
  show ?thesis
    unfolding ip4_validate_x1_def ip4_spec_checks ip4_src_address_def ip4_dst_address_def
      net_u32_def b'_def p_def Let_def split_def odd_iff net_load_u32 ip4_shift_prefixes
    by (simp only: if_distrib [of fst] fst_conv cong: if_cong)
qed

section \<open>The node function\<close>

interpretation ip4_loops: unrolled_node "ip4_validate_x1 V" "ip4_validate_trace_one V"
  "ip4_validate_trace_in_place V node" "node_trace node"
  for V node
  by unfold_locales
    (simp add: ip4_validate_trace_in_place_def ip4_validate_trace_one_def traced_def)

lemma ip4_validate_node_run:
  "ip4_validate_node V node prefetch8 bs =
     (let r = snd (run_node (ip4_step V node) () bs)
      in (r, counter_calls enum_class.enum (nr_counts r)))"
  using ip4_loops.loops_frame [of V node "\<lambda>_. 0" bs]
    ip4_loops.single_loop_frame [of V node "\<lambda>_. 0" bs]
  by (auto simp: ip4_validate_node_def run_node_def split_def Let_def prod_eq_iff)

lemma ip4_x1_buffer: "snd (snd (ip4_validate_x1 V b)) = snd (vnet_feature_next V b)"
  by (simp add: ip4_validate_x1_def split_def Let_def)

lemma ip4_x1_next:
  "fst (snd (ip4_validate_x1 V b)) =
     (case ip4_steer (fst (ip4_validate_x1 V b)) of
        None \<Rightarrow> ucast (fst (vnet_feature_next V b)) | Some n \<Rightarrow> n)"
  by (simp add: ip4_validate_x1_def ip4_steer_def split_def Let_def)

interpretation ip4_arc: arc_node "ip4_step V node" "\<lambda>b. ucast (fst (vnet_feature_next V b))" ip4_steer
  for V node
  by unfold_locales (simp add: validate_step_def split_def Let_def ip4_x1_next)

lemma ip4_verdicts:
  "verdicts (ip4_step V node) () bs =
     map (\<lambda>b. \<lparr>v_disp = fst (ip4_validate_x1 V b), v_next = fst (snd (ip4_validate_x1 V b)),
               v_buffer = snd (vnet_feature_next V b),
               v_trace = (if node_trace node
                 then ip4_validate_trace_one V (snd (vnet_feature_next V b))
                   (fst (snd (ip4_validate_x1 V b))) else [])\<rparr>) bs"
  by (rule verdicts_stateless) (simp add: validate_step_def split_def Let_def ip4_x1_buffer)

section \<open>Properties\<close>

text \<open>C5: For every packet, \<^verbatim>\<open>ip4_validate_x1\<close> returns the verdict the documented filter table asks for:
  broadcast and multicast destinations pass, otherwise the Ethernet group bit, the source prefixes
  and the destination prefixes are tried in order and the first match names the counter. The next
  index is the feature arc's exactly for the verdict VALID and the drop node otherwise, and the buffer
  changes only by the step along the feature arc.\<close>

theorem ip4_validate_x1_correct:
  "ip4_validate_x1 V b =
     (let p = vlib_buffer_get_current V b;
          (feat_next, b') = vnet_feature_next V b;
          e = ip4_spec (net_u32 (b_data b') (p + 12)) (net_u32 (b_data b') (p + 16))
                (odd (b_data b' (ethernet_buffer_get_header V b')))
      in (e, if e = IP4_VALIDATE_ERROR_VALID then ucast feat_next else IP4_VALIDATE_NEXT_DROP, b'))"
  using ip4_validate_x1_spec [of V b] ip4_x1_next [of V b] ip4_x1_buffer [of V b]
  by (cases "ip4_validate_x1 V b") (simp add: split_def Let_def ip4_steer_def)

text \<open>C2: The node function \<^verbatim>\<open>ip4-validate\<close>, unrolled or not, treats the buffers of a frame one by one and in
  order: each buffer gets the next index and each counter the number of packets its check gives, every
  packet is counted exactly once, only counters that are not zero are reported, and the trace records
  are those of the traced buffers in frame order.\<close>

theorem ip4_validate_node_correct:
  "let (r, calls) = ip4_validate_node V node prefetch8 bs
   in nr_nexts r = map (\<lambda>b. fst (snd (ip4_validate_x1 V b))) bs \<and>
      nr_buffers r = map (\<lambda>b. snd (vnet_feature_next V b)) bs \<and>
      nr_counts r = (\<lambda>e. of_nat (length (filter (\<lambda>b. fst (ip4_validate_x1 V b) = e) bs))) \<and>
      (\<Sum>e\<in>UNIV. nr_counts r e) = of_nat (length bs) \<and>
      calls = [(e, nr_counts r e). e \<leftarrow> enum_class.enum, nr_counts r e \<noteq> 0] \<and>
      nr_traces r = concat (map (\<lambda>b.
        if node_trace node then ip4_validate_trace_one V (snd (vnet_feature_next V b))
          (fst (snd (ip4_validate_x1 V b))) else []) bs)"
proof -
  have calls: "counter_calls ds c = [(e, c e). e \<leftarrow> ds, c e \<noteq> 0]"
    for ds :: "ip4_validate_error list" and c
    by (induction ds) (auto simp: counter_calls_def)
  have "(\<Sum>e\<in>UNIV. nr_counts (snd (run_node (ip4_step V node) () bs)) e) = of_nat (length bs)"
    by (rule sum_run_node_counts)
  then show ?thesis
    by (simp add: ip4_validate_node_run Let_def run_node_verdicts ip4_verdicts calls comp_def
        filter_map)
qed

end
