(* ===== verification/Ip6_Validate.thy ===== *)
theory Ip6_Validate
  imports Node_Frame
begin

text \<open>
  The node \<^verbatim>\<open>ip6-validate\<close> (ip_validate/ip6_validate_node.c): per-packet checks of the IPv6 addresses
  and of the Ethernet destination, the node function with its unrolled loop, and its counters.
\<close>

section \<open>Counters and next nodes\<close>

datatype ip6_validate_error =
    IP6_VALIDATE_ERROR_VALID
  | IP6_VALIDATE_ERROR_SRC_MULTICAST
  | IP6_VALIDATE_ERROR_SRC_UNSPECIFIED
  | IP6_VALIDATE_ERROR_SRC_LOOPBACK
  | IP6_VALIDATE_ERROR_DST_UNSPECIFIED
  | IP6_VALIDATE_ERROR_DST_LOOPBACK
  | IP6_VALIDATE_ERROR_L2_MCAST_BCAST

text \<open>The enumerators in the order of the C enumeration.\<close>

instantiation ip6_validate_error :: enum
begin

definition enum_ip6_validate_error :: "ip6_validate_error list" where
  "enum_ip6_validate_error =
     [IP6_VALIDATE_ERROR_VALID, IP6_VALIDATE_ERROR_SRC_MULTICAST,
      IP6_VALIDATE_ERROR_SRC_UNSPECIFIED, IP6_VALIDATE_ERROR_SRC_LOOPBACK,
      IP6_VALIDATE_ERROR_DST_UNSPECIFIED, IP6_VALIDATE_ERROR_DST_LOOPBACK,
      IP6_VALIDATE_ERROR_L2_MCAST_BCAST]"

definition enum_all_ip6_validate_error :: "(ip6_validate_error \<Rightarrow> bool) \<Rightarrow> bool" where
  "enum_all_ip6_validate_error P = list_all P enum_class.enum"

definition enum_ex_ip6_validate_error :: "(ip6_validate_error \<Rightarrow> bool) \<Rightarrow> bool" where
  "enum_ex_ip6_validate_error P = list_ex P enum_class.enum"

instance
proof
  show univ: "(UNIV :: ip6_validate_error set) = set enum_class.enum"
    using ip6_validate_error.exhaust by (auto simp: enum_ip6_validate_error_def)
  show "distinct (enum_class.enum :: ip6_validate_error list)"
    by (simp add: enum_ip6_validate_error_def)
  show "enum_class.enum_all P = Ball (UNIV :: ip6_validate_error set) P" for P
    using univ by (auto simp: enum_all_ip6_validate_error_def list_all_iff)
  show "enum_class.enum_ex P = Bex (UNIV :: ip6_validate_error set) P" for P
    using univ by (auto simp: enum_ex_ip6_validate_error_def list_ex_iff)
qed

end

definition IP6_VALIDATE_NEXT_DROP :: u16 where
  "IP6_VALIDATE_NEXT_DROP = 0"

record ip6_validate_trace =
  ip6_trace_sw_if_index :: u32
  ip6_trace_next_index :: u32
  ip6_trace_src_addr :: "u8 list"
  ip6_trace_dst_addr :: "u8 list"

section \<open>One packet\<close>

text \<open>Offsets of the source and destination address in the IPv6 header at offset \<open>ip\<close>.\<close>

definition ip6_src_address :: "int \<Rightarrow> int" where
  "ip6_src_address ip = ip + 8"

definition ip6_dst_address :: "int \<Rightarrow> int" where
  "ip6_dst_address ip = ip + 24"

definition ip6_validate_address_is_zero :: "mem \<Rightarrow> int \<Rightarrow> bool" where
  "ip6_validate_address_is_zero m a \<longleftrightarrow> load_u64 m a = 0 \<and> load_u64 m (a + 8) = 0"

definition ip6_validate_address_is_loopback :: "mem \<Rightarrow> int \<Rightarrow> bool" where
  "ip6_validate_address_is_loopback m a \<longleftrightarrow>
     load_u64 m a = 0 \<and> load_u64 m (a + 8) = clib_host_to_net_u64 1"

definition ip6_validate_x1 ::
  "'o vlib_api \<Rightarrow> 'o vlib_buffer \<Rightarrow> ip6_validate_error \<times> u16 \<times> 'o vlib_buffer" where
  "ip6_validate_x1 V b0 =
     (let ip = vlib_buffer_get_current V b0;
          (feat_next, b) = vnet_feature_next V b0;
          m = b_data b; src = ip6_src_address ip; dst = ip6_dst_address ip
      in if m dst = 0xFF
         then (IP6_VALIDATE_ERROR_VALID, ucast feat_next, b)
         else if m (ethernet_buffer_get_header V b) AND 0x01 \<noteq> 0
         then (IP6_VALIDATE_ERROR_L2_MCAST_BCAST, IP6_VALIDATE_NEXT_DROP, b)
         else if m src = 0xFF
         then (IP6_VALIDATE_ERROR_SRC_MULTICAST, IP6_VALIDATE_NEXT_DROP, b)
         else if ip6_validate_address_is_zero m src
         then (IP6_VALIDATE_ERROR_SRC_UNSPECIFIED, IP6_VALIDATE_NEXT_DROP, b)
         else if ip6_validate_address_is_loopback m src
         then (IP6_VALIDATE_ERROR_SRC_LOOPBACK, IP6_VALIDATE_NEXT_DROP, b)
         else if ip6_validate_address_is_zero m dst
         then (IP6_VALIDATE_ERROR_DST_UNSPECIFIED, IP6_VALIDATE_NEXT_DROP, b)
         else if ip6_validate_address_is_loopback m dst
         then (IP6_VALIDATE_ERROR_DST_LOOPBACK, IP6_VALIDATE_NEXT_DROP, b)
         else (IP6_VALIDATE_ERROR_VALID, ucast feat_next, b))"

text \<open>
  \<^verbatim>\<open>ip6_validate_trace_one\<close> tests the buffer's trace flag only; its callers test the node's.
\<close>

definition ip6_validate_trace_one ::
  "'o vlib_api \<Rightarrow> 'o vlib_buffer \<Rightarrow> u16 \<Rightarrow> ip6_validate_trace list" where
  "ip6_validate_trace_one V b next =
     (if b_flags b AND VLIB_BUFFER_IS_TRACED V \<noteq> 0
      then let ip = vlib_buffer_get_current V b
           in [\<lparr>ip6_trace_sw_if_index = rx_sw_if_index b, ip6_trace_next_index = ucast next,
                ip6_trace_src_addr = read_bytes (b_data b) (ip6_src_address ip) 16,
                ip6_trace_dst_addr = read_bytes (b_data b) (ip6_dst_address ip) 16\<rparr>]
      else [])"

section \<open>The node function\<close>

text \<open>
  The unrolled loop runs only where \<^verbatim>\<open>CLIB_N_PREFETCHES >= 8\<close> (the flag \<open>prefetch8\<close>); prefetches have no
  effect on the result. The single loop adds its trace record in place.
\<close>

definition ip6_validate_trace_in_place ::
  "'o vlib_api \<Rightarrow> ip6_validate_error node_runtime \<Rightarrow> 'o vlib_buffer \<Rightarrow> u16 \<Rightarrow>
   ip6_validate_trace list" where
  "ip6_validate_trace_in_place V node b next =
     (if traced V node b
      then let ip = vlib_buffer_get_current V b
           in [\<lparr>ip6_trace_sw_if_index = rx_sw_if_index b, ip6_trace_next_index = ucast next,
                ip6_trace_src_addr = read_bytes (b_data b) (ip6_src_address ip) 16,
                ip6_trace_dst_addr = read_bytes (b_data b) (ip6_dst_address ip) 16\<rparr>]
      else [])"

definition ip6_validate_node ::
  "'o vlib_api \<Rightarrow> ip6_validate_error node_runtime \<Rightarrow> bool \<Rightarrow> 'o vlib_buffer list \<Rightarrow>
   (ip6_validate_error, 'o vlib_buffer, ip6_validate_trace) node_result \<times>
   (ip6_validate_error \<times> u32) list" where
  "ip6_validate_node V node prefetch8 bs =
     (let (error_counts, vs, rest) =
            (if prefetch8
             then quad_loop (ip6_validate_x1 V) (ip6_validate_trace_one V) (node_trace node) (\<lambda>_. 0) bs
             else ((\<lambda>_. 0), [], bs));
          (error_counts, ws) =
            single_loop (ip6_validate_x1 V) (ip6_validate_trace_in_place V node) error_counts rest
      in (node_output error_counts (vs @ ws), counter_calls enum_class.enum error_counts))"

section \<open>The documented filters\<close>

text \<open>FEATURE.yaml's filters on the sixteen bytes of an address.\<close>

definition ip6_multicast :: "u8 list \<Rightarrow> bool" where
  "ip6_multicast a \<longleftrightarrow> take 1 a = [0xFF]"

definition ip6_unspecified :: "u8 list \<Rightarrow> bool" where
  "ip6_unspecified a \<longleftrightarrow> a = replicate 16 0"

definition ip6_loopback :: "u8 list \<Rightarrow> bool" where
  "ip6_loopback a \<longleftrightarrow> a = replicate 15 0 @ [1]"

definition ip6_spec :: "u8 list \<Rightarrow> u8 list \<Rightarrow> bool \<Rightarrow> ip6_validate_error" where
  "ip6_spec src dst l2_group =
     (if ip6_multicast dst then IP6_VALIDATE_ERROR_VALID
      else if l2_group then IP6_VALIDATE_ERROR_L2_MCAST_BCAST
      else if ip6_multicast src then IP6_VALIDATE_ERROR_SRC_MULTICAST
      else if ip6_unspecified src then IP6_VALIDATE_ERROR_SRC_UNSPECIFIED
      else if ip6_loopback src then IP6_VALIDATE_ERROR_SRC_LOOPBACK
      else if ip6_unspecified dst then IP6_VALIDATE_ERROR_DST_UNSPECIFIED
      else if ip6_loopback dst then IP6_VALIDATE_ERROR_DST_LOOPBACK
      else IP6_VALIDATE_ERROR_VALID)"

abbreviation ip6_step ::
  "'o vlib_api \<Rightarrow> ip6_validate_error node_runtime \<Rightarrow> unit \<Rightarrow> 'o vlib_buffer \<Rightarrow>
   unit \<times> (ip6_validate_error, 'o vlib_buffer, ip6_validate_trace) verdict" where
  "ip6_step V node \<equiv> validate_step (ip6_validate_x1 V) (ip6_validate_trace_one V) (node_trace node)"

definition ip6_steer :: "ip6_validate_error \<Rightarrow> u16 option" where
  "ip6_steer e = (if e = IP6_VALIDATE_ERROR_VALID then None else Some IP6_VALIDATE_NEXT_DROP)"

section \<open>The checks meet the documentation\<close>

lemma read_16_bytes:
  "read_bytes m p 16 = [m p, m (p + 1), m (p + 2), m (p + 3), m (p + 4), m (p + 5), m (p + 6),
     m (p + 7), m (p + 8), m (p + 9), m (p + 10), m (p + 11), m (p + 12), m (p + 13), m (p + 14),
     m (p + 15)]"
  by (simp add: read_bytes_def upt_rec)

lemma replicate_address_bytes:
  "replicate 15 (x :: u8) = [x, x, x, x, x, x, x, x, x, x, x, x, x, x, x]"
  "replicate 16 (x :: u8) = [x, x, x, x, x, x, x, x, x, x, x, x, x, x, x, x]"
  by (simp_all add: numeral_eq_Suc)

lemma ip6_address_checks:
  "m p = 0xFF \<longleftrightarrow> ip6_multicast (read_bytes m p 16)"
  "ip6_validate_address_is_zero m p \<longleftrightarrow> ip6_unspecified (read_bytes m p 16)"
  "ip6_validate_address_is_loopback m p \<longleftrightarrow> ip6_loopback (read_bytes m p 16)"
  by (auto simp: ip6_multicast_def ip6_unspecified_def ip6_loopback_def read_16_bytes
      ip6_validate_address_is_zero_def ip6_validate_address_is_loopback_def load_u64_def load_u32_def
      le32_eq_iff clib_host_to_net_u64_def clib_net_to_host_u32_def be32_def replicate_address_bytes
      add.commute)

lemma ip6_validate_x1_spec:
  fixes V :: "'o vlib_api" and b :: "'o vlib_buffer"
  defines "b' \<equiv> snd (vnet_feature_next V b)" and "p \<equiv> vlib_buffer_get_current V b"
  shows "fst (ip6_validate_x1 V b) =
    ip6_spec (read_bytes (b_data b') (p + 8) 16) (read_bytes (b_data b') (p + 24) 16)
      (odd (b_data b' (ethernet_buffer_get_header V b')))"
proof -
  have odd_iff: "odd w \<longleftrightarrow> w AND 1 \<noteq> 0" for w :: u8
    by (simp add: and_one_eq odd_iff_mod_2_eq_one)
  show ?thesis
    unfolding ip6_validate_x1_def ip6_spec_def ip6_src_address_def ip6_dst_address_def
      b'_def p_def Let_def split_def odd_iff ip6_address_checks
    by (simp only: if_distrib [of fst] fst_conv cong: if_cong)
qed

section \<open>The node function\<close>

interpretation ip6_loops: unrolled_node "ip6_validate_x1 V" "ip6_validate_trace_one V"
  "ip6_validate_trace_in_place V node" "node_trace node"
  for V node
  by unfold_locales
    (simp add: ip6_validate_trace_in_place_def ip6_validate_trace_one_def traced_def)

lemma ip6_validate_node_run:
  "ip6_validate_node V node prefetch8 bs =
     (let r = snd (run_node (ip6_step V node) () bs)
      in (r, counter_calls enum_class.enum (nr_counts r)))"
  using ip6_loops.loops_frame [of V node "\<lambda>_. 0" bs]
    ip6_loops.single_loop_frame [of V node "\<lambda>_. 0" bs]
  by (auto simp: ip6_validate_node_def run_node_def split_def Let_def prod_eq_iff)

lemma ip6_x1_buffer: "snd (snd (ip6_validate_x1 V b)) = snd (vnet_feature_next V b)"
  by (simp add: ip6_validate_x1_def split_def Let_def)

lemma ip6_x1_next:
  "fst (snd (ip6_validate_x1 V b)) =
     (case ip6_steer (fst (ip6_validate_x1 V b)) of
        None \<Rightarrow> ucast (fst (vnet_feature_next V b)) | Some n \<Rightarrow> n)"
  by (simp add: ip6_validate_x1_def ip6_steer_def split_def Let_def)

interpretation ip6_arc: arc_node "ip6_step V node" "\<lambda>b. ucast (fst (vnet_feature_next V b))" ip6_steer
  for V node
  by unfold_locales (simp add: validate_step_def split_def Let_def ip6_x1_next)

lemma ip6_verdicts:
  "verdicts (ip6_step V node) () bs =
     map (\<lambda>b. \<lparr>v_disp = fst (ip6_validate_x1 V b), v_next = fst (snd (ip6_validate_x1 V b)),
               v_buffer = snd (vnet_feature_next V b),
               v_trace = (if node_trace node
                 then ip6_validate_trace_one V (snd (vnet_feature_next V b))
                   (fst (snd (ip6_validate_x1 V b))) else [])\<rparr>) bs"
  by (rule verdicts_stateless) (simp add: validate_step_def split_def Let_def ip6_x1_buffer)

section \<open>Properties\<close>

text \<open>For every packet, \<^verbatim>\<open>ip6_validate_x1\<close> returns the verdict the documented filters ask for on the
  sixteen bytes of each address: a multicast destination passes, otherwise the Ethernet group bit, the
  source filters and the destination filters are tried in order. The next index is the feature arc's
  exactly for the verdict VALID and the drop node otherwise, and the buffer changes only by the step
  along the feature arc.\<close>

theorem ip6_validate_x1_correct:
  "ip6_validate_x1 V b =
     (let p = vlib_buffer_get_current V b;
          (feat_next, b') = vnet_feature_next V b;
          e = ip6_spec (read_bytes (b_data b') (p + 8) 16) (read_bytes (b_data b') (p + 24) 16)
                (odd (b_data b' (ethernet_buffer_get_header V b')))
      in (e, if e = IP6_VALIDATE_ERROR_VALID then ucast feat_next else IP6_VALIDATE_NEXT_DROP, b'))"
  using ip6_validate_x1_spec [of V b] ip6_x1_next [of V b] ip6_x1_buffer [of V b]
  by (cases "ip6_validate_x1 V b") (simp add: split_def Let_def ip6_steer_def)

text \<open>The node function \<^verbatim>\<open>ip6-validate\<close>, unrolled or not, treats the buffers of a frame one by one and in
  order: each buffer gets the next index and each counter the number of packets its check gives, every
  packet is counted exactly once, only counters that are not zero are reported, and the trace records
  are those of the traced buffers in frame order.\<close>

theorem ip6_validate_node_correct:
  "let (r, calls) = ip6_validate_node V node prefetch8 bs
   in nr_nexts r = map (\<lambda>b. fst (snd (ip6_validate_x1 V b))) bs \<and>
      nr_buffers r = map (\<lambda>b. snd (vnet_feature_next V b)) bs \<and>
      nr_counts r = (\<lambda>e. of_nat (length (filter (\<lambda>b. fst (ip6_validate_x1 V b) = e) bs))) \<and>
      (\<Sum>e\<in>UNIV. nr_counts r e) = of_nat (length bs) \<and>
      calls = [(e, nr_counts r e). e \<leftarrow> enum_class.enum, nr_counts r e \<noteq> 0] \<and>
      nr_traces r = concat (map (\<lambda>b.
        if node_trace node then ip6_validate_trace_one V (snd (vnet_feature_next V b))
          (fst (snd (ip6_validate_x1 V b))) else []) bs)"
proof -
  have calls: "counter_calls ds c = [(e, c e). e \<leftarrow> ds, c e \<noteq> 0]"
    for ds :: "ip6_validate_error list" and c
    by (induction ds) (auto simp: counter_calls_def)
  have "(\<Sum>e\<in>UNIV. nr_counts (snd (run_node (ip6_step V node) () bs)) e) = of_nat (length bs)"
    by (rule sum_run_node_counts)
  then show ?thesis
    by (simp add: ip6_validate_node_run Let_def run_node_verdicts ip6_verdicts calls comp_def
        filter_map)
qed

text \<open>C11: \<^verbatim>\<open>ip6-validate\<close> as a whole: every packet of a frame gets, in order, the verdict of the documented IPv6 filters
  on the sixteen bytes of its addresses and the group bit of its Ethernet destination; it goes on along the feature
  arc exactly for the verdict VALID and to the drop node otherwise, its buffer changes only by the step along the
  arc, and each counter is the number of packets with its verdict, so that every packet is counted once.\<close>

theorem ip6_validate_correct:
  "let (r, calls) = ip6_validate_node V node prefetch8 bs;
       verdict = (\<lambda>b. let p = vlib_buffer_get_current V b; b' = snd (vnet_feature_next V b)
         in ip6_spec (read_bytes (b_data b') (p + 8) 16) (read_bytes (b_data b') (p + 24) 16)
              (odd (b_data b' (ethernet_buffer_get_header V b'))))
   in nr_nexts r = map (\<lambda>b. if verdict b = IP6_VALIDATE_ERROR_VALID then ucast (fst (vnet_feature_next V b))
        else IP6_VALIDATE_NEXT_DROP) bs \<and>
      nr_buffers r = map (\<lambda>b. snd (vnet_feature_next V b)) bs \<and>
      nr_counts r = (\<lambda>e. of_nat (length (filter (\<lambda>b. verdict b = e) bs))) \<and>
      (\<Sum>e\<in>UNIV. nr_counts r e) = of_nat (length bs) \<and>
      calls = [(e, nr_counts r e). e \<leftarrow> enum_class.enum, nr_counts r e \<noteq> 0] \<and>
      nr_traces r = concat (map (\<lambda>b.
        if node_trace node then ip6_validate_trace_one V (snd (vnet_feature_next V b))
          (if verdict b = IP6_VALIDATE_ERROR_VALID then ucast (fst (vnet_feature_next V b))
           else IP6_VALIDATE_NEXT_DROP) else []) bs)"
  using ip6_validate_node_correct [of V node prefetch8 bs]
  unfolding ip6_validate_x1_correct split_def Let_def fst_conv snd_conv by blast

end
