(* ===== verification/Ip_Validate.thy ===== *)
theory Ip_Validate
  imports Ip4_Validate Ip6_Validate
begin

text \<open>
  Control plane of the ip_validate plugin (ip_validate/ip_validate.c): the API handler that enables or
  disables both validation features on an interface with a rollback, the plugin initialisation, and the
  interface callback that enables validation on every interface.
\<close>

record ip_validate_main =
  ip_validate_msg_id_base :: u16

text \<open>The API message as received: the interface index is in network byte order.\<close>

record ip_validate_enable_disable_msg =
  mp_sw_if_index :: u32
  mp_is_enable :: bool

definition ip4_validate_feature :: "u32 \<Rightarrow> feature" where
  "ip4_validate_feature i = (''ip4-unicast'', ''ip4-validate'', i)"

definition ip6_validate_feature :: "u32 \<Rightarrow> feature" where
  "ip6_validate_feature i = (''ip6-unicast'', ''ip6-validate'', i)"

text \<open>
  \<open>valid\<close> stands for the test in VPP's \<^verbatim>\<open>VALIDATE_SW_IF_INDEX\<close> macro. The result is the return value
  carried by the reply and the VPP state.
\<close>

definition vl_api_ip_validate_enable_disable_t_handler ::
  "(u32 \<Rightarrow> bool) \<Rightarrow> 'w feature_api \<Rightarrow> ip_validate_enable_disable_msg \<Rightarrow> 'w \<Rightarrow> retval \<times> 'w" where
  "vl_api_ip_validate_enable_disable_t_handler valid F mp w =
     (let sw_if_index = clib_net_to_host_u32 (mp_sw_if_index mp);
          is_enable = mp_is_enable mp
      in if \<not> valid sw_if_index then (VNET_API_ERROR_INVALID_SW_IF_INDEX, w)
         else
           let (rv, w) = vnet_feature_enable_disable F ''ip4-unicast'' ''ip4-validate''
                 sw_if_index is_enable w
           in if rv \<noteq> RV_OK then (rv, w)
              else
                let (rv, w) = vnet_feature_enable_disable F ''ip6-unicast'' ''ip6-validate''
                      sw_if_index is_enable w
                in if rv \<noteq> RV_OK
                   then (rv, snd (vnet_feature_enable_disable F ''ip4-unicast'' ''ip4-validate''
                          sw_if_index (\<not> is_enable) w))
                   else (rv, w))"

definition ip_validate_init :: "u16 \<Rightarrow> ip_validate_main \<Rightarrow> ip_validate_main" where
  "ip_validate_init setup_message_id_table sm =
     sm\<lparr>ip_validate_msg_id_base := setup_message_id_table\<rparr>"

text \<open>The interface callback ignores the return values and always returns no error.\<close>

definition ip_validate_sw_interface_add_del :: "'w feature_api \<Rightarrow> u32 \<Rightarrow> bool \<Rightarrow> 'w \<Rightarrow> 'w" where
  "ip_validate_sw_interface_add_del F sw_if_index is_add w =
     (let (_, w) = vnet_feature_enable_disable F ''ip4-unicast'' ''ip4-validate''
            sw_if_index is_add w;
          (_, w) = vnet_feature_enable_disable F ''ip6-unicast'' ''ip6-validate''
            sw_if_index is_add w
      in w)"

text \<open>
  The callback over a history of interface creations and deletions, the interfaces that exist at the end of
  it, and the histories VPP produces: an index is created while it is free and deleted while it exists.
\<close>

primrec interface_events :: "'w feature_api \<Rightarrow> (u32 \<times> bool) list \<Rightarrow> 'w \<Rightarrow> 'w" where
  "interface_events F [] w = w"
| "interface_events F (e # es) w =
     interface_events F es (ip_validate_sw_interface_add_del F (fst e) (snd e) w)"

definition interface_step :: "u32 \<times> bool \<Rightarrow> u32 set \<Rightarrow> u32 set" where
  "interface_step e S = (if snd e then insert (fst e) S else S - {fst e})"

primrec live_interfaces :: "(u32 \<times> bool) list \<Rightarrow> u32 set \<Rightarrow> u32 set" where
  "live_interfaces [] S = S"
| "live_interfaces (e # es) S = live_interfaces es (interface_step e S)"

primrec events_ok :: "(u32 \<times> bool) list \<Rightarrow> u32 set \<Rightarrow> bool" where
  "events_ok [] S = True"
| "events_ok (e # es) S = ((snd e \<longleftrightarrow> fst e \<notin> S) \<and> events_ok es (interface_step e S))"

text \<open>Both features hold one reference on each interface of a set and none elsewhere.\<close>

definition validated_once :: "(feature \<Rightarrow> nat) \<Rightarrow> u32 set \<Rightarrow> bool" where
  "validated_once r S \<longleftrightarrow>
     (\<forall>i. r (ip4_validate_feature i) = of_bool (i \<in> S) \<and> r (ip6_validate_feature i) = of_bool (i \<in> S))"

definition ip_validate_demo_msg :: ip_validate_enable_disable_msg where
  "ip_validate_demo_msg = \<lparr>mp_sw_if_index = 0x07000000, mp_is_enable = True\<rparr>"

section \<open>Lemmas\<close>

lemma validate_feature_distinct [simp]:
  "ip4_validate_feature i \<noteq> ip6_validate_feature j"
  "ip6_validate_feature j \<noteq> ip4_validate_feature i"
  "ip4_validate_feature i = ip4_validate_feature j \<longleftrightarrow> i = j"
  "ip6_validate_feature i = ip6_validate_feature j \<longleftrightarrow> i = j"
  by (simp_all add: ip4_validate_feature_def ip6_validate_feature_def)

lemma callback_refs:
  assumes "feature_ok sub F" and "feature_total F"
  shows "feature_refs F (ip_validate_sw_interface_add_del F i en w) =
    count_call en (ip6_validate_feature i) (count_call en (ip4_validate_feature i) (feature_refs F w))"
  by (simp add: ip_validate_sw_interface_add_del_def split_def Let_def feature_call_refs [OF assms]
      ip4_validate_feature_def ip6_validate_feature_def)

lemma validated_once_step:
  assumes "validated_once r S" and "snd e \<longleftrightarrow> fst e \<notin> S"
  shows "validated_once (count_call (snd e) (ip6_validate_feature (fst e))
    (count_call (snd e) (ip4_validate_feature (fst e)) r)) (interface_step e S)"
  using assms by (auto simp: validated_once_def interface_step_def count_call_def)

lemma interface_events_refs:
  assumes "feature_ok sub F" and "feature_total F"
  shows "events_ok es S \<Longrightarrow> validated_once (feature_refs F w) S \<Longrightarrow>
    validated_once (feature_refs F (interface_events F es w)) (live_interfaces es S)"
proof (induction es arbitrary: w S)
  case (Cons e es)
  then have "validated_once (feature_refs F (ip_validate_sw_interface_add_del F (fst e) (snd e) w)) (interface_step e S)"
    unfolding callback_refs [OF assms] by (intro validated_once_step) simp_all
  with Cons show ?case by simp
qed simp

section \<open>Properties\<close>

text \<open>C24: Enabling or disabling validation through the API is all or nothing. The features of an interface are
  reference counted. Provided that undoing the IPv4 call succeeds and that a disable request finds IPv4 validation
  on, the handler either replies success and has added (or dropped) exactly one reference of the IPv4 and of the
  IPv6 feature of the interface, or replies an error and the count of no feature of any interface has changed.\<close>

theorem ip_validate_enable_disable_atomic:
  fixes F :: "'w feature_api" and mp :: ip_validate_enable_disable_msg
  defines "i \<equiv> clib_net_to_host_u32 (mp_sw_if_index mp)"
  assumes ok: "feature_ok (\<lambda>_. True) F"
    and undo: "\<And>v. fst (vnet_feature_enable_disable F ''ip4-unicast'' ''ip4-validate'' i
      (\<not> mp_is_enable mp) v) = RV_OK"
    and held: "mp_is_enable mp \<or> enabled F w (ip4_validate_feature i)"
    and run: "vl_api_ip_validate_enable_disable_t_handler valid F mp w = (rv, w')"
  shows "feature_refs F w' = (if rv = RV_OK
    then count_call (mp_is_enable mp) (ip6_validate_feature i)
      (count_call (mp_is_enable mp) (ip4_validate_feature i) (feature_refs F w))
    else feature_refs F w)"
proof -
  let ?call = "\<lambda>arc node en. vnet_feature_enable_disable F arc node i en"
  obtain r4 w4 where c4: "?call ''ip4-unicast'' ''ip4-validate'' (mp_is_enable mp) w = (r4, w4)"
    by fastforce
  obtain r6 w6 where c6: "?call ''ip6-unicast'' ''ip6-validate'' (mp_is_enable mp) w4 = (r6, w6)"
    by fastforce
  obtain wu where cu: "?call ''ip4-unicast'' ''ip4-validate'' (\<not> mp_is_enable mp) w6 = (RV_OK, wu)"
    using undo by (metis prod.collapse)
  note e4 = feature_okD [OF ok c4] and e6 = feature_okD [OF ok c6] and eu = feature_okD [OF ok cu]
  have undone: "count_call (\<not> mp_is_enable mp) (ip4_validate_feature i)
      (count_call (mp_is_enable mp) (ip4_validate_feature i) (feature_refs F w)) = feature_refs F w"
    using held by (intro count_call_undo) (simp add: enabled_def)
  show ?thesis
    using run c4 c6 cu e4 e6 eu undone
    by (auto simp: vl_api_ip_validate_enable_disable_t_handler_def i_def [symmetric] Let_def
        ip4_validate_feature_def ip6_validate_feature_def split: if_splits)
qed

theorem ip_validate_enable_disable_atomic_witness:
  "snd (vl_api_ip_validate_enable_disable_t_handler (\<lambda>_. True) (feature_counts {ip6_validate_feature 7})
     ip_validate_demo_msg (no_features(ip4_validate_feature 7 := 1))) = no_features(ip4_validate_feature 7 := 1) \<and>
   fst (vl_api_ip_validate_enable_disable_t_handler (\<lambda>_. True) (feature_counts {ip6_validate_feature 7})
     ip_validate_demo_msg (no_features(ip4_validate_feature 7 := 1))) = API_ERROR_EXT (-1)"
proof -
  let ?F = "feature_counts {ip6_validate_feature 7}"
  let ?h = "vl_api_ip_validate_enable_disable_t_handler (\<lambda>_. True) ?F ip_validate_demo_msg
    (no_features(ip4_validate_feature 7 := 1))"
  have i: "clib_net_to_host_u32 (mp_sw_if_index ip_validate_demo_msg) = 7"
    by (simp add: ip_validate_demo_msg_def clib_net_to_host_u32_def be32_def le32_def)
  have rv: "fst ?h = API_ERROR_EXT (-1)"
    unfolding vl_api_ip_validate_enable_disable_t_handler_def i
    by (simp add: feature_counts_def Let_def ip6_validate_feature_def)
  have undo: "fst (vnet_feature_enable_disable ?F ''ip4-unicast'' ''ip4-validate''
      (clib_net_to_host_u32 (mp_sw_if_index ip_validate_demo_msg))
      (\<not> mp_is_enable ip_validate_demo_msg) v) = RV_OK" for v
    by (simp add: feature_counts_def Let_def ip6_validate_feature_def)
  have held: "mp_is_enable ip_validate_demo_msg \<or> enabled ?F (no_features(ip4_validate_feature 7 := 1)) (ip4_validate_feature
      (clib_net_to_host_u32 (mp_sw_if_index ip_validate_demo_msg)))"
    by (simp add: ip_validate_demo_msg_def)
  note atomic = ip_validate_enable_disable_atomic
    [OF feature_counts_ok undo held prod.collapse [symmetric], of "\<lambda>_. True"]
  then have "snd ?h = no_features(ip4_validate_feature 7 := 1)" unfolding rv by simp
  with rv show ?thesis by simp
qed

text \<open>
  The counts at work, as test_ip_validate.py has them: on an interface validated by the callback and once more
  through the API, one disable request replies success and leaves both features on, the second turns them
  off.\<close>

theorem ip_validate_disable_twice:
  "let F = feature_counts {};
       api = (\<lambda>en. snd \<circ> vl_api_ip_validate_enable_disable_t_handler (\<lambda>_. True) F
         \<lparr>mp_sw_if_index = 0x07000000, mp_is_enable = en\<rparr>);
       w = api False (api True (ip_validate_sw_interface_add_del F 7 True no_features))
   in enabled F w (ip4_validate_feature 7) \<and> enabled F w (ip6_validate_feature 7) \<and>
      \<not> enabled F (api False w) (ip4_validate_feature 7) \<and> \<not> enabled F (api False w) (ip6_validate_feature 7)"
  by (simp add: vl_api_ip_validate_enable_disable_t_handler_def ip_validate_sw_interface_add_del_def
      feature_counts_def Let_def enabled_def no_features_def ip4_validate_feature_def ip6_validate_feature_def
      clib_net_to_host_u32_def be32_def le32_def)

text \<open>
  The rollback restores the counts only when the request found something to drop. On an interface without
  validation, a disable request whose IPv6 call fails leaves IPv4 validation on: the half-enabled state the
  rollback is there to avoid.\<close>

theorem ip_validate_rollback_half_enabled:
  "let F = feature_counts {ip6_validate_feature 7};
       (rv, w') = vl_api_ip_validate_enable_disable_t_handler (\<lambda>_. True) F
         \<lparr>mp_sw_if_index = 0x07000000, mp_is_enable = False\<rparr> no_features
   in rv \<noteq> RV_OK \<and> enabled F w' (ip4_validate_feature 7) \<and> \<not> enabled F w' (ip6_validate_feature 7)"
  by (simp add: vl_api_ip_validate_enable_disable_t_handler_def feature_counts_def Let_def enabled_def no_features_def
      ip4_validate_feature_def ip6_validate_feature_def clib_net_to_host_u32_def be32_def le32_def)

text \<open>C23: Validation is on for every existing interface and for no other. The callback ignores what its feature
  calls return; when they all succeed, then after any history in which free indices are created and existing
  interfaces deleted, starting with no interface and no reference of either feature, the IPv4 and the IPv6 feature
  hold exactly one reference on each interface that exists and none elsewhere, so that deleting the interface
  removes them.\<close>

theorem ip_validate_covers_all_interfaces:
  assumes "feature_ok (\<lambda>_. True) F" and "feature_total F" and "events_ok es {}"
    and "\<And>i. \<not> enabled F w (ip4_validate_feature i)" and "\<And>i. \<not> enabled F w (ip6_validate_feature i)"
  shows "feature_refs F (interface_events F es w) (ip4_validate_feature i) = of_bool (i \<in> live_interfaces es {}) \<and>
    feature_refs F (interface_events F es w) (ip6_validate_feature i) = of_bool (i \<in> live_interfaces es {})"
  using interface_events_refs [OF assms(1-3), of w] assms(4,5)
  by (simp add: validated_once_def enabled_def)

theorem ip_validate_covers_all_interfaces_witness:
  "interface_events (feature_counts {}) [(1, True), (2, True), (1, False), (1, True), (1, False)] no_features
     (ip4_validate_feature 2) = 1 \<and>
   interface_events (feature_counts {}) [(1, True), (2, True), (1, False), (1, True), (1, False)] no_features
     (ip6_validate_feature 1) = 0"
proof -
  let ?es = "[(1, True), (2, True), (1, False), (1, True), (1, False)]"
  have none: "\<not> enabled (feature_counts {}) no_features f" for f by simp
  have "events_ok ?es {}" by (simp add: interface_step_def)
  note all = ip_validate_covers_all_interfaces
    [OF feature_counts_ok feature_counts_total this none none]
  show ?thesis using all [of 2] all [of 1] by (simp add: interface_step_def)
qed

end
