(* ===== verification/Host_Xc_Node.thy ===== *)
theory Host_Xc_Node
  imports Sonic_Ext_Main
begin

text \<open>
  The node \<^verbatim>\<open>sonic-ext-host-xc\<close> (sonic_ext/host_xc_node.c): packets Linux sends on a host tap leave
  directly through the phy the tap shadows.
\<close>

section \<open>The node\<close>

datatype sonic_ext_host_xc_error =
    SONIC_EXT_HOST_XC_ERROR_DIRECT
  | SONIC_EXT_HOST_XC_ERROR_PASSTHRU

definition SONIC_EXT_HOST_XC_MODE_PASSTHRU :: u8 where
  "SONIC_EXT_HOST_XC_MODE_PASSTHRU = 0"

definition SONIC_EXT_HOST_XC_MODE_DIRECT :: u8 where
  "SONIC_EXT_HOST_XC_MODE_DIRECT = 1"

definition SONIC_EXT_HOST_XC_NEXT_INTF_OUTPUT :: u16 where
  "SONIC_EXT_HOST_XC_NEXT_INTF_OUTPUT = 1"

record sonic_ext_host_xc_trace =
  host_xc_trace_rx_sw_if_index :: u32
  host_xc_trace_phy_sw_if_index :: u32
  host_xc_trace_mode :: u8

definition sonic_ext_host_xc_step ::
  "'o vlib_api \<Rightarrow> vnet_api \<Rightarrow> sonic_ext_host_xc_error node_runtime \<Rightarrow> sonic_ext_main \<Rightarrow> unit \<Rightarrow>
   'o vlib_buffer \<Rightarrow> unit \<times> (sonic_ext_host_xc_error, 'o vlib_buffer, sonic_ext_host_xc_trace) verdict" where
  "sonic_ext_host_xc_step V N node sem s b =
     (let rx0 = rx_sw_if_index b;
          passthru =
            (let (next0, b) = vnet_feature_next V b
             in (SONIC_EXT_HOST_XC_ERROR_PASSTHRU, ucast next0, b, -1, SONIC_EXT_HOST_XC_MODE_PASSTHRU));
          (e, next0, b, phy_sw, mode) =
            (if host_xc sem = 0 then passthru
             else case lcp_itf_pair_find_by_host N rx0 of
                    None \<Rightarrow> passthru
                  | Some hlip \<Rightarrow>
                      let phy_sw = lip_phy_sw_if_index hlip
                      in (SONIC_EXT_HOST_XC_ERROR_DIRECT, SONIC_EXT_HOST_XC_NEXT_INTF_OUTPUT,
                          b\<lparr>tx_sw_if_index := phy_sw\<rparr>, phy_sw, SONIC_EXT_HOST_XC_MODE_DIRECT))
      in (s, \<lparr>v_disp = e, v_next = next0, v_buffer = b,
              v_trace = (if traced V node b
                then [\<lparr>host_xc_trace_rx_sw_if_index = rx0, host_xc_trace_phy_sw_if_index = phy_sw,
                       host_xc_trace_mode = mode\<rparr>] else [])\<rparr>))"

definition sonic_ext_host_xc_node ::
  "'o vlib_api \<Rightarrow> vnet_api \<Rightarrow> sonic_ext_host_xc_error node_runtime \<Rightarrow> sonic_ext_main \<Rightarrow>
   'o vlib_buffer list \<Rightarrow> sonic_ext_main \<times>
   (sonic_ext_host_xc_error, 'o vlib_buffer, sonic_ext_host_xc_trace) node_result \<times>
   (sonic_ext_host_xc_error \<times> u32) list" where
  "sonic_ext_host_xc_node V N node sem bs =
     (let (_, r) = run_node (sonic_ext_host_xc_step V N node sem) () bs;
          n_direct = nr_counts r SONIC_EXT_HOST_XC_ERROR_DIRECT
      in (sem\<lparr>host_xc_direct := host_xc_direct sem + ucast n_direct\<rparr>, r,
          counter_calls [SONIC_EXT_HOST_XC_ERROR_DIRECT, SONIC_EXT_HOST_XC_ERROR_PASSTHRU]
            (nr_counts r)))"

section \<open>Specification\<close>

text \<open>The phy a packet from this interface is sent to, when the cross-connect applies.\<close>

definition host_xc_target :: "vnet_api \<Rightarrow> sonic_ext_main \<Rightarrow> u32 \<Rightarrow> u32 option" where
  "host_xc_target N sem rx =
     (if host_xc sem = 0 then None
      else map_option lip_phy_sw_if_index (lcp_itf_pair_find_by_host N rx))"

definition host_xc_steer :: "sonic_ext_host_xc_error \<Rightarrow> u16 option" where
  "host_xc_steer e = (case e of SONIC_EXT_HOST_XC_ERROR_DIRECT \<Rightarrow> Some SONIC_EXT_HOST_XC_NEXT_INTF_OUTPUT
     | SONIC_EXT_HOST_XC_ERROR_PASSTHRU \<Rightarrow> None)"

section \<open>Lemmas\<close>

lemma host_xc_step_direct:
  "host_xc_target N sem (rx_sw_if_index b) = Some phy \<Longrightarrow>
     snd (sonic_ext_host_xc_step V N node sem s b) =
       \<lparr>v_disp = SONIC_EXT_HOST_XC_ERROR_DIRECT, v_next = SONIC_EXT_HOST_XC_NEXT_INTF_OUTPUT,
        v_buffer = b\<lparr>tx_sw_if_index := phy\<rparr>,
        v_trace = (if traced V node b
          then [\<lparr>host_xc_trace_rx_sw_if_index = rx_sw_if_index b, host_xc_trace_phy_sw_if_index = phy,
                 host_xc_trace_mode = SONIC_EXT_HOST_XC_MODE_DIRECT\<rparr>] else [])\<rparr>"
  by (auto simp: sonic_ext_host_xc_step_def host_xc_target_def traced_def Let_def split: if_splits)

lemma host_xc_step_passthru:
  "host_xc_target N sem (rx_sw_if_index b) = None \<Longrightarrow>
     snd (sonic_ext_host_xc_step V N node sem s b) =
       \<lparr>v_disp = SONIC_EXT_HOST_XC_ERROR_PASSTHRU, v_next = ucast (fst (vnet_feature_next V b)),
        v_buffer = snd (vnet_feature_next V b),
        v_trace = (if traced V node (snd (vnet_feature_next V b))
          then [\<lparr>host_xc_trace_rx_sw_if_index = rx_sw_if_index b, host_xc_trace_phy_sw_if_index = -1,
                 host_xc_trace_mode = SONIC_EXT_HOST_XC_MODE_PASSTHRU\<rparr>] else [])\<rparr>"
  by (auto simp: sonic_ext_host_xc_step_def host_xc_target_def split_def Let_def split: if_splits)

lemmas host_xc_step_cases = host_xc_step_direct host_xc_step_passthru

interpretation host_xc_arc: arc_node "sonic_ext_host_xc_step V N node sem"
  "\<lambda>b. ucast (fst (vnet_feature_next V b))" host_xc_steer
  for V N node sem
proof unfold_locales
  fix s b
  show "v_next (snd (sonic_ext_host_xc_step V N node sem s b)) =
    (case host_xc_steer (v_disp (snd (sonic_ext_host_xc_step V N node sem s b))) of
       None \<Rightarrow> ucast (fst (vnet_feature_next V b)) | Some n \<Rightarrow> n)"
    by (cases "host_xc_target N sem (rx_sw_if_index b)")
      (simp_all add: host_xc_step_cases host_xc_steer_def)
qed

lemma host_xc_verdicts:
  "verdicts (sonic_ext_host_xc_step V N node sem) () bs =
     map (\<lambda>b. snd (sonic_ext_host_xc_step V N node sem () b)) bs"
  by (rule verdicts_stateless) simp

section \<open>Properties\<close>

text \<open>C30: A packet received on the host tap of a linux-cp pair, while host-xc is on, is sent out of the pair's
  phy with only its TX interface changed; every other packet continues on the feature arc. No packet is
  dropped, every packet is counted once, and the summary counter grows by the number of direct packets.\<close>

theorem sonic_ext_host_xc_node_correct:
  "let (sem', r, calls) = sonic_ext_host_xc_node V N node sem bs;
       tgt = (\<lambda>b. host_xc_target N sem (rx_sw_if_index b))
   in nr_nexts r = map (\<lambda>b. if tgt b = None then ucast (fst (vnet_feature_next V b)) else 1) bs \<and>
      nr_buffers r = map (\<lambda>b. case tgt b of None \<Rightarrow> snd (vnet_feature_next V b)
        | Some phy \<Rightarrow> b\<lparr>tx_sw_if_index := phy\<rparr>) bs \<and>
      nr_counts r SONIC_EXT_HOST_XC_ERROR_DIRECT = of_nat (length (filter (\<lambda>b. tgt b \<noteq> None) bs)) \<and>
      nr_counts r SONIC_EXT_HOST_XC_ERROR_DIRECT + nr_counts r SONIC_EXT_HOST_XC_ERROR_PASSTHRU =
        of_nat (length bs) \<and>
      sem' = sem\<lparr>host_xc_direct :=
        host_xc_direct sem + ucast (nr_counts r SONIC_EXT_HOST_XC_ERROR_DIRECT)\<rparr>"
proof -
  let ?v = "\<lambda>b. snd (sonic_ext_host_xc_step V N node sem () b)"
  let ?tgt = "\<lambda>b. host_xc_target N sem (rx_sw_if_index b)"
  have v: "v_next (?v b) = (if ?tgt b = None then ucast (fst (vnet_feature_next V b)) else 1)"
      "v_buffer (?v b) = (case ?tgt b of None \<Rightarrow> snd (vnet_feature_next V b)
        | Some phy \<Rightarrow> b\<lparr>tx_sw_if_index := phy\<rparr>)"
      "v_disp (?v b) = SONIC_EXT_HOST_XC_ERROR_DIRECT \<longleftrightarrow> ?tgt b \<noteq> None"
      "v_disp (?v b) = SONIC_EXT_HOST_XC_ERROR_PASSTHRU \<longleftrightarrow> ?tgt b = None" for b
    by (cases "?tgt b"; simp add: host_xc_step_cases SONIC_EXT_HOST_XC_NEXT_INTF_OUTPUT_def)+
  have "length (filter (\<lambda>b. ?tgt b \<noteq> None) bs) + length (filter (\<lambda>b. ?tgt b = None) bs) = length bs"
    using sum_length_filter_compl [of "\<lambda>b. ?tgt b \<noteq> None" bs] by simp
  then have "(of_nat (length (filter (\<lambda>b. ?tgt b \<noteq> None) bs)) :: u32) +
      of_nat (length (filter (\<lambda>b. ?tgt b = None) bs)) = of_nat (length bs)"
    unfolding of_nat_add [symmetric] by (rule arg_cong)
  then show ?thesis
    unfolding sonic_ext_host_xc_node_def split_def Let_def run_node_verdicts host_xc_verdicts
      fst_conv snd_conv node_output_sel list.map_comp comp_def filter_map length_map v
    by simp
qed

end
