(* ===== verification/L2_Trap_Fixup_Node.thy ===== *)
theory L2_Trap_Fixup_Node
  imports Sonic_Ext_Main
begin

text \<open>
  The node \<^verbatim>\<open>sonic-ext-l2-trap-fixup\<close> (sonic_ext/l2_trap_fixup_node.c): a trapped L2 packet gets the
  parent of its receive interface before it is handed to linux-cp-punt.
\<close>

section \<open>The node\<close>

datatype sonic_ext_l2_trap_fixup_error =
    SONIC_EXT_L2_TRAP_FIXUP_ERROR_FIXED_UP
  | SONIC_EXT_L2_TRAP_FIXUP_ERROR_NO_PARENT

definition SONIC_EXT_L2_TRAP_FIXUP_NEXT_PUNT :: u16 where
  "SONIC_EXT_L2_TRAP_FIXUP_NEXT_PUNT = 0"

definition SONIC_EXT_L2_TRAP_FIXUP_NEXT_DROP :: u16 where
  "SONIC_EXT_L2_TRAP_FIXUP_NEXT_DROP = 1"

record sonic_ext_l2_trap_fixup_trace =
  trap_trace_rx_sw_if_index :: u32
  trap_trace_punt_rx_sw_if_index :: u32
  trap_trace_dropped :: u8

definition sonic_ext_l2_trap_fixup_lookup_parent :: "vnet_api \<Rightarrow> u32 \<Rightarrow> u32" where
  "sonic_ext_l2_trap_fixup_lookup_parent N rx =
     (if sw_interfaces_is_free_index N rx then -1
      else let swi = vnet_get_sw_interface N rx
           in if sw_type swi = VNET_SW_INTERFACE_TYPE_SUB then sup_sw_if_index swi else rx)"

definition sonic_ext_l2_trap_fixup_step ::
  "'o vlib_api \<Rightarrow> vnet_api \<Rightarrow> sonic_ext_l2_trap_fixup_error node_runtime \<Rightarrow> unit \<Rightarrow> 'o vlib_buffer \<Rightarrow>
   unit \<times> (sonic_ext_l2_trap_fixup_error, 'o vlib_buffer, sonic_ext_l2_trap_fixup_trace) verdict" where
  "sonic_ext_l2_trap_fixup_step V N node s b =
     (let rx0 = rx_sw_if_index b;
          punt_rx0 = sonic_ext_l2_trap_fixup_lookup_parent N rx0;
          (e, next0, b, dropped) =
            (if punt_rx0 = -1
             then (SONIC_EXT_L2_TRAP_FIXUP_ERROR_NO_PARENT, SONIC_EXT_L2_TRAP_FIXUP_NEXT_DROP,
                   b\<lparr>b_error := node_errors node SONIC_EXT_L2_TRAP_FIXUP_ERROR_NO_PARENT\<rparr>, 1)
             else (SONIC_EXT_L2_TRAP_FIXUP_ERROR_FIXED_UP, SONIC_EXT_L2_TRAP_FIXUP_NEXT_PUNT,
                   b\<lparr>rx_sw_if_index := punt_rx0\<rparr>, 0))
      in (s, \<lparr>v_disp = e, v_next = next0, v_buffer = b,
              v_trace = (if traced V node b
                then [\<lparr>trap_trace_rx_sw_if_index = rx0, trap_trace_punt_rx_sw_if_index = punt_rx0,
                       trap_trace_dropped = dropped\<rparr>] else [])\<rparr>))"

definition sonic_ext_l2_trap_fixup_node ::
  "'o vlib_api \<Rightarrow> vnet_api \<Rightarrow> sonic_ext_l2_trap_fixup_error node_runtime \<Rightarrow> sonic_ext_main \<Rightarrow>
   'o vlib_buffer list \<Rightarrow> sonic_ext_main \<times>
   (sonic_ext_l2_trap_fixup_error, 'o vlib_buffer, sonic_ext_l2_trap_fixup_trace) node_result \<times>
   (sonic_ext_l2_trap_fixup_error \<times> u32) list" where
  "sonic_ext_l2_trap_fixup_node V N node sem bs =
     (let (_, r) = run_node (sonic_ext_l2_trap_fixup_step V N node) () bs;
          n_fixed_up = nr_counts r SONIC_EXT_L2_TRAP_FIXUP_ERROR_FIXED_UP
      in (sem\<lparr>l2_trap_fixups := l2_trap_fixups sem + ucast n_fixed_up\<rparr>, r,
          counter_calls [SONIC_EXT_L2_TRAP_FIXUP_ERROR_FIXED_UP,
            SONIC_EXT_L2_TRAP_FIXUP_ERROR_NO_PARENT] (nr_counts r)))"

section \<open>Specification\<close>

text \<open>
  The interface table is well formed: the two lookups agree with the pool, no interface has the invalid
  index, and the parent of a sub-interface is an interface that is not itself a sub-interface.
\<close>

definition sw_table_ok :: "vnet_api \<Rightarrow> bool" where
  "sw_table_ok N \<longleftrightarrow>
     vnet_get_sw_interface_or_null N (-1) = None \<and>
     (\<forall>i. sw_interfaces_is_free_index N i \<longleftrightarrow> vnet_get_sw_interface_or_null N i = None) \<and>
     (\<forall>i swi. vnet_get_sw_interface_or_null N i = Some swi \<longrightarrow> vnet_get_sw_interface N i = swi) \<and>
     (\<forall>i swi. vnet_get_sw_interface_or_null N i = Some swi \<and> sw_type swi = VNET_SW_INTERFACE_TYPE_SUB \<longrightarrow>
        (\<exists>sup. vnet_get_sw_interface_or_null N (sup_sw_if_index swi) = Some sup \<and>
           sw_type sup \<noteq> VNET_SW_INTERFACE_TYPE_SUB))"

section \<open>Lemmas\<close>

lemma lookup_parent_ok:
  assumes "sw_table_ok N"
  shows "sonic_ext_l2_trap_fixup_lookup_parent N rx =
    (case vnet_get_sw_interface_or_null N rx of None \<Rightarrow> -1
     | Some swi \<Rightarrow> if sw_type swi = VNET_SW_INTERFACE_TYPE_SUB then sup_sw_if_index swi else rx)"
  using assms unfolding sw_table_ok_def sonic_ext_l2_trap_fixup_lookup_parent_def
  by (auto simp: Let_def split: option.split)

lemma lookup_parent_invalid:
  assumes "sw_table_ok N"
  shows "sonic_ext_l2_trap_fixup_lookup_parent N rx = -1 \<longleftrightarrow> vnet_get_sw_interface_or_null N rx = None"
  using assms unfolding lookup_parent_ok [OF assms] sw_table_ok_def
  by (auto split: option.split) force+

lemma lookup_parent_phys:
  assumes "sw_table_ok N" and "vnet_get_sw_interface_or_null N rx \<noteq> None"
  shows "\<exists>sup. vnet_get_sw_interface_or_null N (sonic_ext_l2_trap_fixup_lookup_parent N rx) = Some sup \<and>
    sw_type sup \<noteq> VNET_SW_INTERFACE_TYPE_SUB"
proof -
  obtain swi where "vnet_get_sw_interface_or_null N rx = Some swi" using assms(2) by blast
  with assms(1) show ?thesis unfolding lookup_parent_ok [OF assms(1)] sw_table_ok_def
    by (cases "sw_type swi = VNET_SW_INTERFACE_TYPE_SUB") auto
qed

interpretation trap_arc: arc_node "sonic_ext_l2_trap_fixup_step V N node" "\<lambda>_. 0"
  "\<lambda>e. Some (case e of SONIC_EXT_L2_TRAP_FIXUP_ERROR_FIXED_UP \<Rightarrow> SONIC_EXT_L2_TRAP_FIXUP_NEXT_PUNT
     | SONIC_EXT_L2_TRAP_FIXUP_ERROR_NO_PARENT \<Rightarrow> SONIC_EXT_L2_TRAP_FIXUP_NEXT_DROP)"
  for V N node
  by unfold_locales (simp add: sonic_ext_l2_trap_fixup_step_def Let_def)

lemma trap_verdicts:
  "verdicts (sonic_ext_l2_trap_fixup_step V N node) () bs =
     map (\<lambda>b. snd (sonic_ext_l2_trap_fixup_step V N node () b)) bs"
  by (rule verdicts_stateless) simp

section \<open>Properties\<close>

text \<open>C31: With a well-formed interface table, a trapped packet is punted exactly when its receive interface
  exists; it then carries an existing interface that is not a sub-interface, nothing else changed. The
  others are dropped with the NO_PARENT error. The two counters partition the frame and the summary
  counter grows by the punted packets.\<close>

theorem sonic_ext_l2_trap_fixup_node_correct:
  assumes "sw_table_ok N"
  shows "let (sem', r, calls) = sonic_ext_l2_trap_fixup_node V N node sem bs;
             exists = (\<lambda>b. vnet_get_sw_interface_or_null N (rx_sw_if_index b) \<noteq> None)
    in nr_nexts r = map (\<lambda>b. if exists b then SONIC_EXT_L2_TRAP_FIXUP_NEXT_PUNT
         else SONIC_EXT_L2_TRAP_FIXUP_NEXT_DROP) bs \<and>
       list_all2 (\<lambda>b b'. if exists b
         then (\<exists>i sup. b' = b\<lparr>rx_sw_if_index := i\<rparr> \<and> vnet_get_sw_interface_or_null N i = Some sup \<and>
                 sw_type sup \<noteq> VNET_SW_INTERFACE_TYPE_SUB)
         else b' = b\<lparr>b_error := node_errors node SONIC_EXT_L2_TRAP_FIXUP_ERROR_NO_PARENT\<rparr>)
         bs (nr_buffers r) \<and>
       nr_counts r SONIC_EXT_L2_TRAP_FIXUP_ERROR_FIXED_UP = of_nat (length (filter exists bs)) \<and>
       nr_counts r SONIC_EXT_L2_TRAP_FIXUP_ERROR_NO_PARENT =
         of_nat (length (filter (\<lambda>b. \<not> exists b) bs)) \<and>
       l2_trap_fixups sem' = l2_trap_fixups sem +
         ucast (nr_counts r SONIC_EXT_L2_TRAP_FIXUP_ERROR_FIXED_UP)"
proof -
  let ?v = "\<lambda>b. snd (sonic_ext_l2_trap_fixup_step V N node () b)"
  let ?ex = "\<lambda>b. vnet_get_sw_interface_or_null N (rx_sw_if_index b) \<noteq> None"
  have v: "v_next (?v b) = (if ?ex b then SONIC_EXT_L2_TRAP_FIXUP_NEXT_PUNT
        else SONIC_EXT_L2_TRAP_FIXUP_NEXT_DROP)"
      "v_disp (?v b) = SONIC_EXT_L2_TRAP_FIXUP_ERROR_FIXED_UP \<longleftrightarrow> ?ex b"
      "v_disp (?v b) = SONIC_EXT_L2_TRAP_FIXUP_ERROR_NO_PARENT \<longleftrightarrow> \<not> ?ex b" for b
    by (simp_all add: sonic_ext_l2_trap_fixup_step_def Let_def lookup_parent_invalid [OF assms]
        del: not_None_eq)
  have buf: "if ?ex b
      then (\<exists>i sup. v_buffer (?v b) = b\<lparr>rx_sw_if_index := i\<rparr> \<and>
        vnet_get_sw_interface_or_null N i = Some sup \<and> sw_type sup \<noteq> VNET_SW_INTERFACE_TYPE_SUB)
      else v_buffer (?v b) =
        b\<lparr>b_error := node_errors node SONIC_EXT_L2_TRAP_FIXUP_ERROR_NO_PARENT\<rparr>" for b
  proof (cases "?ex b")
    case True
    then obtain sup where "vnet_get_sw_interface_or_null N
        (sonic_ext_l2_trap_fixup_lookup_parent N (rx_sw_if_index b)) = Some sup"
      "sw_type sup \<noteq> VNET_SW_INTERFACE_TYPE_SUB" using lookup_parent_phys [OF assms] by blast
    moreover have "v_buffer (?v b) =
        b\<lparr>rx_sw_if_index := sonic_ext_l2_trap_fixup_lookup_parent N (rx_sw_if_index b)\<rparr>"
      using True by (simp add: sonic_ext_l2_trap_fixup_step_def Let_def lookup_parent_invalid [OF assms]
          del: not_None_eq)
    ultimately show ?thesis using True by auto
  next
    case False
    then show ?thesis
      by (simp add: sonic_ext_l2_trap_fixup_step_def Let_def lookup_parent_invalid [OF assms])
  qed
  have bufs: "list_all2 (\<lambda>b b'. if ?ex b
      then (\<exists>i sup. b' = b\<lparr>rx_sw_if_index := i\<rparr> \<and>
        vnet_get_sw_interface_or_null N i = Some sup \<and> sw_type sup \<noteq> VNET_SW_INTERFACE_TYPE_SUB)
      else b' = b\<lparr>b_error := node_errors node SONIC_EXT_L2_TRAP_FIXUP_ERROR_NO_PARENT\<rparr>)
      bs (map (\<lambda>b. v_buffer (?v b)) bs)"
    unfolding list_all2_map2 list_all2_same using buf by blast
  show ?thesis
    unfolding sonic_ext_l2_trap_fixup_node_def split_def Let_def run_node_verdicts trap_verdicts
      fst_conv snd_conv node_output_sel list.map_comp comp_def filter_map length_map v
    using bufs by (simp del: not_None_eq)
qed

lemma vnet_demo_table_ok: "sw_table_ok vnet_demo"
  unfolding sw_table_ok_def vnet_demo_def by (auto simp: sw_demo_def split: if_splits)

theorem sonic_ext_l2_trap_fixup_node_correct_witness:
  "nr_nexts (fst (snd (sonic_ext_l2_trap_fixup_node (vlib_demo 7) vnet_demo
       \<lparr>node_trace = False, node_errors = (\<lambda>_. 9)\<rparr> sonic_ext_main_zero
       [(buffer_demo () [])\<lparr>rx_sw_if_index := 3\<rparr>, (buffer_demo () [])\<lparr>rx_sw_if_index := 99\<rparr>]))) = [0, 1]"
  using sonic_ext_l2_trap_fixup_node_correct [OF vnet_demo_table_ok, of "vlib_demo 7"
      "\<lparr>node_trace = False, node_errors = (\<lambda>_. 9)\<rparr>" sonic_ext_main_zero
      "[(buffer_demo () [])\<lparr>rx_sw_if_index := 3\<rparr>, (buffer_demo () [])\<lparr>rx_sw_if_index := 99\<rparr>]"]
  by (simp add: split_def Let_def vnet_demo_def sw_demo_def SONIC_EXT_L2_TRAP_FIXUP_NEXT_PUNT_def
      SONIC_EXT_L2_TRAP_FIXUP_NEXT_DROP_def)

end
