(* ===== verification/Ip2me_Node.thy ===== *)
theory Ip2me_Node
  imports Sonic_Ext_Main
begin

text \<open>
  The nodes \<^verbatim>\<open>sonic-ext-ip2me-ip4\<close> and \<^verbatim>\<open>sonic-ext-ip2me-ip6\<close> (sonic_ext/ip2me_node.c): packets for an address
  of the switch itself skip the ingress ACL. VPP's FIB and load-balance tables are parameters; the vector
  \<^verbatim>\<open>fib_index_by_sw_if_index\<close> has an element for every interface.
\<close>

section \<open>The node\<close>

datatype dpo_type = DPO_RECEIVE | DPO_OTHER nat

record 'lb fib_lookup_api =
  ip4_fib_index_by_sw_if_index :: "u32 \<Rightarrow> u32"
  ip6_fib_index_by_sw_if_index :: "u32 \<Rightarrow> u32"
  ip4_fib_forwarding_lookup :: "u32 \<Rightarrow> u8 list \<Rightarrow> u32"
  ip6_fib_table_fwding_lookup :: "u32 \<Rightarrow> u8 list \<Rightarrow> u32"
  load_balance_get_or_null :: "u32 \<Rightarrow> 'lb option"
  load_balance_get_bucket_i :: "'lb \<Rightarrow> nat \<Rightarrow> dpo_type"

datatype sonic_ext_ip2me_error =
    SONIC_EXT_IP2ME_ERROR_HIT
  | SONIC_EXT_IP2ME_ERROR_PASSTHRU

definition SONIC_EXT_IP2ME_NEXT_ARC_END :: u32 where
  "SONIC_EXT_IP2ME_NEXT_ARC_END = 0"

record sonic_ext_ip2me_trace =
  ip2me_trace_sw_if_index :: u32
  ip2me_trace_fib_index :: u32
  ip2me_trace_is_ip6 :: u8
  ip2me_trace_is_ip2me :: u8

definition sonic_ext_dst_is_local_ip4 :: "'lb fib_lookup_api \<Rightarrow> u32 \<Rightarrow> u8 list \<Rightarrow> bool" where
  "sonic_ext_dst_is_local_ip4 L fib_index dst =
     (if fib_index = -1 then False
      else let lbi = ip4_fib_forwarding_lookup L fib_index dst
           in case load_balance_get_or_null L lbi of
                None \<Rightarrow> False
              | Some lb \<Rightarrow> load_balance_get_bucket_i L lb 0 = DPO_RECEIVE)"

definition sonic_ext_dst_is_local_ip6 :: "'lb fib_lookup_api \<Rightarrow> u32 \<Rightarrow> u8 list \<Rightarrow> bool" where
  "sonic_ext_dst_is_local_ip6 L fib_index dst =
     (if fib_index = -1 then False
      else let lbi = ip6_fib_table_fwding_lookup L fib_index dst
           in case load_balance_get_or_null L lbi of
                None \<Rightarrow> False
              | Some lb \<Rightarrow> load_balance_get_bucket_i L lb 0 = DPO_RECEIVE)"

text \<open>The destination address is at offset 16 of an IPv4 and at offset 24 of an IPv6 header.\<close>

definition sonic_ext_ip2me_step ::
  "'o vlib_api \<Rightarrow> 'lb fib_lookup_api \<Rightarrow> sonic_ext_ip2me_error node_runtime \<Rightarrow> bool \<Rightarrow> unit \<Rightarrow>
   'o vlib_buffer \<Rightarrow> unit \<times> (sonic_ext_ip2me_error, 'o vlib_buffer, sonic_ext_ip2me_trace) verdict" where
  "sonic_ext_ip2me_step V L node is_ip6 s b =
     (let sw_if_index0 = rx_sw_if_index b;
          l3 = vlib_buffer_get_current V b + ethernet_buffer_header_size V b;
          (fib_index0, is_ip2me) =
            (if is_ip6
             then let fib_index0 = ip6_fib_index_by_sw_if_index L sw_if_index0
                  in (fib_index0,
                      sonic_ext_dst_is_local_ip6 L fib_index0 (read_bytes (b_data b) (l3 + 24) 16))
             else let fib_index0 = ip4_fib_index_by_sw_if_index L sw_if_index0
                  in (fib_index0,
                      sonic_ext_dst_is_local_ip4 L fib_index0 (read_bytes (b_data b) (l3 + 16) 4)));
          (e, next0, b) =
            (if is_ip2me then (SONIC_EXT_IP2ME_ERROR_HIT, SONIC_EXT_IP2ME_NEXT_ARC_END, b)
             else let (next0, b) = vnet_feature_next V b
                  in (SONIC_EXT_IP2ME_ERROR_PASSTHRU, next0, b))
      in (s, \<lparr>v_disp = e, v_next = ucast next0, v_buffer = b,
              v_trace = (if traced V node b
                then [\<lparr>ip2me_trace_sw_if_index = sw_if_index0, ip2me_trace_fib_index = fib_index0,
                       ip2me_trace_is_ip6 = (if is_ip6 then 1 else 0),
                       ip2me_trace_is_ip2me = (if is_ip2me then 1 else 0)\<rparr>] else [])\<rparr>))"

definition sonic_ext_ip2me_inline ::
  "'o vlib_api \<Rightarrow> 'lb fib_lookup_api \<Rightarrow> sonic_ext_ip2me_error node_runtime \<Rightarrow> sonic_ext_main \<Rightarrow> bool \<Rightarrow>
   'o vlib_buffer list \<Rightarrow> sonic_ext_main \<times>
   (sonic_ext_ip2me_error, 'o vlib_buffer, sonic_ext_ip2me_trace) node_result \<times>
   (sonic_ext_ip2me_error \<times> u32) list" where
  "sonic_ext_ip2me_inline V L node sem is_ip6 bs =
     (let (_, r) = run_node (sonic_ext_ip2me_step V L node is_ip6) () bs;
          n_ip2me = nr_counts r SONIC_EXT_IP2ME_ERROR_HIT
      in (sem\<lparr>ip2me_hits := ip2me_hits sem + ucast n_ip2me\<rparr>, r,
          counter_calls [SONIC_EXT_IP2ME_ERROR_HIT, SONIC_EXT_IP2ME_ERROR_PASSTHRU] (nr_counts r)))"

definition sonic_ext_ip2me_ip4_node ::
  "'o vlib_api \<Rightarrow> 'lb fib_lookup_api \<Rightarrow> sonic_ext_ip2me_error node_runtime \<Rightarrow> sonic_ext_main \<Rightarrow>
   'o vlib_buffer list \<Rightarrow> sonic_ext_main \<times>
   (sonic_ext_ip2me_error, 'o vlib_buffer, sonic_ext_ip2me_trace) node_result \<times>
   (sonic_ext_ip2me_error \<times> u32) list" where
  "sonic_ext_ip2me_ip4_node V L node sem bs = sonic_ext_ip2me_inline V L node sem False bs"

definition sonic_ext_ip2me_ip6_node ::
  "'o vlib_api \<Rightarrow> 'lb fib_lookup_api \<Rightarrow> sonic_ext_ip2me_error node_runtime \<Rightarrow> sonic_ext_main \<Rightarrow>
   'o vlib_buffer list \<Rightarrow> sonic_ext_main \<times>
   (sonic_ext_ip2me_error, 'o vlib_buffer, sonic_ext_ip2me_trace) node_result \<times>
   (sonic_ext_ip2me_error \<times> u32) list" where
  "sonic_ext_ip2me_ip6_node V L node sem bs = sonic_ext_ip2me_inline V L node sem True bs"

section \<open>Specification\<close>

text \<open>
  A packet is for the switch when its port has a FIB, the FIB forwards its destination to a load-balance
  that exists, and the first bucket is a local receive. Any anomaly means it is not.
\<close>

definition for_us :: "'o vlib_api \<Rightarrow> 'lb fib_lookup_api \<Rightarrow> bool \<Rightarrow> 'o vlib_buffer \<Rightarrow> bool" where
  "for_us V L is_ip6 b \<longleftrightarrow>
     (let l3 = vlib_buffer_get_current V b + ethernet_buffer_header_size V b;
          fib = (if is_ip6 then ip6_fib_index_by_sw_if_index L else ip4_fib_index_by_sw_if_index L)
            (rx_sw_if_index b);
          lbi = (if is_ip6 then ip6_fib_table_fwding_lookup L fib (read_bytes (b_data b) (l3 + 24) 16)
            else ip4_fib_forwarding_lookup L fib (read_bytes (b_data b) (l3 + 16) 4))
      in fib \<noteq> -1 \<and> (\<exists>lb. load_balance_get_or_null L lbi = Some lb \<and>
           load_balance_get_bucket_i L lb 0 = DPO_RECEIVE))"

definition ip2me_steer :: "sonic_ext_ip2me_error \<Rightarrow> u16 option" where
  "ip2me_steer e = (case e of SONIC_EXT_IP2ME_ERROR_HIT \<Rightarrow> Some 0
     | SONIC_EXT_IP2ME_ERROR_PASSTHRU \<Rightarrow> None)"

section \<open>Lemmas\<close>

lemma is_local_for_us:
  "sonic_ext_dst_is_local_ip6 L (ip6_fib_index_by_sw_if_index L (rx_sw_if_index b))
     (read_bytes (b_data b) (vlib_buffer_get_current V b + ethernet_buffer_header_size V b + 24) 16) =
   for_us V L True b"
  "sonic_ext_dst_is_local_ip4 L (ip4_fib_index_by_sw_if_index L (rx_sw_if_index b))
     (read_bytes (b_data b) (vlib_buffer_get_current V b + ethernet_buffer_header_size V b + 16) 4) =
   for_us V L False b"
  by (auto simp: sonic_ext_dst_is_local_ip6_def sonic_ext_dst_is_local_ip4_def for_us_def Let_def
      split: option.splits)

lemma ip2me_step_sel:
  "v_disp (snd (sonic_ext_ip2me_step V L node is_ip6 s b)) =
     (if for_us V L is_ip6 b then SONIC_EXT_IP2ME_ERROR_HIT else SONIC_EXT_IP2ME_ERROR_PASSTHRU)"
  "v_next (snd (sonic_ext_ip2me_step V L node is_ip6 s b)) =
     (if for_us V L is_ip6 b then 0 else ucast (fst (vnet_feature_next V b)))"
  "v_buffer (snd (sonic_ext_ip2me_step V L node is_ip6 s b)) =
     (if for_us V L is_ip6 b then b else snd (vnet_feature_next V b))"
  by (cases is_ip6;
      simp add: sonic_ext_ip2me_step_def split_def Let_def is_local_for_us
        SONIC_EXT_IP2ME_NEXT_ARC_END_def)+

interpretation ip2me_arc: arc_node "sonic_ext_ip2me_step V L node is_ip6"
  "\<lambda>b. ucast (fst (vnet_feature_next V b))" ip2me_steer
  for V L node is_ip6
  by unfold_locales (simp add: ip2me_step_sel ip2me_steer_def)

lemma ip2me_verdicts:
  "verdicts (sonic_ext_ip2me_step V L node is_ip6) () bs =
     map (\<lambda>b. snd (sonic_ext_ip2me_step V L node is_ip6 () b)) bs"
  by (rule verdicts_stateless) simp

lemma ip2me_inline_spec:
  "let (sem', r, calls) = sonic_ext_ip2me_inline V L node sem is_ip6 bs
   in nr_nexts r = map (\<lambda>b. if for_us V L is_ip6 b then 0 else ucast (fst (vnet_feature_next V b))) bs \<and>
      nr_buffers r = map (\<lambda>b. if for_us V L is_ip6 b then b else snd (vnet_feature_next V b)) bs \<and>
      nr_counts r SONIC_EXT_IP2ME_ERROR_HIT = of_nat (length (filter (for_us V L is_ip6) bs)) \<and>
      nr_counts r SONIC_EXT_IP2ME_ERROR_PASSTHRU =
        of_nat (length (filter (\<lambda>b. \<not> for_us V L is_ip6 b) bs)) \<and>
      sem' = sem\<lparr>ip2me_hits := ip2me_hits sem + ucast (nr_counts r SONIC_EXT_IP2ME_ERROR_HIT)\<rparr>"
proof -
  have disp: "(if P then SONIC_EXT_IP2ME_ERROR_HIT else SONIC_EXT_IP2ME_ERROR_PASSTHRU) =
      SONIC_EXT_IP2ME_ERROR_HIT \<longleftrightarrow> P"
    "(if P then SONIC_EXT_IP2ME_ERROR_HIT else SONIC_EXT_IP2ME_ERROR_PASSTHRU) =
      SONIC_EXT_IP2ME_ERROR_PASSTHRU \<longleftrightarrow> \<not> P" for P
    by simp_all
  show ?thesis
    unfolding sonic_ext_ip2me_inline_def split_def Let_def run_node_verdicts ip2me_verdicts
      fst_conv snd_conv node_output_sel list.map_comp comp_def filter_map length_map ip2me_step_sel disp
    by simp
qed

section \<open>Properties\<close>

text \<open>C32: In both flavours, a packet skips the rest of the arc, with its buffer untouched, exactly when its
  destination resolves to a local receive in the FIB of its port; a missing FIB or a stale load-balance
  index sends it on to the ACL as if the node were not there. Both counters are exact and the summary
  counter grows by the hits.\<close>

theorem sonic_ext_ip2me_node_correct:
  "let (sem', r, calls) =
         (if is_ip6 then sonic_ext_ip2me_ip6_node else sonic_ext_ip2me_ip4_node) V L node sem bs
   in nr_nexts r = map (\<lambda>b. if for_us V L is_ip6 b then 0 else ucast (fst (vnet_feature_next V b))) bs \<and>
      nr_buffers r = map (\<lambda>b. if for_us V L is_ip6 b then b else snd (vnet_feature_next V b)) bs \<and>
      nr_counts r SONIC_EXT_IP2ME_ERROR_HIT = of_nat (length (filter (for_us V L is_ip6) bs)) \<and>
      nr_counts r SONIC_EXT_IP2ME_ERROR_PASSTHRU =
        of_nat (length (filter (\<lambda>b. \<not> for_us V L is_ip6 b) bs)) \<and>
      sem' = sem\<lparr>ip2me_hits := ip2me_hits sem + ucast (nr_counts r SONIC_EXT_IP2ME_ERROR_HIT)\<rparr>"
  using ip2me_inline_spec [of V L node sem is_ip6 bs]
  by (cases is_ip6) (simp_all add: sonic_ext_ip2me_ip4_node_def sonic_ext_ip2me_ip6_node_def)

end
