(* ===== verification/Glean_Redirect_Node.thy ===== *)
theory Glean_Redirect_Node
  imports Sonic_Ext_Main
begin

text \<open>
  The node \<^verbatim>\<open>sonic-ext-glean-redirect\<close> (sonic_ext/glean_redirect_node.c) on the IPv4 and IPv6 drop arcs: packets
  dropped for want of a resolved neighbour are handed to Linux on their ingress tap, at a limited rate.
  VPP's adjacency pool, error table, node table and throttle are parameters.
\<close>

section \<open>Environment\<close>

datatype ip_lookup_next = IP_LOOKUP_NEXT_ARP | IP_LOOKUP_NEXT_GLEAN | IP_LOOKUP_NEXT_OTHER nat

record ip_adjacency =
  lookup_next_index :: ip_lookup_next
  rewrite_sw_if_index :: u32

record 'th glean_api =
  vlib_error_get_node :: "u16 \<Rightarrow> u32"
  vlib_get_node_by_name :: "string \<Rightarrow> u32 option"
  adj_is_valid :: "u32 \<Rightarrow> bool"
  adj_get :: "u32 \<Rightarrow> ip_adjacency"
  throttle_init :: "u32 \<Rightarrow> 'th" \<comment> \<open>with \<^verbatim>\<open>THROTTLE_BITS\<close> and a window of 1 ms\<close>
  throttle_seed :: "'th \<Rightarrow> u32 \<Rightarrow> u64 \<times> 'th" \<comment> \<open>at the time of the call\<close>
  throttle_check :: "'th \<Rightarrow> u32 \<Rightarrow> u64 \<Rightarrow> u64 \<Rightarrow> bool \<times> 'th"

definition ADJ_INDEX_INVALID :: u32 where
  "ADJ_INDEX_INVALID = -1"

text \<open>
  Documented behaviour of the throttle: within one seed, a key that was checked stays throttled, and
  checking one key never frees another.
\<close>

definition throttle_ok :: "'th glean_api \<Rightarrow> bool" where
  "throttle_ok G \<longleftrightarrow>
     (\<forall>th ti k seed. fst (throttle_check G (snd (throttle_check G th ti k seed)) ti k seed)) \<and>
     (\<forall>th ti k k' seed. fst (throttle_check G th ti k' seed) \<longrightarrow>
        fst (throttle_check G (snd (throttle_check G th ti k seed)) ti k' seed))"

section \<open>The node\<close>

datatype sonic_ext_glean_redirect_error =
    SONIC_EXT_GLEAN_REDIRECT_ERROR_REDIRECTED
  | SONIC_EXT_GLEAN_REDIRECT_ERROR_NOT_NBR_NODE
  | SONIC_EXT_GLEAN_REDIRECT_ERROR_NOT_GLEAN
  | SONIC_EXT_GLEAN_REDIRECT_ERROR_NO_COOKIE
  | SONIC_EXT_GLEAN_REDIRECT_ERROR_NO_LCP
  | SONIC_EXT_GLEAN_REDIRECT_ERROR_THROTTLED
  | SONIC_EXT_GLEAN_REDIRECT_ERROR_DISABLED

definition SONIC_EXT_GLEAN_REDIRECT_NEXT_INTERFACE_OUTPUT :: u16 where
  "SONIC_EXT_GLEAN_REDIRECT_NEXT_INTERFACE_OUTPUT = 0"

record sonic_ext_glean_redirect_trace =
  glean_trace_orig_rx_sw_if_index :: u32
  glean_trace_host_tap_sw_if_index :: u32
  glean_trace_pushed_vlan_id :: u16
  glean_trace_redirected :: u8

text \<open>The file's static variables: the throttle and the table of nodes whose drops may be taken.\<close>

record 'th sonic_ext_glean_state =
  sonic_ext_glean_throttle :: 'th
  sonic_ext_glean_src_nodes :: "u32 list"

definition sonic_ext_glean_from_nbr_node :: "'th glean_api \<Rightarrow> u32 list \<Rightarrow> 'o vlib_buffer \<Rightarrow> bool" where
  "sonic_ext_glean_from_nbr_node G src_nodes b =
     (let ni = vlib_error_get_node G (b_error b) in list_ex (\<lambda>n. n \<noteq> -1 \<and> ni = n) src_nodes)"

definition sonic_ext_glean_should_redirect :: "'th glean_api \<Rightarrow> vnet_api \<Rightarrow> u32 \<Rightarrow> bool" where
  "sonic_ext_glean_should_redirect G N adj_index =
     (if adj_index = ADJ_INDEX_INVALID \<or> \<not> adj_is_valid G adj_index then False
      else let adj = adj_get G adj_index
           in if lookup_next_index adj \<noteq> IP_LOOKUP_NEXT_GLEAN \<and>
                 lookup_next_index adj \<noteq> IP_LOOKUP_NEXT_ARP then False
              else case vnet_get_sw_interface_or_null N (rewrite_sw_if_index adj) of
                     None \<Rightarrow> False | Some swo \<Rightarrow> True)"

definition glean_key :: "u32 \<Rightarrow> u32 \<Rightarrow> u64" where
  "glean_key adj_index orig_rx = push_bit 32 (ucast adj_index) OR ucast orig_rx"

definition sonic_ext_glean_redirect_step ::
  "sonic_ext_buffer_opaque vlib_api \<Rightarrow> vnet_api \<Rightarrow> 'th glean_api \<Rightarrow>
   sonic_ext_glean_redirect_error node_runtime \<Rightarrow> sonic_ext_main \<Rightarrow> u32 list \<Rightarrow> u32 \<Rightarrow> u64 \<Rightarrow> 'th \<Rightarrow> sbuffer \<Rightarrow>
   'th \<times> (sonic_ext_glean_redirect_error, sbuffer, sonic_ext_glean_redirect_trace) verdict" where
  "sonic_ext_glean_redirect_step V N G node sem src_nodes thread_index seed th b =
     (let adj_index0 = adj_index_tx b;
          (next0, b) = vnet_feature_next V b;
          arc = ucast next0;
          (th, e, next0, b, orig_rx, host_tap, pushed_vlan_id, did_redirect) =
            (if punt_via_member sem = 0
             then (th, SONIC_EXT_GLEAN_REDIRECT_ERROR_DISABLED, arc, b, -1, -1, 0, 0)
             else if \<not> sonic_ext_glean_from_nbr_node G src_nodes b
             then (th, SONIC_EXT_GLEAN_REDIRECT_ERROR_NOT_NBR_NODE, arc, b, -1, -1, 0, 0)
             else if \<not> sonic_ext_glean_should_redirect G N adj_index0
             then (th, SONIC_EXT_GLEAN_REDIRECT_ERROR_NOT_GLEAN, arc, b, -1, -1, 0, 0)
             else if magic (sonic_ext_buffer b) \<noteq> SONIC_EXT_BUFFER_MAGIC
             then (th, SONIC_EXT_GLEAN_REDIRECT_ERROR_NO_COOKIE, arc, b, -1, -1, 0, 0)
             else
               let orig_rx = orig_rx_sw_if_index (sonic_ext_buffer b);
                   key = glean_key adj_index0 orig_rx;
                   (hit, th) = throttle_check G th thread_index key seed
               in if hit
                  then (th, SONIC_EXT_GLEAN_REDIRECT_ERROR_THROTTLED, arc, b, orig_rx, -1, 0, 0)
                  else
                    let (ret, b, host_tap, pushed_tpid, pushed_vlan_id) =
                          sonic_ext_redirect_to_ingress_tap V N b orig_rx (-1)
                    in if \<not> ret
                       then (th, SONIC_EXT_GLEAN_REDIRECT_ERROR_NO_LCP, arc, b, orig_rx, host_tap,
                             pushed_vlan_id, 0)
                       else (th, SONIC_EXT_GLEAN_REDIRECT_ERROR_REDIRECTED,
                             SONIC_EXT_GLEAN_REDIRECT_NEXT_INTERFACE_OUTPUT, b, orig_rx, host_tap,
                             pushed_vlan_id, 1))
      in (th, \<lparr>v_disp = e, v_next = next0, v_buffer = b,
               v_trace = (if traced V node b
                 then [\<lparr>glean_trace_orig_rx_sw_if_index = orig_rx,
                        glean_trace_host_tap_sw_if_index = host_tap,
                        glean_trace_pushed_vlan_id = pushed_vlan_id,
                        glean_trace_redirected = did_redirect\<rparr>] else [])\<rparr>))"

definition sonic_ext_glean_redirect_node ::
  "sonic_ext_buffer_opaque vlib_api \<Rightarrow> vnet_api \<Rightarrow> 'th glean_api \<Rightarrow>
   sonic_ext_glean_redirect_error node_runtime \<Rightarrow> u32 \<Rightarrow> sonic_ext_main \<Rightarrow> 'th sonic_ext_glean_state \<Rightarrow>
   sbuffer list \<Rightarrow> sonic_ext_main \<times> 'th sonic_ext_glean_state \<times>
   (sonic_ext_glean_redirect_error, sbuffer, sonic_ext_glean_redirect_trace) node_result \<times>
   (sonic_ext_glean_redirect_error \<times> u32) list" where
  "sonic_ext_glean_redirect_node V N G node thread_index sem gs bs =
     (let (seed, th) = throttle_seed G (sonic_ext_glean_throttle gs) thread_index;
          (th, r) = run_node (sonic_ext_glean_redirect_step V N G node sem
            (sonic_ext_glean_src_nodes gs) thread_index seed) th bs;
          n_redirected = nr_counts r SONIC_EXT_GLEAN_REDIRECT_ERROR_REDIRECTED
      in (sem\<lparr>glean_redirects := glean_redirects sem + ucast n_redirected\<rparr>,
          gs\<lparr>sonic_ext_glean_throttle := th\<rparr>, r,
          counter_calls [SONIC_EXT_GLEAN_REDIRECT_ERROR_REDIRECTED,
            SONIC_EXT_GLEAN_REDIRECT_ERROR_NOT_NBR_NODE, SONIC_EXT_GLEAN_REDIRECT_ERROR_NOT_GLEAN,
            SONIC_EXT_GLEAN_REDIRECT_ERROR_NO_COOKIE, SONIC_EXT_GLEAN_REDIRECT_ERROR_NO_LCP,
            SONIC_EXT_GLEAN_REDIRECT_ERROR_THROTTLED, SONIC_EXT_GLEAN_REDIRECT_ERROR_DISABLED]
            (nr_counts r)))"

text \<open>Result: the initialised state and the names of the missing nodes, one warning each.\<close>

definition nbr_node_names :: "string list" where
  "nbr_node_names = [''ip4-arp'', ''ip4-glean'', ''ip6-glean'']"

definition sonic_ext_glean_redirect_main_loop_enter ::
  "'th glean_api \<Rightarrow> u32 \<Rightarrow> 'th sonic_ext_glean_state \<times> string list" where
  "sonic_ext_glean_redirect_main_loop_enter G n_vlib_mains =
     (\<lparr>sonic_ext_glean_throttle = throttle_init G n_vlib_mains,
       sonic_ext_glean_src_nodes =
         map (\<lambda>name. case vlib_get_node_by_name G name of None \<Rightarrow> -1 | Some n \<Rightarrow> n) nbr_node_names\<rparr>,
      filter (\<lambda>name. vlib_get_node_by_name G name = None) nbr_node_names)"

section \<open>Specification\<close>

definition glean_steer :: "sonic_ext_glean_redirect_error \<Rightarrow> u16 option" where
  "glean_steer e = (if e = SONIC_EXT_GLEAN_REDIRECT_ERROR_REDIRECTED
     then Some SONIC_EXT_GLEAN_REDIRECT_NEXT_INTERFACE_OUTPUT else None)"

text \<open>A packet the node may take: dropped by a listed node, on an unresolved adjacency, with a cookie.\<close>

definition glean_eligible ::
  "vnet_api \<Rightarrow> 'th glean_api \<Rightarrow> sonic_ext_main \<Rightarrow> u32 list \<Rightarrow> sbuffer \<Rightarrow> bool" where
  "glean_eligible N G sem src_nodes b \<longleftrightarrow>
     punt_via_member sem \<noteq> 0 \<and>
     vlib_error_get_node G (b_error b) \<in> set src_nodes - {-1} \<and>
     adj_index_tx b \<noteq> ADJ_INDEX_INVALID \<and> adj_is_valid G (adj_index_tx b) \<and>
     lookup_next_index (adj_get G (adj_index_tx b)) \<in> {IP_LOOKUP_NEXT_GLEAN, IP_LOOKUP_NEXT_ARP} \<and>
     vnet_get_sw_interface_or_null N (rewrite_sw_if_index (adj_get G (adj_index_tx b))) \<noteq> None \<and>
     magic (sonic_ext_buffer b) = SONIC_EXT_BUFFER_MAGIC"

text \<open>The adjacency and ingress port a packet is rate-limited under.\<close>

definition glean_flow :: "sbuffer \<Rightarrow> u32 \<times> u32" where
  "glean_flow b = (adj_index_tx b, orig_rx_sw_if_index (sonic_ext_buffer b))"

text \<open>
  A packet of a frame was taken: it came with a cookie and left without. \<open>glean_taken\<close> lists the positions of
  the packets taken.
\<close>

definition glean_taken :: "sbuffer list \<Rightarrow> sbuffer list \<Rightarrow> nat list" where
  "glean_taken bs bs' = filter (\<lambda>i. magic (sonic_ext_buffer (bs ! i)) = SONIC_EXT_BUFFER_MAGIC \<and>
     magic (sonic_ext_buffer (bs' ! i)) = 0) [0..<length bs]"

text \<open>The flows of the packets a frame redirects, in order.\<close>

abbreviation redirected_flows ::
  "('th \<Rightarrow> sbuffer \<Rightarrow>
     'th \<times> (sonic_ext_glean_redirect_error, sbuffer, sonic_ext_glean_redirect_trace) verdict) \<Rightarrow>
   'th \<Rightarrow> sbuffer list \<Rightarrow> (u32 \<times> u32) list" where
  "redirected_flows step th bs \<equiv>
     map (\<lambda>(b, v). glean_flow b)
       (filter (\<lambda>(b, v). v_disp v = SONIC_EXT_GLEAN_REDIRECT_ERROR_REDIRECTED)
         (zip bs (verdicts step th bs)))"

text \<open>
  A concrete environment: errors and nodes are numbered alike, adjacency 5 is a glean on interface 1, and
  the throttle is the list of keys checked so far.
\<close>

definition glean_demo :: "u64 list glean_api" where
  "glean_demo =
     \<lparr>vlib_error_get_node = ucast,
      vlib_get_node_by_name = (\<lambda>name. if name = ''ip4-arp'' then Some 10
        else if name = ''ip4-glean'' then Some 11 else if name = ''ip6-glean'' then Some 12
        else if name = ''ip6-discover-neighbor'' then Some 13 else None),
      adj_is_valid = (\<lambda>i. i = 5),
      adj_get = (\<lambda>i. \<lparr>lookup_next_index = IP_LOOKUP_NEXT_GLEAN, rewrite_sw_if_index = 1\<rparr>),
      throttle_init = (\<lambda>n. []),
      throttle_seed = (\<lambda>th ti. (0, th)),
      throttle_check = (\<lambda>th ti k seed. (k \<in> set th, k # th))\<rparr>"

definition glean_frame_demo :: "sbuffer list" where
  "glean_frame_demo =
     (let b = (buffer_demo \<lparr>magic = SONIC_EXT_BUFFER_MAGIC, orig_rx_sw_if_index = 1, orig_vlan_tag = 0\<rparr> [])
            \<lparr>b_error := 11, adj_index_tx := 5\<rparr>
      in [b, b, b\<lparr>b_error := 13\<rparr>])"

section \<open>Lemmas\<close>

lemma glean_demo_throttle_ok: "throttle_ok glean_demo"
  by (simp add: throttle_ok_def glean_demo_def)


lemma glean_key_inject: "glean_key a r = glean_key a' r' \<longleftrightarrow> a = a' \<and> r = r'"
proof -
  have "glean_key a r = le64 r a" for a r
    by (simp add: glean_key_def le64_def or.commute)
  then show ?thesis by auto
qed

lemma from_nbr_node_iff:
  "sonic_ext_glean_from_nbr_node G src_nodes b \<longleftrightarrow>
     vlib_error_get_node G (b_error b) \<in> set src_nodes - {-1}"
  by (auto simp: sonic_ext_glean_from_nbr_node_def Let_def list_ex_iff)

lemma should_redirect_iff:
  "sonic_ext_glean_should_redirect G N adj \<longleftrightarrow>
     adj \<noteq> ADJ_INDEX_INVALID \<and> adj_is_valid G adj \<and>
     lookup_next_index (adj_get G adj) \<in> {IP_LOOKUP_NEXT_GLEAN, IP_LOOKUP_NEXT_ARP} \<and>
     vnet_get_sw_interface_or_null N (rewrite_sw_if_index (adj_get G adj)) \<noteq> None"
  by (auto simp: sonic_ext_glean_should_redirect_def Let_def split: option.splits)

interpretation glean_arc: arc_node
  "sonic_ext_glean_redirect_step V N G node sem src_nodes thread_index seed"
  "\<lambda>b. ucast (fst (vnet_feature_next V b))" glean_steer
  for V N G node sem src_nodes thread_index seed
  by unfold_locales (simp add: sonic_ext_glean_redirect_step_def glean_steer_def split_def Let_def)

text \<open>One packet, in an environment where the step along the arc changes only the arc position.\<close>

lemma glean_step_cases:
  fixes V N and G :: "'th glean_api" and node sem src_nodes ti seed
  assumes V: "vlib_ok V"
  defines "step \<equiv> sonic_ext_glean_redirect_step V N G node sem src_nodes ti seed"
    and "flow_key \<equiv> \<lambda>b. glean_key (adj_index_tx b) (orig_rx_sw_if_index (sonic_ext_buffer b))"
  obtains (passed) "v_disp (snd (step th b)) \<noteq> SONIC_EXT_GLEAN_REDIRECT_ERROR_REDIRECTED"
      "v_buffer (snd (step th b)) = snd (vnet_feature_next V b)"
      "fst (step th b) = th \<or> fst (step th b) = snd (throttle_check G th ti (flow_key b) seed)"
    | (taken) tap where "v_disp (snd (step th b)) = SONIC_EXT_GLEAN_REDIRECT_ERROR_REDIRECTED"
      "glean_eligible N G sem src_nodes b" "\<not> fst (throttle_check G th ti (flow_key b) seed)"
      "ingress_tap N (orig_rx_sw_if_index (sonic_ext_buffer b)) = Some tap" "tap \<noteq> -1"
      "tx_sw_if_index (v_buffer (snd (step th b))) = tap"
      "magic (sonic_ext_buffer (v_buffer (snd (step th b)))) = 0"
      "fst (step th b) = snd (throttle_check G th ti (flow_key b) seed)"
proof -
  obtain ci where nx: "snd (vnet_feature_next V b) = b\<lparr>current_config_index := ci\<rparr>"
    using feature_next_buffer [OF V] by blast
  let ?b = "b\<lparr>current_config_index := ci\<rparr>"
  let ?rx = "orig_rx_sw_if_index (sonic_ext_buffer b)"
  have sel [simp]: "b_error ?b = b_error b" "sonic_ext_buffer ?b = sonic_ext_buffer b"
    by (simp_all add: sonic_ext_buffer_def)
  obtain ret b' tap tpid vid where r: "sonic_ext_redirect_to_ingress_tap V N ?b ?rx (-1) =
      (ret, b', tap, tpid, vid)"
    by (metis prod_cases5)
  note def = step_def flow_key_def sonic_ext_glean_redirect_step_def nx from_nbr_node_iff
    should_redirect_iff split_def Let_def
  show thesis
  proof (cases "glean_eligible N G sem src_nodes b \<and> \<not> fst (throttle_check G th ti (flow_key b) seed) \<and> ret")
    case True
    then have ok: "tap \<noteq> -1 \<and> tx_sw_if_index b' = tap" "magic (sonic_ext_buffer b') = 0"
        "ingress_tap N ?rx = Some tap"
      using ingress.redirected [of V N ?b ?rx "-1" b' tap tpid vid]
        ingress.consumed [OF V, of N ?b ?rx "-1" b' tap tpid vid]
        redirect_tap [of V N ?b ?rx "-1" b' tap tpid vid] r by simp_all
    show thesis
      using True ok r by (intro taken [of tap]) (auto simp: glean_eligible_def def)
  next
    case False
    then have "b' = ?b" if "\<not> ret" using ingress.refused [of V N ?b ?rx "-1" b' tap tpid vid] r that by simp
    with False show thesis
      using r by (intro passed) (auto simp: glean_eligible_def def)
  qed
qed

lemma redirected_flows_distinct:
  fixes V N and G :: "'th glean_api" and node sem src_nodes ti seed
  assumes V: "vlib_ok V" and T: "throttle_ok G"
  defines "step \<equiv> sonic_ext_glean_redirect_step V N G node sem src_nodes ti seed"
    and "hit \<equiv> \<lambda>th f. fst (throttle_check G th ti (glean_key (fst f) (snd f)) seed)"
  shows "distinct (redirected_flows step th bs) \<and>
    (\<forall>f \<in> set (redirected_flows step th bs). \<not> hit th f)"
proof (induction bs arbitrary: th)
  case (Cons b bs)
  have mono: "hit th f \<Longrightarrow> hit (snd (throttle_check G th ti k seed)) f" for th f k
    using T unfolding throttle_ok_def hit_def by blast
  have self: "hit (snd (throttle_check G th ti (glean_key (fst f) (snd f)) seed)) f" for th f
    using T unfolding throttle_ok_def hit_def by blast
  note IH = Cons.IH [of "fst (step th b)"]
  show ?case
  proof (cases rule: glean_step_cases [OF V, of N G node sem src_nodes ti seed th b,
        folded step_def, case_names passed taken])
    case passed
    then have "redirected_flows step th (b # bs) = redirected_flows step (fst (step th b)) bs"
      by (simp add: verdicts_Cons)
    moreover have "hit th f \<Longrightarrow> hit (fst (step th b)) f" for f
      using passed(3) mono by metis
    ultimately show ?thesis using IH by metis
  next
    case (taken tap)
    have key: "glean_key (adj_index_tx b) (orig_rx_sw_if_index (sonic_ext_buffer b)) =
        glean_key (fst (glean_flow b)) (snd (glean_flow b))"
      by (simp add: glean_flow_def)
    have "redirected_flows step th (b # bs) =
        glean_flow b # redirected_flows step (fst (step th b)) bs"
      using taken(1) by (simp add: verdicts_Cons)
    moreover have "hit (fst (step th b)) (glean_flow b)"
      using self [of th "glean_flow b"] taken(8) by (simp add: key)
    moreover have "\<not> hit th (glean_flow b)"
      using taken(3) by (simp add: hit_def key)
    moreover have "hit th f \<Longrightarrow> hit (fst (step th b)) f" for f
      using taken(8) mono by metis
    ultimately show ?thesis using IH by (metis distinct.simps(2) set_ConsD)
  qed
qed (simp add: verdicts_def)

lemma glean_node_packet:
  assumes "vlib_ok V" and "i < length bs"
    and "sonic_ext_glean_redirect_node V N G node ti sem gs bs = (sem', gs', r, calls)"
  shows "nr_nexts r ! i = ucast (fst (vnet_feature_next V (bs ! i))) \<and>
      nr_buffers r ! i = snd (vnet_feature_next V (bs ! i)) \<or>
    nr_nexts r ! i = SONIC_EXT_GLEAN_REDIRECT_NEXT_INTERFACE_OUTPUT \<and>
      glean_eligible N G sem (sonic_ext_glean_src_nodes gs) (bs ! i) \<and>
      ingress_tap N (orig_rx_sw_if_index (sonic_ext_buffer (bs ! i))) =
        Some (tx_sw_if_index (nr_buffers r ! i)) \<and>
      magic (sonic_ext_buffer (nr_buffers r ! i)) = 0"
proof -
  obtain seed th where r: "r = snd (run_node (sonic_ext_glean_redirect_step V N G node sem
      (sonic_ext_glean_src_nodes gs) ti seed) th bs)"
    using assms(3) by (auto simp: sonic_ext_glean_redirect_node_def split_def Let_def)
  let ?step = "sonic_ext_glean_redirect_step V N G node sem (sonic_ext_glean_src_nodes gs) ti seed"
  obtain th' where v: "verdicts ?step th bs ! i = snd (?step th' (bs ! i))"
    using verdicts_nth [OF assms(2), of ?step th] by blast
  have buf: "nr_buffers r ! i = v_buffer (snd (?step th' (bs ! i)))"
    using assms(2) v by (simp add: r run_node_verdicts)
  have nxt: "nr_nexts r ! i = (case glean_steer (v_disp (snd (?step th' (bs ! i)))) of
      None \<Rightarrow> ucast (fst (vnet_feature_next V (bs ! i))) | Some n \<Rightarrow> n)"
    using glean_arc.node_nexts [OF assms(2), of V N G node sem _ ti seed th] v by (simp add: r)
  show ?thesis
    by (cases rule: glean_step_cases [OF assms(1), of N G node sem "sonic_ext_glean_src_nodes gs" ti seed
          th' "bs ! i"]) (simp_all add: buf nxt glean_steer_def)
qed

lemma filter_zip_positions:
  assumes "length ys = length xs"
  shows "filter P (zip xs ys) = map (\<lambda>i. (xs ! i, ys ! i)) (filter (\<lambda>i. P (xs ! i, ys ! i)) [0..<length xs])"
proof -
  have "zip xs ys = map (\<lambda>i. (xs ! i, ys ! i)) [0..<length xs]"
    using assms by (intro nth_equalityI) simp_all
  then show ?thesis by (simp add: filter_map comp_def)
qed

text \<open>The packets taken are those with the verdict REDIRECTED.\<close>

lemma glean_taken_iff:
  assumes "vlib_ok V"
  shows "v_disp (snd (sonic_ext_glean_redirect_step V N G node sem src_nodes ti seed th b)) =
      SONIC_EXT_GLEAN_REDIRECT_ERROR_REDIRECTED \<longleftrightarrow>
    magic (sonic_ext_buffer b) = SONIC_EXT_BUFFER_MAGIC \<and>
    magic (sonic_ext_buffer (v_buffer (snd (sonic_ext_glean_redirect_step V N G node sem src_nodes ti seed th b)))) = 0"
proof (cases rule: glean_step_cases [OF assms, of N G node sem src_nodes ti seed th b, case_names passed taken])
  case passed
  obtain ci where "snd (vnet_feature_next V b) = b\<lparr>current_config_index := ci\<rparr>"
    using feature_next_buffer [OF assms] by blast
  with passed show ?thesis by (simp add: sonic_ext_buffer_def SONIC_EXT_BUFFER_MAGIC_def)
next
  case (taken tap)
  then show ?thesis by (simp add: glean_eligible_def)
qed

lemma glean_taken_flows:
  fixes V N and G :: "'th glean_api" and node sem src_nodes ti seed
  assumes "vlib_ok V"
  defines "step \<equiv> sonic_ext_glean_redirect_step V N G node sem src_nodes ti seed"
  shows "redirected_flows step th bs =
    map (\<lambda>i. glean_flow (bs ! i)) (glean_taken bs (map v_buffer (verdicts step th bs)))"
proof -
  have "v_disp (verdicts step th bs ! i) = SONIC_EXT_GLEAN_REDIRECT_ERROR_REDIRECTED \<longleftrightarrow>
      magic (sonic_ext_buffer (bs ! i)) = SONIC_EXT_BUFFER_MAGIC \<and>
      magic (sonic_ext_buffer (map v_buffer (verdicts step th bs) ! i)) = 0" if "i < length bs" for i
  proof -
    obtain th' where "verdicts step th bs ! i = snd (step th' (bs ! i))"
      using verdicts_nth [OF \<open>i < length bs\<close>, of step th] by blast
    with \<open>i < length bs\<close> show ?thesis by (simp add: step_def glean_taken_iff [OF assms(1)])
  qed
  then have "filter (\<lambda>i. v_disp (verdicts step th bs ! i) = SONIC_EXT_GLEAN_REDIRECT_ERROR_REDIRECTED) [0..<length bs] =
      glean_taken bs (map v_buffer (verdicts step th bs))"
    unfolding glean_taken_def by (intro filter_cong) simp_all
  then show ?thesis by (simp add: filter_zip_positions comp_def)
qed

lemma glean_demo_run:
  assumes "sonic_ext_glean_redirect_node (vlib_demo 7) vnet_demo glean_demo
      \<lparr>node_trace = False, node_errors = (\<lambda>_. 0)\<rparr> 0 (sonic_ext_main_zero\<lparr>punt_via_member := 1\<rparr>)
      (fst (sonic_ext_glean_redirect_main_loop_enter glean_demo 1)) glean_frame_demo = (sem', gs', r, calls)"
  shows "nr_nexts r = [0, 7, 7]"
  using assms
  by (auto simp: sonic_ext_glean_redirect_node_def sonic_ext_glean_redirect_main_loop_enter_def
      nbr_node_names_def glean_demo_def glean_frame_demo_def run_node_def tally_def node_output_def
      sonic_ext_glean_redirect_step_def from_nbr_node_iff should_redirect_iff vlib_demo_def vnet_demo_def
      sw_demo_def pair_demo_def buffer_demo_def sonic_ext_buffer_def ADJ_INDEX_INVALID_def Let_def
      sonic_ext_redirect_to_ingress_tap_def glean_key_def SONIC_EXT_BUFFER_MAGIC_def
      SONIC_EXT_GLEAN_REDIRECT_NEXT_INTERFACE_OUTPUT_def)

section \<open>Properties\<close>

text \<open>C21: A packet on the drop arcs either continues to the drop exactly as if the node were not there, or it
  was eligible (toggle on, dropped by a listed neighbour-resolution node, its TX adjacency valid and
  unresolved with an existing egress, capture cookie present), has a tap for its ingress port, and leaves
  for that tap with its cookie consumed.\<close>

theorem sonic_ext_glean_redirect_only_unresolved:
  assumes "vlib_ok V" and "i < length bs"
    and "sonic_ext_glean_redirect_node V N G node ti sem gs bs = (sem', gs', r, calls)"
  shows "nr_nexts r ! i = ucast (fst (vnet_feature_next V (bs ! i))) \<and>
      nr_buffers r ! i = snd (vnet_feature_next V (bs ! i)) \<or>
    nr_nexts r ! i = SONIC_EXT_GLEAN_REDIRECT_NEXT_INTERFACE_OUTPUT \<and>
      glean_eligible N G sem (sonic_ext_glean_src_nodes gs) (bs ! i) \<and>
      ingress_tap N (orig_rx_sw_if_index (sonic_ext_buffer (bs ! i))) =
        Some (tx_sw_if_index (nr_buffers r ! i)) \<and>
      magic (sonic_ext_buffer (nr_buffers r ! i)) = 0"
  using assms by (rule glean_node_packet)

theorem sonic_ext_glean_redirect_only_unresolved_witness:
  "\<exists>sem' gs' r calls. sonic_ext_glean_redirect_node (vlib_demo 7) vnet_demo glean_demo
      \<lparr>node_trace = False, node_errors = (\<lambda>_. 0)\<rparr> 0 (sonic_ext_main_zero\<lparr>punt_via_member := 1\<rparr>)
      (fst (sonic_ext_glean_redirect_main_loop_enter glean_demo 1)) glean_frame_demo =
      (sem', gs', r, calls) \<and>
    nr_nexts r ! 0 = 0 \<and> tx_sw_if_index (nr_buffers r ! 0) = 2"
proof -
  let ?gs = "fst (sonic_ext_glean_redirect_main_loop_enter glean_demo 1)"
  let ?run = "sonic_ext_glean_redirect_node (vlib_demo 7) vnet_demo glean_demo
      \<lparr>node_trace = False, node_errors = (\<lambda>_. 0)\<rparr> 0 (sonic_ext_main_zero\<lparr>punt_via_member := 1\<rparr>)
      ?gs glean_frame_demo"
  obtain sem' gs' r calls where run: "?run = (sem', gs', r, calls)" by (metis prod_cases4)
  note nexts = glean_demo_run [OF run]
  have "0 < length glean_frame_demo" by (simp add: glean_frame_demo_def Let_def)
  from sonic_ext_glean_redirect_only_unresolved [OF vlib_demo_ok this run] nexts
  have "ingress_tap vnet_demo 1 = Some (tx_sw_if_index (nr_buffers r ! 0))"
    by (auto simp: vlib_demo_def glean_frame_demo_def buffer_demo_def sonic_ext_buffer_def Let_def)
  then have "tx_sw_if_index (nr_buffers r ! 0) = 2"
    by (simp add: ingress_tap_def vnet_demo_def sw_demo_def pair_demo_def)
  with run nexts show ?thesis by auto
qed

text \<open>C33: The rate limit: of the packets of one frame, the node takes at most one per pair of adjacency and ingress
  port (a packet is taken when it came with a cookie and leaves without). The REDIRECTED counter is the number
  of packets taken, so it is at most the number of such pairs in the frame.\<close>

theorem sonic_ext_glean_redirect_rate_limited:
  assumes "vlib_ok V" and "throttle_ok G"
    and "sonic_ext_glean_redirect_node V N G node ti sem gs bs = (sem', gs', r, calls)"
  shows "distinct (map (\<lambda>i. glean_flow (bs ! i)) (glean_taken bs (nr_buffers r))) \<and>
    nr_counts r SONIC_EXT_GLEAN_REDIRECT_ERROR_REDIRECTED = of_nat (length (glean_taken bs (nr_buffers r))) \<and>
    length (glean_taken bs (nr_buffers r)) \<le> card (glean_flow ` set bs)"
proof -
  obtain seed th where r: "r = snd (run_node (sonic_ext_glean_redirect_step V N G node sem
      (sonic_ext_glean_src_nodes gs) ti seed) th bs)"
    using assms(3) by (auto simp: sonic_ext_glean_redirect_node_def split_def Let_def)
  let ?step = "sonic_ext_glean_redirect_step V N G node sem (sonic_ext_glean_src_nodes gs) ti seed"
  let ?red = "filter (\<lambda>v. v_disp v = SONIC_EXT_GLEAN_REDIRECT_ERROR_REDIRECTED) (verdicts ?step th bs)"
  let ?taken = "glean_taken bs (nr_buffers r)"
  have flows: "redirected_flows ?step th bs = map (\<lambda>i. glean_flow (bs ! i)) ?taken"
    using glean_taken_flows [OF assms(1)] by (simp add: r run_node_verdicts)
  have "length (redirected_flows ?step th bs) = length (filter (\<lambda>v. v_disp v =
      SONIC_EXT_GLEAN_REDIRECT_ERROR_REDIRECTED) (map snd (zip bs (verdicts ?step th bs))))"
    by (simp only: filter_map length_map comp_def case_prod_unfold)
  then have len: "length ?red = length ?taken" unfolding flows by simp
  have dist: "distinct (map (\<lambda>i. glean_flow (bs ! i)) ?taken)"
    using redirected_flows_distinct [OF assms(1,2)] unfolding flows [symmetric] by blast
  then have "length ?taken = card ((\<lambda>i. glean_flow (bs ! i)) ` set ?taken)"
    by (metis distinct_card length_map list.set_map)
  also have "\<dots> \<le> card (glean_flow ` set bs)"
    by (rule card_mono) (auto simp: glean_taken_def)
  finally show ?thesis using dist len by (simp add: r run_node_verdicts)
qed

theorem sonic_ext_glean_redirect_rate_limited_witness:
  "\<exists>sem' gs' r calls. sonic_ext_glean_redirect_node (vlib_demo 7) vnet_demo glean_demo
      \<lparr>node_trace = False, node_errors = (\<lambda>_. 0)\<rparr> 0 (sonic_ext_main_zero\<lparr>punt_via_member := 1\<rparr>)
      (fst (sonic_ext_glean_redirect_main_loop_enter glean_demo 1)) glean_frame_demo =
      (sem', gs', r, calls) \<and>
    length (glean_taken glean_frame_demo (nr_buffers r)) \<le> 1"
proof -
  obtain sem' gs' r calls where run: "sonic_ext_glean_redirect_node (vlib_demo 7) vnet_demo glean_demo
      \<lparr>node_trace = False, node_errors = (\<lambda>_. 0)\<rparr> 0 (sonic_ext_main_zero\<lparr>punt_via_member := 1\<rparr>)
      (fst (sonic_ext_glean_redirect_main_loop_enter glean_demo 1)) glean_frame_demo =
      (sem', gs', r, calls)" by (metis prod_cases4)
  have "card (glean_flow ` set glean_frame_demo) = 1"
    by (simp add: glean_frame_demo_def glean_flow_def sonic_ext_buffer_def buffer_demo_def Let_def)
  with run sonic_ext_glean_redirect_rate_limited [OF vlib_demo_ok glean_demo_throttle_ok run]
  show ?thesis by auto
qed

text \<open>With the table the main-loop-enter function builds, drops of any node other than \<^verbatim>\<open>ip4-arp\<close>,
  \<^verbatim>\<open>ip4-glean\<close> and \<^verbatim>\<open>ip6-glean\<close> are never taken; in particular those of \<^verbatim>\<open>ip6-discover-neighbor\<close>, which has
  rewritten the packet's destination. Nodes have distinct indices.\<close>

theorem sonic_ext_glean_never_takes_other_drops:
  assumes "vlib_ok V" and "i < length bs"
    and "sonic_ext_glean_redirect_main_loop_enter G n = (gs, warnings)"
    and "sonic_ext_glean_redirect_node V N G node ti sem gs bs = (sem', gs', r, calls)"
    and "vlib_get_node_by_name G name = Some (vlib_error_get_node G (b_error (bs ! i)))"
    and "name \<notin> set nbr_node_names"
    and "\<forall>a c ni. vlib_get_node_by_name G a = Some ni \<and> vlib_get_node_by_name G c = Some ni \<longrightarrow> a = c"
  shows "nr_nexts r ! i = ucast (fst (vnet_feature_next V (bs ! i))) \<and>
    nr_buffers r ! i = snd (vnet_feature_next V (bs ! i))"
proof -
  let ?ni = "vlib_error_get_node G (b_error (bs ! i))"
  have "?ni \<notin> set (sonic_ext_glean_src_nodes gs) - {-1}"
  proof
    assume "?ni \<in> set (sonic_ext_glean_src_nodes gs) - {-1}"
    then obtain c where "c \<in> set nbr_node_names" "vlib_get_node_by_name G c = Some ?ni"
      using assms(3) by (auto simp: sonic_ext_glean_redirect_main_loop_enter_def split: option.splits)
    with assms(5-7) show False by metis
  qed
  then have "\<not> glean_eligible N G sem (sonic_ext_glean_src_nodes gs) (bs ! i)"
    by (simp add: glean_eligible_def)
  with glean_node_packet [OF assms(1,2,4)] show ?thesis by blast
qed

theorem sonic_ext_glean_never_takes_other_drops_witness:
  "\<exists>sem' gs' r calls. sonic_ext_glean_redirect_node (vlib_demo 7) vnet_demo glean_demo
      \<lparr>node_trace = False, node_errors = (\<lambda>_. 0)\<rparr> 0 (sonic_ext_main_zero\<lparr>punt_via_member := 1\<rparr>)
      (fst (sonic_ext_glean_redirect_main_loop_enter glean_demo 1)) glean_frame_demo =
      (sem', gs', r, calls) \<and> nr_nexts r ! 2 = 7"
proof -
  obtain sem' gs' r calls where run: "sonic_ext_glean_redirect_node (vlib_demo 7) vnet_demo glean_demo
      \<lparr>node_trace = False, node_errors = (\<lambda>_. 0)\<rparr> 0 (sonic_ext_main_zero\<lparr>punt_via_member := 1\<rparr>)
      (fst (sonic_ext_glean_redirect_main_loop_enter glean_demo 1)) glean_frame_demo =
      (sem', gs', r, calls)" by (metis prod_cases4)
  have "2 < length glean_frame_demo" by (simp add: glean_frame_demo_def Let_def)
  moreover have "vlib_get_node_by_name glean_demo ''ip6-discover-neighbor'' =
      Some (vlib_error_get_node glean_demo (b_error (glean_frame_demo ! 2)))"
    by (simp add: glean_demo_def glean_frame_demo_def Let_def)
  moreover have "''ip6-discover-neighbor'' \<notin> set nbr_node_names" by (simp add: nbr_node_names_def)
  moreover have "\<forall>a c ni. vlib_get_node_by_name glean_demo a = Some ni \<and>
      vlib_get_node_by_name glean_demo c = Some ni \<longrightarrow> a = c"
    by (auto simp: glean_demo_def split: if_splits)
  ultimately have "nr_nexts r ! 2 = ucast (fst (vnet_feature_next (vlib_demo 7) (glean_frame_demo ! 2)))"
    using sonic_ext_glean_never_takes_other_drops [OF vlib_demo_ok _ _ run, of 2 1
        "snd (sonic_ext_glean_redirect_main_loop_enter glean_demo 1)"] by fastforce
  then have "nr_nexts r ! 2 = 7" by (simp add: vlib_demo_def)
  with run show ?thesis by auto
qed

end
