(* ===== verification/Node_Graph.thy ===== *)
theory Node_Graph
  imports Tunterm_Bypass Tunterm_Node Ip_Validate Sonic_Ext_Config Capture_Node Host_Xc_Node L2_Trap_Fixup_Node
    Ip2me_Node Aggr_Tap_Redirect_Node Glean_Redirect_Node
begin

text \<open>
  The registrations of the nodes (\<^verbatim>\<open>VLIB_REGISTER_NODE\<close>) and of their features (\<^verbatim>\<open>VNET_FEATURE_INIT\<close>), as far as they
  decide where packets go: the name of a node, its next nodes by index, the node whose next nodes it shares, and
  for a feature its arc and the features it runs before and after. Vector sizes, trace formats and the texts of
  the counters are left out.
\<close>

section \<open>Registrations\<close>

record node_registration =
  reg_name :: string
  reg_next_nodes :: "string list"
  reg_sibling_of :: "string option"

record feature_registration =
  feat_arc :: string
  feat_node :: string
  feat_runs_before :: "string list"
  feat_runs_after :: "string list"

definition ip4_validate_node_reg :: node_registration where
  "ip4_validate_node_reg =
     \<lparr>reg_name = ''ip4-validate'', reg_next_nodes = [''error-drop'', ''ip4-lookup''], reg_sibling_of = None\<rparr>"

definition ip4_validate_feat :: feature_registration where
  "ip4_validate_feat = \<lparr>feat_arc = ''ip4-unicast'', feat_node = ''ip4-validate'',
     feat_runs_before = [''ip4-lookup''], feat_runs_after = []\<rparr>"

definition ip6_validate_node_reg :: node_registration where
  "ip6_validate_node_reg =
     \<lparr>reg_name = ''ip6-validate'', reg_next_nodes = [''error-drop'', ''ip6-lookup''], reg_sibling_of = None\<rparr>"

definition ip6_validate_feat :: feature_registration where
  "ip6_validate_feat = \<lparr>feat_arc = ''ip6-unicast'', feat_node = ''ip6-validate'',
     feat_runs_before = [''ip6-lookup''], feat_runs_after = []\<rparr>"

definition sonic_ext_capture_node_reg :: node_registration where
  "sonic_ext_capture_node_reg =
     \<lparr>reg_name = ''sonic-ext-capture'', reg_next_nodes = [], reg_sibling_of = Some ''device-input''\<rparr>"

definition sonic_ext_capture_feat :: feature_registration where
  "sonic_ext_capture_feat = \<lparr>feat_arc = ''device-input'', feat_node = ''sonic-ext-capture'',
     feat_runs_before = [''ethernet-input''], feat_runs_after = []\<rparr>"

definition sonic_ext_host_xc_node_reg :: node_registration where
  "sonic_ext_host_xc_node_reg =
     \<lparr>reg_name = ''sonic-ext-host-xc'', reg_next_nodes = [''error-drop'', ''interface-output''],
      reg_sibling_of = None\<rparr>"

definition sonic_ext_host_xc_feat :: feature_registration where
  "sonic_ext_host_xc_feat = \<lparr>feat_arc = ''device-input'', feat_node = ''sonic-ext-host-xc'',
     feat_runs_before = [''ethernet-input''], feat_runs_after = [''sonic-ext-capture'']\<rparr>"

definition sonic_ext_aggr_tap_redirect_node_reg :: node_registration where
  "sonic_ext_aggr_tap_redirect_node_reg =
     \<lparr>reg_name = ''sonic-ext-aggr-tap-redirect'', reg_next_nodes = [''interface-output''], reg_sibling_of = None\<rparr>"

definition sonic_ext_aggr_tap_redirect_feat :: feature_registration where
  "sonic_ext_aggr_tap_redirect_feat = \<lparr>feat_arc = ''interface-output'', feat_node = ''sonic-ext-aggr-tap-redirect'',
     feat_runs_before = [], feat_runs_after = []\<rparr>"

definition sonic_ext_glean_redirect_node_reg :: node_registration where
  "sonic_ext_glean_redirect_node_reg =
     \<lparr>reg_name = ''sonic-ext-glean-redirect'', reg_next_nodes = [''interface-output''], reg_sibling_of = None\<rparr>"

definition sonic_ext_glean_redirect_ip4 :: feature_registration where
  "sonic_ext_glean_redirect_ip4 = \<lparr>feat_arc = ''ip4-drop'', feat_node = ''sonic-ext-glean-redirect'',
     feat_runs_before = [], feat_runs_after = []\<rparr>"

definition sonic_ext_glean_redirect_ip6 :: feature_registration where
  "sonic_ext_glean_redirect_ip6 = \<lparr>feat_arc = ''ip6-drop'', feat_node = ''sonic-ext-glean-redirect'',
     feat_runs_before = [], feat_runs_after = []\<rparr>"

definition sonic_ext_ip2me_ip4_node_reg :: node_registration where
  "sonic_ext_ip2me_ip4_node_reg =
     \<lparr>reg_name = ''sonic-ext-ip2me-ip4'', reg_next_nodes = [''l2-input-feat-arc-end''], reg_sibling_of = None\<rparr>"

definition sonic_ext_ip2me_ip6_node_reg :: node_registration where
  "sonic_ext_ip2me_ip6_node_reg =
     \<lparr>reg_name = ''sonic-ext-ip2me-ip6'', reg_next_nodes = [''l2-input-feat-arc-end''], reg_sibling_of = None\<rparr>"

definition sonic_ext_ip2me_ip4_feat :: feature_registration where
  "sonic_ext_ip2me_ip4_feat = \<lparr>feat_arc = ''l2-input-ip4'', feat_node = ''sonic-ext-ip2me-ip4'',
     feat_runs_before = [''acl-plugin-in-ip4-l2''], feat_runs_after = []\<rparr>"

definition sonic_ext_ip2me_ip6_feat :: feature_registration where
  "sonic_ext_ip2me_ip6_feat = \<lparr>feat_arc = ''l2-input-ip6'', feat_node = ''sonic-ext-ip2me-ip6'',
     feat_runs_before = [''acl-plugin-in-ip6-l2''], feat_runs_after = []\<rparr>"

definition sonic_ext_l2_trap_fixup_node_reg :: node_registration where
  "sonic_ext_l2_trap_fixup_node_reg =
     \<lparr>reg_name = ''sonic-ext-l2-trap-fixup'', reg_next_nodes = [''linux-cp-punt'', ''error-drop''],
      reg_sibling_of = None\<rparr>"

definition tunterm_acl_node_reg :: node_registration where
  "tunterm_acl_node_reg =
     \<lparr>reg_name = ''tunterm-acl'', reg_next_nodes = [''error-drop'', ''vxlan4-input''], reg_sibling_of = None\<rparr>"

definition tunterm_acl_ip4_vxlan_bypass_node_reg :: node_registration where
  "tunterm_acl_ip4_vxlan_bypass_node_reg =
     \<lparr>reg_name = ''tunterm-ip4-vxlan-bypass'', reg_next_nodes = [''error-drop'', ''vxlan4-input'', ''tunterm-acl''],
      reg_sibling_of = None\<rparr>"

definition tunterm_acl_ip4_vxlan_bypass :: feature_registration where
  "tunterm_acl_ip4_vxlan_bypass = \<lparr>feat_arc = ''ip4-unicast'', feat_node = ''tunterm-ip4-vxlan-bypass'',
     feat_runs_before = [''ip4-lookup''], feat_runs_after = []\<rparr>"

section \<open>The graph\<close>

definition node_registrations :: "node_registration list" where
  "node_registrations =
     [ip4_validate_node_reg, ip6_validate_node_reg, sonic_ext_capture_node_reg, sonic_ext_host_xc_node_reg,
      sonic_ext_aggr_tap_redirect_node_reg, sonic_ext_glean_redirect_node_reg, sonic_ext_ip2me_ip4_node_reg,
      sonic_ext_ip2me_ip6_node_reg, sonic_ext_l2_trap_fixup_node_reg, tunterm_acl_node_reg,
      tunterm_acl_ip4_vxlan_bypass_node_reg]"

definition feature_registrations :: "feature_registration list" where
  "feature_registrations =
     [ip4_validate_feat, ip6_validate_feat, sonic_ext_capture_feat, sonic_ext_host_xc_feat,
      sonic_ext_aggr_tap_redirect_feat, sonic_ext_glean_redirect_ip4, sonic_ext_glean_redirect_ip6,
      sonic_ext_ip2me_ip4_feat, sonic_ext_ip2me_ip6_feat, tunterm_acl_ip4_vxlan_bypass]"

text \<open>The feature calls VPP accepts for these plugins: the feature is registered on the arc, and its node exists.\<close>

definition registered :: "string \<Rightarrow> string \<Rightarrow> bool" where
  "registered arc node \<longleftrightarrow>
     list_ex (\<lambda>r. feat_arc r = arc \<and> feat_node r = node) feature_registrations \<and>
     node \<in> set (map reg_name node_registrations)"

text \<open>What the calls on registered features keep, whether they succeed or not.\<close>

definition feature_stable :: "'w feature_api \<Rightarrow> ('w \<Rightarrow> bool) \<Rightarrow> bool" where
  "feature_stable F P \<longleftrightarrow> (\<forall>arc node i en w. registered arc node \<longrightarrow> P w \<longrightarrow>
     P (snd (vnet_feature_enable_disable F arc node i en w)) \<and>
     P (snd (vnet_l2_feature_enable_disable F arc node i en w)))"

text \<open>For the recorder: every recorded call names a registered feature.\<close>

definition calls_registered :: "feature_call list \<Rightarrow> bool" where
  "calls_registered w \<longleftrightarrow> list_all (\<lambda>c. case c of
     FeatureCall arc node i en \<Rightarrow> registered arc node | L2FeatureCall arc node i en \<Rightarrow> registered arc node) w"

text \<open>The node behind a next index.\<close>

definition next_node :: "node_registration \<Rightarrow> nat \<Rightarrow> string option" where
  "next_node r i = (if i < length (reg_next_nodes r) then Some (reg_next_nodes r ! i) else None)"

lemmas registration_defs = node_registrations_def feature_registrations_def
  ip4_validate_node_reg_def ip6_validate_node_reg_def sonic_ext_capture_node_reg_def sonic_ext_host_xc_node_reg_def
  sonic_ext_aggr_tap_redirect_node_reg_def sonic_ext_glean_redirect_node_reg_def sonic_ext_ip2me_ip4_node_reg_def
  sonic_ext_ip2me_ip6_node_reg_def sonic_ext_l2_trap_fixup_node_reg_def tunterm_acl_node_reg_def
  tunterm_acl_ip4_vxlan_bypass_node_reg_def ip4_validate_feat_def ip6_validate_feat_def sonic_ext_capture_feat_def
  sonic_ext_host_xc_feat_def sonic_ext_aggr_tap_redirect_feat_def sonic_ext_glean_redirect_ip4_def
  sonic_ext_glean_redirect_ip6_def sonic_ext_ip2me_ip4_feat_def sonic_ext_ip2me_ip6_feat_def
  tunterm_acl_ip4_vxlan_bypass_def

text \<open>The next indices of the node functions name the nodes they are meant for.\<close>

lemma next_indices:
  "next_node ip4_validate_node_reg (unat IP4_VALIDATE_NEXT_DROP) = Some ''error-drop''"
  "next_node ip6_validate_node_reg (unat IP6_VALIDATE_NEXT_DROP) = Some ''error-drop''"
  "next_node sonic_ext_host_xc_node_reg (unat SONIC_EXT_HOST_XC_NEXT_INTF_OUTPUT) = Some ''interface-output''"
  "next_node sonic_ext_aggr_tap_redirect_node_reg (unat SONIC_EXT_AGGR_TAP_REDIRECT_NEXT_INTERFACE_OUTPUT) =
     Some ''interface-output''"
  "next_node sonic_ext_glean_redirect_node_reg (unat SONIC_EXT_GLEAN_REDIRECT_NEXT_INTERFACE_OUTPUT) =
     Some ''interface-output''"
  "next_node sonic_ext_ip2me_ip4_node_reg (unat SONIC_EXT_IP2ME_NEXT_ARC_END) = Some ''l2-input-feat-arc-end''"
  "next_node sonic_ext_ip2me_ip6_node_reg (unat SONIC_EXT_IP2ME_NEXT_ARC_END) = Some ''l2-input-feat-arc-end''"
  "next_node sonic_ext_l2_trap_fixup_node_reg (unat SONIC_EXT_L2_TRAP_FIXUP_NEXT_PUNT) = Some ''linux-cp-punt''"
  "next_node sonic_ext_l2_trap_fixup_node_reg (unat SONIC_EXT_L2_TRAP_FIXUP_NEXT_DROP) = Some ''error-drop''"
  "next_node tunterm_acl_node_reg (unat TUNTERM_ACL_NEXT_VXLAN4_INPUT) = Some ''vxlan4-input''"
  "next_node tunterm_acl_ip4_vxlan_bypass_node_reg (unat IP_VXLAN_BYPASS_NEXT_DROP) = Some ''error-drop''"
  "next_node tunterm_acl_ip4_vxlan_bypass_node_reg (unat IP_VXLAN_BYPASS_NEXT_TUNTERM) =
     Some (reg_name tunterm_acl_node_reg)"
  by (simp_all add: next_node_def registration_defs IP4_VALIDATE_NEXT_DROP_def IP6_VALIDATE_NEXT_DROP_def
      SONIC_EXT_HOST_XC_NEXT_INTF_OUTPUT_def SONIC_EXT_AGGR_TAP_REDIRECT_NEXT_INTERFACE_OUTPUT_def
      SONIC_EXT_GLEAN_REDIRECT_NEXT_INTERFACE_OUTPUT_def SONIC_EXT_IP2ME_NEXT_ARC_END_def
      SONIC_EXT_L2_TRAP_FIXUP_NEXT_PUNT_def SONIC_EXT_L2_TRAP_FIXUP_NEXT_DROP_def TUNTERM_ACL_NEXT_VXLAN4_INPUT_def
      IP_VXLAN_BYPASS_NEXT_DROP_def IP_VXLAN_BYPASS_NEXT_TUNTERM_def)

section \<open>Features the control planes ask for\<close>

lemma registered_features:
  "registered ''ip4-unicast'' ''ip4-validate''" "registered ''ip6-unicast'' ''ip6-validate''"
  "registered ''device-input'' ''sonic-ext-capture''" "registered ''device-input'' ''sonic-ext-host-xc''"
  "registered ''interface-output'' ''sonic-ext-aggr-tap-redirect''"
  "registered ''ip4-drop'' ''sonic-ext-glean-redirect''" "registered ''ip6-drop'' ''sonic-ext-glean-redirect''"
  "registered ''l2-input-ip4'' ''sonic-ext-ip2me-ip4''" "registered ''l2-input-ip6'' ''sonic-ext-ip2me-ip6''"
  "registered ''ip4-unicast'' ''tunterm-ip4-vxlan-bypass''"
  by (simp_all add: registered_def registration_defs)

lemma stable_feature:
  assumes "feature_stable F P" and "P w" and "registered arc node"
  shows "P (snd (vnet_feature_enable_disable F arc node i en w))"
    and "P (snd (vnet_l2_feature_enable_disable F arc node i en w))"
  using assms unfolding feature_stable_def by blast+

lemma stable_sonic_calls:
  assumes "feature_stable F P" and "P w"
  shows "P (sonic_ext_capture_enable_disable N F i en w)"
    and "P (sonic_ext_host_xc_enable_disable N F i en w)"
    and "P (sonic_ext_aggr_tap_redirect_enable_disable F i en w)"
    and "P (sonic_ext_glean_redirect_enable_disable F en w)"
    and "P (sonic_ext_ip2me_enable_disable F i en w)"
  using assms(2) registered_features stable_feature [OF assms(1)]
  by (simp_all add: sonic_ext_capture_enable_disable_def sonic_ext_host_xc_enable_disable_def
      sonic_ext_aggr_tap_redirect_enable_disable_def sonic_ext_glean_redirect_enable_disable_def
      sonic_ext_ip2me_enable_disable_def Let_def)

lemma stable_walk:
  assumes "\<And>x w. P w \<Longrightarrow> P (f x w)" and "P w"
  shows "P (fold f xs w)"
  using assms(2) by (induction xs arbitrary: w) (simp_all add: assms(1))

lemma stable_toggles:
  assumes "feature_stable F P" and "P w"
  shows "P (snd (sonic_ext_set_punt_via_member N F is_enable (sem, w)))"
    and "P (snd (sonic_ext_set_host_xc N F is_enable (sem, w)))"
proof -
  note calls = stable_sonic_calls [OF assms(1)]
  have walk: "P (fold (sonic_ext_capture_walk_enable_cb N F) ps w)" "P (fold (sonic_ext_host_xc_walk_enable_cb N F) ps w)"
    if "P w" for ps w
    using that by (rule stable_walk [rotated];
      simp add: sonic_ext_capture_walk_enable_cb_def sonic_ext_host_xc_walk_enable_cb_def calls split: option.split)+
  show "P (snd (sonic_ext_set_punt_via_member N F is_enable (sem, w)))"
    "P (snd (sonic_ext_set_host_xc N F is_enable (sem, w)))"
    using assms(2) walk calls(4)
    by (simp_all add: sonic_ext_set_punt_via_member_def sonic_ext_set_host_xc_def Let_def)
qed

lemma stable_ext_config:
  assumes "ext_config N F w0 ps sem w" and F: "feature_stable F P" and "P w0"
  shows "P w"
  using assms(1)
proof (induction rule: ext_config.induct)
  case (init sem w)
  have "P (snd (sonic_ext_init (with_pairs N []) F w0))"
    unfolding sonic_ext_init_def using stable_toggles [OF F] assms(3) by (metis surjective_pairing)
  with init show ?case by simp
next
  case (punt ps sem w is_enable sem' w')
  then show ?case using stable_toggles(1) [OF F, of w "with_pairs N ps" is_enable sem] by simp
next
  case (host ps sem w is_enable sem' w')
  then show ?case using stable_toggles(2) [OF F, of w "with_pairs N ps" is_enable sem] by simp
next
  case (add ps sem w lip w')
  then show ?case by (auto simp: sonic_ext_lcp_pair_add_cb_def Let_def stable_sonic_calls [OF F])
next
  case (del ps sem w lip w')
  then show ?case by (auto simp: sonic_ext_lcp_pair_del_cb_def Let_def stable_sonic_calls [OF F])
next
  case (api ps sem w mp rv w')
  then show ?case
    by (auto simp: vl_api_sonic_ext_ip2me_enable_disable_t_handler_def Let_def stable_sonic_calls [OF F] split: if_splits)
next
  case (ip2me ps sem w i en w')
  then show ?case by (auto simp: stable_sonic_calls [OF F])
qed

lemma stable_ip_validate:
  assumes "feature_stable F P" and "P w"
  shows "P (interface_events F es w)"
    and "P (snd (vl_api_ip_validate_enable_disable_t_handler valid F mp w))"
proof -
  note call = stable_feature(1) [OF assms(1)] and reg = registered_features(1,2)
  show "P (interface_events F es w)"
    using assms(2) by (induction es arbitrary: w)
      (simp_all add: ip_validate_sw_interface_add_del_def split_def Let_def call reg)
  show "P (snd (vl_api_ip_validate_enable_disable_t_handler valid F mp w))"
    using assms(2) by (simp add: vl_api_ip_validate_enable_disable_t_handler_def split_def Let_def call reg)
qed

lemma stable_attach:
  assumes "feature_stable F P" and "P w"
    and "vl_api_tunterm_acl_interface_add_del_t_handler A F mi (sm, im, w) = Some (rv, sm', im', w')"
  shows "P w'"
  using assms(2,3) stable_feature(1) [OF assms(1) _ registered_features(10)]
  by (auto simp: vl_api_tunterm_acl_interface_add_del_t_handler_def tunterm_bypass_enable_disable_def
      split_def Let_def split: if_splits)

lemma recorder_stable: "feature_stable feature_recorder calls_registered"
  by (simp add: feature_stable_def calls_registered_def feature_recorder_def)

end
