(* ===== verification/Trace_Format.thy ===== *)
theory Trace_Format
  imports Ip4_Validate Ip6_Validate Capture_Node Aggr_Tap_Redirect_Node Glean_Redirect_Node Host_Xc_Node Ip2me_Node
    L2_Trap_Fixup_Node Tunterm_Node
begin

text \<open>
  The trace formatters (\<^verbatim>\<open>format_*_trace\<close>) and the counter texts of the nodes.

  The formatters hand a format string and the fields of a trace record to \<^verbatim>\<open>format\<close> of VPP, which is a parameter;
  \<open>format_ok\<close> states the printf-like behaviour of the directives the plugins use. The lines are shown to determine
  the records, up to the fields a formatter leaves out on purpose.
\<close>

section \<open>VPP's format\<close>

text \<open>An argument of \<^verbatim>\<open>format\<close>: an integer (narrower ones are promoted to 32 bits), a C string, or a formatting function
  with its argument (\<^verbatim>\<open>%U\<close>), given by the text it appends.\<close>

datatype fmt_arg = Val u32 | Str string | User string

record format_api =
  format :: "string \<Rightarrow> string \<Rightarrow> fmt_arg list \<Rightarrow> string"
  format_ip4_address :: "u32 \<Rightarrow> string"
  format_ip6_address :: "u8 list \<Rightarrow> string"

section \<open>The trace formatters\<close>

definition format_ip4_validate_trace :: "format_api \<Rightarrow> string \<Rightarrow> ip4_validate_trace \<Rightarrow> string" where
  "format_ip4_validate_trace F s t =
     format F s ''IP4-VALIDATE: sw_if_index %d next %d src %U dst %U''
       [Val (ip4_trace_sw_if_index t), Val (ip4_trace_next_index t),
        User (format_ip4_address F (ip4_trace_src_addr t)), User (format_ip4_address F (ip4_trace_dst_addr t))]"

definition format_ip6_validate_trace :: "format_api \<Rightarrow> string \<Rightarrow> ip6_validate_trace \<Rightarrow> string" where
  "format_ip6_validate_trace F s t =
     format F s ''IP6-VALIDATE: sw_if_index %d next %d src %U dst %U''
       [Val (ip6_trace_sw_if_index t), Val (ip6_trace_next_index t),
        User (format_ip6_address F (ip6_trace_src_addr t)), User (format_ip6_address F (ip6_trace_dst_addr t))]"

definition format_sonic_ext_capture_trace :: "format_api \<Rightarrow> string \<Rightarrow> sonic_ext_capture_trace \<Rightarrow> string" where
  "format_sonic_ext_capture_trace F s t =
     format F s ''SONIC-EXT-CAPTURE: sw_if_index %d'' [Val (capture_trace_sw_if_index t)]"

definition format_sonic_ext_aggr_tap_redirect_trace ::
  "format_api \<Rightarrow> string \<Rightarrow> sonic_ext_aggr_tap_redirect_trace \<Rightarrow> string" where
  "format_sonic_ext_aggr_tap_redirect_trace F s t =
     (let s = format F s ''SONIC-EXT-AGGR-TAP-REDIRECT: aggr-tap %u orig-rx %u member-tap %u''
            [Val (aggr_trace_aggr_tap_sw_if_index t), Val (aggr_trace_orig_rx_sw_if_index t),
             Val (aggr_trace_member_tap_sw_if_index t)];
          s = (if aggr_trace_pushed_tpid t \<noteq> 0
               then format F s '' vlan-pushed vid %u tpid 0x%04x''
                 [Val (ucast (aggr_trace_pushed_vlan_id t)), Val (ucast (aggr_trace_pushed_tpid t))]
               else s)
      in format F s '' %s'' [Str (if aggr_trace_redirected t \<noteq> 0 then ''REDIRECTED'' else ''passthru'')])"

definition format_sonic_ext_glean_redirect_trace ::
  "format_api \<Rightarrow> string \<Rightarrow> sonic_ext_glean_redirect_trace \<Rightarrow> string" where
  "format_sonic_ext_glean_redirect_trace F s t =
     format F s ''SONIC-EXT-GLEAN-REDIRECT: orig-rx %u host-tap %u vlan %u %s''
       [Val (glean_trace_orig_rx_sw_if_index t), Val (glean_trace_host_tap_sw_if_index t),
        Val (ucast (glean_trace_pushed_vlan_id t)),
        Str (if glean_trace_redirected t \<noteq> 0 then ''REDIRECTED'' else ''passthru'')]"

definition format_sonic_ext_host_xc_trace :: "format_api \<Rightarrow> string \<Rightarrow> sonic_ext_host_xc_trace \<Rightarrow> string" where
  "format_sonic_ext_host_xc_trace F s t =
     (let mode = (if host_xc_trace_mode t = SONIC_EXT_HOST_XC_MODE_DIRECT then ''DIRECT->interface-output''
                  else ''passthru'')
      in format F s ''SONIC-EXT-HOST-XC: rx %u phy %u %s''
           [Val (host_xc_trace_rx_sw_if_index t), Val (host_xc_trace_phy_sw_if_index t), Str mode])"

definition format_sonic_ext_ip2me_trace :: "format_api \<Rightarrow> string \<Rightarrow> sonic_ext_ip2me_trace \<Rightarrow> string" where
  "format_sonic_ext_ip2me_trace F s t =
     format F s ''SONIC-EXT-IP2ME: %s sw_if_index %u fib %u -> %s''
       [Str (if ip2me_trace_is_ip6 t \<noteq> 0 then ''ip6'' else ''ip4''), Val (ip2me_trace_sw_if_index t),
        Val (ip2me_trace_fib_index t),
        Str (if ip2me_trace_is_ip2me t \<noteq> 0 then ''IP2ME (bypass ACL)'' else ''passthru (to ACL)'')]"

definition format_sonic_ext_l2_trap_fixup_trace ::
  "format_api \<Rightarrow> string \<Rightarrow> sonic_ext_l2_trap_fixup_trace \<Rightarrow> string" where
  "format_sonic_ext_l2_trap_fixup_trace F s t =
     format F s ''SONIC-EXT-L2-TRAP-FIXUP: rx %u -> punt_rx %u %s''
       [Val (trap_trace_rx_sw_if_index t), Val (trap_trace_punt_rx_sw_if_index t),
        Str (if trap_trace_dropped t \<noteq> 0 then ''DROPPED'' else ''PUNTED'')]"

definition format_tunterm_acl_trace :: "format_api \<Rightarrow> string \<Rightarrow> tunterm_acl_trace \<Rightarrow> string" where
  "format_tunterm_acl_trace F s t =
     format F s ''TUNTERM: sw_if_index %d next %d index %d''
       [Val (acl_trace_sw_if_index t), Val (acl_trace_next_index t), Val (acl_trace_index t)]"

section \<open>The counter texts\<close>

fun ip4_validate_error_strings :: "ip4_validate_error \<Rightarrow> string" where
  "ip4_validate_error_strings IP4_VALIDATE_ERROR_VALID = ''valid packets''"
| "ip4_validate_error_strings IP4_VALIDATE_ERROR_SRC_LOOPBACK = ''source address is loopback''"
| "ip4_validate_error_strings IP4_VALIDATE_ERROR_SRC_MULTICAST = ''source address is multicast''"
| "ip4_validate_error_strings IP4_VALIDATE_ERROR_SRC_CLASS_E = ''source address is class E''"
| "ip4_validate_error_strings IP4_VALIDATE_ERROR_SRC_UNSPECIFIED = ''source address is unspecified''"
| "ip4_validate_error_strings IP4_VALIDATE_ERROR_SRC_LINK_LOCAL = ''source address is link-local''"
| "ip4_validate_error_strings IP4_VALIDATE_ERROR_DST_LOOPBACK = ''destination address is loopback''"
| "ip4_validate_error_strings IP4_VALIDATE_ERROR_DST_LINK_LOCAL = ''destination address is link-local''"
| "ip4_validate_error_strings IP4_VALIDATE_ERROR_L2_MCAST_BCAST =
     ''unicast IP with multicast~broadcast L2 destination''"

fun ip6_validate_error_strings :: "ip6_validate_error \<Rightarrow> string" where
  "ip6_validate_error_strings IP6_VALIDATE_ERROR_VALID = ''valid packets''"
| "ip6_validate_error_strings IP6_VALIDATE_ERROR_SRC_MULTICAST = ''source address is multicast''"
| "ip6_validate_error_strings IP6_VALIDATE_ERROR_SRC_UNSPECIFIED = ''source address is unspecified''"
| "ip6_validate_error_strings IP6_VALIDATE_ERROR_SRC_LOOPBACK = ''source address is loopback''"
| "ip6_validate_error_strings IP6_VALIDATE_ERROR_DST_UNSPECIFIED = ''destination address is unspecified''"
| "ip6_validate_error_strings IP6_VALIDATE_ERROR_DST_LOOPBACK = ''destination address is loopback''"
| "ip6_validate_error_strings IP6_VALIDATE_ERROR_L2_MCAST_BCAST =
     ''unicast IP with multicast~broadcast L2 destination''"

fun sonic_ext_capture_error_strings :: "sonic_ext_capture_error \<Rightarrow> string" where
  "sonic_ext_capture_error_strings SONIC_EXT_CAPTURE_ERROR_CAPTURED = ''rx captured''"

fun sonic_ext_aggr_tap_redirect_error_strings :: "sonic_ext_aggr_tap_redirect_error \<Rightarrow> string" where
  "sonic_ext_aggr_tap_redirect_error_strings SONIC_EXT_AGGR_TAP_REDIRECT_ERROR_REDIRECTED =
     ''aggregate tap punt redirected to member tap''"
| "sonic_ext_aggr_tap_redirect_error_strings SONIC_EXT_AGGR_TAP_REDIRECT_ERROR_NO_COOKIE =
     ''no capture cookie -- left on aggregate tap''"
| "sonic_ext_aggr_tap_redirect_error_strings SONIC_EXT_AGGR_TAP_REDIRECT_ERROR_NO_LCP =
     ''no LCP pair for original phy -- left on aggregate tap''"
| "sonic_ext_aggr_tap_redirect_error_strings SONIC_EXT_AGGR_TAP_REDIRECT_ERROR_DISABLED =
     ''punt-via-member disabled -- left on aggregate tap''"

fun sonic_ext_glean_redirect_error_strings :: "sonic_ext_glean_redirect_error \<Rightarrow> string" where
  "sonic_ext_glean_redirect_error_strings SONIC_EXT_GLEAN_REDIRECT_ERROR_REDIRECTED =
     ''unresolved-nexthop punt redirected to ingress host tap''"
| "sonic_ext_glean_redirect_error_strings SONIC_EXT_GLEAN_REDIRECT_ERROR_NOT_NBR_NODE =
     ''not dropped by a neighbour-resolution node -- passed through''"
| "sonic_ext_glean_redirect_error_strings SONIC_EXT_GLEAN_REDIRECT_ERROR_NOT_GLEAN =
     ''not a glean/arp-incomplete drop -- passed through''"
| "sonic_ext_glean_redirect_error_strings SONIC_EXT_GLEAN_REDIRECT_ERROR_NO_COOKIE =
     ''no capture cookie -- passed through''"
| "sonic_ext_glean_redirect_error_strings SONIC_EXT_GLEAN_REDIRECT_ERROR_NO_LCP =
     ''no LCP pair for ingress phy -- passed through''"
| "sonic_ext_glean_redirect_error_strings SONIC_EXT_GLEAN_REDIRECT_ERROR_THROTTLED =
     ''throttled -- passed through to drop''"
| "sonic_ext_glean_redirect_error_strings SONIC_EXT_GLEAN_REDIRECT_ERROR_DISABLED =
     ''punt-via-member disabled -- passed through''"

fun sonic_ext_host_xc_error_strings :: "sonic_ext_host_xc_error \<Rightarrow> string" where
  "sonic_ext_host_xc_error_strings SONIC_EXT_HOST_XC_ERROR_DIRECT =
     ''host tap steered directly to phy interface-output''"
| "sonic_ext_host_xc_error_strings SONIC_EXT_HOST_XC_ERROR_PASSTHRU = ''not an LCP host tap, passthru''"

fun sonic_ext_ip2me_error_strings :: "sonic_ext_ip2me_error \<Rightarrow> string" where
  "sonic_ext_ip2me_error_strings SONIC_EXT_IP2ME_ERROR_HIT = ''ip2me frames bypassed the ACL''"
| "sonic_ext_ip2me_error_strings SONIC_EXT_IP2ME_ERROR_PASSTHRU = ''frames passed through to the ACL''"

fun sonic_ext_l2_trap_fixup_error_strings :: "sonic_ext_l2_trap_fixup_error \<Rightarrow> string" where
  "sonic_ext_l2_trap_fixup_error_strings SONIC_EXT_L2_TRAP_FIXUP_ERROR_FIXED_UP =
     ''L2 trapped packet VLIB_RX retargeted to parent phys''"
| "sonic_ext_l2_trap_fixup_error_strings SONIC_EXT_L2_TRAP_FIXUP_ERROR_NO_PARENT =
     ''rx sw_if_index invalid, packet dropped''"

fun tunterm_acl_error_strings :: "tunterm_acl_error \<Rightarrow> string" where
  "tunterm_acl_error_strings TUNTERM_ACL_ERROR_REDIRECTED = ''Packets successfully redirected''"
| "tunterm_acl_error_strings TUNTERM_ACL_ERROR_NO_CLASSIFY_TABLE = ''No classify table found''"
| "tunterm_acl_error_strings TUNTERM_ACL_ERROR_ACTION_NOT_SUPPORTED = ''Match found, but action not supported''"
| "tunterm_acl_error_strings TUNTERM_ACL_ERROR_UNSUPPORTED_ETHERTYPE = ''Unsupported ethertype''"
| "tunterm_acl_error_strings TUNTERM_ACL_ERROR_NO_MATCH = ''No match found in classify table''"

section \<open>What the directives print\<close>

definition digit_char :: "nat \<Rightarrow> char" where
  "digit_char d = ''0123456789abcdef'' ! d"

definition digit_val :: "char \<Rightarrow> nat" where
  "digit_val c = length (takeWhile (\<lambda>x. x \<noteq> c) ''0123456789abcdef'')"

text \<open>The number a digit string stands for.\<close>

definition text_val :: "nat \<Rightarrow> string \<Rightarrow> nat" where
  "text_val b t = foldl (\<lambda>a c. a * b + digit_val c) 0 t"

fun number :: "nat \<Rightarrow> nat \<Rightarrow> string" where
  "number b n = (if n < b \<or> b < 2 then [digit_char (n mod 16)] else number b (n div b) @ [digit_char (n mod b)])"

definition signed_number :: "u32 \<Rightarrow> string" where
  "signed_number w = (if sint w < 0 then CHR ''-'' # number 10 (nat (- sint w)) else number 10 (nat (sint w)))"

definition padded_hex :: "nat \<Rightarrow> nat \<Rightarrow> string" where
  "padded_hex k n = replicate (k - length (number 16 n)) CHR ''0'' @ number 16 n"

text \<open>The text of a directive (what follows the percent sign) and the length of the directive.\<close>

definition conversion :: "string \<Rightarrow> fmt_arg \<Rightarrow> (string \<times> nat) option" where
  "conversion f a = (case a of
     Val w \<Rightarrow> (if take 1 f = ''d'' then Some (signed_number w, 1)
              else if take 1 f = ''u'' then Some (number 10 (unat w), 1)
              else if take 3 f = ''04x'' then Some (padded_hex 4 (unat w), 3) else None)
   | Str t \<Rightarrow> (if take 1 f = ''s'' then Some (t, 1) else None)
   | User t \<Rightarrow> (if take 1 f = ''U'' then Some (t, 1) else None))"

fun expand :: "string \<Rightarrow> fmt_arg list \<Rightarrow> string option" where
  "expand [] args = (if args = [] then Some [] else None)"
| "expand (c # f) args =
     (if c \<noteq> CHR ''%'' then map_option ((#) c) (expand f args)
      else case args of [] \<Rightarrow> None
        | a # as \<Rightarrow> (case conversion f a of None \<Rightarrow> None
            | Some (t, n) \<Rightarrow> map_option ((@) t) (expand (drop n f) as)))"

text \<open>Documented behaviour of \<^verbatim>\<open>format\<close>: the expansion of the format string is appended. The address formatters append
  one word that determines the address.\<close>

definition format_ok :: "format_api \<Rightarrow> bool" where
  "format_ok F \<longleftrightarrow> (\<forall>s f args t. expand f args = Some t \<longrightarrow> format F s f args = s @ t)"

definition word :: "string \<Rightarrow> bool" where
  "word t \<longleftrightarrow> CHR '' '' \<notin> set t"

definition addresses_ok :: "format_api \<Rightarrow> bool" where
  "addresses_ok F \<longleftrightarrow> inj (format_ip4_address F) \<and> (\<forall>a. word (format_ip4_address F a)) \<and>
     inj_on (format_ip6_address F) {a. length a = 16} \<and> (\<forall>a. word (format_ip6_address F a))"

definition format_demo :: format_api where
  "format_demo =
     \<lparr>format = \<lambda>s f args. s @ (case expand f args of None \<Rightarrow> [] | Some t \<Rightarrow> t),
      format_ip4_address = \<lambda>a. number 10 (unat a),
      format_ip6_address = \<lambda>a. concat (map (\<lambda>b. [digit_char (unat b div 16), digit_char (unat b mod 16)]) a)\<rparr>"

section \<open>Numbers determine their value\<close>

declare number.simps [simp del]

lemma below_16:
  assumes "d < (16 :: nat)"
  shows "d \<in> {0, 1, 2, 3, 4, 5, 6, 7, 8, 9, 10, 11, 12, 13, 14, 15}"
  using assms unfolding insert_iff empty_iff by presburger

lemma digit_val_char [simp]: "d < 16 \<Longrightarrow> digit_val (digit_char d) = d"
  by (drule below_16) (auto simp: digit_val_def digit_char_def)

lemma digit_char_eq [simp]: "\<lbrakk>d < 16; e < 16\<rbrakk> \<Longrightarrow> digit_char d = digit_char e \<longleftrightarrow> d = e"
  by (metis digit_val_char)

lemma digit_char_plain: "d < 16 \<Longrightarrow> digit_char d \<noteq> CHR '' '' \<and> digit_char d \<noteq> CHR ''-''"
  by (drule below_16) (auto simp: digit_char_def)

lemma text_val_snoc [simp]: "text_val b (t @ [c]) = text_val b t * b + digit_val c"
  by (simp add: text_val_def)

lemma text_val_one [simp]: "text_val b [c] = digit_val c"
  by (simp add: text_val_def)

lemma text_val_padding: "text_val b (replicate k CHR ''0'' @ t) = text_val b t"
  by (induction k) (simp_all add: text_val_def digit_val_def)

lemma text_val_number:
  assumes "2 \<le> b" and "b \<le> 16"
  shows "text_val b (number b n) = n"
  using assms
proof (induction b n rule: number.induct)
  case (1 b n)
  show ?case
  proof (cases "n < b")
    case True
    then show ?thesis using "1.prems" by (simp add: number.simps [of b n])
  next
    case False
    have "n mod b < 16" using "1.prems" mod_less_divisor [of b n] by linarith
    then show ?thesis using False "1.prems" "1.IH" by (simp add: number.simps [of b n] div_mult_mod_eq)
  qed
qed

lemma number_inj: "\<lbrakk>2 \<le> b; b \<le> 16\<rbrakk> \<Longrightarrow> number b m = number b n \<longleftrightarrow> m = n"
  by (metis text_val_number)

lemma number_plain: "\<lbrakk>2 \<le> b; b \<le> 16; c \<in> set (number b n)\<rbrakk> \<Longrightarrow> c \<noteq> CHR '' '' \<and> c \<noteq> CHR ''-''"
proof (induction b n rule: number.induct)
  case (1 b n)
  have "n mod b < 16" using "1.prems" mod_less_divisor [of b n] by linarith
  then show ?case using 1 digit_char_plain [of "n mod b"] digit_char_plain [of "n mod 16"]
    by (auto simp: number.simps [of b n] split: if_splits)
qed

lemma number_eq [simp]: "number 10 m = number 10 n \<longleftrightarrow> m = n"
  by (simp add: number_inj)

lemma number_word [simp]: "word (number 10 n)"
  using number_plain [of 10] by (auto simp: word_def)

lemma number_not_signed [simp]: "CHR ''-'' # t \<noteq> number 10 n" "number 10 n \<noteq> CHR ''-'' # t"
  using number_plain [of 10 "CHR ''-''" n] by (auto dest: sym)

lemma signed_number_eq [simp]: "signed_number v = signed_number w \<longleftrightarrow> v = w"
proof
  assume "signed_number v = signed_number w"
  then have "sint v = sint w" by (auto simp: signed_number_def split: if_splits)
  then show "v = w" by (rule signed_word_eqI)
qed simp

lemma signed_number_word [simp]: "word (signed_number w)"
  using number_word by (auto simp: signed_number_def word_def)

lemma padded_hex_eq [simp]: "padded_hex k m = padded_hex k n \<longleftrightarrow> m = n"
proof
  assume "padded_hex k m = padded_hex k n"
  then have "text_val 16 (number 16 m) = text_val 16 (number 16 n)"
    unfolding padded_hex_def by (metis text_val_padding)
  then show "m = n" by (simp add: text_val_number)
qed simp

lemma padded_hex_word [simp]: "word (padded_hex k n)"
  using number_plain [of 16] by (auto simp: padded_hex_def word_def)

section \<open>Lines determine their words\<close>

lemma word_end [simp]:
  assumes "word a" and "word b"
  shows "a @ CHR '' '' # r = b @ CHR '' '' # q \<longleftrightarrow> a = b \<and> r = q"
proof
  assume e: "a @ CHR '' '' # r = b @ CHR '' '' # q"
  have "takeWhile (\<lambda>c. c \<noteq> CHR '' '') (t @ CHR '' '' # u) = t" if "word t" for t u
    using that by (auto simp: word_def takeWhile_append)
  then have "a = b" using arg_cong [OF e, of "takeWhile (\<lambda>c. c \<noteq> CHR '' '')"] assms by simp
  then show "a = b \<and> r = q" using e by simp
qed simp

lemma conversion_simps [simp]:
  "conversion (CHR ''d'' # f) (Val w) = Some (signed_number w, 1)"
  "conversion (CHR ''u'' # f) (Val w) = Some (number 10 (unat w), 1)"
  "conversion (CHR ''0'' # CHR ''4'' # CHR ''x'' # f) (Val w) = Some (padded_hex 4 (unat w), 3)"
  "conversion (CHR ''s'' # f) (Str t) = Some (t, 1)"
  "conversion (CHR ''U'' # f) (User t) = Some (t, 1)"
  by (simp_all add: conversion_def)

lemma unat_eq [simp]: "unat v = unat w \<longleftrightarrow> v = w"
  by (simp add: word_unat_eq_iff)

lemma promoted_eq [simp]: "(ucast v :: u32) = ucast w \<longleftrightarrow> v = w" for v w :: u16
proof
  assume "(ucast v :: u32) = ucast w"
  then have "unat (ucast v :: u32) = unat (ucast w :: u32)" by simp
  then show "v = w" using unsigned_less [where ?'a = nat, of v] unsigned_less [where ?'a = nat, of w]
    by (simp add: unsigned_ucast_eq take_bit_nat_eq_self)
qed simp

lemma format_appends: "\<lbrakk>format_ok F; expand f args = Some t\<rbrakk> \<Longrightarrow> format F s f args = s @ t"
  by (simp add: format_ok_def)

lemma ip4_line:
  assumes "format_ok F" and "addresses_ok F"
  shows "format_ip4_validate_trace F s t = format_ip4_validate_trace F s t' \<longleftrightarrow> t = t'"
  using assms(2) unfolding format_ip4_validate_trace_def
  by (cases t; cases t') (auto simp: format_appends [OF assms(1)] addresses_ok_def dest: injD)

lemma ip6_line:
  assumes "format_ok F" and "addresses_ok F"
    and "length (ip6_trace_src_addr t) = 16" "length (ip6_trace_dst_addr t) = 16"
    and "length (ip6_trace_src_addr t') = 16" "length (ip6_trace_dst_addr t') = 16"
  shows "format_ip6_validate_trace F s t = format_ip6_validate_trace F s t' \<longleftrightarrow> t = t'"
  using assms(2-) unfolding format_ip6_validate_trace_def
  by (cases t; cases t') (auto simp: format_appends [OF assms(1)] addresses_ok_def dest: inj_onD)

lemma capture_line:
  assumes "format_ok F"
  shows "format_sonic_ext_capture_trace F s t = format_sonic_ext_capture_trace F s t' \<longleftrightarrow> t = t'"
  unfolding format_sonic_ext_capture_trace_def by (cases t; cases t') (simp add: format_appends [OF assms])

lemma tunterm_line:
  assumes "format_ok F"
  shows "format_tunterm_acl_trace F s t = format_tunterm_acl_trace F s t' \<longleftrightarrow> t = t'"
  unfolding format_tunterm_acl_trace_def by (cases t; cases t') (simp add: format_appends [OF assms])

lemma aggr_line:
  assumes "format_ok F"
  shows "format_sonic_ext_aggr_tap_redirect_trace F s t = format_sonic_ext_aggr_tap_redirect_trace F s t' \<longleftrightarrow>
    aggr_trace_aggr_tap_sw_if_index t = aggr_trace_aggr_tap_sw_if_index t' \<and>
    aggr_trace_orig_rx_sw_if_index t = aggr_trace_orig_rx_sw_if_index t' \<and>
    aggr_trace_member_tap_sw_if_index t = aggr_trace_member_tap_sw_if_index t' \<and>
    aggr_trace_pushed_tpid t = aggr_trace_pushed_tpid t' \<and>
    (aggr_trace_pushed_tpid t = 0 \<or> aggr_trace_pushed_vlan_id t = aggr_trace_pushed_vlan_id t') \<and>
    (aggr_trace_redirected t = 0 \<longleftrightarrow> aggr_trace_redirected t' = 0)"
  unfolding format_sonic_ext_aggr_tap_redirect_trace_def Let_def
  by (auto simp: format_appends [OF assms])

lemma glean_line:
  assumes "format_ok F"
  shows "format_sonic_ext_glean_redirect_trace F s t = format_sonic_ext_glean_redirect_trace F s t' \<longleftrightarrow>
    glean_trace_orig_rx_sw_if_index t = glean_trace_orig_rx_sw_if_index t' \<and>
    glean_trace_host_tap_sw_if_index t = glean_trace_host_tap_sw_if_index t' \<and>
    glean_trace_pushed_vlan_id t = glean_trace_pushed_vlan_id t' \<and>
    (glean_trace_redirected t = 0 \<longleftrightarrow> glean_trace_redirected t' = 0)"
  unfolding format_sonic_ext_glean_redirect_trace_def
  by (auto simp: format_appends [OF assms])

lemma host_xc_line:
  assumes "format_ok F"
  shows "format_sonic_ext_host_xc_trace F s t = format_sonic_ext_host_xc_trace F s t' \<longleftrightarrow>
    host_xc_trace_rx_sw_if_index t = host_xc_trace_rx_sw_if_index t' \<and>
    host_xc_trace_phy_sw_if_index t = host_xc_trace_phy_sw_if_index t' \<and>
    (host_xc_trace_mode t = SONIC_EXT_HOST_XC_MODE_DIRECT \<longleftrightarrow> host_xc_trace_mode t' = SONIC_EXT_HOST_XC_MODE_DIRECT)"
  unfolding format_sonic_ext_host_xc_trace_def Let_def by (auto simp: format_appends [OF assms])

lemma ip2me_line:
  assumes "format_ok F"
  shows "format_sonic_ext_ip2me_trace F s t = format_sonic_ext_ip2me_trace F s t' \<longleftrightarrow>
    (ip2me_trace_is_ip6 t = 0 \<longleftrightarrow> ip2me_trace_is_ip6 t' = 0) \<and>
    ip2me_trace_sw_if_index t = ip2me_trace_sw_if_index t' \<and>
    ip2me_trace_fib_index t = ip2me_trace_fib_index t' \<and>
    (ip2me_trace_is_ip2me t = 0 \<longleftrightarrow> ip2me_trace_is_ip2me t' = 0)"
  unfolding format_sonic_ext_ip2me_trace_def by (auto simp: format_appends [OF assms])

lemma trap_line:
  assumes "format_ok F"
  shows "format_sonic_ext_l2_trap_fixup_trace F s t = format_sonic_ext_l2_trap_fixup_trace F s t' \<longleftrightarrow>
    trap_trace_rx_sw_if_index t = trap_trace_rx_sw_if_index t' \<and>
    trap_trace_punt_rx_sw_if_index t = trap_trace_punt_rx_sw_if_index t' \<and>
    (trap_trace_dropped t = 0 \<longleftrightarrow> trap_trace_dropped t' = 0)"
  unfolding format_sonic_ext_l2_trap_fixup_trace_def by (auto simp: format_appends [OF assms])

section \<open>Traces and counters\<close>

lemma format_demo_ok: "format_ok format_demo"
  by (simp add: format_ok_def format_demo_def)

lemma addresses_demo_ok: "addresses_ok format_demo"
proof -
  let ?hex = "\<lambda>b :: u8. [digit_char (unat b div 16), digit_char (unat b mod 16)]"
  have less: "unat b div 16 < 16" for b :: u8 using unsigned_less [where ?'a = nat, of b] by simp
  have "a = b" if "unat a div 16 = unat b div 16" "unat a mod 16 = unat b mod 16" for a b :: u8
    using that div_mult_mod_eq [of "unat a" 16] div_mult_mod_eq [of "unat b" 16] unat_eq [of a b] by metis
  then have eq: "?hex a = ?hex b \<longleftrightarrow> a = b" for a b using less [of a] less [of b] by auto
  have "a = b" if "concat (map ?hex a) = concat (map ?hex b)" for a b
    using that
  proof (induction a arbitrary: b)
    case Nil
    then show ?case by (cases b) auto
  next
    case (Cons x a)
    then show ?case using eq by (cases b) auto
  qed
  moreover have "word (concat (map ?hex a))" for a
    by (auto simp: word_def digit_char_plain [THEN conjunct1, THEN not_sym] less)
  ultimately show ?thesis by (auto simp: addresses_ok_def format_demo_def inj_def intro: inj_onI)
qed

lemma counter_texts_distinct:
  "inj ip4_validate_error_strings" "inj ip6_validate_error_strings" "inj sonic_ext_aggr_tap_redirect_error_strings"
  "inj sonic_ext_glean_redirect_error_strings" "inj sonic_ext_host_xc_error_strings"
  "inj sonic_ext_ip2me_error_strings" "inj sonic_ext_l2_trap_fixup_error_strings" "inj tunterm_acl_error_strings"
  by (rule injI, rename_tac a b, case_tac a; case_tac b; simp)+

text \<open>Trace lines lose nothing: with a printf-like \<^verbatim>\<open>format\<close>, two records of the same node are printed alike exactly
  if they agree. The formatters of ip_validate, capture and tunterm_acl print every field; the others print flags as
  one of two words, and aggr-tap-redirect prints the VLAN id only when a tag was pushed.\<close>

theorem trace_lines_determine_records:
  assumes "format_ok F" and "addresses_ok F"
    and "\<forall>a \<in> {ip6_trace_src_addr t6, ip6_trace_dst_addr t6, ip6_trace_src_addr u6, ip6_trace_dst_addr u6}. length a = 16"
  shows "(format_ip4_validate_trace F s t4 = format_ip4_validate_trace F s u4 \<longleftrightarrow> t4 = u4) \<and>
    (format_ip6_validate_trace F s t6 = format_ip6_validate_trace F s u6 \<longleftrightarrow> t6 = u6) \<and>
    (format_sonic_ext_capture_trace F s tc = format_sonic_ext_capture_trace F s uc \<longleftrightarrow> tc = uc) \<and>
    (format_tunterm_acl_trace F s tt = format_tunterm_acl_trace F s ut \<longleftrightarrow> tt = ut) \<and>
    (format_sonic_ext_aggr_tap_redirect_trace F s ta = format_sonic_ext_aggr_tap_redirect_trace F s ua \<longleftrightarrow>
       aggr_trace_aggr_tap_sw_if_index ta = aggr_trace_aggr_tap_sw_if_index ua \<and>
       aggr_trace_orig_rx_sw_if_index ta = aggr_trace_orig_rx_sw_if_index ua \<and>
       aggr_trace_member_tap_sw_if_index ta = aggr_trace_member_tap_sw_if_index ua \<and>
       aggr_trace_pushed_tpid ta = aggr_trace_pushed_tpid ua \<and>
       (aggr_trace_pushed_tpid ta = 0 \<or> aggr_trace_pushed_vlan_id ta = aggr_trace_pushed_vlan_id ua) \<and>
       (aggr_trace_redirected ta = 0 \<longleftrightarrow> aggr_trace_redirected ua = 0)) \<and>
    (format_sonic_ext_glean_redirect_trace F s tg = format_sonic_ext_glean_redirect_trace F s ug \<longleftrightarrow>
       glean_trace_orig_rx_sw_if_index tg = glean_trace_orig_rx_sw_if_index ug \<and>
       glean_trace_host_tap_sw_if_index tg = glean_trace_host_tap_sw_if_index ug \<and>
       glean_trace_pushed_vlan_id tg = glean_trace_pushed_vlan_id ug \<and>
       (glean_trace_redirected tg = 0 \<longleftrightarrow> glean_trace_redirected ug = 0)) \<and>
    (format_sonic_ext_host_xc_trace F s th = format_sonic_ext_host_xc_trace F s uh \<longleftrightarrow>
       host_xc_trace_rx_sw_if_index th = host_xc_trace_rx_sw_if_index uh \<and>
       host_xc_trace_phy_sw_if_index th = host_xc_trace_phy_sw_if_index uh \<and>
       (host_xc_trace_mode th = SONIC_EXT_HOST_XC_MODE_DIRECT \<longleftrightarrow>
        host_xc_trace_mode uh = SONIC_EXT_HOST_XC_MODE_DIRECT)) \<and>
    (format_sonic_ext_ip2me_trace F s ti = format_sonic_ext_ip2me_trace F s ui \<longleftrightarrow>
       (ip2me_trace_is_ip6 ti = 0 \<longleftrightarrow> ip2me_trace_is_ip6 ui = 0) \<and>
       ip2me_trace_sw_if_index ti = ip2me_trace_sw_if_index ui \<and>
       ip2me_trace_fib_index ti = ip2me_trace_fib_index ui \<and>
       (ip2me_trace_is_ip2me ti = 0 \<longleftrightarrow> ip2me_trace_is_ip2me ui = 0)) \<and>
    (format_sonic_ext_l2_trap_fixup_trace F s tp = format_sonic_ext_l2_trap_fixup_trace F s up \<longleftrightarrow>
       trap_trace_rx_sw_if_index tp = trap_trace_rx_sw_if_index up \<and>
       trap_trace_punt_rx_sw_if_index tp = trap_trace_punt_rx_sw_if_index up \<and>
       (trap_trace_dropped tp = 0 \<longleftrightarrow> trap_trace_dropped up = 0))"
  using ip4_line [OF assms(1,2)] ip6_line [OF assms(1,2)] capture_line [OF assms(1)] tunterm_line [OF assms(1)]
    aggr_line [OF assms(1)] glean_line [OF assms(1)] host_xc_line [OF assms(1)] ip2me_line [OF assms(1)]
    trap_line [OF assms(1)] assms(3) by simp

theorem trace_lines_determine_records_witness:
  "format_ok format_demo \<and> addresses_ok format_demo \<and>
   format_sonic_ext_capture_trace format_demo [] \<lparr>capture_trace_sw_if_index = - 1\<rparr> =
     ''SONIC-EXT-CAPTURE: sw_if_index -1'' \<and>
   format_tunterm_acl_trace format_demo [] \<lparr>acl_trace_sw_if_index = 5, acl_trace_next_index = 2, acl_trace_index = 7\<rparr> \<noteq>
     format_tunterm_acl_trace format_demo [] \<lparr>acl_trace_sw_if_index = 5, acl_trace_next_index = 27, acl_trace_index = 7\<rparr>"
proof -
  let ?a = "replicate 16 0 :: u8 list"
  let ?t = "\<lparr>ip6_trace_sw_if_index = 0, ip6_trace_next_index = 0, ip6_trace_src_addr = ?a, ip6_trace_dst_addr = ?a\<rparr>"
  have "format_sonic_ext_capture_trace format_demo [] \<lparr>capture_trace_sw_if_index = - 1\<rparr> =
      ''SONIC-EXT-CAPTURE: sw_if_index -1''"
    by (simp add: format_sonic_ext_capture_trace_def format_demo_def signed_number_def number.simps digit_char_def)
  moreover have "format_tunterm_acl_trace format_demo []
        \<lparr>acl_trace_sw_if_index = 5, acl_trace_next_index = 2, acl_trace_index = 7\<rparr> \<noteq>
      format_tunterm_acl_trace format_demo []
        \<lparr>acl_trace_sw_if_index = 5, acl_trace_next_index = 27, acl_trace_index = 7\<rparr>"
    using trace_lines_determine_records [OF format_demo_ok addresses_demo_ok, of ?t ?t "[]" _ _ _ _
        "\<lparr>acl_trace_sw_if_index = 5, acl_trace_next_index = 2, acl_trace_index = 7\<rparr>"
        "\<lparr>acl_trace_sw_if_index = 5, acl_trace_next_index = 27, acl_trace_index = 7\<rparr>"] by simp
  ultimately show ?thesis using format_demo_ok addresses_demo_ok by blast
qed

end
