(* ===== verification/Python_Values.thy ===== *)
theory Python_Values
  imports Prelude "HOL-Library.AList"
begin

text \<open>
  The Python values and primitives that the configuration daemon \<^verbatim>\<open>vppcfgd\<close> works with.

  A \<^verbatim>\<open>str\<close> is the list of its code points, a \<^verbatim>\<open>dict\<close> the association list of its items in insertion
  order (assigning to a present key keeps its place, a new key goes last), and every operation that can
  raise returns a sum whose left part is the exception. The type parameter is the type of floating-point
  numbers, of which the daemon only ever asks whether one is zero. The objects the daemon handles are
  trees with one owner, except for the configuration root, whose sharing is explicit in the theory of
  the configuration manager.
\<close>

type_synonym pystr = "nat list"

definition py :: "string \<Rightarrow> pystr" where
  "py s = map of_char s"

datatype 'f pyval = PNone | PBool bool | PInt int | PFloat 'f | PStr pystr
  | PList "'f pyval list" | PDict "(pystr \<times> 'f pyval) list"

type_synonym 'f pydict = "(pystr \<times> 'f pyval) list"

text \<open>
  The exceptions the daemon can meet. \<open>JSONDecodeError\<close> and \<open>UnicodeEncodeError\<close> are
  \<^verbatim>\<open>ValueError\<close>s; \<open>SelectError\<close> is the plain
  \<^verbatim>\<open>Exception\<close> that the main loop raises.
\<close>

datatype exn = TypeError | KeyError | AttributeError | JSONDecodeError | UnicodeEncodeError | OSError | RuntimeError
  | SelectError

definition bind_py :: "exn + 'a \<Rightarrow> ('a \<Rightarrow> exn + 'b) \<Rightarrow> exn + 'b" where
  "bind_py r f = (case r of Inl e \<Rightarrow> Inl e | Inr x \<Rightarrow> f x)"

section \<open>Primitives on values\<close>

definition prefix_of :: "pystr \<Rightarrow> pystr \<Rightarrow> bool" where
  "prefix_of a b = (take (length a) b = a)"

fun substring_of :: "pystr \<Rightarrow> pystr \<Rightarrow> bool" where
  "substring_of a [] = (a = [])"
| "substring_of a (c # b) = (prefix_of a (c # b) \<or> substring_of a b)"

text \<open>The test \<^verbatim>\<open>key in value\<close> for a text key.\<close>

fun py_contains :: "pystr \<Rightarrow> 'f pyval \<Rightarrow> exn + bool" where
  "py_contains k (PDict d) = Inr (map_of d k \<noteq> None)"
| "py_contains k (PList xs) = Inr (list_ex (\<lambda>x. case x of PStr s \<Rightarrow> s = k | _ \<Rightarrow> False) xs)"
| "py_contains k (PStr s) = Inr (substring_of k s)"
| "py_contains k _ = Inl TypeError"

text \<open>Subscription \<^verbatim>\<open>value[key]\<close> and the assignment \<^verbatim>\<open>value[key] = x\<close> for a text key.\<close>

fun py_getitem :: "'f pyval \<Rightarrow> pystr \<Rightarrow> exn + 'f pyval" where
  "py_getitem (PDict d) k = (case map_of d k of None \<Rightarrow> Inl KeyError | Some v \<Rightarrow> Inr v)"
| "py_getitem _ k = Inl TypeError"

fun py_setitem :: "'f pyval \<Rightarrow> pystr \<Rightarrow> 'f pyval \<Rightarrow> exn + 'f pyval" where
  "py_setitem (PDict d) k v = Inr (PDict (AList.update k v d))"
| "py_setitem _ k v = Inl TypeError"

text \<open>The call \<^verbatim>\<open>value.items()\<close>; only a \<^verbatim>\<open>dict\<close> has the method.\<close>

fun py_items :: "'f pyval \<Rightarrow> exn + 'f pydict" where
  "py_items (PDict d) = Inr d"
| "py_items _ = Inl AttributeError"

text \<open>The call \<^verbatim>\<open>value.pop(key, None)\<close> for its effect on a \<^verbatim>\<open>dict\<close>.\<close>

fun py_pop :: "'f pyval \<Rightarrow> pystr \<Rightarrow> exn + 'f pyval" where
  "py_pop (PDict d) k = Inr (PDict (AList.delete k d))"
| "py_pop (PList _) k = Inl TypeError"
| "py_pop _ k = Inl AttributeError"

text \<open>Truth of a value, and the concatenation of a text with a value.\<close>

fun py_truth :: "('f \<Rightarrow> bool) \<Rightarrow> 'f pyval \<Rightarrow> bool" where
  "py_truth fz PNone = False"
| "py_truth fz (PBool b) = b"
| "py_truth fz (PInt n) = (n \<noteq> 0)"
| "py_truth fz (PFloat x) = (\<not> fz x)"
| "py_truth fz (PStr s) = (s \<noteq> [])"
| "py_truth fz (PList xs) = (xs \<noteq> [])"
| "py_truth fz (PDict d) = (d \<noteq> [])"

fun str_plus :: "pystr \<Rightarrow> 'f pyval \<Rightarrow> exn + pystr" where
  "str_plus s (PStr t) = Inr (s @ t)"
| "str_plus s _ = Inl TypeError"

text \<open>The constructor \<^verbatim>\<open>dict(pairs)\<close>.\<close>

definition py_dict :: "('k \<times> 'v) list \<Rightarrow> ('k \<times> 'v) list" where
  "py_dict ps = foldl (\<lambda>d (k, v). AList.update k v d) [] ps"

text \<open>The method \<^verbatim>\<open>str.replace\<close> for two single characters, and \<^verbatim>\<open>str.split\<close> for a single-character separator.\<close>

definition replace_char :: "nat \<Rightarrow> nat \<Rightarrow> pystr \<Rightarrow> pystr" where
  "replace_char a b s = map (\<lambda>c. if c = a then b else c) s"

fun split_char :: "nat \<Rightarrow> pystr \<Rightarrow> pystr list" where
  "split_char a [] = [[]]"
| "split_char a (c # s) =
     (if c = a then [] # split_char a s
      else case split_char a s of [] \<Rightarrow> [[c]] | p # ps \<Rightarrow> (c # p) # ps)"

section \<open>Well-formed values\<close>

text \<open>In a value that Python can hold, no \<^verbatim>\<open>dict\<close> has a key twice.\<close>

fun wf_val :: "'f pyval \<Rightarrow> bool" where
  "wf_val (PList xs) = list_all wf_val xs"
| "wf_val (PDict d) = (distinct (map fst d) \<and> list_all (\<lambda>p. wf_val (snd p)) d)"
| "wf_val _ = True"

section \<open>Lemmas\<close>

lemma bind_py_simps [simp]:
  "bind_py (Inl e) f = Inl e"
  "bind_py (Inr x) f = f x"
  by (simp_all add: bind_py_def)

lemma bind_py_Inr:
  "bind_py r f = Inr y \<longleftrightarrow> (\<exists>x. r = Inr x \<and> f x = Inr y)"
  by (cases r) simp_all

lemma bind_py_Inl:
  "bind_py r f = Inl e \<longleftrightarrow> r = Inl e \<or> (\<exists>x. r = Inr x \<and> f x = Inl e)"
  by (cases r) simp_all

lemma py_inject [simp]: "py s = py t \<longleftrightarrow> s = t"
  by (auto simp: py_def inj_on_def intro!: map_injective [where f = "of_char :: char \<Rightarrow> nat"])

lemma py_append [simp]: "py (s @ t) = py s @ py t"
  by (simp add: py_def)

lemma py_Nil_iff [simp]: "py s = [] \<longleftrightarrow> s = []" "[] = py s \<longleftrightarrow> s = []"
  by (auto simp: py_def)

lemma split_char_not_Nil [simp]: "split_char a s \<noteq> []"
  by (cases s) (simp_all split: list.split)

lemma split_char_absent: "a \<notin> set s \<Longrightarrow> split_char a s = [s]"
  by (induction s) simp_all

lemma split_char_append:
  "a \<notin> set s \<Longrightarrow> split_char a (s @ a # t) = s # split_char a t"
  by (induction s) simp_all

lemma wf_val_update:
  assumes "wf_val (PDict d)" and "wf_val v"
  shows "wf_val (PDict (AList.update k v d))"
proof -
  have "list_all (\<lambda>p. wf_val (snd p)) (AList.update k v d)"
    using assms by (induction d) auto
  then show ?thesis using assms by (simp add: distinct_update)
qed

lemma wf_val_lookup: "wf_val (PDict d) \<Longrightarrow> map_of d k = Some v \<Longrightarrow> wf_val v"
  by (auto simp: list_all_iff dest!: map_of_SomeD)

lemma wf_val_delete: "wf_val (PDict d) \<Longrightarrow> wf_val (PDict (AList.delete k d))"
  by (auto simp: list_all_iff AList.delete_eq distinct_map_filter)

lemma foldl_update_distinct:
  "distinct (map fst d) \<Longrightarrow> distinct (map fst (foldl (\<lambda>d (k, v). AList.update k v d) d ps))"
  by (induction ps arbitrary: d) (auto simp: distinct_update)

lemma foldl_update_append:
  assumes "distinct (map fst (d @ ps))"
  shows "foldl (\<lambda>d (k, v). AList.update k v d) d ps = d @ ps"
  using assms
proof (induction ps arbitrary: d)
  case (Cons p ps)
  obtain k v where p: "p = (k, v)" by fastforce
  have "AList.update k v d = d @ [(k, v)]"
    using Cons.prems p by (induction d) auto
  with Cons p show ?case by simp
qed simp

lemma py_dict_distinct [simp]: "distinct (map fst (py_dict ps))"
  by (simp add: py_dict_def foldl_update_distinct)

lemma py_dict_id: "distinct (map fst ps) \<Longrightarrow> py_dict ps = ps"
  using foldl_update_append [of "[]" ps] by (simp add: py_dict_def)

end
