(* ===== verification/Vppcfg_Directory.thy ===== *)
theory Vppcfg_Directory
  imports Python_Values "HOL-Library.Multiset"
begin

text \<open>
  The publish and subscribe core of \<^verbatim>\<open>vppcfgd\<close>: \<^verbatim>\<open>directory.py\<close> (a store of slots that notifies handlers
  when a path they depend on is present) and \<^verbatim>\<open>manager.py\<close> (a database table whose updates wait in a
  queue until the dependencies are met).

  A handler is the method \<^verbatim>\<open>on_deps_change\<close> of a manager, and is named by the position of the manager.
  The method \<^verbatim>\<open>set_handler\<close>, which the subclasses of \<^verbatim>\<open>Manager\<close> override, is the argument \<open>SH\<close>: it works
  on the state outside the directory (\<open>sys_world\<close>), may raise, and answers whether it was ready.
  Log messages are left out.

  The lemmas show that a queued update is offered to \<^verbatim>\<open>set_handler\<close> as soon as the last dependency
  appears (liveness), and that no update is lost or taken twice.
\<close>

section \<open>The directory\<close>

record 'f directory =
  dir_data :: "pystr \<rightharpoonup> 'f pydict"
  dir_notify :: "pystr \<rightharpoonup> (pystr \<times> nat list) list"

definition directory_init :: "'f directory" where
  "directory_init = \<lparr>dir_data = Map.empty, dir_notify = Map.empty\<rparr>"

definition get_slot_name :: "pystr \<Rightarrow> pystr \<Rightarrow> pystr" where
  "get_slot_name db table = db @ py ''__'' @ table"

text \<open>The steps of \<^verbatim>\<open>path_traverse\<close>; \<open>None\<close> is the answer \<^verbatim>\<open>(False, None)\<close>.\<close>

fun traverse :: "pystr list \<Rightarrow> 'f pyval \<Rightarrow> exn + 'f pyval option" where
  "traverse [] d = Inr (Some d)"
| "traverse (p # ps) d =
     bind_py (py_contains p d) (\<lambda>there.
       if there then bind_py (py_getitem d p) (traverse ps) else Inr None)"

definition path_traverse :: "'f directory \<Rightarrow> pystr \<Rightarrow> pystr \<Rightarrow> exn + 'f pyval option" where
  "path_traverse dir slot path =
     (case dir_data dir slot of None \<Rightarrow> Inr None
      | Some d \<Rightarrow> if path = [] then Inr (Some (PDict d)) else traverse (split_char 47 path) (PDict d))"

definition path_exist :: "'f directory \<Rightarrow> pystr \<Rightarrow> pystr \<Rightarrow> pystr \<Rightarrow> exn + bool" where
  "path_exist dir db table path =
     bind_py (path_traverse dir (get_slot_name db table) path) (\<lambda>r. Inr (r \<noteq> None))"

definition get_path :: "'f directory \<Rightarrow> pystr \<Rightarrow> pystr \<Rightarrow> pystr \<Rightarrow> exn + 'f pyval option" where
  "get_path dir db table path = path_traverse dir (get_slot_name db table) path"

text \<open>
  The store is a \<^verbatim>\<open>defaultdict\<close>: reading a slot that does not exist creates it empty. The reading
  methods therefore return the directory too.
\<close>

definition touch_slot :: "pystr \<Rightarrow> 'f directory \<Rightarrow> 'f directory" where
  "touch_slot slot dir =
     (case dir_data dir slot of None \<Rightarrow> dir\<lparr>dir_data := (dir_data dir)(slot \<mapsto> [])\<rparr> | Some _ \<Rightarrow> dir)"

definition slot_items :: "'f directory \<Rightarrow> pystr \<Rightarrow> 'f pydict" where
  "slot_items dir slot = (case dir_data dir slot of None \<Rightarrow> [] | Some d \<Rightarrow> d)"

definition dir_get :: "'f directory \<Rightarrow> pystr \<Rightarrow> pystr \<Rightarrow> pystr \<Rightarrow> (exn + 'f pyval) \<times> 'f directory" where
  "dir_get dir db table key =
     (let slot = get_slot_name db table; dir' = touch_slot slot dir in
      (py_getitem (PDict (slot_items dir' slot)) key, dir'))"

definition get_slot :: "'f directory \<Rightarrow> pystr \<Rightarrow> pystr \<Rightarrow> 'f pydict \<times> 'f directory" where
  "get_slot dir db table =
     (let slot = get_slot_name db table; dir' = touch_slot slot dir in (slot_items dir' slot, dir'))"

definition dir_store :: "pystr \<Rightarrow> pystr \<Rightarrow> 'f pyval \<Rightarrow> 'f directory \<Rightarrow> 'f directory" where
  "dir_store slot key v dir =
     dir\<lparr>dir_data := (dir_data dir)(slot \<mapsto> AList.update key v (slot_items dir slot))\<rparr>"

text \<open>Removing what is not there only logs an error.\<close>

definition dir_remove :: "'f directory \<Rightarrow> pystr \<Rightarrow> pystr \<Rightarrow> pystr \<Rightarrow> 'f directory" where
  "dir_remove dir db table key =
     (let slot = get_slot_name db table in
      case dir_data dir slot of None \<Rightarrow> dir
      | Some d \<Rightarrow> if map_of d key \<noteq> None then dir\<lparr>dir_data := (dir_data dir)(slot \<mapsto> AList.delete key d)\<rparr> else dir)"

definition remove_slot :: "'f directory \<Rightarrow> pystr \<Rightarrow> pystr \<Rightarrow> 'f directory" where
  "remove_slot dir db table =
     (let slot = get_slot_name db table in
      if dir_data dir slot \<noteq> None then dir\<lparr>dir_data := (dir_data dir)(slot := None)\<rparr> else dir)"

definition dir_available :: "'f directory \<Rightarrow> pystr \<Rightarrow> pystr \<Rightarrow> bool" where
  "dir_available dir db table = (dir_data dir (get_slot_name db table) \<noteq> None)"

type_synonym dep = "pystr \<times> pystr \<times> pystr"

fun available_deps :: "'f directory \<Rightarrow> dep list \<Rightarrow> exn + bool" where
  "available_deps dir [] = Inr True"
| "available_deps dir ((db, table, path) # ds) =
     bind_py (path_exist dir db table path) (\<lambda>there. if there then available_deps dir ds else Inr False)"

definition path_handlers :: "'f directory \<Rightarrow> pystr \<Rightarrow> (pystr \<times> nat list) list" where
  "path_handlers dir slot = (case dir_notify dir slot of None \<Rightarrow> [] | Some ps \<Rightarrow> ps)"

fun subscribe :: "dep list \<Rightarrow> nat \<Rightarrow> 'f directory \<Rightarrow> 'f directory" where
  "subscribe [] h dir = dir"
| "subscribe ((db, table, path) # ds) h dir =
     (let slot = get_slot_name db table; ps = path_handlers dir slot;
          hs = (case map_of ps path of None \<Rightarrow> [] | Some hs \<Rightarrow> hs) in
      subscribe ds h (dir\<lparr>dir_notify := (dir_notify dir)(slot \<mapsto> AList.update path (hs @ [h]) ps)\<rparr>))"

section \<open>Managers\<close>

type_synonym field_values = "(pystr \<times> pystr) list"

record manager =
  mgr_deps :: "dep list"
  db_name :: pystr
  table_name :: pystr
  set_queue :: "(pystr \<times> field_values) list"

record ('f, 'w) system =
  sys_dir :: "'f directory"
  sys_mgrs :: "manager list"
  sys_world :: 'w

type_synonym 'w set_handler_fun = "nat \<Rightarrow> pystr \<Rightarrow> field_values \<Rightarrow> 'w \<Rightarrow> exn + bool \<times> 'w"

definition manager_init :: "dep list \<Rightarrow> pystr \<Rightarrow> pystr \<Rightarrow> ('f, 'w) system \<Rightarrow> ('f, 'w) system" where
  "manager_init deps db table S =
     S\<lparr>sys_dir := subscribe deps (length (sys_mgrs S)) (sys_dir S),
       sys_mgrs := sys_mgrs S @ [\<lparr>mgr_deps = deps, db_name = db, table_name = table, set_queue = []\<rparr>]\<rparr>"

definition set_mgr_queue :: "nat \<Rightarrow> (pystr \<times> field_values) list \<Rightarrow> ('f, 'w) system \<Rightarrow> ('f, 'w) system" where
  "set_mgr_queue i q S = S\<lparr>sys_mgrs := (sys_mgrs S)[i := (sys_mgrs S ! i)\<lparr>set_queue := q\<rparr>]\<rparr>"

text \<open>The method \<^verbatim>\<open>handler\<close>; the removal method of every manager of the daemon does nothing.\<close>

definition handler ::
  "'w set_handler_fun \<Rightarrow> nat \<Rightarrow> pystr \<Rightarrow> pystr \<Rightarrow> field_values \<Rightarrow> ('f, 'w) system \<Rightarrow> exn + ('f, 'w) system" where
  "handler SH i key op data S =
     (let m = sys_mgrs S ! i; later = set_mgr_queue i (set_queue m @ [(key, data)]) in
      if op = py ''SET'' then
        bind_py (available_deps (sys_dir S) (mgr_deps m)) (\<lambda>met.
          if met then bind_py (SH i key data (sys_world S)) (\<lambda>(res, w).
            Inr (if res then S\<lparr>sys_world := w\<rparr> else later (S\<lparr>sys_world := w\<rparr>)))
          else Inr (later S))
      else Inr S)"

fun replay :: "'w set_handler_fun \<Rightarrow> nat \<Rightarrow> (pystr \<times> field_values) list \<Rightarrow> 'w \<Rightarrow>
    exn + (pystr \<times> field_values) list \<times> 'w" where
  "replay SH i [] w = Inr ([], w)"
| "replay SH i ((key, data) # q) w =
     bind_py (SH i key data w) (\<lambda>(res, w1).
       bind_py (replay SH i q w1) (\<lambda>(new_queue, w2).
         Inr (if res then new_queue else (key, data) # new_queue, w2)))"

definition on_deps_change :: "'w set_handler_fun \<Rightarrow> nat \<Rightarrow> ('f, 'w) system \<Rightarrow> exn + ('f, 'w) system" where
  "on_deps_change SH i S =
     (let m = sys_mgrs S ! i in
      bind_py (available_deps (sys_dir S) (mgr_deps m)) (\<lambda>met.
        if met then bind_py (replay SH i (set_queue m) (sys_world S)) (\<lambda>(q, w).
          Inr (set_mgr_queue i q (S\<lparr>sys_world := w\<rparr>)))
        else Inr S))"

section \<open>Publishing a value\<close>

fun run_handlers :: "'w set_handler_fun \<Rightarrow> nat list \<Rightarrow> ('f, 'w) system \<Rightarrow> exn + ('f, 'w) system" where
  "run_handlers SH [] S = Inr S"
| "run_handlers SH (h # hs) S = bind_py (on_deps_change SH h S) (run_handlers SH hs)"

fun notify_paths :: "'w set_handler_fun \<Rightarrow> pystr \<Rightarrow> pystr \<Rightarrow> (pystr \<times> nat list) list \<Rightarrow>
    ('f, 'w) system \<Rightarrow> exn + ('f, 'w) system" where
  "notify_paths SH db table [] S = Inr S"
| "notify_paths SH db table ((path, hs) # ps) S =
     bind_py (path_exist (sys_dir S) db table path) (\<lambda>there.
       bind_py (if there then run_handlers SH hs S else Inr S) (notify_paths SH db table ps))"

definition dir_put :: "'w set_handler_fun \<Rightarrow> pystr \<Rightarrow> pystr \<Rightarrow> pystr \<Rightarrow> 'f pyval \<Rightarrow>
    ('f, 'w) system \<Rightarrow> exn + ('f, 'w) system" where
  "dir_put SH db table key v S =
     (let slot = get_slot_name db table; S' = S\<lparr>sys_dir := dir_store slot key v (sys_dir S)\<rparr> in
      notify_paths SH db table (path_handlers (sys_dir S') slot) S')"

section \<open>Histories\<close>

text \<open>
  Histories record, next to the state of the handlers, every call of a set handler with its answer
  (\<open>logged\<close>), and the updates each manager has received. A manager may be added, an update or removal may
  arrive, and the directory may be written, read and cleared, in any order.
\<close>

type_synonym call = "nat \<times> pystr \<times> field_values \<times> bool"

definition logged :: "'w set_handler_fun \<Rightarrow> ('w \<times> call list) set_handler_fun" where
  "logged SH i key data = (\<lambda>(w, l).
     bind_py (SH i key data w) (\<lambda>(res, w'). Inr (res, w', l @ [(i, key, data, res)])))"

definition offered :: "nat \<Rightarrow> call list \<Rightarrow> (pystr \<times> field_values) list" where
  "offered i l = [(k, d). (j, k, d, r) \<leftarrow> l, j = i]"

definition accepted :: "nat \<Rightarrow> call list \<Rightarrow> (pystr \<times> field_values) list" where
  "accepted i l = [(k, d). (j, k, d, r) \<leftarrow> l, j = i \<and> r]"

definition calls :: "('f, 'w \<times> call list) system \<Rightarrow> call list" where
  "calls S = snd (sys_world S)"

definition queue_of :: "nat \<Rightarrow> ('f, 'w) system \<Rightarrow> (pystr \<times> field_values) list" where
  "queue_of i S = set_queue (sys_mgrs S ! i)"

definition deps_of :: "nat \<Rightarrow> ('f, 'w) system \<Rightarrow> dep list" where
  "deps_of i S = mgr_deps (sys_mgrs S ! i)"

definition served :: "nat \<Rightarrow> ('f, 'w \<times> call list) system \<Rightarrow> call list \<Rightarrow> bool" where
  "served i S l \<longleftrightarrow> (\<exists>later. offered i l = queue_of i S @ later)"

definition handler_step :: "('f, 'w \<times> call list) system \<Rightarrow> ('f, 'w \<times> call list) system \<Rightarrow> call list \<Rightarrow> bool" where
  "handler_step S S' l \<longleftrightarrow> calls S' = calls S @ l \<and> sys_dir S' = sys_dir S \<and>
     length (sys_mgrs S') = length (sys_mgrs S) \<and> (\<forall>i\<ge>length (sys_mgrs S). accepted i l = []) \<and>
     (\<forall>i<length (sys_mgrs S). deps_of i S' = deps_of i S \<and>
       mset (queue_of i S) = mset (accepted i l) + mset (queue_of i S') \<and>
       (served i S l \<or> offered i l = [] \<and> queue_of i S' = queue_of i S))"

inductive vpp_run :: "'w set_handler_fun \<Rightarrow> ('f, 'w \<times> call list) system \<Rightarrow> (nat \<times> pystr \<times> field_values) list \<Rightarrow> bool"
  for SH where
  start: "vpp_run SH \<lparr>sys_dir = directory_init, sys_mgrs = [], sys_world = (w, [])\<rparr> []"
| manager: "vpp_run SH S r \<Longrightarrow> vpp_run SH (manager_init deps db table S) r"
| event: "vpp_run SH S r \<Longrightarrow> i < length (sys_mgrs S) \<Longrightarrow> handler (logged SH) i key op data S = Inr S' \<Longrightarrow>
    vpp_run SH S' (r @ (if op = py ''SET'' then [(i, key, data)] else []))"
| put: "vpp_run SH S r \<Longrightarrow> dir_put (logged SH) db table key v S = Inr S' \<Longrightarrow> vpp_run SH S' r"
| get: "vpp_run SH S r \<Longrightarrow> vpp_run SH (S\<lparr>sys_dir := snd (dir_get (sys_dir S) db table key)\<rparr>) r"
| get_slot: "vpp_run SH S r \<Longrightarrow> vpp_run SH (S\<lparr>sys_dir := snd (get_slot (sys_dir S) db table)\<rparr>) r"
| remove: "vpp_run SH S r \<Longrightarrow> vpp_run SH (S\<lparr>sys_dir := dir_remove (sys_dir S) db table key\<rparr>) r"
| remove_slot: "vpp_run SH S r \<Longrightarrow> vpp_run SH (S\<lparr>sys_dir := remove_slot (sys_dir S) db table\<rparr>) r"

definition received :: "nat \<Rightarrow> (nat \<times> pystr \<times> field_values) list \<Rightarrow> (pystr \<times> field_values) list" where
  "received i r = [(k, d). (j, k, d) \<leftarrow> r, j = i]"

definition handlers_at :: "'f directory \<Rightarrow> pystr \<Rightarrow> pystr \<Rightarrow> nat list" where
  "handlers_at dir slot path = (case map_of (path_handlers dir slot) path of None \<Rightarrow> [] | Some hs \<Rightarrow> hs)"

definition wired :: "('f, 'w) system \<Rightarrow> bool" where
  "wired S \<longleftrightarrow>
     (\<forall>slot. distinct (map fst (path_handlers (sys_dir S) slot))) \<and>
     (\<forall>slot path. \<forall>h\<in>set (handlers_at (sys_dir S) slot path). h < length (sys_mgrs S)) \<and>
     (\<forall>i<length (sys_mgrs S). \<forall>db table path. (db, table, path) \<in> set (deps_of i S) \<longrightarrow>
        i \<in> set (handlers_at (sys_dir S) (get_slot_name db table) path))"

definition ready_demo :: "unit set_handler_fun" where
  "ready_demo i key data w = Inr (True, w)"

definition idle_demo :: "(unit, unit \<times> call list) system" where
  "idle_demo = manager_init [(py ''APPL_DB'', py ''PORT'', py ''done'')] (py ''CONFIG_DB'') (py ''PLATFORM'')
     \<lparr>sys_dir = directory_init, sys_mgrs = [], sys_world = ((), [])\<rparr>"

definition waiting_demo :: "(unit, unit \<times> call list) system" where
  "waiting_demo = set_mgr_queue 0 [(py ''vpp'', [])] idle_demo"

section \<open>Lemmas on handlers\<close>

lemma calls_simps [simp]:
  "offered i [] = []" "accepted i [] = []"
  "offered i (l @ l') = offered i l @ offered i l'" "accepted i (l @ l') = accepted i l @ accepted i l'"
  "offered i ((j, k, d, r) # l) = (if j = i then [(k, d)] else []) @ offered i l"
  "accepted i ((j, k, d, r) # l) = (if j = i \<and> r then [(k, d)] else []) @ accepted i l"
  by (simp_all add: offered_def accepted_def)

lemma logged_Inr:
  "logged SH i key data (w, l) = Inr (res, w', l') \<longleftrightarrow>
    SH i key data w = Inr (res, w') \<and> l' = l @ [(i, key, data, res)]"
  by (auto simp: logged_def bind_py_Inr)

lemma replay_logged:
  "replay (logged SH) i q (w, l) = Inr (q', w', l') \<Longrightarrow>
    \<exists>l1. l' = l @ l1 \<and> offered i l1 = q \<and> mset q = mset (accepted i l1) + mset q' \<and>
      (\<forall>j. j \<noteq> i \<longrightarrow> offered j l1 = [] \<and> accepted j l1 = [])"
proof (induction q arbitrary: w l q' w' l')
  case (Cons kd q)
  obtain key data where kd: "kd = (key, data)" by fastforce
  from Cons.prems obtain res w1 q1 where
    rep: "replay (logged SH) i q (w1, l @ [(i, key, data, res)]) = Inr (q1, w', l')"
    and q': "q' = (if res then q1 else (key, data) # q1)"
    by (auto simp: bind_py_Inr logged_Inr kd)
  obtain l1 where "l' = (l @ [(i, key, data, res)]) @ l1" "offered i l1 = q"
    "mset q = mset (accepted i l1) + mset q1" "\<forall>j. j \<noteq> i \<longrightarrow> offered j l1 = [] \<and> accepted j l1 = []"
    using Cons.IH [OF rep] by blast
  then show ?case
    using q' kd by (intro exI [of _ "(i, key, data, res) # l1"]) auto
qed simp

lemma on_deps_change_step:
  assumes "on_deps_change (logged SH) h S = Inr S'" and "h < length (sys_mgrs S)"
  obtains l where "handler_step S S' l"
    and "available_deps (sys_dir S) (deps_of h S) = Inr True \<Longrightarrow> served h S l"
proof -
  obtain met where met: "available_deps (sys_dir S) (deps_of h S) = Inr met"
    using assms(1) by (auto simp: on_deps_change_def Let_def bind_py_Inr deps_of_def)
  show thesis
  proof (cases met)
    case True
    obtain w l where wl: "sys_world S = (w, l)" by fastforce
    obtain q w' l' where rep: "replay (logged SH) h (queue_of h S) (w, l) = Inr (q, w', l')"
      and S': "S' = set_mgr_queue h q (S\<lparr>sys_world := (w', l')\<rparr>)"
      using assms(1) met True wl by (auto simp: on_deps_change_def Let_def bind_py_Inr deps_of_def queue_of_def)
    obtain l1 where l1: "l' = l @ l1" "offered h l1 = queue_of h S"
      "mset (queue_of h S) = mset (accepted h l1) + mset q"
      "\<forall>j. j \<noteq> h \<longrightarrow> offered j l1 = [] \<and> accepted j l1 = []"
      using replay_logged [OF rep] by blast
    have "handler_step S S' l1"
      using l1 assms(2) wl by (auto simp: handler_step_def S' set_mgr_queue_def queue_of_def deps_of_def calls_def
          served_def nth_list_update)
    then show thesis using l1 by (intro that [of l1]) (auto simp: served_def)
  next
    case False
    then have "S' = S" using assms(1) met by (simp add: on_deps_change_def Let_def deps_of_def)
    then show thesis using False met by (intro that [of "[]"]) (simp_all add: handler_step_def)
  qed
qed

lemma handler_step_refl: "handler_step S S []"
  by (simp add: handler_step_def)

lemma served_later:
  assumes "handler_step S S1 l1" and "i < length (sys_mgrs S)" and "served i S1 l2"
  shows "served i S (l1 @ l2)"
  using assms by (auto simp: handler_step_def served_def)

lemma served_before: "served i S l1 \<Longrightarrow> served i S (l1 @ l2)"
  by (auto simp: served_def)

lemma handler_step_trans:
  assumes "handler_step S S1 l1" and "handler_step S1 S2 l2"
  shows "handler_step S S2 (l1 @ l2)"
proof -
  have "mset (queue_of i S) = mset (accepted i (l1 @ l2)) + mset (queue_of i S2)"
    "served i S (l1 @ l2) \<or> offered i (l1 @ l2) = [] \<and> queue_of i S2 = queue_of i S"
    if i: "i < length (sys_mgrs S)" for i
  proof -
    note steps = assms(1) [unfolded handler_step_def] assms(2) [unfolded handler_step_def]
    show "mset (queue_of i S) = mset (accepted i (l1 @ l2)) + mset (queue_of i S2)"
      using steps i by simp
    have "served i S l1 \<or> offered i l1 = [] \<and> queue_of i S1 = queue_of i S"
      "served i S1 l2 \<or> offered i l2 = [] \<and> queue_of i S2 = queue_of i S1" using steps i by auto
    then show "served i S (l1 @ l2) \<or> offered i (l1 @ l2) = [] \<and> queue_of i S2 = queue_of i S"
      using served_before served_later [OF assms(1) i] by (metis append_Nil calls_simps(3))
  qed
  then show ?thesis using assms by (simp add: handler_step_def)
qed

lemma run_handlers_step:
  assumes "run_handlers (logged SH) hs S = Inr S'" and "list_all (\<lambda>h. h < length (sys_mgrs S)) hs"
  shows "\<exists>l. handler_step S S' l \<and>
    (\<forall>i\<in>set hs. available_deps (sys_dir S) (deps_of i S) = Inr True \<longrightarrow> served i S l)"
  using assms
proof (induction hs arbitrary: S)
  case (Cons h hs)
  from Cons.prems obtain S1 where S1: "on_deps_change (logged SH) h S = Inr S1" "run_handlers (logged SH) hs S1 = Inr S'"
    by (auto simp: bind_py_Inr)
  obtain l1 where l1: "handler_step S S1 l1"
    "available_deps (sys_dir S) (deps_of h S) = Inr True \<Longrightarrow> served h S l1"
    using on_deps_change_step [OF S1(1)] Cons.prems(2) by auto
  obtain l2 where l2: "handler_step S1 S' l2"
    "\<forall>i\<in>set hs. available_deps (sys_dir S1) (deps_of i S1) = Inr True \<longrightarrow> served i S1 l2"
    using Cons.IH [OF S1(2)] Cons.prems(2) l1(1) by (auto simp: handler_step_def)
  have "served i S (l1 @ l2)"
    if i: "i \<in> set (h # hs)" and av: "available_deps (sys_dir S) (deps_of i S) = Inr True" for i
  proof -
    have bound: "i < length (sys_mgrs S)" using Cons.prems(2) i by (auto simp: list_all_iff)
    have "available_deps (sys_dir S1) (deps_of i S1) = Inr True"
      using l1(1) av bound by (simp add: handler_step_def)
    then show ?thesis
      using i l1 l2(2) av bound served_before served_later [OF l1(1) bound] by auto
  qed
  then show ?case using handler_step_trans [OF l1(1) l2(1)] by blast
qed (auto intro: handler_step_refl)

lemma notify_paths_step:
  assumes "notify_paths (logged SH) db table ps S = Inr S'"
    and "list_all (\<lambda>(path, hs). list_all (\<lambda>h. h < length (sys_mgrs S)) hs) ps"
  shows "\<exists>l. handler_step S S' l \<and>
    (\<forall>(path, hs)\<in>set ps. \<forall>i\<in>set hs. path_exist (sys_dir S) db table path = Inr True \<longrightarrow>
      available_deps (sys_dir S) (deps_of i S) = Inr True \<longrightarrow> served i S l)"
  using assms
proof (induction ps arbitrary: S)
  case (Cons p ps)
  obtain path hs where p: "p = (path, hs)" by fastforce
  from Cons.prems obtain there S1 where there: "path_exist (sys_dir S) db table path = Inr there"
    and S1: "(if there then run_handlers (logged SH) hs S else Inr S) = Inr S1"
    and rest: "notify_paths (logged SH) db table ps S1 = Inr S'"
    by (auto simp: bind_py_Inr p)
  obtain l1 where l1: "handler_step S S1 l1"
    "there \<longrightarrow> (\<forall>i\<in>set hs. available_deps (sys_dir S) (deps_of i S) = Inr True \<longrightarrow> served i S l1)"
    using run_handlers_step [of SH hs S S1] S1 Cons.prems(2) handler_step_refl [of S] p by (cases there) auto
  have same: "sys_dir S1 = sys_dir S" "length (sys_mgrs S1) = length (sys_mgrs S)"
    using l1(1) by (simp_all add: handler_step_def)
  obtain l2 where l2: "handler_step S1 S' l2"
    "\<forall>(path, hs)\<in>set ps. \<forall>i\<in>set hs. path_exist (sys_dir S1) db table path = Inr True \<longrightarrow>
      available_deps (sys_dir S1) (deps_of i S1) = Inr True \<longrightarrow> served i S1 l2"
    using Cons.IH [OF rest] Cons.prems(2) same(2) by auto
  have "served i S (l1 @ l2)"
    if "(path', hs') \<in> set (p # ps)" "i \<in> set hs'" "path_exist (sys_dir S) db table path' = Inr True"
      "available_deps (sys_dir S) (deps_of i S) = Inr True" for path' hs' i
  proof -
    have bound: "i < length (sys_mgrs S)" using Cons.prems(2) that(1,2) by (auto simp: list_all_iff)
    have "deps_of i S1 = deps_of i S" using l1(1) bound by (simp add: handler_step_def)
    then show ?thesis
      using that l1(2) l2(2) served_before served_later [OF l1(1) bound] there same(1) p by fastforce
  qed
  then show ?case using handler_step_trans [OF l1(1) l2(1)] by blast
qed (auto intro: handler_step_refl)

section \<open>Managers that are always ready\<close>

text \<open>
  The contract of a set handler that never answers that it is not ready. A manager with such a handler and
  no dependencies takes every update at once, and whatever is in a queue leaves it at the next replay.
\<close>

locale prompt_handler =
  fixes SH :: "'w set_handler_fun"
  assumes prompt: "SH i key data w = Inr (res, w') \<Longrightarrow> res"
begin

lemma handler_direct:
  assumes "mgr_deps (sys_mgrs S ! i) = []"
  shows "handler SH i key op data S =
    (if op = py ''SET'' then bind_py (SH i key data (sys_world S)) (\<lambda>(res, w). Inr (S\<lparr>sys_world := w\<rparr>)) else Inr S)"
proof (cases "SH i key data (sys_world S)")
  case (Inr r)
  obtain res w where "r = (res, w)" by fastforce
  with Inr prompt have "res" "r = (True, w)" by auto
  with Inr assms show ?thesis by (simp add: handler_def Let_def)
qed (simp add: handler_def Let_def assms)

lemma replay_empties: "replay SH i q w = Inr (q', w') \<Longrightarrow> q' = []"
proof (induction q arbitrary: w q')
  case (Cons kd q)
  obtain key data where "kd = (key, data)" by fastforce
  with Cons obtain res w1 where "SH i key data w = Inr (res, w1)" "q' = (if res then [] else [(key, data)])"
    by (fastforce simp: bind_py_Inr)
  with prompt show ?case by metis
qed simp

end

section \<open>Lemmas on subscriptions\<close>

lemma received_append [simp]:
  "received i [] = []" "received i (r @ r') = received i r @ received i r'"
  "received i [(j, k, d)] = (if j = i then [(k, d)] else [])"
  by (simp_all add: received_def)

lemma notify_unchanged [simp]:
  "dir_notify (dir_store slot key v dir) = dir_notify dir"
  "dir_notify (snd (dir_get dir db table key)) = dir_notify dir"
  "dir_notify (snd (get_slot dir db table)) = dir_notify dir"
  "dir_notify (dir_remove dir db table key) = dir_notify dir"
  "dir_notify (remove_slot dir db table) = dir_notify dir"
  by (simp_all add: dir_store_def dir_get_def get_slot_def dir_remove_def remove_slot_def touch_slot_def Let_def
      split: option.split)

lemma path_handlers_upd [simp]:
  "path_handlers (dir\<lparr>dir_notify := (dir_notify dir)(slot \<mapsto> ps)\<rparr>) slot' =
    (if slot' = slot then ps else path_handlers dir slot')"
  by (simp add: path_handlers_def)

lemma subscribe_handlers:
  "set (handlers_at (subscribe ds h dir) slot path) = set (handlers_at dir slot path) \<union>
    (if \<exists>db table. (db, table, path) \<in> set ds \<and> get_slot_name db table = slot then {h} else {})"
proof (induction ds h dir rule: subscribe.induct)
  case (2 db table p ds h dir)
  show ?case
    by (simp add: Let_def 2) (auto simp: handlers_at_def update_conv' split: option.split)
qed simp

lemma subscribe_distinct:
  "(\<And>slot. distinct (map fst (path_handlers dir slot))) \<Longrightarrow> distinct (map fst (path_handlers (subscribe ds h dir) slot))"
proof (induction ds h dir rule: subscribe.induct)
  case (2 db table p ds h dir)
  show ?case
    unfolding subscribe.simps Let_def
    by (rule 2(1) [OF refl refl refl]) (use 2(2) in \<open>simp add: distinct_update\<close>)
qed simp

lemma wired_manager_init:
  assumes "wired S"
  shows "wired (manager_init deps db table S)"
proof -
  have "h < Suc (length (sys_mgrs S))"
    if "h \<in> set (handlers_at (subscribe deps (length (sys_mgrs S)) (sys_dir S)) slot path)" for h slot path
    using that assms by (auto simp: subscribe_handlers wired_def less_Suc_eq split: if_splits)
  moreover have "i \<in> set (handlers_at (subscribe deps (length (sys_mgrs S)) (sys_dir S)) (get_slot_name db' table') path)"
    if "i < Suc (length (sys_mgrs S))" "(db', table', path) \<in> set (deps_of i (manager_init deps db table S))"
    for i db' table' path
  proof (cases "i = length (sys_mgrs S)")
    case True
    then show ?thesis using that by (auto simp: subscribe_handlers deps_of_def manager_init_def)
  next
    case False
    then have "i < length (sys_mgrs S)" "(db', table', path) \<in> set (deps_of i S)"
      using that by (auto simp: deps_of_def manager_init_def nth_append)
    then show ?thesis using assms by (auto simp: subscribe_handlers wired_def)
  qed
  ultimately show ?thesis
    using assms by (auto simp: wired_def subscribe_distinct manager_init_def)
qed

lemma wired_cong:
  assumes "wired S" and "dir_notify (sys_dir S') = dir_notify (sys_dir S)"
    and "length (sys_mgrs S') = length (sys_mgrs S)" and "\<And>i. i < length (sys_mgrs S) \<Longrightarrow> deps_of i S' = deps_of i S"
  shows "wired S'"
proof -
  have "path_handlers (sys_dir S') slot = path_handlers (sys_dir S) slot" for slot
    using assms(2) by (simp add: path_handlers_def)
  then have "handlers_at (sys_dir S') slot path = handlers_at (sys_dir S) slot path"
    "path_handlers (sys_dir S') slot = path_handlers (sys_dir S) slot" for slot path
    by (simp_all add: handlers_at_def)
  then show ?thesis using assms(1,3,4) by (simp add: wired_def)
qed

lemma put_step:
  assumes "wired S" and "dir_put (logged SH) db table key v S = Inr S'"
  defines "dir' \<equiv> dir_store (get_slot_name db table) key v (sys_dir S)"
  obtains l where "handler_step (S\<lparr>sys_dir := dir'\<rparr>) S' l"
    and "\<forall>path. \<forall>i\<in>set (handlers_at (sys_dir S) (get_slot_name db table) path). path_exist dir' db table path = Inr True \<longrightarrow>
      available_deps dir' (deps_of i S) = Inr True \<longrightarrow> served i S l"
proof -
  let ?S = "S\<lparr>sys_dir := dir'\<rparr>" and ?slot = "get_slot_name db table"
  have ph: "path_handlers dir' ?slot = path_handlers (sys_dir S) ?slot"
    by (simp add: path_handlers_def dir'_def)
  have run: "notify_paths (logged SH) db table (path_handlers (sys_dir S) ?slot) ?S = Inr S'"
    using assms(2) ph by (simp add: dir_put_def Let_def dir'_def)
  have "h < length (sys_mgrs S)" if "(path, hs) \<in> set (path_handlers (sys_dir S) ?slot)" "h \<in> set hs" for path hs h
    using assms(1) that map_of_is_SomeI [of "path_handlers (sys_dir S) ?slot" path hs]
    by (fastforce simp: wired_def handlers_at_def)
  then have "list_all (\<lambda>(path, hs). list_all (\<lambda>h. h < length (sys_mgrs ?S)) hs) (path_handlers (sys_dir S) ?slot)"
    by (auto simp: list_all_iff)
  from notify_paths_step [OF run this] obtain l where l: "handler_step ?S S' l"
    "\<forall>(path, hs)\<in>set (path_handlers (sys_dir S) ?slot). \<forall>i\<in>set hs. path_exist dir' db table path = Inr True \<longrightarrow>
      available_deps dir' (deps_of i ?S) = Inr True \<longrightarrow> served i ?S l" by auto
  have "served i S l"
    if i: "i \<in> set (handlers_at (sys_dir S) ?slot path)" and av: "path_exist dir' db table path = Inr True"
      "available_deps dir' (deps_of i S) = Inr True" for path i
  proof -
    obtain hs where "(path, hs) \<in> set (path_handlers (sys_dir S) ?slot)" "i \<in> set hs"
      using i by (cases "map_of (path_handlers (sys_dir S) ?slot) path") (auto simp: handlers_at_def dest: map_of_SomeD)
    moreover have "deps_of i ?S = deps_of i S" "served i ?S l = served i S l"
      by (simp_all add: deps_of_def served_def queue_of_def)
    ultimately show ?thesis using l(2) av by fastforce
  qed
  with l(1) show thesis by (intro that [of l]) auto
qed

lemma set_mgr_queue_simps [simp]:
  "sys_dir (set_mgr_queue i q S) = sys_dir S" "length (sys_mgrs (set_mgr_queue i q S)) = length (sys_mgrs S)"
  "sys_world (set_mgr_queue i q S) = sys_world S" "deps_of j (set_mgr_queue i q S) = deps_of j S"
  by (simp_all add: set_mgr_queue_def deps_of_def)
    (cases "i < length (sys_mgrs S)"; cases "i = j"; simp add: not_less list_update_beyond)

lemma queue_of_set:
  "i < length (sys_mgrs S) \<Longrightarrow> queue_of j (set_mgr_queue i q S) = (if j = i then q else queue_of j S)"
  by (simp add: set_mgr_queue_def queue_of_def nth_list_update)

lemma queue_of_world [simp]: "queue_of j (S\<lparr>sys_world := w\<rparr>) = queue_of j S" "deps_of j (S\<lparr>sys_world := w\<rparr>) = deps_of j S"
  by (simp_all add: queue_of_def deps_of_def)

lemma handler_outcome:
  assumes "handler (logged SH) i key op data S = Inr S'" and "sys_world S = (w, l)"
  defines "later \<equiv> set_mgr_queue i (queue_of i S @ [(key, data)])"
  obtains (other) "op \<noteq> py ''SET''" "S' = S"
  | (unmet) "op = py ''SET''" "S' = later S"
  | (taken) w' where "op = py ''SET''" "S' = S\<lparr>sys_world := (w', l @ [(i, key, data, True)])\<rparr>"
  | (postponed) w' where "op = py ''SET''" "S' = later (S\<lparr>sys_world := (w', l @ [(i, key, data, False)])\<rparr>)"
proof (cases "op = py ''SET''")
  case True
  let ?deps = "available_deps (sys_dir S) (mgr_deps (sys_mgrs S ! i))"
  from assms(1) True obtain met where met: "?deps = Inr met"
    by (auto simp: handler_def Let_def bind_py_Inr)
  show thesis
  proof (cases met)
    case False
    then show thesis using assms(1) met True by (intro unmet) (simp_all add: handler_def later_def queue_of_def)
  next
    case ready: True
    then obtain res w' where sh: "SH i key data w = Inr (res, w')"
      using assms(1,2) met True by (auto simp: handler_def Let_def bind_py_Inr logged_Inr)
    then have "logged SH i key data (w, l) = Inr (res, w', l @ [(i, key, data, res)])"
      by (simp add: logged_Inr)
    then show thesis
      using assms(1,2) met True ready taken [of w'] postponed [of w']
      by (cases res) (simp_all add: handler_def later_def queue_of_def)
  qed
next
  case False
  then show thesis using assms(1) by (intro other) (simp_all add: handler_def)
qed

lemma handler_logged:
  assumes "handler (logged SH) i key op data S = Inr S'" and "i < length (sys_mgrs S)"
  shows "sys_dir S' = sys_dir S" and "length (sys_mgrs S') = length (sys_mgrs S)" and "deps_of j S' = deps_of j S"
    and "mset (received j (if op = py ''SET'' then [(i, key, data)] else [])) + mset (queue_of j S) + mset (accepted j (calls S)) =
      mset (queue_of j S') + mset (accepted j (calls S'))"
    and "j \<noteq> i \<Longrightarrow> accepted j (calls S') = accepted j (calls S)"
proof -
  obtain w l where wl: "sys_world S = (w, l)" by fastforce
  show "sys_dir S' = sys_dir S" and "length (sys_mgrs S') = length (sys_mgrs S)" and "deps_of j S' = deps_of j S"
    and "mset (received j (if op = py ''SET'' then [(i, key, data)] else [])) + mset (queue_of j S) + mset (accepted j (calls S)) =
      mset (queue_of j S') + mset (accepted j (calls S'))"
    and "j \<noteq> i \<Longrightarrow> accepted j (calls S') = accepted j (calls S)"
    using assms(2) wl
    by (cases rule: handler_outcome [OF assms(1) wl]; simp add: calls_def queue_of_set)+
qed

lemma vpp_run_wired: "vpp_run SH S r \<Longrightarrow> wired S"
proof (induction rule: vpp_run.induct)
  case (start w)
  then show ?case by (simp add: wired_def directory_init_def path_handlers_def handlers_at_def)
next
  case (event S r i key op data S')
  then show ?case using handler_logged(1-3) [OF event(3,2)] by (intro wired_cong [OF event.IH]) simp_all
next
  case (put S r db table key v S')
  obtain l where "handler_step (S\<lparr>sys_dir := dir_store (get_slot_name db table) key v (sys_dir S)\<rparr>) S' l"
    using put_step [OF put.IH put(2)] by blast
  then show ?case
    by (intro wired_cong [OF put.IH]) (auto simp: handler_step_def deps_of_def)
qed (auto intro: wired_manager_init wired_cong simp: deps_of_def)

lemma path_exist_store:
  "get_slot_name db table \<noteq> slot \<Longrightarrow> path_exist (dir_store slot key v dir) db table path = path_exist dir db table path"
  by (simp add: path_exist_def path_traverse_def dir_store_def)

lemma dep_appears:
  assumes "available_deps dir ds = Inr False" and "available_deps (dir_store slot key v dir) ds = Inr True"
  shows "\<exists>db table path. (db, table, path) \<in> set ds \<and> get_slot_name db table = slot \<and>
    path_exist (dir_store slot key v dir) db table path = Inr True"
  using assms
proof (induction ds)
  case (Cons d ds)
  obtain db table path where d: "d = (db, table, path)" by (cases d) auto
  show ?case
  proof (cases "get_slot_name db table = slot")
    case True
    then show ?thesis using Cons.prems(2) d by (auto simp: bind_py_Inr split: if_splits)
  next
    case False
    then have "available_deps dir ds = Inr False" "available_deps (dir_store slot key v dir) ds = Inr True"
      using Cons.prems d path_exist_store [OF False, of key v dir path] by (auto simp: bind_py_Inr split: if_splits)
    with Cons.IH show ?thesis by auto
  qed
qed simp

lemma all_accepted: "\<forall>(j, k, d, res)\<in>set l. j = i \<longrightarrow> res \<Longrightarrow> accepted i l = offered i l"
  by (induction l) auto

text \<open>C27: Queued updates are delivered: in every history of the daemon, when a value is published that makes
  the last missing dependency of a manager appear, each update waiting in the manager's queue is offered to
  its set handler, in order, before the publication returns; and when the handler is ready for everything
  it is offered, the queue is empty afterwards.\<close>

theorem queued_updates_delivered:
  assumes "vpp_run SH S r" and "i < length (sys_mgrs S)"
    and "available_deps (sys_dir S) (mgr_deps (sys_mgrs S ! i)) = Inr False"
    and "dir_put (logged SH) db table key v S = Inr S'"
    and "available_deps (sys_dir S') (mgr_deps (sys_mgrs S ! i)) = Inr True"
  shows "\<exists>l later. calls S' = calls S @ l \<and> offered i l = queue_of i S @ later \<and>
    ((\<forall>(j, k, d, res)\<in>set l. j = i \<longrightarrow> res) \<longrightarrow> queue_of i S' = [])"
proof -
  let ?dir = "dir_store (get_slot_name db table) key v (sys_dir S)"
  obtain l where l: "handler_step (S\<lparr>sys_dir := ?dir\<rparr>) S' l"
    "\<forall>path. \<forall>i\<in>set (handlers_at (sys_dir S) (get_slot_name db table) path). path_exist ?dir db table path = Inr True \<longrightarrow>
      available_deps ?dir (deps_of i S) = Inr True \<longrightarrow> served i S l"
    using put_step [OF vpp_run_wired [OF assms(1)] assms(4)] by blast
  have av: "available_deps ?dir (deps_of i S) = Inr True"
    using l(1) assms(5) by (simp add: handler_step_def deps_of_def)
  obtain db' table' path where dep: "(db', table', path) \<in> set (deps_of i S)"
    "get_slot_name db' table' = get_slot_name db table" "path_exist ?dir db' table' path = Inr True"
    using dep_appears [OF assms(3) av [unfolded deps_of_def]] by (auto simp: deps_of_def)
  then have "path_exist ?dir db table path = Inr True" by (simp add: path_exist_def)
  moreover have "i \<in> set (handlers_at (sys_dir S) (get_slot_name db table) path)"
    using vpp_run_wired [OF assms(1)] dep(1,2) assms(2) by (metis wired_def)
  ultimately obtain later where later: "offered i l = queue_of i S @ later"
    using l(2) av by (auto simp: served_def)
  have "mset (queue_of i S) = mset (accepted i l) + mset (queue_of i S')" "calls S' = calls S @ l"
    using l(1) assms(2) by (simp_all add: handler_step_def queue_of_def calls_def)
  moreover have "queue_of i S' = []" if "accepted i l = offered i l"
    using calculation(1) that later by simp
  ultimately show ?thesis
    using later all_accepted [of l i] by (intro exI [of _ l] exI [of _ later]) simp
qed

lemma vpp_run_counts:
  "vpp_run SH S r \<Longrightarrow> if i < length (sys_mgrs S) then mset (received i r) = mset (accepted i (calls S)) + mset (queue_of i S)
    else received i r = [] \<and> accepted i (calls S) = []"
proof (induction rule: vpp_run.induct)
  case (manager S r deps db table)
  then show ?case
    by (auto simp: manager_init_def queue_of_def calls_def nth_append less_Suc_eq split: if_splits)
next
  case (event S r j key op data S')
  show ?case using event.IH event(2) handler_logged(2) [OF event(3,2)] handler_logged(4,5) [OF event(3,2)]
    by (cases "i < length (sys_mgrs S)") (auto simp: ac_simps)
next
  case (put S r db table key v S')
  obtain l where "handler_step (S\<lparr>sys_dir := dir_store (get_slot_name db table) key v (sys_dir S)\<rparr>) S' l"
    using put_step [OF vpp_run_wired [OF put(1)] put(2)] by blast
  then show ?case
    using put.IH by (auto simp: handler_step_def queue_of_def calls_def split: if_splits)
qed (auto simp: queue_of_def calls_def split: if_splits)

text \<open>
  No update is lost and none is taken twice: in every history, the updates a manager has received are
  exactly those its set handler has accepted together with those in its queue, counted with multiplicity.\<close>

theorem updates_neither_lost_nor_repeated:
  assumes "vpp_run SH S r" and "i < length (sys_mgrs S)"
  shows "mset (received i r) = mset (accepted i (calls S)) + mset (queue_of i S)"
  using vpp_run_counts [OF assms(1), of i] assms(2) by simp

section \<open>An update that waits\<close>

lemmas system_eval = Let_def dir_put_def manager_init_def path_exist_def path_traverse_def directory_init_def
  set_mgr_queue_def path_handlers_def dir_store_def slot_items_def on_deps_change_def handler_def
  logged_def ready_demo_def

lemma split_done: "split_char 47 (py ''done'') = [py ''done'']"
  by (simp add: py_def)

lemma idle_demo_run: "vpp_run ready_demo idle_demo []"
  unfolding idle_demo_def by (intro vpp_run.manager vpp_run.start)

lemma waiting_demo_run: "vpp_run ready_demo waiting_demo [(0, py ''vpp'', [])]"
proof -
  have "handler (logged ready_demo) 0 (py ''vpp'') (py ''SET'') [] idle_demo = Inr waiting_demo"
    by (simp add: idle_demo_def waiting_demo_def system_eval)
  from vpp_run.event [OF idle_demo_run _ this] show ?thesis
    by (simp add: idle_demo_def manager_init_def)
qed

lemma waiting_demo_put:
  obtains S' where "dir_put (logged ready_demo) (py ''APPL_DB'') (py ''PORT'') (py ''done'') PNone waiting_demo = Inr S'"
    and "available_deps (sys_dir S') (mgr_deps (sys_mgrs waiting_demo ! 0)) = Inr True"
    and "calls S' = [(0, py ''vpp'', [], True)]"
proof -
  have "case dir_put (logged ready_demo) (py ''APPL_DB'') (py ''PORT'') (py ''done'') PNone waiting_demo of
      Inl e \<Rightarrow> False
    | Inr S' \<Rightarrow> available_deps (sys_dir S') (mgr_deps (sys_mgrs waiting_demo ! 0)) = Inr True \<and>
        calls S' = [(0, py ''vpp'', [], True)]"
    by (simp add: waiting_demo_def idle_demo_def calls_def split_done system_eval)
  then show thesis using that by (auto split: sum.splits)
qed

theorem queued_updates_delivered_witness:
  "\<exists>S'. dir_put (logged ready_demo) (py ''APPL_DB'') (py ''PORT'') (py ''done'') PNone waiting_demo = Inr S' \<and>
     queue_of 0 waiting_demo = [(py ''vpp'', [])] \<and> queue_of 0 S' = []"
proof -
  obtain S' where S': "dir_put (logged ready_demo) (py ''APPL_DB'') (py ''PORT'') (py ''done'') PNone waiting_demo = Inr S'"
    "available_deps (sys_dir S') (mgr_deps (sys_mgrs waiting_demo ! 0)) = Inr True"
    "calls S' = [(0, py ''vpp'', [], True)]"
    by (rule waiting_demo_put)
  have "0 < length (sys_mgrs waiting_demo)" "calls waiting_demo = []"
    "available_deps (sys_dir waiting_demo) (mgr_deps (sys_mgrs waiting_demo ! 0)) = Inr False"
    by (simp_all add: waiting_demo_def idle_demo_def calls_def system_eval)
  with queued_updates_delivered [OF waiting_demo_run _ _ S'(1,2)] S'(3) have "queue_of 0 S' = []" by auto
  moreover have "queue_of 0 waiting_demo = [(py ''vpp'', [])]"
    by (simp add: waiting_demo_def idle_demo_def queue_of_def system_eval)
  ultimately show ?thesis using S'(1) by blast
qed

theorem updates_neither_lost_nor_repeated_witness:
  "mset (received 0 [(0, py ''vpp'', [])]) = mset (accepted 0 (calls waiting_demo)) + mset (queue_of 0 waiting_demo)"
  using updates_neither_lost_nor_repeated [OF waiting_demo_run, of 0]
  by (simp add: waiting_demo_def idle_demo_def system_eval)

text \<open>
  A read of a missing slot through \<^verbatim>\<open>get_slot\<close> creates it without a notification: an update that waits for
  the slot stays in the queue although its dependencies are met.
\<close>

lemma get_slot_wakes_nobody:
  assumes "mgr_deps (sys_mgrs S ! i) = [(db, table, [])]"
  shows "available_deps (snd (get_slot (sys_dir S) db table)) (mgr_deps (sys_mgrs S ! i)) = Inr True"
    and "queue_of i (S\<lparr>sys_dir := snd (get_slot (sys_dir S) db table)\<rparr>) = queue_of i S"
  using assms
  by (auto simp: get_slot_def Let_def touch_slot_def path_exist_def path_traverse_def queue_of_def split: option.split)

end
