(* ===== verification/Python_Json.thy ===== *)
theory Python_Json
  imports Python_Values
begin

text \<open>
  Python's \<^verbatim>\<open>json\<close> module as the daemon uses it: \<^verbatim>\<open>json.loads\<close> on the fields of a database entry,
  \<^verbatim>\<open>json.load\<close> on the template file and \<^verbatim>\<open>json.dump(..., indent=4)\<close> for \<^verbatim>\<open>startup.json\<close>.

  The reader follows the scanner of the module (strict strings, surrogate pairs, the number grammar,
  \<^verbatim>\<open>NaN\<close> and the infinities, the last of two equal keys wins); its fuel bounds the recursion, and a text
  never needs more than twice its length plus one (\<open>scan_enough\<close>). The conversions between floating-point numbers and
  text are an argument, with the laws of \<^verbatim>\<open>float\<close> and \<^verbatim>\<open>repr\<close> as the hypothesis \<open>float_ok\<close>. The writer
  escapes everything outside printable ASCII. The section on the round trip shows that what \<open>json_dump\<close>
  writes, \<open>json_loads\<close> reads back.
\<close>

record 'f float_ops =
  float_of :: "pystr \<Rightarrow> 'f"
  float_repr :: "'f \<Rightarrow> pystr"
  float_zero :: "'f \<Rightarrow> bool"

section \<open>The reader\<close>

definition is_ws :: "nat \<Rightarrow> bool" where
  "is_ws c = (c = 32 \<or> c = 9 \<or> c = 10 \<or> c = 13)"

definition skip_ws :: "pystr \<Rightarrow> pystr" where
  "skip_ws s = dropWhile is_ws s"

definition is_digit :: "nat \<Rightarrow> bool" where
  "is_digit c = (48 \<le> c \<and> c \<le> 57)"

definition hex_val :: "nat \<Rightarrow> nat option" where
  "hex_val c = (if is_digit c then Some (c - 48)
     else if 97 \<le> c \<and> c \<le> 102 then Some (c - 87)
     else if 65 \<le> c \<and> c \<le> 70 then Some (c - 55) else None)"

text \<open>The four hexadecimal digits of an escape.\<close>

fun decode_u :: "pystr \<Rightarrow> nat option" where
  "decode_u (a # b # c # d # s) =
     (case (hex_val a, hex_val b, hex_val c, hex_val d) of
        (Some w, Some x, Some y, Some z) \<Rightarrow> Some (4096 * w + 256 * x + 16 * y + z)
      | _ \<Rightarrow> None)"
| "decode_u s = None"

definition unescape :: "nat \<Rightarrow> nat option" where
  "unescape c = map_of [(34, 34), (92, 92), (47, 47), (98, 8), (102, 12), (110, 10), (114, 13), (116, 9)] c"

definition high_surrogate :: "nat \<Rightarrow> bool" where
  "high_surrogate u = (0xd800 \<le> u \<and> u \<le> 0xdbff)"

definition low_surrogate :: "nat \<Rightarrow> bool" where
  "low_surrogate u = (0xdc00 \<le> u \<and> u \<le> 0xdfff)"

definition join_surrogates :: "nat \<Rightarrow> nat \<Rightarrow> nat" where
  "join_surrogates u v = 0x10000 + (u - 0xd800) * 1024 + (v - 0xdc00)"

definition cons_char :: "nat \<Rightarrow> (pystr \<times> pystr) option \<Rightarrow> (pystr \<times> pystr) option" where
  "cons_char c r = map_option (\<lambda>(t, s). (c # t, s)) r"

text \<open>
  A string after its opening quote. The escape of a high surrogate swallows a directly following escape
  when that is a low surrogate.
\<close>

fun scan_string :: "pystr \<Rightarrow> (pystr \<times> pystr) option" where
  "scan_string [] = None"
| "scan_string (c # s) =
     (if c = 34 then Some ([], s)
      else if c < 32 then None
      else if c \<noteq> 92 then cons_char c (scan_string s)
      else case s of [] \<Rightarrow> None
        | e # s1 \<Rightarrow>
          if e \<noteq> 117 then (case unescape e of None \<Rightarrow> None | Some c' \<Rightarrow> cons_char c' (scan_string s1))
          else case decode_u s1 of None \<Rightarrow> None
            | Some u \<Rightarrow>
              if high_surrogate u \<and> take 2 (drop 4 s1) = [92, 117] then
                (case decode_u (drop 6 s1) of None \<Rightarrow> None
                 | Some v \<Rightarrow> if low_surrogate v then cons_char (join_surrogates u v) (scan_string (drop 10 s1))
                     else cons_char u (scan_string (drop 4 s1)))
              else cons_char u (scan_string (drop 4 s1)))"

text \<open>Numbers: an optional sign, the integer part, and optionally a fraction and an exponent.\<close>

definition scan_frac :: "pystr \<Rightarrow> pystr \<times> pystr" where
  "scan_frac s = (case s of c # d # r \<Rightarrow>
       if c = 46 \<and> is_digit d then (c # takeWhile is_digit (d # r), dropWhile is_digit (d # r)) else ([], s)
     | _ \<Rightarrow> ([], s))"

definition scan_exp :: "pystr \<Rightarrow> pystr \<times> pystr" where
  "scan_exp s = (case s of [] \<Rightarrow> ([], [])
     | c # r \<Rightarrow>
       if c = 101 \<or> c = 69 then
         let (sg, r1) = (case r of d # r1 \<Rightarrow> if d = 43 \<or> d = 45 then ([d], r1) else ([], r) | [] \<Rightarrow> ([], []))
         in if r1 \<noteq> [] \<and> is_digit (hd r1) then (c # sg @ takeWhile is_digit r1, dropWhile is_digit r1) else ([], s)
       else ([], s))"

definition dec_val :: "pystr \<Rightarrow> int" where
  "dec_val ds = foldl (\<lambda>n c. 10 * n + int (c - 48)) 0 ds"

definition scan_int :: "pystr \<Rightarrow> (pystr \<times> pystr) option" where
  "scan_int s = (case s of [] \<Rightarrow> None
     | c # r \<Rightarrow> if c = 48 then Some ([c], r)
         else if is_digit c then Some (takeWhile is_digit s, dropWhile is_digit s) else None)"

definition scan_number :: "'f float_ops \<Rightarrow> pystr \<Rightarrow> ('f pyval \<times> pystr) option" where
  "scan_number F s =
     (let neg = (s \<noteq> [] \<and> hd s = 45); s1 = (if neg then tl s else s) in
      case scan_int s1 of None \<Rightarrow> None
      | Some (ip, s2) \<Rightarrow>
        let (fp, s3) = scan_frac s2; (ep, s4) = scan_exp s3 in
        Some (if fp = [] \<and> ep = [] then PInt (if neg then - dec_val ip else dec_val ip)
              else PFloat (float_of F ((if neg then [45] else []) @ ip @ fp @ ep)), s4))"

text \<open>The constants, in the order the scanner tries them.\<close>

definition scan_const :: "'f float_ops \<Rightarrow> pystr \<Rightarrow> ('f pyval \<times> pystr) option" where
  "scan_const F s =
     (if take 4 s = py ''null'' then Some (PNone, drop 4 s)
      else if take 4 s = py ''true'' then Some (PBool True, drop 4 s)
      else if take 5 s = py ''false'' then Some (PBool False, drop 5 s)
      else if take 3 s = py ''NaN'' then Some (PFloat (float_of F (py ''NaN'')), drop 3 s)
      else if take 8 s = py ''Infinity'' then Some (PFloat (float_of F (py ''Infinity'')), drop 8 s)
      else if take 9 s = py ''-Infinity'' then Some (PFloat (float_of F (py ''-Infinity'')), drop 9 s)
      else scan_number F s)"

text \<open>A value; the items of an object from the quote of the first key on; the elements of an array.\<close>

fun scan_once :: "'f float_ops \<Rightarrow> nat \<Rightarrow> pystr \<Rightarrow> ('f pyval \<times> pystr) option"
  and scan_items :: "'f float_ops \<Rightarrow> nat \<Rightarrow> pystr \<Rightarrow> ('f pydict \<times> pystr) option"
  and scan_elems :: "'f float_ops \<Rightarrow> nat \<Rightarrow> pystr \<Rightarrow> ('f pyval list \<times> pystr) option" where
  "scan_once F 0 s = None"
| "scan_once F (Suc n) [] = None"
| "scan_once F (Suc n) (c # s) =
     (if c = 34 then map_option (\<lambda>(t, r). (PStr t, r)) (scan_string s)
      else if c = 123 then
        (if skip_ws s \<noteq> [] \<and> hd (skip_ws s) = 125 then Some (PDict [], tl (skip_ws s))
         else map_option (\<lambda>(d, r). (PDict (py_dict d), r)) (scan_items F n (skip_ws s)))
      else if c = 91 then
        (if skip_ws s \<noteq> [] \<and> hd (skip_ws s) = 93 then Some (PList [], tl (skip_ws s))
         else map_option (\<lambda>(xs, r). (PList xs, r)) (scan_elems F n (skip_ws s)))
      else scan_const F (c # s))"
| "scan_items F 0 s = None"
| "scan_items F (Suc n) [] = None"
| "scan_items F (Suc n) (c # s) =
     (if c \<noteq> 34 then None
      else case scan_string s of None \<Rightarrow> None
        | Some (k, r) \<Rightarrow>
          (case skip_ws r of [] \<Rightarrow> None
           | c1 # r1 \<Rightarrow> if c1 \<noteq> 58 then None
             else case scan_once F n (skip_ws r1) of None \<Rightarrow> None
               | Some (v, r2) \<Rightarrow>
                 (case skip_ws r2 of [] \<Rightarrow> None
                  | c2 # r3 \<Rightarrow> if c2 = 125 then Some ([(k, v)], r3)
                    else if c2 = 44 then map_option (\<lambda>(d, r). ((k, v) # d, r)) (scan_items F n (skip_ws r3))
                    else None)))"
| "scan_elems F 0 s = None"
| "scan_elems F (Suc n) s =
     (case scan_once F n s of None \<Rightarrow> None
      | Some (v, r) \<Rightarrow>
        (case skip_ws r of [] \<Rightarrow> None
         | c # r1 \<Rightarrow> if c = 93 then Some ([v], r1)
           else if c = 44 then map_option (\<lambda>(xs, r). (v # xs, r)) (scan_elems F n (skip_ws r1))
           else None))"

text \<open>
  \<^verbatim>\<open>json.loads\<close>: a byte order mark is refused, and nothing but white space may follow the value. Both
  callers pass a text, so \<^verbatim>\<open>json.load(fp)\<close> is \<^verbatim>\<open>json.loads(fp.read())\<close>.
\<close>

definition json_loads :: "'f float_ops \<Rightarrow> pystr \<Rightarrow> exn + 'f pyval" where
  "json_loads F s =
     (if s \<noteq> [] \<and> hd s = 0xfeff then Inl JSONDecodeError
      else case scan_once F (Suc (2 * length s)) (skip_ws s) of None \<Rightarrow> Inl JSONDecodeError
        | Some (v, r) \<Rightarrow> if skip_ws r = [] then Inr v else Inl JSONDecodeError)"

section \<open>The writer\<close>

definition hex_char :: "nat \<Rightarrow> nat" where
  "hex_char d = (if d < 10 then 48 + d else 87 + d)"

definition hex4 :: "nat \<Rightarrow> pystr" where
  "hex4 n = [hex_char (n div 4096 mod 16), hex_char (n div 256 mod 16), hex_char (n div 16 mod 16), hex_char (n mod 16)]"

definition u_escape :: "nat \<Rightarrow> pystr" where
  "u_escape n = 92 # 117 # hex4 n"

definition escape_char :: "nat \<Rightarrow> pystr" where
  "escape_char c =
     (case map_of [(92, 92), (34, 34), (10, 110), (13, 114), (9, 116), (12, 102), (8, 98)] c of
        Some e \<Rightarrow> [92, e]
      | None \<Rightarrow> if 32 \<le> c \<and> c \<le> 126 then [c]
          else if c < 0x10000 then u_escape c
          else u_escape (0xd800 + (c - 0x10000) div 1024 mod 1024) @ u_escape (0xdc00 + (c - 0x10000) mod 1024))"

definition json_quote :: "pystr \<Rightarrow> pystr" where
  "json_quote s = 34 # concat (map escape_char s) @ [34]"

fun dec_digits :: "nat \<Rightarrow> pystr" where
  "dec_digits n = (if n < 10 then [48 + n] else dec_digits (n div 10) @ [48 + n mod 10])"

definition int_repr :: "int \<Rightarrow> pystr" where
  "int_repr i = (if i < 0 then 45 # dec_digits (nat (- i)) else dec_digits (nat i))"

definition json_newline :: "nat \<Rightarrow> pystr" where
  "json_newline n = 10 # replicate (4 * n) 32"

text \<open>\<^verbatim>\<open>json.dump\<close> with an indentation of four: a value at nesting depth \<open>n\<close>, the items of an object, the elements of an array.\<close>

fun json_value :: "'f float_ops \<Rightarrow> nat \<Rightarrow> 'f pyval \<Rightarrow> pystr"
  and json_items :: "'f float_ops \<Rightarrow> nat \<Rightarrow> 'f pydict \<Rightarrow> pystr"
  and json_elems :: "'f float_ops \<Rightarrow> nat \<Rightarrow> 'f pyval list \<Rightarrow> pystr" where
  "json_value F n PNone = py ''null''"
| "json_value F n (PBool b) = py (if b then ''true'' else ''false'')"
| "json_value F n (PInt i) = int_repr i"
| "json_value F n (PFloat x) = float_repr F x"
| "json_value F n (PStr s) = json_quote s"
| "json_value F n (PList xs) =
     (if xs = [] then [91, 93] else 91 # json_elems F (Suc n) xs @ json_newline n @ [93])"
| "json_value F n (PDict d) =
     (if d = [] then [123, 125] else 123 # json_items F (Suc n) d @ json_newline n @ [125])"
| "json_items F n [] = []"
| "json_items F n ((k, v) # d) =
     json_newline n @ json_quote k @ [58, 32] @ json_value F n v @ (if d = [] then [] else 44 # json_items F n d)"
| "json_elems F n [] = []"
| "json_elems F n (v # xs) =
     json_newline n @ json_value F n v @ (if xs = [] then [] else 44 # json_elems F n xs)"

definition json_dump :: "'f float_ops \<Rightarrow> 'f pyval \<Rightarrow> pystr" where
  "json_dump F v = json_value F 0 v"

section \<open>The values that survive the round trip\<close>

text \<open>
  Escaping writes a code point above 16 bits as two escapes, which the reader joins; so a text in which
  a high surrogate is directly followed by a low one does not survive, and no other text is lost.
\<close>

fun pair_free :: "pystr \<Rightarrow> bool" where
  "pair_free (a # b # s) = (\<not> (high_surrogate a \<and> low_surrogate b) \<and> pair_free (b # s))"
| "pair_free s = True"

definition json_text :: "pystr \<Rightarrow> bool" where
  "json_text s = (list_all (\<lambda>c. c < 0x110000) s \<and> pair_free s)"

fun json_plain :: "'f pyval \<Rightarrow> bool" where
  "json_plain (PStr s) = json_text s"
| "json_plain (PList xs) = list_all json_plain xs"
| "json_plain (PDict d) = list_all (\<lambda>p. json_text (fst p) \<and> json_plain (snd p)) d"
| "json_plain _ = True"

definition digits :: "pystr \<Rightarrow> bool" where
  "digits ds = (ds \<noteq> [] \<and> list_all is_digit ds)"

definition int_literal :: "pystr \<Rightarrow> bool" where
  "int_literal ip = (ip = [48] \<or> digits ip \<and> hd ip \<noteq> 48)"

definition float_literal :: "pystr \<Rightarrow> bool" where
  "float_literal t = (t \<in> {py ''NaN'', py ''Infinity'', py ''-Infinity''} \<or>
     (\<exists>sg ip fp ep. t = sg @ ip @ fp @ ep \<and> sg \<in> {[], [45]} \<and> int_literal ip \<and>
        (fp = [] \<or> (\<exists>ds. fp = 46 # ds \<and> digits ds)) \<and>
        (ep = [] \<or> (\<exists>e es ds. ep = e # es @ ds \<and> e \<in> {101, 69} \<and> es \<in> {[], [43], [45]} \<and> digits ds)) \<and>
        (fp \<noteq> [] \<or> ep \<noteq> [])))"

definition float_ok :: "'f float_ops \<Rightarrow> bool" where
  "float_ok F = (\<forall>x. float_literal (float_repr F x) \<and> float_of F (float_repr F x) = x)"

definition value_end :: "pystr \<Rightarrow> bool" where
  "value_end r = (r = [] \<or> hd r = 44 \<or> hd r = 10)"

section \<open>What is read gets shorter, so the fuel is enough\<close>

lemma skip_ws_shorter: "length (skip_ws s) \<le> length s"
  by (simp add: skip_ws_def length_dropWhile_le)

lemma cons_char_Some: "cons_char c r = Some (t, s) \<longleftrightarrow> (\<exists>t'. r = Some (t', s) \<and> t = c # t')"
  by (cases r) (auto simp: cons_char_def)

lemma scan_string_shorter: "scan_string s = Some (t, r) \<Longrightarrow> length r < length s"
proof (induction s arbitrary: t rule: scan_string.induct)
  case (2 c s)
  then show ?case
    by (fastforce simp: cons_char_Some less_Suc_eq_le split: if_splits list.splits option.splits)
qed simp

lemma scan_int_shorter: "scan_int s = Some (ip, r) \<Longrightarrow> length r < length s"
  by (auto simp: scan_int_def less_Suc_eq_le length_dropWhile_le split: list.splits if_splits)

lemma scan_frac_shorter: "scan_frac s = (fp, r) \<Longrightarrow> length r \<le> length s"
  using length_dropWhile_le [of is_digit]
  by (auto simp: scan_frac_def le_Suc_eq split: list.splits if_splits)

lemma scan_exp_shorter: "scan_exp s = (ep, r) \<Longrightarrow> length r \<le> length s"
  by (auto simp: scan_exp_def Let_def intro: le_SucI order_trans [OF length_dropWhile_le] split: list.splits if_splits)

lemma scan_number_shorter: "scan_number F s = Some (v, r) \<Longrightarrow> length r < length s"
  by (auto simp: scan_number_def Let_def split: option.splits prod.splits if_splits
      dest!: scan_int_shorter scan_frac_shorter scan_exp_shorter)

lemma scan_const_shorter: 
  assumes "scan_const F s = Some (v, r)" shows "length r < length s"
proof -
  have "s \<noteq> []" using assms by (auto simp: scan_const_def scan_number_def scan_int_def)
  then show ?thesis using assms scan_number_shorter [of F s v r]
   by (auto simp: scan_const_def split: if_splits)
qed

lemma skip_ws_Cons: "skip_ws s = c # r \<Longrightarrow> length r < length s"
  using skip_ws_shorter [of s] by simp

lemma less_skip_ws: "n < length (skip_ws s) \<Longrightarrow> n < length s"
  using skip_ws_shorter [of s] by simp

lemma scan_items_SomeD:
  assumes "scan_items F (Suc n) s = Some (d, r)"
  obtains s' k r0 r1 v r2 r3 where "s = 34 # s'" "scan_string s' = Some (k, r0)" "skip_ws r0 = 58 # r1"
    "scan_once F n (skip_ws r1) = Some (v, r2)" "skip_ws r2 = 125 # r"
  | s' k r0 r1 v r2 r3 d' where "s = 34 # s'" "scan_string s' = Some (k, r0)" "skip_ws r0 = 58 # r1"
    "scan_once F n (skip_ws r1) = Some (v, r2)" "skip_ws r2 = 44 # r3" "scan_items F n (skip_ws r3) = Some (d', r)"
  using assms by (cases s) (auto split: if_splits option.splits list.splits prod.splits)

lemma scan_shorter:
  "scan_once F n s = Some (v, r) \<Longrightarrow> length r < length s"
  "scan_items F n s = Some (d, r) \<Longrightarrow> length r < length s"
  "scan_elems F n s = Some (xs, r) \<Longrightarrow> length r < length s"
proof (induction n arbitrary: s v d xs r)
  case (Suc n)
  { case 1
    then show ?case using skip_ws_shorter [of "tl s"]
      by (cases s) (auto split: if_splits dest!: scan_string_shorter scan_const_shorter Suc.IH(2,3))
  next
    case 2
    then show ?case
      by (cases rule: scan_items_SomeD)
        (auto dest!: scan_string_shorter skip_ws_Cons Suc.IH(1,2) less_skip_ws)
  next
    case 3
    then show ?case
      by (auto split: if_splits option.splits list.splits dest!: skip_ws_Cons Suc.IH(1,3) less_skip_ws) }
qed simp_all

text \<open>One step of the loops with two amounts of fuel that agree on the rest of the text.\<close>

lemma scan_items_fuel:
  assumes "\<And>t. length t < length s \<Longrightarrow> scan_once F m (skip_ws t) = scan_once F k (skip_ws t)"
    and "\<And>t. length t < length s \<Longrightarrow> scan_items F m (skip_ws t) = scan_items F k (skip_ws t)"
  shows "scan_items F (Suc m) s = scan_items F (Suc k) s"
proof (cases "\<exists>s' key r0 r1. s = 34 # s' \<and> scan_string s' = Some (key, r0) \<and> skip_ws r0 = 58 # r1")
  case True
  then obtain s' key r0 r1 where s: "s = 34 # s'" "scan_string s' = Some (key, r0)" "skip_ws r0 = 58 # r1"
    by blast
  then have r1: "length r1 < length s" by (auto dest!: scan_string_shorter skip_ws_Cons)
  note once = assms(1) [OF r1]
  show ?thesis
  proof (cases "scan_once F k (skip_ws r1)")
    case (Some p)
    then obtain v r2 where p: "scan_once F k (skip_ws r1) = Some (v, r2)" by (cases p) simp
    show ?thesis
    proof (cases "skip_ws r2")
      case (Cons c2 r3)
      then have "length r3 < length s"
        using r1 scan_shorter(1) [OF p] skip_ws_Cons [OF Cons] skip_ws_shorter [of r1] by simp
      from assms(2) [OF this] show ?thesis by (simp add: s p once Cons)
    qed (simp add: s p once)
  qed (simp add: s once)
qed (cases s; auto split: option.splits list.splits)

lemma scan_elems_fuel:
  assumes "scan_once F m s = scan_once F k s"
    and "\<And>t. length t < length s \<Longrightarrow> scan_elems F m t = scan_elems F k t"
  shows "scan_elems F (Suc m) s = scan_elems F (Suc k) s"
proof (cases "scan_once F k s")
  case (Some p)
  then obtain v r where p: "scan_once F k s = Some (v, r)" by (cases p) simp
  show ?thesis
  proof (cases "skip_ws r")
    case (Cons c r1)
    then have "length (skip_ws r1) < length s"
      using scan_shorter(1) [OF p] skip_ws_Cons [OF Cons] skip_ws_shorter [of r1] by simp
    from assms(2) [OF this] show ?thesis by (simp add: assms(1) p Cons)
  qed (simp add: assms(1) p)
qed (simp add: assms(1))

lemma scan_enough:
  "2 * length s < m \<Longrightarrow> 2 * length s < n \<Longrightarrow> scan_once F m s = scan_once F n s"
  "2 * length s < m \<Longrightarrow> 2 * length s < n \<Longrightarrow> scan_items F m s = scan_items F n s"
  "2 * length s + 1 < m \<Longrightarrow> 2 * length s + 1 < n \<Longrightarrow> scan_elems F m s = scan_elems F n s"
proof (induction m arbitrary: s n)
  case (Suc m)
  { case 1
    obtain k where n: "n = Suc k" using 1 by (cases n) simp_all
    show ?case
    proof (cases s)
      case (Cons c s')
      then have "scan_items F m (skip_ws s') = scan_items F k (skip_ws s')"
        "scan_elems F m (skip_ws s') = scan_elems F k (skip_ws s')"
        using Suc.IH(2,3) [of "skip_ws s'" k] skip_ws_shorter [of s'] 1 n by simp_all
      then show ?thesis by (simp only: n Cons scan_once.simps)
    qed (simp add: n)
  next
    case 2
    obtain k where n: "n = Suc k" using 2 by (cases n) simp_all
    have "scan_once F m (skip_ws t) = scan_once F k (skip_ws t)"
      "scan_items F m (skip_ws t) = scan_items F k (skip_ws t)" if "length t < length s" for t
      using Suc.IH(1,2) [of "skip_ws t" k] skip_ws_shorter [of t] 2 n that by simp_all
    then show ?case unfolding n by (rule scan_items_fuel)
  next
    case 3
    obtain k where n: "n = Suc k" using 3 by (cases n) simp_all
    have "scan_elems F m t = scan_elems F k t" if "length t < length s" for t
      using Suc.IH(3) [of t k] 3 n that by simp
    moreover have "scan_once F m s = scan_once F k s" using Suc.IH(1) [of s k] 3 n by simp
    ultimately show ?case unfolding n by (intro scan_elems_fuel) }
qed simp_all

section \<open>Strings\<close>

lemma hex_val_char: "d < 16 \<Longrightarrow> hex_val (hex_char d) = Some d"
  by (simp add: hex_val_def hex_char_def is_digit_def)

lemma length_hex4 [simp]: "length (hex4 n) = 4"
  by (simp add: hex4_def)

lemma decode_hex4 [simp]:
  assumes "n < 0x10000"
  shows "decode_u (hex4 n @ r) = Some n"
proof -
  have top: "n div 4096 < 16" using assms by (simp add: less_mult_imp_div_less)
  have "n div 256 = n div 16 div 16" "n div 4096 = n div 256 div 16"
    by (simp_all flip: div_mult2_eq)
  moreover have "n = 16 * (n div 16) + n mod 16" "n div 16 = 16 * (n div 16 div 16) + n div 16 mod 16"
    "n div 256 = 16 * (n div 256 div 16) + n div 256 mod 16" by simp_all
  ultimately have "4096 * (n div 4096) + 256 * (n div 256 mod 16) + 16 * (n div 16 mod 16) + n mod 16 = n"
    by linarith
  then show ?thesis by (simp add: hex4_def hex_val_char top)
qed

lemma scan_u_escape:
  assumes "n < 0x10000"
    and "high_surrogate n \<Longrightarrow> take 2 r = [92, 117] \<Longrightarrow> \<exists>v. decode_u (drop 2 r) = Some v \<and> \<not> low_surrogate v"
  shows "scan_string (u_escape n @ r) = cons_char n (scan_string r)"
  using assms by (auto simp: u_escape_def)

lemma scan_u_pair:
  assumes "high_surrogate h" and "low_surrogate l"
  shows "scan_string (u_escape h @ u_escape l @ r) = cons_char (join_surrogates h l) (scan_string r)"
proof -
  have "h < 0x10000" "l < 0x10000" using assms by (simp_all add: high_surrogate_def low_surrogate_def)
  with assms show ?thesis by (simp add: u_escape_def)
qed

lemma escape_char_cases:
  assumes "c < 0x110000"
  obtains (short) e where "escape_char c = [92, e]" "e \<noteq> 117" "unescape e = Some c" "\<not> high_surrogate c"
  | (plain) "escape_char c = [c]" "32 \<le> c" "c \<noteq> 34" "c \<noteq> 92" "\<not> high_surrogate c"
  | (bmp) "escape_char c = u_escape c" "c < 0x10000"
  | (pair) h l where "escape_char c = u_escape h @ u_escape l" "high_surrogate h" "low_surrogate l"
    "join_surrogates h l = c" "\<not> high_surrogate c"
proof -
  let ?m = "map_of [(92, 92), (34, 34), (10, 110), (13, 114), (9, 116), (12, 102), (8, 98)] c :: nat option"
  consider e where "?m = Some e" | "?m = None" "32 \<le> c" "c \<le> 126" | "?m = None" "\<not> (32 \<le> c \<and> c \<le> 126)" "c < 0x10000"
    | "?m = None" "0x10000 \<le> c"
    by (cases ?m) linarith+
  then show thesis
  proof cases
    case 1
    then show thesis
      by (intro short [of e]) (auto simp: escape_char_def unescape_def high_surrogate_def split: if_splits)
  next
    case 2
    then show thesis
      by (intro plain) (auto simp: escape_char_def high_surrogate_def split: if_splits)
  next
    case 3
    then show thesis
      by (intro bmp) (auto simp add: escape_char_def simp del: map_of.simps)
  next
    case 4
    let ?h = "0xd800 + (c - 0x10000) div 1024 mod 1024" and ?l = "0xdc00 + (c - 0x10000) mod 1024"
    have "(c - 0x10000) div 1024 mod 1024 < 1024" "(c - 0x10000) mod 1024 < 1024" by simp_all
    then have "high_surrogate ?h" "low_surrogate ?l"
      unfolding high_surrogate_def low_surrogate_def by linarith+
    moreover have "(c - 0x10000) div 1024 < 1024" using assms by (simp add: less_mult_imp_div_less)
    ultimately show thesis
      using 4 by (intro pair [of ?h ?l])
        (simp_all add: escape_char_def join_surrogates_def high_surrogate_def del: map_of.simps)
  qed
qed

lemma high_surrogate_bound: "high_surrogate h \<Longrightarrow> h < 0x10000 \<and> \<not> low_surrogate h"
  by (simp add: high_surrogate_def low_surrogate_def)

lemma escape_first:
  assumes "c < 0x110000" and "\<not> low_surrogate c" and "take 2 (escape_char c @ r) = [92, 117]"
  shows "\<exists>v. decode_u (drop 2 (escape_char c @ r)) = Some v \<and> \<not> low_surrogate v"
  using assms(1)
proof (cases rule: escape_char_cases)
  case (pair h l)
  then show ?thesis using high_surrogate_bound [of h] by (simp add: u_escape_def)
qed (use assms(2,3) in \<open>simp_all add: u_escape_def\<close>)

lemma scan_escape_char:
  assumes "c < 0x110000"
    and "high_surrogate c \<Longrightarrow> take 2 r = [92, 117] \<Longrightarrow> \<exists>v. decode_u (drop 2 r) = Some v \<and> \<not> low_surrogate v"
  shows "scan_string (escape_char c @ r) = cons_char c (scan_string r)"
  using assms(1)
proof (cases rule: escape_char_cases)
  case bmp
  then show ?thesis using scan_u_escape [OF _ assms(2)] by simp
next
  case (pair h l)
  then show ?thesis using scan_u_pair [of h l r] by simp
qed simp_all

lemma scan_string_quote:
  assumes "json_text s"
  shows "scan_string (concat (map escape_char s) @ 34 # r) = Some (s, r)"
  using assms
proof (induction s)
  case (Cons c s)
  have IH: "scan_string (concat (map escape_char s) @ 34 # r) = Some (s, r)"
    using Cons by (cases s) (auto simp: json_text_def)
  have "\<exists>v. decode_u (drop 2 (concat (map escape_char s) @ 34 # r)) = Some v \<and> \<not> low_surrogate v"
    if "high_surrogate c" "take 2 (concat (map escape_char s) @ 34 # r) = [92, 117]"
  proof (cases s)
    case (Cons d s')
    then show ?thesis
      using escape_first [of d "concat (map escape_char s') @ 34 # r"] that Cons.prems
      by (simp add: json_text_def)
  qed (use that in simp)
  with IH Cons.prems scan_escape_char [of c "concat (map escape_char s) @ 34 # r"] show ?case
    by (simp add: json_text_def cons_char_def)
qed (simp add: json_text_def)

section \<open>White space and numbers\<close>

lemma skip_newline [simp]: "skip_ws (json_newline n @ s) = skip_ws s"
proof -
  have "dropWhile is_ws (replicate k 32 @ s) = dropWhile is_ws s" for k
    by (induction k) (simp_all add: is_ws_def)
  then show ?thesis by (simp add: skip_ws_def json_newline_def is_ws_def)
qed

lemma skip_ws_stop [simp]: "\<not> is_ws c \<Longrightarrow> skip_ws (c # s) = c # s"
  by (simp add: skip_ws_def)

lemma skip_ws_space [simp]: "skip_ws (32 # s) = skip_ws s"
  by (simp add: skip_ws_def is_ws_def)

declare dec_digits.simps [simp del]

lemma dec_digits_shape: "digits (dec_digits n) \<and> (0 < n \<longrightarrow> hd (dec_digits n) \<noteq> 48)"
proof (induction n rule: dec_digits.induct)
  case (1 n)
  then show ?case
    by (subst (1 2) dec_digits.simps) (auto simp: digits_def is_digit_def)
qed

lemma dec_digits_literal: "int_literal (dec_digits n)"
  using dec_digits_shape [of n] by (cases n) (simp_all add: int_literal_def dec_digits.simps)

lemma dec_val_digits: "dec_val (dec_digits n) = int n"
proof (induction n rule: dec_digits.induct)
  case (1 n)
  have "10 * int (n div 10) + int (n mod 10) = int n" by presburger
  with 1 show ?case
    by (subst dec_digits.simps) (auto simp: dec_val_def)
qed

lemma digits_takeWhile:
  assumes "digits ds" and "r = [] \<or> \<not> is_digit (hd r)"
  shows "takeWhile is_digit (ds @ r) = ds" "dropWhile is_digit (ds @ r) = r"
  using assms by (cases r; auto simp: digits_def list_all_iff takeWhile_append dropWhile_append)+

lemma scan_int_literal:
  assumes "int_literal ip" and "r = [] \<or> \<not> is_digit (hd r)"
  shows "scan_int (ip @ r) = Some (ip, r)"
  using assms digits_takeWhile [of ip r]
  by (cases ip) (auto simp: int_literal_def scan_int_def digits_def)

lemma scan_frac_literal:
  assumes "fp = [] \<or> (\<exists>ds. fp = 46 # ds \<and> digits ds)" and "r = [] \<or> \<not> is_digit (hd r) \<and> hd r \<noteq> 46"
  shows "scan_frac (fp @ r) = (fp, r)"
proof (cases "fp = []")
  case True
  then show ?thesis using assms(2) by (auto simp: scan_frac_def split: list.split)
next
  case False
  then obtain d ds where "fp = 46 # d # ds" "digits (d # ds)" using assms(1) by (auto simp: digits_def neq_Nil_conv)
  then show ?thesis
    using digits_takeWhile [of "d # ds" r] assms(2) by (auto simp: scan_frac_def digits_def)
qed

lemma scan_exp_literal:
  assumes "ep = [] \<or> (\<exists>e es ds. ep = e # es @ ds \<and> e \<in> {101, 69} \<and> es \<in> {[], [43], [45]} \<and> digits ds)"
    and "r = [] \<or> \<not> is_digit (hd r) \<and> hd r \<notin> {101, 69}"
  shows "scan_exp (ep @ r) = (ep, r)"
proof (cases "ep = []")
  case True
  then show ?thesis using assms(2) by (auto simp: scan_exp_def split: list.split)
next
  case False
  then obtain e es ds0 where ep: "ep = e # es @ ds0" "e \<in> {101, 69}" "es \<in> {[], [43], [45]}" "digits ds0"
    using assms(1) by blast
  moreover obtain d ds where "ds0 = d # ds" using ep(4) by (cases ds0) (simp_all add: digits_def)
  ultimately have "ep = e # es @ d # ds" "e \<in> {101, 69}" "es \<in> {[], [43], [45]}" "digits (d # ds)" by simp_all
  then show ?thesis
    using digits_takeWhile [of "d # ds" r] assms(2)
    by (auto simp: scan_exp_def digits_def Let_def is_digit_def)
qed

lemma value_end_stops:
  assumes "value_end r"
  shows "r = [] \<or> \<not> is_digit (hd r)" "r = [] \<or> \<not> is_digit (hd r) \<and> hd r \<noteq> 46"
    "r = [] \<or> \<not> is_digit (hd r) \<and> hd r \<notin> {101, 69}"
  using assms by (auto simp: value_end_def is_digit_def)

lemma scan_number_literal:
  assumes "int_literal ip" and fp: "fp = [] \<or> (\<exists>ds. fp = 46 # ds \<and> digits ds)"
    and ep: "ep = [] \<or> (\<exists>e es ds. ep = e # es @ ds \<and> e \<in> {101, 69} \<and> es \<in> {[], [43], [45]} \<and> digits ds)"
    and r: "value_end r"
  shows "scan_number F ((if neg then [45] else []) @ ip @ fp @ ep @ r) =
    Some (if fp = [] \<and> ep = [] then PInt (if neg then - dec_val ip else dec_val ip)
      else PFloat (float_of F ((if neg then [45] else []) @ ip @ fp @ ep)), r)"
proof -
  have stop_ep: "ep @ r = [] \<or> \<not> is_digit (hd (ep @ r)) \<and> hd (ep @ r) \<noteq> 46"
    using ep value_end_stops(2) [OF r] by (auto simp: is_digit_def)
  have stop_fp: "fp @ ep @ r = [] \<or> \<not> is_digit (hd (fp @ ep @ r))"
    using fp stop_ep by (auto simp: is_digit_def)
  have ip: "ip \<noteq> []" "hd ip \<noteq> 45"
    using assms(1) by (cases ip; auto simp: int_literal_def digits_def is_digit_def)+
  show ?thesis
    using scan_int_literal [OF assms(1) stop_fp] scan_frac_literal [OF fp stop_ep]
      scan_exp_literal [OF ep value_end_stops(3) [OF r]] ip
    by (cases neg) (simp_all add: scan_number_def Let_def)
qed

lemma scan_const_number:
  assumes "s \<noteq> []" and "is_digit (hd s) \<or> hd s = 45 \<and> tl s \<noteq> [] \<and> is_digit (hd (tl s))"
  shows "scan_const F s = scan_number F s"
  using assms by (cases s; cases "tl s")
    (auto simp: scan_const_def py_def is_digit_def eval_nat_numeral)

section \<open>The round trip\<close>

lemma scan_once_int:
  assumes "value_end r"
  shows "scan_once F (Suc n) (int_repr i @ r) = Some (PInt i, r)"
proof -
  define ip where "ip = dec_digits (nat \<bar>i\<bar>)"
  have ip: "int_literal ip" "dec_val ip = \<bar>i\<bar>" by (simp_all add: ip_def dec_digits_literal dec_val_digits)
  obtain d ds where d: "ip = d # ds" "is_digit d"
    using ip(1) by (cases ip) (auto simp: int_literal_def digits_def is_digit_def)
  have repr: "int_repr i = (if i < 0 then [45] else []) @ ip"
    by (simp add: int_repr_def ip_def)
  have "scan_number F (int_repr i @ r) = Some (PInt i, r)"
    using scan_number_literal [OF ip(1) _ _ assms, of "[]" "[]" F "i < 0"] ip(2) by (simp add: repr)
  moreover have "scan_const F (int_repr i @ r) = scan_number F (int_repr i @ r)"
    by (rule scan_const_number) (use d in \<open>auto simp: repr\<close>)
  ultimately show ?thesis
    using d by (auto simp: repr is_digit_def)
qed

lemma scan_once_float:
  assumes "float_ok F" and "value_end r"
  shows "scan_once F (Suc n) (float_repr F x @ r) = Some (PFloat x, r)"
proof -
  have lit: "float_literal (float_repr F x)" and rt: "float_of F (float_repr F x) = x"
    using assms(1) by (auto simp: float_ok_def)
  show ?thesis
  proof (cases "float_repr F x \<in> {py ''NaN'', py ''Infinity'', py ''-Infinity''}")
    case True
    then show ?thesis using rt by (auto simp: scan_const_def py_def)
  next
    case False
    then obtain sg ip fp ep where t: "float_repr F x = sg @ ip @ fp @ ep" "sg \<in> {[], [45]}" "int_literal ip"
      and fp: "fp = [] \<or> (\<exists>ds. fp = 46 # ds \<and> digits ds)"
      and ep: "ep = [] \<or> (\<exists>e es ds. ep = e # es @ ds \<and> e \<in> {101, 69} \<and> es \<in> {[], [43], [45]} \<and> digits ds)"
      and ne: "fp \<noteq> [] \<or> ep \<noteq> []"
      using lit unfolding float_literal_def by blast
    have sg: "sg = (if sg = [45] then [45] else [])" using t(2) by auto
    obtain d ds where d: "ip = d # ds" "is_digit d"
      using t(3) by (cases ip) (auto simp: int_literal_def digits_def is_digit_def)
    have "scan_number F (float_repr F x @ r) = Some (PFloat x, r)"
      using scan_number_literal [OF t(3) fp ep assms(2), of F "sg = [45]"] ne rt sg t(1) by simp
    moreover have "scan_const F (float_repr F x @ r) = scan_number F (float_repr F x @ r)"
      by (rule scan_const_number) (use d t in auto)
    ultimately show ?thesis
      using d t by (auto simp: is_digit_def)
  qed
qed

lemma float_first:
  assumes "float_ok F"
  shows "\<exists>c s. float_repr F x = c # s \<and> \<not> is_ws c \<and> c \<noteq> 93 \<and> c < 128"
proof -
  have "\<exists>c s. t = c # s \<and> \<not> is_ws c \<and> c \<noteq> 93 \<and> c < 128" if "float_literal t" for t
    using that by (auto simp: float_literal_def py_def is_ws_def int_literal_def digits_def is_digit_def neq_Nil_conv)
  then show ?thesis using assms by (simp add: float_ok_def)
qed

lemma int_first: "\<exists>c s. int_repr i = c # s \<and> \<not> is_ws c \<and> c \<noteq> 93 \<and> c < 128"
  using dec_digits_literal [of "nat \<bar>i\<bar>"]
  by (auto simp: int_repr_def is_ws_def int_literal_def digits_def is_digit_def neq_Nil_conv)

lemma value_first:
  assumes "float_ok F"
  shows "\<exists>c s. json_value F k v = c # s \<and> \<not> is_ws c \<and> c \<noteq> 93 \<and> c < 128"
  using float_first [OF assms] int_first
  by (cases v) (auto simp: py_def is_ws_def json_quote_def)

lemma skip_value:
  assumes "float_ok F"
  shows "skip_ws (json_value F k v @ s) = json_value F k v @ s"
  using value_first [OF assms, of k v] by auto

lemma value_end_newline [simp]: "value_end (json_newline n @ s)" "value_end (44 # s)"
  by (simp_all add: value_end_def json_newline_def)

lemma length_newline [simp]: "length (json_newline n) = Suc (4 * n)"
  by (simp add: json_newline_def)

lemma first_item:
  "d \<noteq> [] \<Longrightarrow> \<exists>s. skip_ws (json_items F k d @ s') = 34 # s"
  by (cases d) (auto simp: json_quote_def is_ws_def)

lemma first_elem:
  assumes "float_ok F" and "xs \<noteq> []"
  shows "\<exists>c s. skip_ws (json_elems F k xs @ s') = c # s \<and> c \<noteq> 93"
  using assms(2) value_first [OF assms(1), of k "hd xs"]
  by (cases xs) (auto simp: skip_value [OF assms(1)])

lemma scan_written:
  shows "float_ok F \<Longrightarrow> wf_val v \<Longrightarrow> json_plain v \<Longrightarrow> value_end r \<Longrightarrow> 2 * length (json_value F k v) < n \<Longrightarrow>
      scan_once F n (json_value F k v @ r) = Some (v, r)"
    and "float_ok F \<Longrightarrow> list_all (\<lambda>p. wf_val (snd p)) d \<Longrightarrow> json_plain (PDict d) \<Longrightarrow> d \<noteq> [] \<Longrightarrow> 2 * length (json_items F k d) < n \<Longrightarrow>
      scan_items F n (skip_ws (json_items F k d @ json_newline j @ 125 # r)) = Some (d, r)"
    and "float_ok F \<Longrightarrow> list_all wf_val xs \<Longrightarrow> list_all json_plain xs \<Longrightarrow> xs \<noteq> [] \<Longrightarrow> 2 * length (json_elems F k xs) < n \<Longrightarrow>
      scan_elems F n (skip_ws (json_elems F k xs @ json_newline j @ 93 # r)) = Some (xs, r)"
proof (induction F k v and F k d and F k xs arbitrary: n r and n j r and n j r
    rule: json_value_json_items_json_elems.induct)
  case (1 F k)
  then show ?case by (cases n) (simp_all add: scan_const_def py_def)
next
  case (2 F k b)
  then show ?case by (cases n) (simp_all add: scan_const_def py_def)
next
  case (3 F k i)
  then show ?case by (cases n) (simp_all add: scan_once_int del: scan_once.simps(3))
next
  case (4 F k x)
  then show ?case by (cases n) (simp_all add: scan_once_float del: scan_once.simps(3))
next
  case (5 F k s)
  then show ?case by (cases n) (simp_all add: json_quote_def scan_string_quote)
next
  case (6 F k xs)
  then obtain m where n: "n = Suc m" by (cases n) auto
  show ?case
  proof (cases "xs = []")
    case True
    then show ?thesis using n by (simp add: is_ws_def)
  next
    case False
    obtain c s where cs: "skip_ws (json_elems F (Suc k) xs @ json_newline k @ 93 # r) = c # s" "c \<noteq> 93"
      using first_elem [OF 6(2) False] by blast
    show ?thesis using 6(1) [OF False 6(2) _ _ False, of m k r] 6(2-) False n cs by simp
  qed
next
  case (7 F k d)
  then obtain m where n: "n = Suc m" by (cases n) auto
  show ?case
  proof (cases "d = []")
    case True
    then show ?thesis using n by (simp add: is_ws_def)
  next
    case False
    obtain s where cs: "skip_ws (json_items F (Suc k) d @ json_newline k @ 125 # r) = 34 # s"
      using first_item [OF False] by blast
    show ?thesis using 7(1) [OF False 7(2) _ _ False, of m k r] 7(2-) False n cs by (simp add: py_dict_id)
  qed
next
  case (9 F k key v d)
  then obtain m where n: "n = Suc m" by (cases n) auto
  have key: "scan_string (concat (map escape_char key) @ 34 # s) = Some (key, s)" for s
    using 9(5) by (intro scan_string_quote) simp
  let ?t = "(if d = [] then [] else 44 # json_items F k d) @ json_newline j @ 125 # r"
  have val: "scan_once F m (json_value F k v @ ?t) = Some (v, ?t)"
    using 9(1) [OF 9(3), of ?t m] 9(4-) n by simp
  show ?case
    using 9(2) [of m j r] 9(3-) n key val
    by (cases "d = []") (simp_all add: json_quote_def is_ws_def skip_value [OF 9(3)])
next
  case (11 F k v xs)
  then obtain m where n: "n = Suc m" by (cases n) auto
  let ?t = "(if xs = [] then [] else 44 # json_elems F k xs) @ json_newline j @ 93 # r"
  have val: "scan_once F m (json_value F k v @ ?t) = Some (v, ?t)"
    using 11(1) [OF 11(3), of ?t m] 11(4-) n by (cases "xs = []") simp_all
  show ?case
    using 11(2) [of m j r] 11(3-) n val
    by (cases "xs = []") (simp_all add: is_ws_def skip_value [OF 11(3)])
qed simp_all

lemma json_roundtrip:
  assumes "float_ok F" and "wf_val v" and "json_plain v"
  shows "json_loads F (json_dump F v) = Inr v"
proof -
  obtain c s where c: "json_value F 0 v = c # s" "\<not> is_ws c" "c < 128" using value_first [OF assms(1), of 0 v] by blast
  have "scan_once F (Suc (2 * length (json_value F 0 v))) (json_value F 0 v) = Some (v, [])"
    using scan_written(1) [OF assms, of "[]" 0] by (simp add: value_end_def)
  then show ?thesis
    using c by (simp add: json_loads_def json_dump_def skip_ws_def)
qed

end
