(* ===== verification/Vppcfg_Config.thy ===== *)
theory Vppcfg_Config
  imports Python_Json
begin

text \<open>
  The configuration manager of \<^verbatim>\<open>vppcfgd\<close>: \<^verbatim>\<open>vpp.py\<close> (the template), \<^verbatim>\<open>config.py\<close> (merging an update into the
  configuration, the DPDK and environment adjustments, rendering \<^verbatim>\<open>startup.conf\<close>, writing the three files)
  and the constants of \<^verbatim>\<open>vars.py\<close>.

  \<^verbatim>\<open>ConfigMgr.vpp_json_cfg\<close> is not a copy of the template but the very object that \<^verbatim>\<open>VppMgr\<close> holds, so the
  configuration roots live in a heap and both hold a reference. An exception ends the daemon; only the
  files survive it, which is why \<open>commit\<close> returns the state with its exception, while the steps that write
  no file return one or the other. The environment is an argument: the variables, which files can be
  opened for writing, and the floating-point conversions of the \<^verbatim>\<open>json\<close> module. Debug output is left out.
\<close>

section \<open>State\<close>

type_synonym py_ref = nat

record 'f pyenv =
  py_floats :: "'f float_ops"
  py_getenv :: "string \<Rightarrow> pystr option"
  py_can_open :: "string \<Rightarrow> bool"

record 'f cfgd =
  py_heap :: "py_ref \<Rightarrow> 'f pyval"
  py_files :: "string \<rightharpoonup> pystr"
  vpp_config :: py_ref \<comment> \<open>of \<open>VppMgr\<close>\<close>
  vpp_json_cfg :: "py_ref option" \<comment> \<open>of \<open>ConfigMgr\<close>; \<open>None\<close> is Python's\<close>
  vpp_startup_conf :: pystr
  vpp_vports_conf :: pystr

definition VPP_TEMPLATE :: string where "VPP_TEMPLATE = ''/etc/sonic/vpp/vpp_template.json''"
definition VPP_CONFIG_JSON_PATH :: string where "VPP_CONFIG_JSON_PATH = ''/etc/sonic/vpp/startup.json''"
definition VPP_CFG_STARTUP_PATH :: string where "VPP_CFG_STARTUP_PATH = ''/etc/sonic/vpp/startup.conf''"
definition VPP_BOOTUP_CFG_PATH :: string where "VPP_BOOTUP_CFG_PATH = ''/etc/sonic/vpp/bootup.conf''"
definition INDENT :: pystr where "INDENT = py ''    ''"

text \<open>The value of the attribute \<^verbatim>\<open>vpp_json_cfg\<close>, and the result of changing that object in place.\<close>

definition cfg_value :: "'f cfgd \<Rightarrow> 'f pyval" where
  "cfg_value st = (case vpp_json_cfg st of None \<Rightarrow> PNone | Some r \<Rightarrow> py_heap st r)"

definition set_cfg :: "'f pyval \<Rightarrow> 'f cfgd \<Rightarrow> 'f cfgd" where
  "set_cfg v st = (case vpp_json_cfg st of None \<Rightarrow> st | Some r \<Rightarrow> st\<lparr>py_heap := (py_heap st)(r := v)\<rparr>)"

section \<open>Construction\<close>

text \<open>The template is a file; the fresh object it is read into gets the reference 0.\<close>

definition VppMgr_init :: "'f pyenv \<Rightarrow> string \<Rightarrow> (string \<rightharpoonup> pystr) \<Rightarrow> exn + 'f pyval" where
  "VppMgr_init E template fs =
     (case fs template of None \<Rightarrow> Inl OSError | Some text \<Rightarrow> json_loads (py_floats E) text)"

definition ConfigMgr_init :: "'f pyval \<Rightarrow> (string \<rightharpoonup> pystr) \<Rightarrow> 'f cfgd" where
  "ConfigMgr_init v fs = \<lparr>py_heap = (\<lambda>_. v), py_files = fs, vpp_config = 0, vpp_json_cfg = None,
     vpp_startup_conf = [], vpp_vports_conf = []\<rparr>"

definition config_reset :: "'f cfgd \<Rightarrow> 'f cfgd" where
  "config_reset st = st\<lparr>vpp_json_cfg := None, vpp_startup_conf := [], vpp_vports_conf := []\<rparr>"

section \<open>Merging an update\<close>

text \<open>
  For an output that is no \<^verbatim>\<open>dict\<close>, the first key of a non-empty input raises: either the membership test
  does, or subscribing a text or list with a text key.
\<close>

fun deep_update :: "'f pydict \<Rightarrow> 'f pyval \<Rightarrow> exn + 'f pyval" where
  "deep_update [] output = Inr output"
| "deep_update ((key, val) # input) (PDict out) =
     (case map_of out key of
        Some out_val \<Rightarrow>
          (case val of
             PDict v \<Rightarrow> bind_py (deep_update v out_val) (\<lambda>new. deep_update input (PDict (AList.update key new out)))
           | _ \<Rightarrow> deep_update input (PDict (AList.update key val out)))
      | None \<Rightarrow> deep_update input (PDict (AList.update key val out)))"
| "deep_update ((key, val) # input) output = Inl TypeError"

definition config_update :: "'f pydict \<Rightarrow> 'f cfgd \<Rightarrow> exn + 'f cfgd" where
  "config_update sonic_vpp_cfg st =
     (let r = vpp_config st in
      bind_py (deep_update sonic_vpp_cfg (py_heap st r)) (\<lambda>v.
        Inr (st\<lparr>vpp_json_cfg := Some r, py_heap := (py_heap st)(r := v)\<rparr>)))"

section \<open>Rendering\<close>

text \<open>One setting: the key, and its value when that is true.\<close>

definition gen_setting :: "('f \<Rightarrow> bool) \<Rightarrow> pystr \<Rightarrow> pystr \<Rightarrow> 'f pyval \<Rightarrow> pystr \<Rightarrow> exn + pystr" where
  "gen_setting fz indoff key val conf =
     (if py_truth fz val then bind_py (str_plus (conf @ indoff @ key @ py '' '') val) (\<lambda>s. Inr (s @ [10]))
      else Inr (conf @ indoff @ key @ [10]))"

fun gen_dpdk_dev_cfg :: "('f \<Rightarrow> bool) \<Rightarrow> 'f pydict \<Rightarrow> pystr \<Rightarrow> pystr \<Rightarrow> exn + pystr" where
  "gen_dpdk_dev_cfg fz [] indoff conf = Inr conf"
| "gen_dpdk_dev_cfg fz ((key, val) # cfg) indoff conf =
     bind_py
       (case val of
          PDict d \<Rightarrow> bind_py (gen_dpdk_dev_cfg fz d (indoff @ INDENT) (conf @ indoff @ py ''dev '' @ key @ py '' {'' @ [10]))
            (\<lambda>conf'. Inr (conf' @ indoff @ py ''}'' @ [10]))
        | _ \<Rightarrow> gen_setting fz indoff key val conf)
       (gen_dpdk_dev_cfg fz cfg indoff)"

fun gen_plugins_cfg :: "'f pydict \<Rightarrow> pystr \<Rightarrow> pystr \<Rightarrow> exn + pystr" where
  "gen_plugins_cfg [] indoff conf = Inr conf"
| "gen_plugins_cfg ((key, val) # cfg) indoff conf =
     bind_py (str_plus (conf @ indoff @ py ''plugin '' @ key @ py '' { '') val) (\<lambda>s.
       gen_plugins_cfg cfg indoff (s @ py '' }'' @ [10]))"

fun gen_vpp_conf :: "('f \<Rightarrow> bool) \<Rightarrow> 'f pydict \<Rightarrow> pystr \<Rightarrow> pystr \<Rightarrow> exn + pystr" where
  "gen_vpp_conf fz [] indoff conf = Inr conf"
| "gen_vpp_conf fz ((key, val) # cfg) indoff conf =
     bind_py
       (case val of
          PDict d \<Rightarrow>
            if key = py ''vports'' then Inr conf
            else if key = py ''dev'' then gen_dpdk_dev_cfg fz d indoff conf
            else if key = py ''plugin'' then gen_plugins_cfg d indoff conf
            else bind_py (gen_vpp_conf fz d (indoff @ INDENT) (conf @ indoff @ key @ py '' {'' @ [10]))
              (\<lambda>conf'. Inr (conf' @ indoff @ py ''}'' @ [10]))
        | _ \<Rightarrow> gen_setting fz indoff key val conf)
       (gen_vpp_conf fz cfg indoff)"

definition render_vpp_config :: "'f pyenv \<Rightarrow> 'f cfgd \<Rightarrow> exn + 'f cfgd" where
  "render_vpp_config E st =
     bind_py (py_items (cfg_value st)) (\<lambda>cfg.
       bind_py (gen_vpp_conf (float_zero (py_floats E)) cfg [] []) (\<lambda>conf.
         Inr (st\<lparr>vpp_startup_conf := conf\<rparr>)))"

section \<open>Ports, DPDK and the environment\<close>

definition vpp_vports_config :: "'f cfgd \<Rightarrow> exn + 'f cfgd" where
  "vpp_vports_config st =
     bind_py (py_contains (py ''vports'') (cfg_value st)) (\<lambda>there.
       if there then
         bind_py (py_getitem (cfg_value st) (py ''vports'')) (\<lambda>vports.
           bind_py (py_items vports) (\<lambda>ports.
             Inr (st\<lparr>vpp_vports_conf := vpp_vports_conf st @
               concat (map (\<lambda>(key, val). py ''create host-interface name '' @ key @ [10]) ports)\<rparr>)))
       else Inr st)"

text \<open>The assignment \<^verbatim>\<open>cfg['plugins']['plugin'][name] = 'disable'\<close>.\<close>

definition disable_plugin :: "pystr \<Rightarrow> 'f pyval \<Rightarrow> exn + 'f pyval" where
  "disable_plugin name cfg =
     bind_py (py_getitem cfg (py ''plugins'')) (\<lambda>plugins.
       bind_py (py_getitem plugins (py ''plugin'')) (\<lambda>plugin.
         bind_py (py_setitem plugin name (PStr (py ''disable''))) (\<lambda>plugin'.
           bind_py (py_setitem plugins (py ''plugin'') plugin') (\<lambda>plugins'.
             py_setitem cfg (py ''plugins'') plugins'))))"

definition disable_dpdk_cfg :: "'f cfgd \<Rightarrow> exn + 'f cfgd" where
  "disable_dpdk_cfg st =
     bind_py (disable_plugin (py ''dpdk_plugin.so'') (cfg_value st)) (\<lambda>cfg.
       bind_py (py_pop cfg (py ''dpdk'')) (\<lambda>cfg'. Inr (set_cfg cfg' st)))"

text \<open>DPDK stays only when some device other than \<^verbatim>\<open>default\<close> is configured.\<close>

definition vpp_dpdk_config :: "'f cfgd \<Rightarrow> exn + 'f cfgd" where
  "vpp_dpdk_config st =
     bind_py (py_contains (py ''dpdk'') (cfg_value st)) (\<lambda>has_dpdk.
       bind_py (if has_dpdk then bind_py (py_getitem (cfg_value st) (py ''dpdk'')) (py_contains (py ''dev'')) else Inr False)
         (\<lambda>has_dev.
           bind_py
             (if has_dev then
                bind_py (py_getitem (cfg_value st) (py ''dpdk'')) (\<lambda>dpdk.
                  bind_py (py_getitem dpdk (py ''dev'')) (\<lambda>dev.
                    bind_py (py_items dev) (\<lambda>devs. Inr (list_all (\<lambda>(key, val). key = py ''default'') devs))))
              else Inr True)
             (\<lambda>disable_dpdk. if disable_dpdk then disable_dpdk_cfg st else Inr st)))"

definition getenv_is_y :: "'f pyenv \<Rightarrow> string \<Rightarrow> bool" where
  "getenv_is_y E name = (py_getenv E name = Some (py ''y''))"

definition vpp_env_config :: "'f pyenv \<Rightarrow> 'f cfgd \<Rightarrow> exn + 'f cfgd" where
  "vpp_env_config E st =
     bind_py (if getenv_is_y E ''DPDK_DISABLE'' then disable_dpdk_cfg st else Inr st) (\<lambda>st1.
       if getenv_is_y E ''NO_LINUX_NL'' then
         bind_py (disable_plugin (py ''linux_nl_plugin.so'') (cfg_value st1)) (\<lambda>cfg. Inr (set_cfg cfg st1))
       else Inr st1)"

section \<open>Writing the files\<close>

text \<open>
  Opening truncates the file. A text with a surrogate has no encoding: then the write raises and the file
  stays empty.
\<close>

definition write_file :: "'f pyenv \<Rightarrow> string \<Rightarrow> pystr \<Rightarrow> 'f cfgd \<Rightarrow> exn option \<times> 'f cfgd" where
  "write_file E path text st =
     (if \<not> py_can_open E path then (Some OSError, st)
      else if list_ex (\<lambda>c. high_surrogate c \<or> low_surrogate c) text then
        (Some UnicodeEncodeError, st\<lparr>py_files := (py_files st)(path \<mapsto> [])\<rparr>)
      else (None, st\<lparr>py_files := (py_files st)(path \<mapsto> text)\<rparr>))"

text \<open>The part of \<^verbatim>\<open>commit\<close> before the files.\<close>

definition commit_config :: "'f pyenv \<Rightarrow> 'f cfgd \<Rightarrow> exn + 'f cfgd" where
  "commit_config E st =
     bind_py (vpp_vports_config st) (\<lambda>st1.
       bind_py (vpp_dpdk_config st1) (\<lambda>st2.
         bind_py (vpp_env_config E st2) (render_vpp_config E)))"

definition commit :: "'f pyenv \<Rightarrow> 'f cfgd \<Rightarrow> (exn + bool) \<times> 'f cfgd" where
  "commit E st =
     (case commit_config E st of Inl e \<Rightarrow> (Inl e, st)
      | Inr st1 \<Rightarrow>
        (case write_file E VPP_CONFIG_JSON_PATH (json_dump (py_floats E) (cfg_value st1)) st1 of
           (Some e, st2) \<Rightarrow> (Inl e, st2)
         | (None, st2) \<Rightarrow>
           (case write_file E VPP_BOOTUP_CFG_PATH (vpp_vports_conf st2) st2 of
              (Some e, st3) \<Rightarrow> (Inl e, st3)
            | (None, st3) \<Rightarrow>
              (case write_file E VPP_CFG_STARTUP_PATH (vpp_startup_conf st3) st3 of
                 (Some e, st4) \<Rightarrow> (Inl e, st4)
               | (None, st4) \<Rightarrow> (Inr True, config_reset st4)))))"

section \<open>What merging should do\<close>

text \<open>
  The value at a path of keys. An update overlays a configuration at a path when the path leads to a
  setting of the update and the result has that setting, or the path is outside the update (and not below
  one of its settings) and the result is as before. An update conflicts when a non-empty section of it
  meets something that is no section.
\<close>

fun val_at :: "'f pyval \<Rightarrow> pystr list \<Rightarrow> 'f pyval option" where
  "val_at v [] = Some v"
| "val_at (PDict d) (p # ps) = (case map_of d p of None \<Rightarrow> None | Some w \<Rightarrow> val_at w ps)"
| "val_at v (p # ps) = None"

fun is_dict :: "'f pyval \<Rightarrow> bool" where
  "is_dict (PDict d) = True"
| "is_dict v = False"

definition overlay_at :: "'f pydict \<Rightarrow> 'f pyval \<Rightarrow> 'f pyval \<Rightarrow> pystr list \<Rightarrow> bool" where
  "overlay_at input old new p \<longleftrightarrow>
     (case val_at (PDict input) p of
        Some v \<Rightarrow> is_dict v \<or> val_at new p = Some v
      | None \<Rightarrow> (\<exists>q r v. p = q @ r \<and> val_at (PDict input) q = Some v \<and> \<not> is_dict v) \<or> val_at new p = val_at old p)"

definition conflict :: "'f pydict \<Rightarrow> 'f pyval \<Rightarrow> bool" where
  "conflict input old \<longleftrightarrow> (\<exists>p v w. val_at (PDict input) p = Some (PDict v) \<and> v \<noteq> [] \<and>
     val_at old p = Some w \<and> \<not> is_dict w)"

section \<open>What rendering should do\<close>

text \<open>
  Settings and nested sections, their layout in lines, and a reader of such a text. The reader strips the
  indentation, opens a section at a line that ends with an open brace and closes it at a closing brace.
\<close>

datatype conf = Setting pystr | Section pystr "conf list"

fun text_of :: "'f pyval \<Rightarrow> pystr" where
  "text_of (PStr s) = s"
| "text_of v = []"

definition setting :: "('f \<Rightarrow> bool) \<Rightarrow> pystr \<Rightarrow> 'f pyval \<Rightarrow> conf" where
  "setting fz key val = Setting (key @ (if py_truth fz val then py '' '' @ text_of val else []))"

definition settable :: "('f \<Rightarrow> bool) \<Rightarrow> 'f pyval \<Rightarrow> bool" where
  "settable fz val = (py_truth fz val \<longrightarrow> val = PStr (text_of val))"

fun dev_conf :: "('f \<Rightarrow> bool) \<Rightarrow> 'f pydict \<Rightarrow> conf list" where
  "dev_conf fz [] = []"
| "dev_conf fz ((key, val) # cfg) =
     (case val of PDict d \<Rightarrow> Section (py ''dev '' @ key) (dev_conf fz d) | _ \<Rightarrow> setting fz key val) # dev_conf fz cfg"

definition plugin_conf :: "'f pydict \<Rightarrow> conf list" where
  "plugin_conf cfg = map (\<lambda>(key, val). Setting (py ''plugin '' @ key @ py '' { '' @ text_of val @ py '' }'')) cfg"

fun vpp_conf :: "('f \<Rightarrow> bool) \<Rightarrow> 'f pydict \<Rightarrow> conf list" where
  "vpp_conf fz [] = []"
| "vpp_conf fz ((key, val) # cfg) =
     (case val of
        PDict d \<Rightarrow>
          if key = py ''vports'' then []
          else if key = py ''dev'' then dev_conf fz d
          else if key = py ''plugin'' then plugin_conf d
          else [Section key (vpp_conf fz d)]
      | _ \<Rightarrow> [setting fz key val]) @ vpp_conf fz cfg"

fun dev_renderable :: "('f \<Rightarrow> bool) \<Rightarrow> 'f pydict \<Rightarrow> bool" where
  "dev_renderable fz [] = True"
| "dev_renderable fz ((key, val) # cfg) =
     ((case val of PDict d \<Rightarrow> dev_renderable fz d | _ \<Rightarrow> settable fz val) \<and> dev_renderable fz cfg)"

definition plugin_renderable :: "'f pydict \<Rightarrow> bool" where
  "plugin_renderable cfg = list_all (\<lambda>(key, val). val = PStr (text_of val)) cfg"

fun renderable :: "('f \<Rightarrow> bool) \<Rightarrow> 'f pydict \<Rightarrow> bool" where
  "renderable fz [] = True"
| "renderable fz ((key, val) # cfg) =
     ((case val of
         PDict d \<Rightarrow>
           key = py ''vports'' \<or>
           (if key = py ''dev'' then dev_renderable fz d
            else if key = py ''plugin'' then plugin_renderable d
            else renderable fz d)
       | _ \<Rightarrow> settable fz val) \<and> renderable fz cfg)"

fun conf_lines :: "pystr \<Rightarrow> conf \<Rightarrow> pystr list" and confs_lines :: "pystr \<Rightarrow> conf list \<Rightarrow> pystr list" where
  "conf_lines ind (Setting t) = [ind @ t]"
| "conf_lines ind (Section h cs) = (ind @ h @ py '' {'') # confs_lines (ind @ INDENT) cs @ [ind @ py ''}'']"
| "confs_lines ind [] = []"
| "confs_lines ind (c # cs) = conf_lines ind c @ confs_lines ind cs"

definition unlines :: "pystr list \<Rightarrow> pystr" where
  "unlines ls = concat (map (\<lambda>l. l @ [10]) ls)"

fun read_lines :: "(pystr \<times> conf list) list \<Rightarrow> conf list \<Rightarrow> pystr list \<Rightarrow> conf list option" where
  "read_lines st acc [] = (if st = [] then Some acc else None)"
| "read_lines st acc (l # ls) =
     (let t = dropWhile (\<lambda>c. c = 32) l in
      if t = py ''}'' then (case st of [] \<Rightarrow> None | (h, acc') # st' \<Rightarrow> read_lines st' (acc' @ [Section h acc]) ls)
      else if drop (length t - 2) t = py '' {'' then read_lines ((take (length t - 2) t, acc) # st) [] ls
      else read_lines st (acc @ [Setting t]) ls)"

definition read_conf :: "pystr \<Rightarrow> conf list option" where
  "read_conf text = read_lines [] [] (butlast (split_char 10 text))"

definition clean_line :: "pystr \<Rightarrow> bool" where
  "clean_line t = (t \<noteq> [] \<and> hd t \<noteq> 32 \<and> 10 \<notin> set t)"

fun clean_conf :: "conf \<Rightarrow> bool" where
  "clean_conf (Setting t) = (clean_line t \<and> t \<noteq> py ''}'' \<and> drop (length t - 2) t \<noteq> py '' {'')"
| "clean_conf (Section h cs) = (clean_line h \<and> list_all clean_conf cs)"

definition blanks :: "pystr \<Rightarrow> bool" where
  "blanks s = list_all (\<lambda>c. c = 32) s"
definition template_demo :: "unit pydict" where
  "template_demo =
     [(py ''unix'', PDict [(py ''nodaemon'', PStr []), (py ''gid'', PStr (py ''vpp''))]),
      (py ''dpdk'', PDict [(py ''dev'', PDict [(py ''default'', PDict [(py ''num-rx-queues'', PStr (py ''1''))])])]),
      (py ''plugins'', PDict [(py ''plugin'', PDict [(py ''dpdk_plugin.so'', PStr (py ''enable''))])])]"

definition devices_demo :: "unit pydict" where
  "devices_demo = [(py ''dpdk'', PDict [(py ''dev'', PDict [(py ''0000:00:04.0'', PDict [(py ''name'', PStr (py ''bobm0''))])])])]"

section \<open>Lemmas on merging\<close>

lemma val_at_update:
  "val_at (PDict (AList.update k v d)) (p # ps) = (if p = k then val_at v ps else val_at (PDict d) (p # ps))"
  by (simp add: update_conv')

lemma val_at_leaf: "\<not> is_dict v \<Longrightarrow> val_at v (p # ps) = None"
  by (cases v) simp_all

lemma deep_update_step:
  assumes "deep_update ((key, val) # input) (PDict out) = Inr new"
  obtains x where "deep_update input (PDict (AList.update key x out)) = Inr new"
    and "(\<exists>v ov. val = PDict v \<and> map_of out key = Some ov \<and> deep_update v ov = Inr x) \<or>
      x = val \<and> (\<not> is_dict val \<or> map_of out key = None)"
  using assms by (cases val; cases "map_of out key") (auto simp: bind_py_Inr)

lemma deep_update_absent:
  assumes "deep_update input (PDict out) = Inr new" and "k \<notin> fst ` set input"
  shows "val_at new (k # ps) = val_at (PDict out) (k # ps)"
  using assms
proof (induction input arbitrary: out)
  case (Cons kv input)
  obtain key val where kv: "kv = (key, val)" by fastforce
  obtain x where "deep_update input (PDict (AList.update key x out)) = Inr new"
    using deep_update_step Cons.prems(1) kv by metis
  then show ?case using Cons.IH Cons.prems(2) kv by (simp add: update_conv')
qed simp

lemma deep_update_key:
  assumes "deep_update input (PDict out) = Inr new" and "distinct (map fst input)" and "map_of input k = Some val"
  shows "\<exists>x. (\<forall>ps. val_at new (k # ps) = val_at x ps) \<and>
    ((\<exists>v ov. val = PDict v \<and> map_of out k = Some ov \<and> deep_update v ov = Inr x) \<or>
     x = val \<and> (\<not> is_dict val \<or> map_of out k = None))"
  using assms
proof (induction input arbitrary: out)
  case (Cons kv input)
  obtain key w where kv: "kv = (key, w)" by fastforce
  obtain x where x: "deep_update input (PDict (AList.update key x out)) = Inr new"
    "(\<exists>v ov. w = PDict v \<and> map_of out key = Some ov \<and> deep_update v ov = Inr x) \<or>
      x = w \<and> (\<not> is_dict w \<or> map_of out key = None)"
    using deep_update_step Cons.prems(1) kv by metis
  show ?case
  proof (cases "k = key")
    case True
    then have "val_at new (k # ps) = val_at x ps" for ps
      using deep_update_absent [OF x(1)] Cons.prems(2) kv by (simp add: update_conv')
    then show ?thesis using x(2) Cons.prems(3) True kv by (intro exI [of _ x]) auto
  next
    case False
    then show ?thesis using Cons.IH [OF x(1)] Cons.prems(2,3) kv by (simp add: update_conv')
  qed
qed simp

lemma deep_update_overlay:
  assumes "deep_update input old = Inr new" and "wf_val (PDict input)" and "p \<noteq> []"
  shows "overlay_at input old new p"
  using assms
proof (induction p arbitrary: input old new)
  case (Cons k ps)
  show ?case
  proof (cases "map_of input k")
    case None
    have "val_at new (k # ps) = val_at old (k # ps)"
    proof (cases input)
      case (Cons kv rest)
      then obtain out where "old = PDict out" using Cons.prems(1) by (cases kv; cases old) simp_all
      then show ?thesis using deep_update_absent Cons.prems(1) None by (metis map_of_eq_None_iff)
    qed (use Cons.prems(1) in simp)
    then show ?thesis using None by (simp add: overlay_at_def)
  next
    case (Some val)
    then obtain out where out: "old = PDict out" using Cons.prems(1) by (cases input; cases "hd input"; cases old) auto
    obtain x where x: "\<And>ps. val_at new (k # ps) = val_at x ps"
      and cases: "(\<exists>v ov. val = PDict v \<and> map_of out k = Some ov \<and> deep_update v ov = Inr x) \<or>
        x = val \<and> (\<not> is_dict val \<or> map_of out k = None)"
      using deep_update_key [OF Cons.prems(1) [unfolded out] _ Some] Cons.prems(2) by auto
    have here: "val_at (PDict input) (k # qs) = val_at val qs" for qs using Some by simp
    from cases consider (sub) v ov where "val = PDict v" "map_of out k = Some ov" "deep_update v ov = Inr x"
      | (leaf) "x = val" "\<not> is_dict val" | (fresh) "x = val" "map_of out k = None" by auto
    then show ?thesis
    proof cases
      case sub
      show ?thesis
      proof (cases ps)
        case (Cons p' ps')
        have "wf_val (PDict v)" using wf_val_lookup [OF Cons.prems(2) Some] sub(1) by simp
        from Cons.IH [OF sub(3) this] Cons have "overlay_at v ov x ps" by simp
        then show ?thesis
          using sub out unfolding overlay_at_def x here
          by (auto split: option.splits) (metis append_Cons here val_at.simps(2))
      qed (simp add: overlay_at_def Some sub(1))
    next
      case leaf
      show ?thesis
      proof (cases ps)
        case (Cons p' ps')
        then have none: "val_at (PDict input) (k # ps) = None"
          using here val_at_leaf [OF leaf(2)] by simp
        have "k # ps = [k] @ ps \<and> val_at (PDict input) [k] = Some val \<and> \<not> is_dict val"
          using here [of "[]"] leaf(2) by simp
        then show ?thesis unfolding overlay_at_def none option.case by blast
      qed (simp add: overlay_at_def Some x leaf(1))
    next
      case fresh
      then show ?thesis using out by (auto simp: overlay_at_def Some x split: option.splits)
    qed
  qed
qed simp

lemma deep_update_error: "deep_update input old = Inl e \<Longrightarrow> e = TypeError"
proof (induction input old rule: deep_update.induct)
  case (2 key val input out)
  then show ?case by (auto simp: bind_py_Inl split: option.splits pyval.splits)
qed auto

lemma conflict_key:
  assumes "map_of input k = Some (PDict v)" and "map_of out k = Some ov" and "conflict v ov"
  shows "conflict input (PDict out)"
proof -
  obtain p v' w where "val_at (PDict v) p = Some (PDict v')" "v' \<noteq> []" "val_at ov p = Some w" "\<not> is_dict w"
    using assms(3) by (auto simp: conflict_def)
  then have "val_at (PDict input) (k # p) = Some (PDict v')" "v' \<noteq> []" "val_at (PDict out) (k # p) = Some w" "\<not> is_dict w"
    using assms(1,2) by simp_all
  then show ?thesis unfolding conflict_def by blast
qed

lemma conflict_rest:
  assumes "conflict input (PDict (AList.update key x out))" and "key \<notin> fst ` set input"
  shows "conflict ((key, val) # input) (PDict out)"
proof -
  obtain p v w where p: "val_at (PDict input) p = Some (PDict v)" "v \<noteq> []"
    "val_at (PDict (AList.update key x out)) p = Some w" "\<not> is_dict w"
    using assms(1) by (auto simp: conflict_def)
  then obtain k ps where k: "p = k # ps" by (cases p) auto
  have "k \<noteq> key" using p(1) assms(2) by (auto simp: k map_of_eq_None_iff [symmetric] split: option.splits)
  then have "val_at (PDict ((key, val) # input)) p = Some (PDict v)" "val_at (PDict out) p = Some w"
    using p by (simp_all add: k update_conv')
  then show ?thesis using p unfolding conflict_def by blast
qed

lemma deep_update_induct [case_names Nil Other Cons]:
  assumes "\<And>old. P [] old"
    and "\<And>kv input old. \<not> is_dict old \<Longrightarrow> P (kv # input) old"
    and "\<And>key val input out. (\<And>v ov. val = PDict v \<Longrightarrow> map_of out key = Some ov \<Longrightarrow> P v ov) \<Longrightarrow>
      (\<And>x. P input (PDict (AList.update key x out))) \<Longrightarrow> P ((key, val) # input) (PDict out)"
  shows "P input old"
proof (induction "size (PDict input)" arbitrary: input old rule: less_induct)
  case (less input old)
  show ?case
  proof (cases input)
    case (Cons kv rest)
    obtain key val where kv: "kv = (key, val)" by fastforce
    have "P rest old'" for old' using less [of rest] Cons by simp
    moreover have "P v ov" if "val = PDict v" for v ov using less [of v] that Cons kv by simp
    ultimately show ?thesis using assms(2,3) Cons kv by (cases old) simp_all
  qed (simp add: assms(1))
qed

lemma deep_update_succeeds:
  "wf_val (PDict input) \<Longrightarrow> \<not> conflict input old \<Longrightarrow> \<exists>new. deep_update input old = Inr new"
proof (induction input old rule: deep_update_induct)
  case (Other kv input old)
  then have "val_at (PDict (kv # input)) [] = Some (PDict (kv # input)) \<and> val_at old [] = Some old" by simp
  with Other show ?case unfolding conflict_def by blast
next
  case (Cons key val input out)
  have rest: "\<exists>new. deep_update input (PDict (AList.update key x out)) = Inr new" for x
    using Cons.IH(2) Cons.prems conflict_rest [of input key x out val] by auto
  have "\<exists>x. deep_update v ov = Inr x" if "val = PDict v" "map_of out key = Some ov" for v ov
    using Cons.IH(1) [OF that] Cons.prems conflict_key [of "(key, val) # input" key v out ov] that by auto
  with rest show ?case
    by (cases val; cases "map_of out key") fastforce+
qed auto

lemma deep_update_conflict:
  assumes "conflict input old" and "wf_val (PDict input)"
  shows "deep_update input old = Inl TypeError"
proof -
  obtain p v w where "val_at (PDict input) p = Some (PDict v)" "v \<noteq> []" "val_at old p = Some w" "\<not> is_dict w"
    using assms(1) by (auto simp: conflict_def)
  then have "deep_update input old \<noteq> Inr new" for new
    using assms(2)
  proof (induction p arbitrary: input old new)
    case Nil
    then show ?case by (cases input; cases "hd input"; cases old) auto
  next
    case (Cons k ps)
    then obtain out val ov where out: "old = PDict out" "map_of input k = Some val" "map_of out k = Some ov"
      by (cases old) (auto split: option.splits)
    show ?case
    proof
      assume "deep_update input old = Inr new"
      then obtain x where "(\<exists>v ov. val = PDict v \<and> map_of out k = Some ov \<and> deep_update v ov = Inr x) \<or>
          x = val \<and> (\<not> is_dict val \<or> map_of out k = None)"
        using deep_update_key [of input out new k val] out Cons.prems(5) by auto
      moreover have "is_dict val" using Cons.prems(1) out(2) by (cases ps; cases val) auto
      moreover have "wf_val val" using wf_val_lookup [OF Cons.prems(5) out(2)] .
      ultimately show False using Cons.IH [of _ ov] Cons.prems(1-4) out by auto
    qed
  qed
  then show ?thesis using deep_update_error by (cases "deep_update input old") auto
qed

lemma deep_update_wf:
  "wf_val old \<Longrightarrow> wf_val (PDict input) \<Longrightarrow> deep_update input old = Inr new \<Longrightarrow> wf_val new"
proof (induction input old arbitrary: new rule: deep_update_induct)
  case (Other kv input old)
  then show ?case by (cases kv; cases old) simp_all
next
  case (Cons key val input out)
  obtain x where x: "deep_update input (PDict (AList.update key x out)) = Inr new"
    "(\<exists>v ov. val = PDict v \<and> map_of out key = Some ov \<and> deep_update v ov = Inr x) \<or>
      x = val \<and> (\<not> is_dict val \<or> map_of out key = None)"
    using deep_update_step [OF Cons.prems(3)] by metis
  have "wf_val val" using Cons.prems(2) by simp
  moreover have "wf_val x" if "val = PDict v" "map_of out key = Some ov" "deep_update v ov = Inr x" for v ov
    using Cons.IH(1) [OF that(1,2) wf_val_lookup [OF Cons.prems(1) that(2)] _ that(3)] calculation that(1) by simp
  ultimately have "wf_val x" using x(2) by blast
  then show ?case
    using Cons.IH(2) [OF _ _ x(1)] wf_val_update [OF Cons.prems(1)] Cons.prems(2) by simp
qed auto

text \<open>
  Merging an update into the configuration: when somewhere a non-empty section of the update meets
  a setting that is no section, the merge raises a TypeError; otherwise it returns a configuration in which
  every setting of the update has the value of the update, everything the update does not mention is as it
  was, and no section has a key twice if none had.\<close>

theorem deep_update_correct:
  assumes "wf_val (PDict input)"
  shows "if conflict input old then deep_update input old = Inl TypeError
    else \<exists>new. deep_update input old = Inr new \<and> (\<forall>p. p \<noteq> [] \<longrightarrow> overlay_at input old new p) \<and> (wf_val old \<longrightarrow> wf_val new)"
proof (cases "conflict input old")
  case False
  then obtain new where "deep_update input old = Inr new" using deep_update_succeeds [OF assms] by blast
  with False show ?thesis using deep_update_overlay [OF _ assms] deep_update_wf [OF _ assms] by auto
qed (simp add: deep_update_conflict [OF _ assms])

theorem deep_update_correct_witness:
  "\<exists>new. deep_update devices_demo (PDict template_demo) = Inr new \<and>
     overlay_at devices_demo (PDict template_demo) new [py ''dpdk'', py ''dev'', py ''default'']"
proof -
  have "\<exists>new. deep_update devices_demo (PDict template_demo) = Inr new"
    by (simp add: devices_demo_def template_demo_def)
  then have "\<not> conflict devices_demo (PDict template_demo)"
    using deep_update_conflict [of devices_demo "PDict template_demo"] by (auto simp: devices_demo_def)
  then show ?thesis
    using deep_update_correct [of devices_demo "PDict template_demo"] by (auto simp: devices_demo_def)
qed

section \<open>Lemmas on rendering\<close>

lemma unlines_simps [simp]:
  "unlines [] = []" "unlines (l # ls) = l @ 10 # unlines ls" "unlines (ls @ ls') = unlines ls @ unlines ls'"
  by (simp_all add: unlines_def)

lemma confs_lines_append [simp]: "confs_lines ind (cs @ ds) = confs_lines ind cs @ confs_lines ind ds"
  by (induction cs) simp_all

lemma gen_setting_eq:
  "gen_setting fz ind key val conf =
    (if settable fz val then Inr (conf @ unlines (conf_lines ind (setting fz key val))) else Inl TypeError)"
  by (cases val) (auto simp: gen_setting_def settable_def setting_def)

lemma gen_dpdk_dev_cfg_eq:
  "gen_dpdk_dev_cfg fz cfg ind conf =
    (if dev_renderable fz cfg then Inr (conf @ unlines (confs_lines ind (dev_conf fz cfg))) else Inl TypeError)"
  by (induction fz cfg ind conf rule: gen_dpdk_dev_cfg.induct)
    (auto simp: gen_setting_eq split: pyval.split)

lemma gen_plugins_cfg_eq:
  "gen_plugins_cfg cfg ind conf =
    (if plugin_renderable cfg then Inr (conf @ unlines (confs_lines ind (plugin_conf cfg))) else Inl TypeError)"
proof (induction cfg ind conf rule: gen_plugins_cfg.induct)
  case (2 key val cfg ind conf)
  then show ?case by (cases val) (simp_all add: plugin_renderable_def plugin_conf_def)
qed (simp add: plugin_renderable_def plugin_conf_def)

lemma gen_vpp_conf_eq:
  "gen_vpp_conf fz cfg ind conf =
    (if renderable fz cfg then Inr (conf @ unlines (confs_lines ind (vpp_conf fz cfg))) else Inl TypeError)"
  by (induction fz cfg ind conf rule: gen_vpp_conf.induct)
    (auto simp: gen_setting_eq gen_dpdk_dev_cfg_eq gen_plugins_cfg_eq split: pyval.split)

lemma blanks_simps [simp]: "blanks []" "blanks (s @ t) \<longleftrightarrow> blanks s \<and> blanks t" "blanks INDENT"
  by (simp_all add: blanks_def INDENT_def py_def)

lemma drop_blanks:
  assumes "blanks ind" and "clean_line t"
  shows "dropWhile (\<lambda>c. c = 32) (ind @ t @ s) = t @ s"
  using assms by (induction ind) (auto simp: blanks_def clean_line_def neq_Nil_conv)

lemma read_lines_conf:
  "clean_conf c \<Longrightarrow> blanks ind \<Longrightarrow> read_lines st acc (conf_lines ind c @ rest) = read_lines st (acc @ [c]) rest"
  "list_all clean_conf cs \<Longrightarrow> blanks ind \<Longrightarrow> read_lines st acc (confs_lines ind cs @ rest) = read_lines st (acc @ cs) rest"
proof (induction ind c and ind cs arbitrary: st acc rest and st acc rest rule: conf_lines_confs_lines.induct)
  case (1 ind t)
  then show ?case using drop_blanks [of ind t "[]"] by (simp add: Let_def)
next
  case (2 ind h cs)
  have h: "h @ py '' {'' \<noteq> py ''}''" "drop (length (h @ py '' {'') - 2) (h @ py '' {'') = py '' {''"
    "take (length (h @ py '' {'') - 2) (h @ py '' {'') = h"
    using 2(2) by (auto simp: py_def clean_line_def)
  have close: "clean_line (py ''}'')" by (simp add: clean_line_def py_def)
  have "read_lines st acc (conf_lines ind (Section h cs) @ rest) =
      read_lines ((h, acc) # st) [] (confs_lines (ind @ INDENT) cs @ (ind @ py ''}'') # rest)"
    using drop_blanks [of ind h "py '' {''"] 2(2,3) h by (simp add: Let_def)
  also have "\<dots> = read_lines ((h, acc) # st) cs ((ind @ py ''}'') # rest)"
    using 2(1) [of "(h, acc) # st" "[]"] 2(2,3) by simp
  also have "\<dots> = read_lines st (acc @ [Section h cs]) rest"
    using drop_blanks [OF 2(3) close, of "[]"] by (simp add: Let_def)
  finally show ?case .
qed simp_all

lemma blanks_no_newline: "blanks s \<Longrightarrow> 10 \<notin> set s"
  by (auto simp: blanks_def list_all_iff)

lemma conf_lines_clean:
  "clean_conf c \<Longrightarrow> blanks ind \<Longrightarrow> list_all (\<lambda>l. 10 \<notin> set l) (conf_lines ind c)"
  "list_all clean_conf cs \<Longrightarrow> blanks ind \<Longrightarrow> list_all (\<lambda>l. 10 \<notin> set l) (confs_lines ind cs)"
  by (induction ind c and ind cs rule: conf_lines_confs_lines.induct)
    (auto simp: clean_line_def py_def dest: blanks_no_newline)

lemma split_unlines: "list_all (\<lambda>l. 10 \<notin> set l) ls \<Longrightarrow> split_char 10 (unlines ls) = ls @ [[]]"
  by (induction ls) (simp_all add: split_char_append)

lemma read_conf_layout:
  "list_all clean_conf cs \<Longrightarrow> read_conf (unlines (confs_lines [] cs)) = Some cs"
  using read_lines_conf(2) [of cs "[]" "[]" "[]" "[]"]
  by (simp add: read_conf_def split_unlines conf_lines_clean(2))

text \<open>C28: Rendering: for every configuration, indentation and text so far, the recursive rendering appends the lines
  of a two-step reference (the list of settings and nested sections, without the virtual ports and with only the name
  of a setting that is false, then its layout with indentation), or raises a TypeError, exactly when a true setting,
  or a plugin's value, is not a text. If no name or value of that list breaks the line structure, reading the rendered
  text gives back the list, so its braces are balanced.\<close>

theorem gen_vpp_conf_correct:
  "gen_vpp_conf fz cfg ind conf =
     (if renderable fz cfg then Inr (conf @ unlines (confs_lines ind (vpp_conf fz cfg))) else Inl TypeError) \<and>
   (list_all clean_conf (vpp_conf fz cfg) \<and> gen_vpp_conf fz cfg [] [] = Inr text \<longrightarrow>
     read_conf text = Some (vpp_conf fz cfg))"
  by (auto simp: gen_vpp_conf_eq read_conf_layout split: if_splits)

theorem gen_vpp_conf_correct_witness:
  "\<exists>text. gen_vpp_conf (\<lambda>_. True) template_demo [] [] = Inr text \<and>
     read_conf text = Some (vpp_conf (\<lambda>_. True) template_demo)"
proof -
  have "list_all clean_conf (vpp_conf (\<lambda>_. True) template_demo)" "renderable (\<lambda>_. True) template_demo"
    by (simp_all add: template_demo_def plugin_conf_def setting_def clean_line_def plugin_renderable_def settable_def py_def)
  with gen_vpp_conf_correct [of "\<lambda>_. True" template_demo "[]" "[]"] show ?thesis by auto
qed

end
