(* ===== verification/Vppcfg_Commit.thy ===== *)
theory Vppcfg_Commit
  imports Vppcfg_Config
begin

text \<open>
  What \<open>commit\<close> writes. The adjusted configuration (\<open>effective\<close>) is defined by what it should be, not by the
  steps of the code, and the lemmas show that the steps compute it, that it survives the round trip through
  \<^verbatim>\<open>startup.json\<close>, and which plugins and sections it has. The last property follows a second update through
  the shared template object.
\<close>

section \<open>The adjusted configuration\<close>

definition dict_at :: "pystr \<Rightarrow> 'f pydict \<Rightarrow> 'f pydict" where
  "dict_at k d = (case map_of d k of Some (PDict e) \<Rightarrow> e | _ \<Rightarrow> [])"

definition plugin_off :: "pystr \<Rightarrow> 'f pydict \<Rightarrow> 'f pydict" where
  "plugin_off name d = (let ps = dict_at (py ''plugins'') d; pl = dict_at (py ''plugin'') ps in
     AList.update (py ''plugins'') (PDict (AList.update (py ''plugin'') (PDict (AList.update name (PStr (py ''disable'')) pl)) ps)) d)"

definition dpdk_off :: "'f pydict \<Rightarrow> 'f pydict" where
  "dpdk_off d = AList.delete (py ''dpdk'') (plugin_off (py ''dpdk_plugin.so'') d)"

definition has_devices :: "'f pydict \<Rightarrow> bool" where
  "has_devices d = list_ex (\<lambda>(key, val). key \<noteq> py ''default'') (dict_at (py ''dev'') (dict_at (py ''dpdk'') d))"

definition dpdk_unused :: "'f pyenv \<Rightarrow> 'f pydict \<Rightarrow> bool" where
  "dpdk_unused E d = (\<not> has_devices d \<or> getenv_is_y E ''DPDK_DISABLE'')"

definition effective :: "'f pyenv \<Rightarrow> 'f pydict \<Rightarrow> 'f pydict" where
  "effective E d = (let d1 = (if dpdk_unused E d then dpdk_off d else d) in
     if getenv_is_y E ''NO_LINUX_NL'' then plugin_off (py ''linux_nl_plugin.so'') d1 else d1)"

definition dict_or_absent :: "pystr \<Rightarrow> 'f pydict \<Rightarrow> bool" where
  "dict_or_absent k d = (case map_of d k of None \<Rightarrow> True | Some v \<Rightarrow> is_dict v)"

definition has_dict :: "pystr \<Rightarrow> 'f pydict \<Rightarrow> bool" where
  "has_dict k d = (case map_of d k of None \<Rightarrow> False | Some v \<Rightarrow> is_dict v)"

definition shaped :: "'f pydict \<Rightarrow> bool" where
  "shaped d = (dict_or_absent (py ''vports'') d \<and> dict_or_absent (py ''dpdk'') d \<and>
     dict_or_absent (py ''dev'') (dict_at (py ''dpdk'') d) \<and>
     has_dict (py ''plugins'') d \<and> has_dict (py ''plugin'') (dict_at (py ''plugins'') d))"

definition vport_lines :: "'f pydict \<Rightarrow> pystr list" where
  "vport_lines d = map (\<lambda>(key, val). py ''create host-interface name '' @ key) (dict_at (py ''vports'') d)"

definition encodable :: "pystr \<Rightarrow> bool" where
  "encodable s = list_all (\<lambda>c. \<not> high_surrogate c \<and> \<not> low_surrogate c) s"

definition output_ready :: "'f pyenv \<Rightarrow> 'f pydict \<Rightarrow> bool" where
  "output_ready E d \<longleftrightarrow> float_ok (py_floats E) \<and>
     py_can_open E VPP_CONFIG_JSON_PATH \<and> py_can_open E VPP_BOOTUP_CFG_PATH \<and> py_can_open E VPP_CFG_STARTUP_PATH \<and>
     renderable (float_zero (py_floats E)) (effective E d) \<and>
     encodable (unlines (vport_lines d)) \<and>
     encodable (unlines (confs_lines [] (vpp_conf (float_zero (py_floats E)) (effective E d))))"

definition written :: "'f pyenv \<Rightarrow> 'f pydict \<Rightarrow> (string \<rightharpoonup> pystr) \<Rightarrow> (string \<rightharpoonup> pystr)" where
  "written E d fs = fs(
     VPP_CONFIG_JSON_PATH \<mapsto> json_dump (py_floats E) (PDict (effective E d)),
     VPP_BOOTUP_CFG_PATH \<mapsto> unlines (vport_lines d),
     VPP_CFG_STARTUP_PATH \<mapsto> unlines (confs_lines [] (vpp_conf (float_zero (py_floats E)) (effective E d))))"
definition floats_demo :: "unit float_ops" where
  "floats_demo = \<lparr>float_of = (\<lambda>_. ()), float_repr = (\<lambda>_. py ''0.0''), float_zero = (\<lambda>_. True)\<rparr>"

definition env_demo :: "unit pyenv" where
  "env_demo = \<lparr>py_floats = floats_demo, py_getenv = (\<lambda>_. None), py_can_open = (\<lambda>_. True)\<rparr>"

definition committed_demo :: "unit pydict" where
  "committed_demo =
     [(py ''unix'', PDict [(py ''nodaemon'', PStr []), (py ''gid'', PStr (py ''vpp''))]),
      (py ''plugins'', PDict [(py ''plugin'', PDict [(py ''dpdk_plugin.so'', PStr (py ''disable''))])])]"

definition second_demo :: "unit pydict" where
  "second_demo = committed_demo @ devices_demo"

definition loaded_demo :: "unit cfgd" where
  "loaded_demo = (ConfigMgr_init (PDict template_demo) Map.empty)\<lparr>vpp_json_cfg := Some 0\<rparr>"

section \<open>Lemmas on the steps\<close>

lemma is_dict_iff: "is_dict v \<longleftrightarrow> (\<exists>d. v = PDict d)"
  by (cases v) simp_all

lemma has_dictE:
  assumes "has_dict k d" shows "map_of d k = Some (PDict (dict_at k d))"
  using assms by (auto simp: has_dict_def dict_at_def is_dict_iff split: option.splits)

lemma dict_or_absentE:
  assumes "dict_or_absent k d" shows "map_of d k = None \<and> dict_at k d = [] \<or> map_of d k = Some (PDict (dict_at k d))"
  using assms by (auto simp: dict_or_absent_def dict_at_def is_dict_iff split: option.splits)

lemma update_same: "AList.update k v (AList.update k v d) = AList.update k v d"
  by (induction d) auto

lemma disable_plugin_eq:
  assumes "has_dict (py ''plugins'') d" and "has_dict (py ''plugin'') (dict_at (py ''plugins'') d)"
  shows "disable_plugin name (PDict d) = Inr (PDict (plugin_off name d))"
  using has_dictE [OF assms(1)] has_dictE [OF assms(2)]
  by (simp add: disable_plugin_def plugin_off_def Let_def)

lemma plugin_off_shape:
  "has_dict (py ''plugins'') (plugin_off name d)"
  "has_dict (py ''plugin'') (dict_at (py ''plugins'') (plugin_off name d))"
  "k \<noteq> py ''plugins'' \<Longrightarrow> map_of (plugin_off name d) k = map_of d k"
  by (simp_all add: plugin_off_def Let_def has_dict_def dict_at_def update_conv')

lemma dict_at_cong: "map_of d k = map_of d' k \<Longrightarrow> dict_at k d = dict_at k d'"
  by (simp add: dict_at_def)

lemma dpdk_off_shape:
  "has_dict (py ''plugins'') (dpdk_off d)"
  "has_dict (py ''plugin'') (dict_at (py ''plugins'') (dpdk_off d))"
  "map_of (dpdk_off d) (py ''dpdk'') = None"
  "k \<noteq> py ''plugins'' \<Longrightarrow> k \<noteq> py ''dpdk'' \<Longrightarrow> map_of (dpdk_off d) k = map_of d k"
proof -
  have "map_of (dpdk_off d) (py ''plugins'') = map_of (plugin_off (py ''dpdk_plugin.so'') d) (py ''plugins'')"
    by (simp add: dpdk_off_def delete_conv')
  then show "has_dict (py ''plugins'') (dpdk_off d)" "has_dict (py ''plugin'') (dict_at (py ''plugins'') (dpdk_off d))"
    using plugin_off_shape(1,2) [of "py ''dpdk_plugin.so''" d] dict_at_cong [of "dpdk_off d"] by (simp_all add: has_dict_def)
qed (simp_all add: dpdk_off_def delete_conv' plugin_off_shape)

lemma update_present: "map_of d k = Some v \<Longrightarrow> AList.update k v d = d"
  by (induction d) auto

lemma plugin_off_same:
  assumes "has_dict (py ''plugins'') d" and "has_dict (py ''plugin'') (dict_at (py ''plugins'') d)"
    and "map_of (dict_at (py ''plugin'') (dict_at (py ''plugins'') d)) name = Some (PStr (py ''disable''))"
  shows "plugin_off name d = d"
  using has_dictE [OF assms(1)] has_dictE [OF assms(2)] assms(3) by (simp add: plugin_off_def Let_def update_present)

lemma plugin_off_value:
  "map_of (dict_at (py ''plugin'') (dict_at (py ''plugins'') (plugin_off name d))) k =
    (if k = name then Some (PStr (py ''disable'')) else map_of (dict_at (py ''plugin'') (dict_at (py ''plugins'') d)) k)"
  by (simp add: plugin_off_def Let_def dict_at_def update_conv')

lemma dpdk_off_plugins: "dict_at (py ''plugins'') (dpdk_off d) = dict_at (py ''plugins'') (plugin_off (py ''dpdk_plugin.so'') d)"
  by (rule dict_at_cong) (simp add: dpdk_off_def delete_conv')

lemma dpdk_off_twice: "dpdk_off (dpdk_off d) = dpdk_off d"
proof -
  have "map_of (dict_at (py ''plugin'') (dict_at (py ''plugins'') (dpdk_off d))) (py ''dpdk_plugin.so'') =
      Some (PStr (py ''disable''))"
    by (simp add: dpdk_off_plugins plugin_off_value)
  then have "plugin_off (py ''dpdk_plugin.so'') (dpdk_off d) = dpdk_off d"
    by (intro plugin_off_same dpdk_off_shape)
  then show ?thesis by (simp add: dpdk_off_def [of "dpdk_off d"]) (simp add: dpdk_off_def delete_idem)
qed

lemma cfg_value_set [simp]: "vpp_json_cfg st = Some r \<Longrightarrow> cfg_value (set_cfg v st) = v"
  "vpp_json_cfg (set_cfg v st) = vpp_json_cfg st" "py_files (set_cfg v st) = py_files st"
  "vpp_vports_conf (set_cfg v st) = vpp_vports_conf st"
  "set_cfg v (set_cfg w st) = set_cfg v st"
  by (auto simp: cfg_value_def set_cfg_def split: option.split)

lemma set_cfg_same: "cfg_value st = v \<Longrightarrow> vpp_json_cfg st = Some r \<Longrightarrow> set_cfg v st = st"
  by (auto simp: cfg_value_def set_cfg_def)

lemma disable_dpdk_eq:
  assumes "vpp_json_cfg st = Some r" and "cfg_value st = PDict d"
    and "has_dict (py ''plugins'') d" and "has_dict (py ''plugin'') (dict_at (py ''plugins'') d)"
  shows "disable_dpdk_cfg st = Inr (set_cfg (PDict (dpdk_off d)) st)"
  using assms disable_plugin_eq [OF assms(3,4)] by (simp add: disable_dpdk_cfg_def dpdk_off_def)

lemma vports_eq:
  assumes "cfg_value st = PDict d" and "dict_or_absent (py ''vports'') d"
  shows "vpp_vports_config st = Inr (st\<lparr>vpp_vports_conf := vpp_vports_conf st @ unlines (vport_lines d)\<rparr>)"
  using dict_or_absentE [OF assms(2)] assms(1)
  by (auto simp: vpp_vports_config_def vport_lines_def unlines_def comp_def split_def)

lemma dpdk_config_eq:
  assumes "vpp_json_cfg st = Some r" and "cfg_value st = PDict d" and "shaped d"
  shows "vpp_dpdk_config st = Inr (if has_devices d then st else set_cfg (PDict (dpdk_off d)) st)"
proof -
  let ?dpdk = "dict_at (py ''dpdk'') d" and ?test = "list_all (\<lambda>(key, val). key = py ''default'')"
  have shape: "map_of d (py ''dpdk'') = None \<and> ?dpdk = [] \<or> map_of d (py ''dpdk'') = Some (PDict ?dpdk)"
    "map_of ?dpdk (py ''dev'') = None \<and> dict_at (py ''dev'') ?dpdk = [] \<or>
      map_of ?dpdk (py ''dev'') = Some (PDict (dict_at (py ''dev'') ?dpdk))"
    using dict_or_absentE assms(3) unfolding shaped_def by blast+
  have off: "disable_dpdk_cfg st = Inr (set_cfg (PDict (dpdk_off d)) st)"
    using disable_dpdk_eq [OF assms(1,2)] assms(3) by (simp add: shaped_def)
  have test: "has_devices d \<longleftrightarrow> \<not> ?test (dict_at (py ''dev'') ?dpdk)"
    by (auto simp: has_devices_def list_all_iff list_ex_iff)
  show ?thesis
    using shape assms(2) off test by (auto simp: vpp_dpdk_config_def)
qed

lemma env_config_eq:
  fixes E :: "'f pyenv"
  assumes "vpp_json_cfg st = Some r" and "cfg_value st = PDict d" 
    and "has_dict (py ''plugins'') d" and "has_dict (py ''plugin'') (dict_at (py ''plugins'') d)"
  defines "d1 \<equiv> if getenv_is_y E ''DPDK_DISABLE'' then dpdk_off d else d"
  shows "vpp_env_config E st = Inr (set_cfg (PDict (if getenv_is_y E ''NO_LINUX_NL'' then plugin_off (py ''linux_nl_plugin.so'') d1 else d1)) st)"
proof -
  have "(if getenv_is_y E ''DPDK_DISABLE'' then disable_dpdk_cfg st else Inr st) = Inr (set_cfg (PDict d1) st)"
    using disable_dpdk_eq [OF assms(1-4)] set_cfg_same [OF assms(2,1)] by (simp add: d1_def)
  moreover have "disable_plugin (py ''linux_nl_plugin.so'') (PDict d1) = Inr (PDict (plugin_off (py ''linux_nl_plugin.so'') d1))"
    by (rule disable_plugin_eq) (simp_all add: d1_def assms(3,4) dpdk_off_shape)
  ultimately show ?thesis using assms(1) by (simp add: vpp_env_config_def)
qed

lemma commit_config_eq:
  fixes E :: "'f pyenv"
  assumes "vpp_json_cfg st = Some r" and "cfg_value st = PDict d" and "shaped d"
    and "renderable (float_zero (py_floats E)) (effective E d)"
  defines "conf \<equiv> unlines (confs_lines [] (vpp_conf (float_zero (py_floats E)) (effective E d)))"
  shows "commit_config E st = Inr ((set_cfg (PDict (effective E d)) st)
    \<lparr>vpp_vports_conf := vpp_vports_conf st @ unlines (vport_lines d), vpp_startup_conf := conf\<rparr>)"
proof -
  define st1 where "st1 = st\<lparr>vpp_vports_conf := vpp_vports_conf st @ unlines (vport_lines d)\<rparr>"
  have st1: "vpp_vports_config st = Inr st1" "vpp_json_cfg st1 = Some r" "cfg_value st1 = PDict d"
    using vports_eq [OF assms(2)] assms(1-3) by (simp_all add: shaped_def st1_def cfg_value_def)
  define d2 where "d2 = (if has_devices d then d else dpdk_off d)"
  have st2: "vpp_dpdk_config st1 = Inr (set_cfg (PDict d2) st1)"
    using dpdk_config_eq [OF st1(2,3) assms(3)] set_cfg_same [OF st1(3,2)] by (simp add: d2_def)
  have d2: "has_dict (py ''plugins'') d2" "has_dict (py ''plugin'') (dict_at (py ''plugins'') d2)"
    using assms(3) by (simp_all add: d2_def shaped_def dpdk_off_shape)
  have "(if getenv_is_y E ''DPDK_DISABLE'' then dpdk_off d2 else d2) = (if dpdk_unused E d then dpdk_off d else d)"
    by (simp add: d2_def dpdk_unused_def dpdk_off_twice)
  then have st3: "vpp_env_config E (set_cfg (PDict d2) st1) = Inr (set_cfg (PDict (effective E d)) st1)"
    using env_config_eq [of "set_cfg (PDict d2) st1" r d2 E] st1(2) d2 by (simp add: effective_def Let_def)
  show ?thesis
    using st1(1,2) st2 st3 assms(4)
    by (simp add: commit_config_def render_vpp_config_def gen_vpp_conf_eq conf_def)
      (simp add: st1_def set_cfg_def assms(1))
qed

section \<open>Lemmas on the files\<close>

lemma ascii_encodable: "list_all (\<lambda>c. c < 128) s \<Longrightarrow> encodable s"
  by (auto simp: encodable_def list_all_iff high_surrogate_def low_surrogate_def)

lemma hex4_ascii: "list_all (\<lambda>c. c < 128) (hex4 n)"
proof -
  have "hex_char (m mod 16) < 128" for m
    using mod_less_divisor [of 16 m] by (simp add: hex_char_def del: mod_less_divisor)
  then show ?thesis by (simp add: hex4_def)
qed

lemma escape_char_ascii: "list_all (\<lambda>c. c < 128) (escape_char c)"
  by (auto simp: escape_char_def u_escape_def hex4_ascii)

lemma quote_ascii: "list_all (\<lambda>c. c < 128) (json_quote s)"
  using escape_char_ascii by (auto simp: json_quote_def list_all_iff)

lemma digits_ascii: "digits ds \<Longrightarrow> list_all (\<lambda>c. c < 128) ds"
  by (auto simp: digits_def list_all_iff is_digit_def)

lemma int_repr_ascii: "list_all (\<lambda>c. c < 128) (int_repr i)"
  using dec_digits_shape [THEN conjunct1, THEN digits_ascii] by (simp add: int_repr_def)

lemma float_repr_ascii:
  assumes "float_ok F" shows "list_all (\<lambda>c. c < 128) (float_repr F x)"
proof -
  have "list_all (\<lambda>c. c < 128) t" if "float_literal t" for t
    using that unfolding float_literal_def int_literal_def
    by (auto simp: py_def digits_ascii)
  then show ?thesis using assms by (simp add: float_ok_def)
qed

lemma newline_ascii: "list_all (\<lambda>c. c < 128) (json_newline n)"
  by (simp add: json_newline_def list_all_iff)

lemma json_ascii:
  "float_ok F \<Longrightarrow> list_all (\<lambda>c. c < 128) (json_value F n v)"
  "float_ok F \<Longrightarrow> list_all (\<lambda>c. c < 128) (json_items F n d)"
  "float_ok F \<Longrightarrow> list_all (\<lambda>c. c < 128) (json_elems F n xs)"
  by (induction F n v and F n d and F n xs rule: json_value_json_items_json_elems.induct)
    (auto simp: py_def quote_ascii int_repr_ascii float_repr_ascii newline_ascii)

lemma write_file_encodable:
  "py_can_open E path \<Longrightarrow> encodable text \<Longrightarrow> write_file E path text st = (None, st\<lparr>py_files := (py_files st)(path \<mapsto> text)\<rparr>)"
  by (auto simp: write_file_def encodable_def list_all_iff list_ex_iff)

lemma commit_eq:
  assumes "vpp_json_cfg st = Some r" and "py_heap st r = PDict d" and "vpp_vports_conf st = []" and "shaped d" and "output_ready E d"
  shows "commit E st = (Inr True, st\<lparr>py_heap := (py_heap st)(r := PDict (effective E d)), py_files := written E d (py_files st),
    vpp_json_cfg := None, vpp_startup_conf := [], vpp_vports_conf := []\<rparr>)"
proof -
  have out: "float_ok (py_floats E)" "renderable (float_zero (py_floats E)) (effective E d)"
    using assms(5) by (simp_all add: output_ready_def)
  have cfg: "cfg_value st = PDict d" using assms(1,2) by (simp add: cfg_value_def)
  have "encodable (json_dump (py_floats E) v)" for v
    using json_ascii(1) [OF out(1)] by (simp add: json_dump_def ascii_encodable)
  then show ?thesis
    using commit_config_eq [OF assms(1) cfg assms(4) out(2)] assms(1,3,5)
    by (simp add: commit_def write_file_encodable output_ready_def config_reset_def written_def set_cfg_def cfg_value_def)
qed

lemma dict_at_cases: "dict_at k d = [] \<or> map_of d k = Some (PDict (dict_at k d))"
  by (simp add: dict_at_def split: option.split pyval.split)

lemma wf_dict_at:
  assumes "wf_val (PDict d)" shows "wf_val (PDict (dict_at k d))"
  using dict_at_cases [of k d] wf_val_lookup [OF assms, of k "PDict (dict_at k d)"] by fastforce

lemma plugin_off_wf: "wf_val (PDict d) \<Longrightarrow> wf_val (PDict (plugin_off name d))"
  unfolding plugin_off_def Let_def by (intro wf_val_update wf_dict_at) simp_all

lemma effective_wf: "wf_val (PDict d) \<Longrightarrow> wf_val (PDict (effective E d))"
  by (simp add: effective_def Let_def dpdk_off_def plugin_off_wf wf_val_delete del: wf_val.simps)

lemma json_plain_update:
  "json_plain (PDict d) \<Longrightarrow> json_text k \<Longrightarrow> json_plain v \<Longrightarrow> json_plain (PDict (AList.update k v d))"
  by (induction d) auto

lemma json_plain_lookup: "json_plain (PDict d) \<Longrightarrow> map_of d k = Some v \<Longrightarrow> json_plain v"
  by (auto simp: list_all_iff dest!: map_of_SomeD)

lemma json_plain_dict_at:
  assumes "json_plain (PDict d)" shows "json_plain (PDict (dict_at k d))"
  using dict_at_cases [of k d] json_plain_lookup [OF assms, of k "PDict (dict_at k d)"] by fastforce

lemma json_plain_delete: "json_plain (PDict d) \<Longrightarrow> json_plain (PDict (AList.delete k d))"
  by (auto simp: list_all_iff AList.delete_eq)

lemma small_text: "list_all (\<lambda>c. c < 256) s \<Longrightarrow> json_text s"
proof -
  have "pair_free t" if "list_all (\<lambda>c. c < 256) t" for t
    using that by (induction t rule: pair_free.induct) (auto simp: high_surrogate_def)
  moreover have "list_all (\<lambda>c. c < 0x110000) s" if "list_all (\<lambda>c. c < 256) s"
    using that by (auto simp: list_all_iff intro: less_trans)
  ultimately show "list_all (\<lambda>c. c < 256) s \<Longrightarrow> json_text s" by (simp add: json_text_def)
qed

lemma py_json_text: "json_text (py s)"
  by (rule small_text) (simp add: py_def list_all_iff)

lemma plugin_off_plain: "json_plain (PDict d) \<Longrightarrow> json_text name \<Longrightarrow> json_plain (PDict (plugin_off name d))"
  unfolding plugin_off_def Let_def
  by (intro json_plain_update json_plain_dict_at) (simp_all add: py_json_text)

lemma effective_plain: "json_plain (PDict d) \<Longrightarrow> json_plain (PDict (effective E d))"
  by (simp add: effective_def Let_def dpdk_off_def plugin_off_plain json_plain_delete py_json_text del: json_plain.simps)

lemma effective_top:
  "k \<noteq> py ''plugins'' \<Longrightarrow> k \<noteq> py ''dpdk'' \<Longrightarrow> map_of (effective E d) k = map_of d k"
  "map_of (effective E d) (py ''dpdk'') = (if dpdk_unused E d then None else map_of d (py ''dpdk''))"
  by (simp_all add: effective_def Let_def plugin_off_shape dpdk_off_shape)

lemma effective_plugins:
  assumes "shaped d"
  shows "val_at (PDict (effective E d)) [py ''plugins'', py ''plugin'', k] =
    (if dpdk_unused E d \<and> k = py ''dpdk_plugin.so'' \<or> getenv_is_y E ''NO_LINUX_NL'' \<and> k = py ''linux_nl_plugin.so''
     then Some (PStr (py ''disable'')) else val_at (PDict d) [py ''plugins'', py ''plugin'', k])"
proof -
  have at: "val_at (PDict e) [py ''plugins'', py ''plugin'', k] = map_of (dict_at (py ''plugin'') (dict_at (py ''plugins'') e)) k"
    if "has_dict (py ''plugins'') e" "has_dict (py ''plugin'') (dict_at (py ''plugins'') e)" for e :: "'f pydict"
    using has_dictE [OF that(1)] has_dictE [OF that(2)] by (simp split: option.split)
  have shape: "has_dict (py ''plugins'') (effective E d)" "has_dict (py ''plugin'') (dict_at (py ''plugins'') (effective E d))"
    using assms by (simp_all add: effective_def Let_def shaped_def plugin_off_shape dpdk_off_shape)
  have "map_of (dict_at (py ''plugin'') (dict_at (py ''plugins'') (effective E d))) k =
    (if dpdk_unused E d \<and> k = py ''dpdk_plugin.so'' \<or> getenv_is_y E ''NO_LINUX_NL'' \<and> k = py ''linux_nl_plugin.so''
     then Some (PStr (py ''disable'')) else map_of (dict_at (py ''plugin'') (dict_at (py ''plugins'') d)) k)"
    by (simp add: effective_def Let_def plugin_off_value dpdk_off_plugins)
  then show ?thesis using at [OF shape] at [of d] assms by (simp add: shaped_def del: val_at.simps)
qed

text \<open>Of the section of plugins only the list of plugins is adjusted.\<close>

lemma plugin_off_other:
  "k \<noteq> py ''plugin'' \<Longrightarrow> map_of (dict_at (py ''plugins'') (plugin_off name d)) k = map_of (dict_at (py ''plugins'') d) k"
  by (simp add: plugin_off_def Let_def dict_at_def update_conv')

lemma effective_plugins_other:
  assumes "shaped d" and "k \<noteq> py ''plugin''"
  shows "val_at (PDict (effective E d)) [py ''plugins'', k] = val_at (PDict d) [py ''plugins'', k]"
proof -
  have at: "val_at (PDict e) [py ''plugins'', k] = map_of (dict_at (py ''plugins'') e) k"
    if "has_dict (py ''plugins'') e" for e :: "'f pydict"
    using has_dictE [OF that] by (simp split: option.split)
  have "has_dict (py ''plugins'') (effective E d)"
    using assms(1) by (simp add: effective_def Let_def shaped_def plugin_off_shape dpdk_off_shape)
  moreover have "map_of (dict_at (py ''plugins'') (effective E d)) k = map_of (dict_at (py ''plugins'') d) k"
    using assms(2) by (simp add: effective_def Let_def plugin_off_other dpdk_off_plugins)
  ultimately show ?thesis using at [of "effective E d"] at [of d] assms(1) by (simp add: shaped_def del: val_at.simps)
qed

section \<open>Properties\<close>

lemma commit_spec:
  assumes "vpp_json_cfg st = Some r" and "py_heap st r = PDict d" and "vpp_vports_conf st = []"
    and "wf_val (PDict d)" and "json_plain (PDict d)" and "shaped d" and "output_ready E d"
  shows "\<exists>st' d' conf. commit E st = (Inr True, st') \<and>
    map_option (json_loads (py_floats E)) (py_files st' VPP_CONFIG_JSON_PATH) = Some (Inr (PDict d')) \<and>
    gen_vpp_conf (float_zero (py_floats E)) d' [] [] = Inr conf \<and> py_files st' VPP_CFG_STARTUP_PATH = Some conf \<and>
    py_files st' VPP_BOOTUP_CFG_PATH = Some (unlines (vport_lines d)) \<and>
    map_of d' (py ''dpdk'') = (if dpdk_unused E d then None else map_of d (py ''dpdk'')) \<and>
    (\<forall>k. val_at (PDict d') [py ''plugins'', py ''plugin'', k] =
       (if dpdk_unused E d \<and> k = py ''dpdk_plugin.so'' \<or> getenv_is_y E ''NO_LINUX_NL'' \<and> k = py ''linux_nl_plugin.so''
        then Some (PStr (py ''disable'')) else val_at (PDict d) [py ''plugins'', py ''plugin'', k])) \<and>
    (\<forall>k. k \<noteq> py ''dpdk'' \<and> k \<noteq> py ''plugins'' \<longrightarrow> map_of d' k = map_of d k) \<and>
    py_heap st' r = PDict d' \<and> vpp_json_cfg st' = None"
proof -
  let ?st = "st\<lparr>py_heap := (py_heap st)(r := PDict (effective E d)), py_files := written E d (py_files st),
    vpp_json_cfg := None, vpp_startup_conf := [], vpp_vports_conf := []\<rparr>"
  have fine: "float_ok (py_floats E)" "renderable (float_zero (py_floats E)) (effective E d)"
    using assms(7) by (simp_all add: output_ready_def)
  have "json_loads (py_floats E) (json_dump (py_floats E) (PDict (effective E d))) = Inr (PDict (effective E d))"
    by (rule json_roundtrip [OF fine(1) effective_wf [OF assms(4)] effective_plain [OF assms(5)]])
  moreover have "commit E st = (Inr True, ?st)" by (rule commit_eq [OF assms(1-3,6,7)])
  ultimately show ?thesis
    using fine(2) effective_plugins [OF assms(6), of E] effective_top(1) [of _ E d] effective_top(2) [of E d]
    by (intro exI [of _ ?st] exI [of _ "effective E d"])
      (simp add: gen_vpp_conf_eq written_def VPP_CONFIG_JSON_PATH_def VPP_BOOTUP_CFG_PATH_def VPP_CFG_STARTUP_PATH_def
        del: val_at.simps)
qed

text \<open>C26: A commit, as the daemon runs it after an update (the object it holds is the template manager's and the text
  for the virtual ports is still empty), on a configuration of the template's shape whose texts JSON can represent and
  that can be output (the three files can be opened, every true setting of the adjusted configuration is a text, no
  text has a surrogate): it succeeds and writes three files and no other. \<^verbatim>\<open>startup.json\<close> reads back as the adjusted
  configuration, \<^verbatim>\<open>startup.conf\<close> is its rendering, and \<^verbatim>\<open>bootup.conf\<close> creates one host interface per virtual port.
  The adjustment drops the DPDK section and disables its plugin when no device but the default is configured or the
  environment says so, disables the netlink plugin when the environment says so, and changes no other section, no other
  key of the plugins section and no other plugin. The adjusted configuration is also what the template manager holds
  afterwards; no other object changes.\<close>

theorem commit_writes_configuration:
  assumes "vpp_json_cfg st = Some (vpp_config st)" and "py_heap st (vpp_config st) = PDict d" and "vpp_vports_conf st = []"
    and "wf_val (PDict d)" and "json_plain (PDict d)" and "shaped d" and "output_ready E d"
  shows "\<exists>st' d' conf. commit E st = (Inr True, st') \<and>
    map_option (json_loads (py_floats E)) (py_files st' VPP_CONFIG_JSON_PATH) = Some (Inr (PDict d')) \<and>
    gen_vpp_conf (float_zero (py_floats E)) d' [] [] = Inr conf \<and> py_files st' VPP_CFG_STARTUP_PATH = Some conf \<and>
    py_files st' VPP_BOOTUP_CFG_PATH = Some (unlines (vport_lines d)) \<and>
    (\<forall>path. path \<notin> {VPP_CONFIG_JSON_PATH, VPP_CFG_STARTUP_PATH, VPP_BOOTUP_CFG_PATH} \<longrightarrow> py_files st' path = py_files st path) \<and>
    map_of d' (py ''dpdk'') = (if dpdk_unused E d then None else map_of d (py ''dpdk'')) \<and>
    (\<forall>k. val_at (PDict d') [py ''plugins'', py ''plugin'', k] =
       (if dpdk_unused E d \<and> k = py ''dpdk_plugin.so'' \<or> getenv_is_y E ''NO_LINUX_NL'' \<and> k = py ''linux_nl_plugin.so''
        then Some (PStr (py ''disable'')) else val_at (PDict d) [py ''plugins'', py ''plugin'', k])) \<and>
    (\<forall>k. k \<noteq> py ''plugin'' \<longrightarrow> val_at (PDict d') [py ''plugins'', k] = val_at (PDict d) [py ''plugins'', k]) \<and>
    (\<forall>k. k \<noteq> py ''dpdk'' \<and> k \<noteq> py ''plugins'' \<longrightarrow> map_of d' k = map_of d k) \<and>
    vpp_config st' = vpp_config st \<and> py_heap st' = (py_heap st)(vpp_config st := PDict d') \<and> vpp_json_cfg st' = None"
proof -
  let ?st = "st\<lparr>py_heap := (py_heap st)(vpp_config st := PDict (effective E d)), py_files := written E d (py_files st),
    vpp_json_cfg := None, vpp_startup_conf := [], vpp_vports_conf := []\<rparr>"
  have fine: "float_ok (py_floats E)" "renderable (float_zero (py_floats E)) (effective E d)"
    using assms(7) by (simp_all add: output_ready_def)
  have "json_loads (py_floats E) (json_dump (py_floats E) (PDict (effective E d))) = Inr (PDict (effective E d))"
    by (rule json_roundtrip [OF fine(1) effective_wf [OF assms(4)] effective_plain [OF assms(5)]])
  moreover have "commit E st = (Inr True, ?st)" by (rule commit_eq [OF assms(1-3,6,7)])
  ultimately show ?thesis
    using fine(2) effective_plugins [OF assms(6), of E] effective_plugins_other [OF assms(6), of _ E]
      effective_top(1) [of _ E d] effective_top(2) [of E d]
    by (intro exI [of _ ?st] exI [of _ "effective E d"])
      (simp add: gen_vpp_conf_eq written_def VPP_CONFIG_JSON_PATH_def VPP_BOOTUP_CFG_PATH_def VPP_CFG_STARTUP_PATH_def
        del: val_at.simps)
qed

lemma floats_demo_ok: "float_ok floats_demo"
proof -
  have "py ''0.0'' = [] @ [48] @ (46 # [48]) @ []" by (simp add: py_def)
  moreover have "int_literal [48]" "digits [48]" by (simp_all add: int_literal_def digits_def is_digit_def)
  ultimately have "float_literal (py ''0.0'')" unfolding float_literal_def by blast
  then show ?thesis by (simp add: float_ok_def floats_demo_def)
qed

lemma effective_demo: "\<not> has_devices template_demo" "effective env_demo template_demo = committed_demo"
proof -
  show dev: "\<not> has_devices template_demo"
    by (simp add: template_demo_def dict_at_def has_devices_def)
  then show "effective env_demo template_demo = committed_demo"
    by (simp add: effective_def dpdk_unused_def dpdk_off_def plugin_off_def getenv_is_y_def env_demo_def dict_at_def
        template_demo_def committed_demo_def)
qed

lemmas demo_eval = template_demo_def committed_demo_def devices_demo_def shaped_def dict_or_absent_def has_dict_def dict_at_def
  has_devices_def

lemmas render_eval = settable_def plugin_renderable_def vport_lines_def encodable_def plugin_conf_def setting_def INDENT_def
  py_def high_surrogate_def low_surrogate_def

lemma template_demo_ok:
  "wf_val (PDict template_demo)" "json_plain (PDict template_demo)" "shaped template_demo" "output_ready env_demo template_demo"
proof -
  show "wf_val (PDict template_demo)" "shaped template_demo" by (simp_all add: demo_eval)
  show "json_plain (PDict template_demo)"
    by (simp add: demo_eval py_json_text json_text_def [of "[]"])
  show "output_ready env_demo template_demo"
    by (simp add: output_ready_def floats_demo_ok env_demo_def effective_demo(2) [unfolded env_demo_def])
      (simp add: floats_demo_def demo_eval render_eval)
qed

lemma second_demo_ok:
  "deep_update devices_demo (PDict committed_demo) = Inr (PDict second_demo)"
  "json_plain (PDict second_demo)" "shaped second_demo" "output_ready env_demo second_demo"
proof -
  show "deep_update devices_demo (PDict committed_demo) = Inr (PDict second_demo)" "shaped second_demo"
    by (simp_all add: demo_eval second_demo_def)
  show "json_plain (PDict second_demo)"
    by (simp add: demo_eval second_demo_def py_json_text json_text_def [of "[]"])
  have "effective env_demo second_demo = second_demo"
    by (simp add: effective_def dpdk_unused_def getenv_is_y_def env_demo_def demo_eval second_demo_def)
  then show "output_ready env_demo second_demo"
    by (simp add: output_ready_def floats_demo_ok env_demo_def)
      (simp add: floats_demo_def demo_eval second_demo_def render_eval)
qed

theorem commit_writes_configuration_witness:
  "\<exists>st'. commit env_demo loaded_demo = (Inr True, st') \<and> py_files st' VPP_CFG_STARTUP_PATH \<noteq> None"
  using commit_writes_configuration [OF _ _ _ template_demo_ok, of loaded_demo]
  by (auto simp: loaded_demo_def ConfigMgr_init_def)

lemma fresh_path:
  assumes "deep_update input (PDict out) = Inr new" and "distinct (map fst input)" and "map_of out k = None"
    and "val_at (PDict input) (k # ps) = Some v"
  shows "val_at new (k # ps) = Some v"
proof -
  obtain val where val: "map_of input k = Some val" "val_at val ps = Some v"
    using assms(4) by (auto split: option.splits)
  then show ?thesis using deep_update_key [OF assms(1,2) val(1)] assms(3) by auto
qed

lemma val_at_Cons:
  "val_at v (k # ps) = Some w \<longleftrightarrow> (\<exists>d x. v = PDict d \<and> map_of d k = Some x \<and> val_at x ps = Some w)"
  by (cases v) (auto split: option.splits)

lemma device_present:
  assumes "val_at (PDict d) [py ''dpdk'', py ''dev'', name] = Some dev" and "name \<noteq> py ''default''"
  shows "has_devices d"
proof -
  obtain a b where "map_of d (py ''dpdk'') = Some (PDict a)" "map_of a (py ''dev'') = Some (PDict b)" "map_of b name = Some dev"
    using assms(1) by (auto simp: val_at_Cons simp del: val_at.simps(2))
  then show ?thesis
    using assms(2) by (auto simp: has_devices_def dict_at_def list_ex_iff dest!: map_of_SomeD)
qed

lemma val_at_dpdk: "map_of d k = map_of d' k \<Longrightarrow> val_at (PDict d) (k # ps) = val_at (PDict d') (k # ps)"
  by simp

text \<open>
  Because the commit adjusts the template object itself, disabling DPDK outlives the update that
  caused it: after a commit without devices, a later update that adds one and does not mention the
  plugins is committed with the device configured and the DPDK plugin still disabled.\<close>

theorem dpdk_plugin_stays_disabled:
  assumes "vpp_json_cfg st = Some (vpp_config st)" and "py_heap st (vpp_config st) = PDict d" and "vpp_vports_conf st = []"
    and "wf_val (PDict d)" and "shaped d" and "output_ready E d" and "\<not> has_devices d"
    and "wf_val (PDict input)" and "map_of input (py ''plugins'') = None"
    and "val_at (PDict input) [py ''dpdk'', py ''dev'', name] = Some dev" and "name \<noteq> py ''default''"
    and "config_update input (snd (commit E st)) = Inr st2" and "py_heap st2 (vpp_config st) = PDict d2"
    and "json_plain (PDict d2)" and "shaped d2" and "output_ready E d2" and "\<not> getenv_is_y E ''DPDK_DISABLE''"
  shows "\<exists>st3 d3. commit E st2 = (Inr True, st3) \<and>
    map_option (json_loads (py_floats E)) (py_files st3 VPP_CONFIG_JSON_PATH) = Some (Inr (PDict d3)) \<and>
    val_at (PDict d3) [py ''dpdk'', py ''dev'', name] = Some dev \<and>
    val_at (PDict d3) [py ''plugins'', py ''plugin'', py ''dpdk_plugin.so''] = Some (PStr (py ''disable''))"
proof -
  define d1 where "d1 = effective E d"
  have unused: "dpdk_unused E d" using assms(7) by (simp add: dpdk_unused_def)
  have c1: "py_heap (snd (commit E st)) (vpp_config st) = PDict d1" "vpp_config (snd (commit E st)) = vpp_config st"
    "vpp_vports_conf (snd (commit E st)) = []"
    using commit_eq [OF assms(1-3,5,6)] by (simp_all add: d1_def)
  have up: "deep_update input (PDict d1) = Inr (PDict d2)" and st2: "vpp_json_cfg st2 = Some (vpp_config st)" "vpp_vports_conf st2 = []"
    using assms(12,13) c1 by (auto simp: config_update_def Let_def bind_py_Inr)
  have wf2: "wf_val (PDict d2)"
    by (rule deep_update_wf [OF effective_wf [OF assms(4)] assms(8) up [unfolded d1_def]])
  have dev: "val_at (PDict d2) [py ''dpdk'', py ''dev'', name] = Some dev"
    by (rule fresh_path [OF up _ _ assms(10)]) (use unused assms(8) in \<open>simp_all add: d1_def effective_top\<close>)
  have off: "val_at (PDict d2) [py ''plugins'', py ''plugin'', py ''dpdk_plugin.so''] = Some (PStr (py ''disable''))"
    using deep_update_absent [OF up, of "py ''plugins''"] assms(9) effective_plugins [OF assms(5), of E "py ''dpdk_plugin.so''"] unused
    by (simp add: map_of_eq_None_iff d1_def del: val_at.simps)
  have used: "\<not> dpdk_unused E d2"
    using device_present [OF dev assms(11)] assms(17) by (simp add: dpdk_unused_def)
  obtain st3 d3 where c: "commit E st2 = (Inr True, st3)"
    "map_option (json_loads (py_floats E)) (py_files st3 VPP_CONFIG_JSON_PATH) = Some (Inr (PDict d3))"
    "map_of d3 (py ''dpdk'') = (if dpdk_unused E d2 then None else map_of d2 (py ''dpdk''))"
    and pl: "\<forall>k. val_at (PDict d3) [py ''plugins'', py ''plugin'', k] =
       (if dpdk_unused E d2 \<and> k = py ''dpdk_plugin.so'' \<or> getenv_is_y E ''NO_LINUX_NL'' \<and> k = py ''linux_nl_plugin.so''
        then Some (PStr (py ''disable'')) else val_at (PDict d2) [py ''plugins'', py ''plugin'', k])"
    using commit_spec [OF st2(1) assms(13) st2(2) wf2 assms(14-16)] by blast
  have "val_at (PDict d3) [py ''dpdk'', py ''dev'', name] = Some dev"
    using val_at_dpdk [of d3 "py ''dpdk''" d2] c(3) used dev by simp
  moreover have "val_at (PDict d3) [py ''plugins'', py ''plugin'', py ''dpdk_plugin.so''] = Some (PStr (py ''disable''))"
    using pl [THEN spec, of "py ''dpdk_plugin.so''"] off used by (simp del: val_at.simps)
  ultimately show ?thesis using c(1,2) by blast
qed

lemma loaded_demo_commit:
  "vpp_json_cfg loaded_demo = Some (vpp_config loaded_demo)" "py_heap loaded_demo (vpp_config loaded_demo) = PDict template_demo"
  "vpp_vports_conf loaded_demo = []" "vpp_config loaded_demo = 0"
  "vpp_config (snd (commit env_demo loaded_demo)) = 0" "py_heap (snd (commit env_demo loaded_demo)) 0 = PDict committed_demo"
proof -
  show st: "vpp_json_cfg loaded_demo = Some (vpp_config loaded_demo)" "py_heap loaded_demo (vpp_config loaded_demo) = PDict template_demo"
    "vpp_vports_conf loaded_demo = []" "vpp_config loaded_demo = 0"
    by (simp_all add: loaded_demo_def ConfigMgr_init_def)
  show "vpp_config (snd (commit env_demo loaded_demo)) = 0" "py_heap (snd (commit env_demo loaded_demo)) 0 = PDict committed_demo"
    using commit_eq [OF st(1-3) template_demo_ok(3,4)] st(4) by (simp_all add: effective_demo)
qed

theorem dpdk_plugin_stays_disabled_witness:
  "\<exists>st2 st3 d3. config_update devices_demo (snd (commit env_demo loaded_demo)) = Inr st2 \<and> commit env_demo st2 = (Inr True, st3) \<and>
    map_option (json_loads floats_demo) (py_files st3 VPP_CONFIG_JSON_PATH) = Some (Inr (PDict d3)) \<and>
    val_at (PDict d3) [py ''dpdk'', py ''dev'', py ''0000:00:04.0''] \<noteq> None \<and>
    val_at (PDict d3) [py ''plugins'', py ''plugin'', py ''dpdk_plugin.so''] = Some (PStr (py ''disable''))"
proof -
  obtain st2 where st2: "config_update devices_demo (snd (commit env_demo loaded_demo)) = Inr st2"
    "py_heap st2 (vpp_config loaded_demo) = PDict second_demo"
    using second_demo_ok(1) loaded_demo_commit by (simp add: config_update_def)
  have dev: "val_at (PDict devices_demo) [py ''dpdk'', py ''dev'', py ''0000:00:04.0''] =
      Some (PDict [(py ''name'', PStr (py ''bobm0''))])" "wf_val (PDict devices_demo)" "map_of devices_demo (py ''plugins'') = None"
    by (simp_all add: devices_demo_def)
  have env: "\<not> getenv_is_y env_demo ''DPDK_DISABLE''" "py_floats env_demo = floats_demo"
    by (simp_all add: getenv_is_y_def env_demo_def)
  show ?thesis
    using dpdk_plugin_stays_disabled [OF loaded_demo_commit(1-3) template_demo_ok(1,3,4) effective_demo(1) dev(2,3,1) _ st2
        second_demo_ok(2-4) env(1)] st2(1) env(2)
    by (auto simp del: val_at.simps)
qed

end
