(* ===== verification/Vppcfg_Daemon.thy ===== *)
theory Vppcfg_Daemon
  imports Vppcfg_Directory Vppcfg_Commit
begin

text \<open>
  The daemon around the configuration: \<^verbatim>\<open>managers_vppcfg.py\<close> (the handler of the table \<^verbatim>\<open>PLATFORM\<close>),
  \<^verbatim>\<open>runner.py\<close> (the main loop) and \<^verbatim>\<open>main.py\<close>.

  The databases are outside the repository: what \<^verbatim>\<open>select\<close> and the \<^verbatim>\<open>pop\<close> calls of an iteration return is
  the input of the loop, the numbering of the databases and the outcome of reading the YAML file of
  constants are arguments. The set of subscribers has no order of its own, so the input of an iteration
  lists them in the order they are visited. The end of the input is the signal that stops the loop.
\<close>

section \<open>The handler of the table\<close>

definition field_value :: "'f pyenv \<Rightarrow> pystr \<Rightarrow> exn + 'f pyval" where
  "field_value E val = json_loads (py_floats E) (replace_char 39 34 val)"

fun read_fields :: "'f pyenv \<Rightarrow> field_values \<Rightarrow> 'f pydict \<Rightarrow> exn + 'f pydict" where
  "read_fields E [] cfg = Inr cfg"
| "read_fields E ((key, val) # data) cfg =
     bind_py (field_value E val) (\<lambda>v. read_fields E data (AList.update key v cfg))"

definition handle_config_data :: "'f pyenv \<Rightarrow> field_values \<Rightarrow> 'f cfgd \<Rightarrow> exn + 'f cfgd" where
  "handle_config_data E data st = bind_py (read_fields E data []) (\<lambda>vpp_cfg. config_update vpp_cfg st)"

definition set_handler :: "'f pyenv \<Rightarrow> 'f cfgd set_handler_fun" where
  "set_handler E i key data st =
     (if key \<noteq> py ''vpp'' then Inr (True, st)
      else bind_py (handle_config_data E data st) (\<lambda>st'. Inr (True, st')))"

definition VppCfgMgr_init :: "pystr \<Rightarrow> pystr \<Rightarrow> ('f, 'f cfgd) system \<Rightarrow> ('f, 'f cfgd) system" where
  "VppCfgMgr_init db table S = manager_init [] db table S"

section \<open>The main loop\<close>

type_synonym table_id = "nat \<times> pystr"
type_synonym message = "pystr \<times> pystr \<times> field_values"

datatype select_outcome = TIMEOUT | ERROR | OBJECT "(table_id \<times> message list) list"

record runner =
  run_callbacks :: "table_id \<rightharpoonup> nat list"
  run_subscribers :: "table_id list"

definition runner_init :: runner where
  "runner_init = \<lparr>run_callbacks = Map.empty, run_subscribers = []\<rparr>"

definition add_manager :: "(pystr \<Rightarrow> nat) \<Rightarrow> nat \<Rightarrow> manager \<Rightarrow> runner \<Rightarrow> runner" where
  "add_manager getDbId i m R =
     (let t = (getDbId (db_name m), table_name m) in
      case run_callbacks R t of
        None \<Rightarrow> R\<lparr>run_callbacks := (run_callbacks R)(t \<mapsto> [i]), run_subscribers := run_subscribers R @ [t]\<rparr>
      | Some hs \<Rightarrow> R\<lparr>run_callbacks := (run_callbacks R)(t \<mapsto> hs @ [i])\<rparr>)"

fun call_handlers :: "'f pyenv \<Rightarrow> nat list \<Rightarrow> pystr \<Rightarrow> pystr \<Rightarrow> field_values \<Rightarrow>
    ('f, 'f cfgd) system \<Rightarrow> exn + ('f, 'f cfgd) system" where
  "call_handlers E [] key op data S = Inr S"
| "call_handlers E (i # is) key op data S =
     bind_py (handler (set_handler E) i key op data S) (call_handlers E is key op data)"

text \<open>One subscriber is emptied: until \<^verbatim>\<open>pop\<close> returns an empty key, each message goes to the handlers of its table.\<close>

fun drain :: "'f pyenv \<Rightarrow> nat list \<Rightarrow> message list \<Rightarrow> ('f, 'f cfgd) system \<Rightarrow> exn + ('f, 'f cfgd) system" where
  "drain E hs [] S = Inr S"
| "drain E hs ((key, op, fvs) # ms) S =
     (if key = [] then Inr S
      else bind_py (call_handlers E hs key op (py_dict fvs) S) (drain E hs ms))"

fun drain_all :: "'f pyenv \<Rightarrow> runner \<Rightarrow> (table_id \<times> message list) list \<Rightarrow>
    ('f, 'f cfgd) system \<Rightarrow> exn + ('f, 'f cfgd) system" where
  "drain_all E R [] S = Inr S"
| "drain_all E R ((t, ms) # bs) S =
     bind_py (drain E (case run_callbacks R t of None \<Rightarrow> [] | Some hs \<Rightarrow> hs) ms S) (drain_all E R bs)"

fun runner_run :: "'f pyenv \<Rightarrow> runner \<Rightarrow> select_outcome list \<Rightarrow> ('f, 'f cfgd) system \<Rightarrow> exn option \<times> ('f, 'f cfgd) system" where
  "runner_run E R [] S = (None, S)"
| "runner_run E R (TIMEOUT # os) S = runner_run E R os S"
| "runner_run E R (ERROR # os) S = (Some SelectError, S)"
| "runner_run E R (OBJECT bs # os) S =
     (case drain_all E R bs S of Inl e \<Rightarrow> (Some e, S)
      | Inr S1 \<Rightarrow>
        (case commit E (sys_world S1) of
           (Inl e, st) \<Rightarrow> (Some e, S1\<lparr>sys_world := st\<rparr>)
         | (Inr rc, st) \<Rightarrow> runner_run E R os (S1\<lparr>sys_world := st\<rparr>)))"

section \<open>The program\<close>

definition started :: "'f pyval \<Rightarrow> (string \<rightharpoonup> pystr) \<Rightarrow> ('f, 'f cfgd) system" where
  "started v fs =
     VppCfgMgr_init (py ''STATE_DB'') (py ''PLATFORM'')
       (VppCfgMgr_init (py ''CONFIG_DB'') (py ''PLATFORM'')
         \<lparr>sys_dir = directory_init, sys_mgrs = [], sys_world = ConfigMgr_init v fs\<rparr>)"

definition started_runner :: "(pystr \<Rightarrow> nat) \<Rightarrow> ('f, 'f cfgd) system \<Rightarrow> runner" where
  "started_runner getDbId S = add_manager getDbId 1 (sys_mgrs S ! 1) (add_manager getDbId 0 (sys_mgrs S ! 0) runner_init)"

definition do_work :: "'f pyenv \<Rightarrow> (pystr \<Rightarrow> nat) \<Rightarrow> exn option \<Rightarrow> (string \<rightharpoonup> pystr) \<Rightarrow> select_outcome list \<Rightarrow>
    exn option \<times> (string \<rightharpoonup> pystr)" where
  "do_work E getDbId read_constants fs os =
     (case VppMgr_init E VPP_TEMPLATE fs of Inl e \<Rightarrow> (Some e, fs)
      | Inr v \<Rightarrow>
        (case read_constants of Some e \<Rightarrow> (Some e, fs)
         | None \<Rightarrow>
           (case runner_run E (started_runner getDbId (started v fs)) os (started v fs) of
              (r, S) \<Rightarrow> (r, py_files (sys_world S)))))"

datatype process_end = Exit int | Uncaught exn

definition g_debug :: bool where "g_debug = True"

definition vppcfgd_main :: "'f pyenv \<Rightarrow> (pystr \<Rightarrow> nat) \<Rightarrow> exn option \<Rightarrow> (string \<rightharpoonup> pystr) \<Rightarrow> select_outcome list \<Rightarrow>
    process_end \<times> (string \<rightharpoonup> pystr)" where
  "vppcfgd_main E getDbId read_constants fs os =
     (case do_work E getDbId read_constants fs os of
        (None, fs') \<Rightarrow> (Exit 0, fs')
      | (Some e, fs') \<Rightarrow>
        (if g_debug then Uncaught e else if e = RuntimeError then Exit (- 2) else Exit (- 1), fs'))"

section \<open>What the daemon should do\<close>

text \<open>
  The updates of a batch, in order; their merge; and a run of the daemon as a function on the pair of
  configuration and files. \<open>None\<close> marks the runs that raise.
\<close>

definition vpp_updates :: "message list \<Rightarrow> field_values list" where
  "vpp_updates ms = map (\<lambda>(key, op, fvs). py_dict fvs)
     (filter (\<lambda>(key, op, fvs). key = py ''vpp'' \<and> op = py ''SET'') (takeWhile (\<lambda>(key, op, fvs). key \<noteq> []) ms))"

definition platform_tables :: "(pystr \<Rightarrow> nat) \<Rightarrow> table_id list" where
  "platform_tables getDbId = [(getDbId (py ''CONFIG_DB''), py ''PLATFORM''), (getDbId (py ''STATE_DB''), py ''PLATFORM'')]"

definition batch_updates :: "table_id list \<Rightarrow> (table_id \<times> message list) list \<Rightarrow> field_values list" where
  "batch_updates ts bs = concat (map (\<lambda>(t, ms). if t \<in> set ts then vpp_updates ms else []) bs)"

fun merge_all :: "'f pyenv \<Rightarrow> field_values list \<Rightarrow> 'f pydict \<Rightarrow> 'f pydict option" where
  "merge_all E [] d = Some d"
| "merge_all E (u # us) d =
     (case bind_py (read_fields E u []) (\<lambda>x. deep_update x (PDict d)) of
        Inr (PDict d') \<Rightarrow> merge_all E us d'
      | _ \<Rightarrow> None)"

fun vppcfgd_spec :: "'f pyenv \<Rightarrow> table_id list \<Rightarrow> select_outcome list \<Rightarrow> 'f pydict \<times> (string \<rightharpoonup> pystr) \<Rightarrow>
    ('f pydict \<times> (string \<rightharpoonup> pystr)) option" where
  "vppcfgd_spec E ts [] (d, fs) = Some (d, fs)"
| "vppcfgd_spec E ts (TIMEOUT # os) (d, fs) = vppcfgd_spec E ts os (d, fs)"
| "vppcfgd_spec E ts (ERROR # os) (d, fs) = None"
| "vppcfgd_spec E ts (OBJECT bs # os) (d, fs) =
     (if batch_updates ts bs = [] then None
      else case merge_all E (batch_updates ts bs) d of None \<Rightarrow> None
        | Some d' \<Rightarrow> if shaped d' \<and> output_ready E d' then vppcfgd_spec E ts os (effective E d', written E d' fs) else None)"

definition merged :: "field_values list \<Rightarrow> 'f pydict \<Rightarrow> 'f cfgd \<Rightarrow> 'f cfgd" where
  "merged us d' st = (if us = [] then st
     else st\<lparr>vpp_json_cfg := Some (vpp_config st), py_heap := (py_heap st)(vpp_config st := PDict d')\<rparr>)"

definition no_deps :: "('f, 'w) system \<Rightarrow> nat \<Rightarrow> bool" where
  "no_deps S i = (mgr_deps (sys_mgrs S ! i) = [])"

definition wired_runner :: "runner \<Rightarrow> table_id list \<Rightarrow> ('f, 'w) system \<Rightarrow> bool" where
  "wired_runner R ts S \<longleftrightarrow> (\<forall>t. (t \<in> set ts \<longrightarrow> (\<exists>i. run_callbacks R t = Some [i] \<and> no_deps S i)) \<and>
     (t \<notin> set ts \<longrightarrow> run_callbacks R t = None))"

definition at_rest :: "'f pydict \<Rightarrow> (string \<rightharpoonup> pystr) \<Rightarrow> 'f cfgd \<Rightarrow> bool" where
  "at_rest d fs st \<longleftrightarrow> py_heap st (vpp_config st) = PDict d \<and> py_files st = fs \<and> vpp_json_cfg st = None \<and> vpp_vports_conf st = []"

definition ids_demo :: "pystr \<Rightarrow> nat" where
  "ids_demo db = (if db = py ''CONFIG_DB'' then 4 else 6)"

definition files_demo :: "string \<rightharpoonup> pystr" where
  "files_demo = [VPP_TEMPLATE \<mapsto> json_dump floats_demo (PDict template_demo)]"

definition field_demo :: "unit pyval" where
  "field_demo = PDict [(py ''gid'', PStr (py ''sonic''))]"

definition set_demo :: "select_outcome" where
  "set_demo = OBJECT [((4, py ''PLATFORM''),
     [(py ''vpp'', py ''SET'', [(py ''unix'', replace_char 34 39 (json_dump floats_demo field_demo))])])]"

definition del_demo :: "(table_id \<times> message list) list" where
  "del_demo = [((4, py ''PLATFORM''), [(py ''vpp'', py ''DEL'', [])])]"

definition updated_demo :: "unit pydict" where
  "updated_demo = AList.update (py ''unix'') (PDict [(py ''nodaemon'', PStr []), (py ''gid'', PStr (py ''sonic''))]) template_demo"

section \<open>Lemmas\<close>

interpretation vppcfg: prompt_handler "set_handler E" for E
  by unfold_locales (auto simp: set_handler_def bind_py_Inr split: if_splits)

lemma no_deps_world [simp]: "no_deps (S\<lparr>sys_world := w\<rparr>) i = no_deps S i"
  by (simp add: no_deps_def)

lemma handler_merges:
  assumes "no_deps S i" and "py_heap (sys_world S) (vpp_config (sys_world S)) = PDict d"
    and "merge_all E (vpp_updates [(key, op, fvs)]) d = Some d'" and "key \<noteq> []"
  shows "handler (set_handler E) i key op (py_dict fvs) S =
    Inr (S\<lparr>sys_world := merged (vpp_updates [(key, op, fvs)]) d' (sys_world S)\<rparr>)"
proof (cases "key = py ''vpp'' \<and> op = py ''SET''")
  case True
  then obtain x where x: "read_fields E (py_dict fvs) [] = Inr x" "deep_update x (PDict d) = Inr (PDict d')"
    using assms(3) by (auto simp: vpp_updates_def split: sum.splits pyval.splits)
      (auto simp: bind_py_Inr)
  with True assms(1,2) show ?thesis
    by (simp add: vppcfg.handler_direct no_deps_def set_handler_def handle_config_data_def config_update_def Let_def
        merged_def vpp_updates_def)
next
  case False
  then show ?thesis
    using assms(1) by (auto simp: vppcfg.handler_direct no_deps_def set_handler_def merged_def vpp_updates_def)
qed

lemma vpp_updates_Cons:
  "vpp_updates ((key, op, fvs) # ms) = (if key = [] then [] else vpp_updates [(key, op, fvs)] @ vpp_updates ms)"
  by (simp add: vpp_updates_def)

lemma merge_all_append:
  "merge_all E (us @ vs) d = Some d' \<longleftrightarrow> (\<exists>d1. merge_all E us d = Some d1 \<and> merge_all E vs d1 = Some d')"
  by (induction us arbitrary: d) (auto split: sum.splits pyval.splits)

lemma merged_merged:
  "vs = [] \<longrightarrow> d' = d1 \<Longrightarrow> merged vs d' (merged us d1 st) = merged (us @ vs) d' st"
  by (auto simp: merged_def)

lemma merged_config [simp]: "vpp_config (merged us d st) = vpp_config st"
  "us = [] \<longrightarrow> py_heap st (vpp_config st) = PDict d \<Longrightarrow> py_heap (merged us d st) (vpp_config st) = PDict d"
  by (auto simp: merged_def)

lemma drain_merges:
  assumes "no_deps S i" and "py_heap (sys_world S) (vpp_config (sys_world S)) = PDict d"
    and "merge_all E (vpp_updates ms) d = Some d'"
  shows "drain E [i] ms S = Inr (S\<lparr>sys_world := merged (vpp_updates ms) d' (sys_world S)\<rparr>)"
  using assms
proof (induction ms arbitrary: S d)
  case Nil
  then show ?case by (simp add: merged_def vpp_updates_def)
next
  case (Cons m ms)
  obtain key op fvs where m: "m = (key, op, fvs)" by (cases m) auto
  show ?case
  proof (cases "key = []")
    case False
    let ?u = "vpp_updates [(key, op, fvs)]"
    obtain d1 where d1: "merge_all E ?u d = Some d1" "merge_all E (vpp_updates ms) d1 = Some d'"
      using Cons.prems(3) False m vpp_updates_Cons [of key op fvs ms] by (auto simp: merge_all_append)
    let ?S = "S\<lparr>sys_world := merged ?u d1 (sys_world S)\<rparr>"
    have "?u = [] \<longrightarrow> d1 = d" "vpp_updates ms = [] \<longrightarrow> d' = d1" using d1 by auto
    then have heap: "py_heap (sys_world ?S) (vpp_config (sys_world ?S)) = PDict d1" using Cons.prems(2) by simp
    show ?thesis
      using handler_merges [OF Cons.prems(1,2) d1(1) False] Cons.IH [OF _ heap d1(2)] Cons.prems(1) False
        merged_merged [OF \<open>vpp_updates ms = [] \<longrightarrow> d' = d1\<close>, of ?u "sys_world S"]
      by (simp add: m vpp_updates_Cons [of key op fvs ms])
  qed (use Cons.prems m in \<open>simp add: merged_def vpp_updates_def\<close>)
qed

lemma wired_runner_world [simp]: "wired_runner R ts (S\<lparr>sys_world := w\<rparr>) = wired_runner R ts S"
  by (simp add: wired_runner_def)

lemma drain_nobody: "drain E [] ms S = Inr S"
  by (induction ms) auto

lemma drain_all_merges:
  assumes "wired_runner R ts S" and "py_heap (sys_world S) (vpp_config (sys_world S)) = PDict d"
    and "merge_all E (batch_updates ts bs) d = Some d'"
  shows "drain_all E R bs S = Inr (S\<lparr>sys_world := merged (batch_updates ts bs) d' (sys_world S)\<rparr>)"
  using assms
proof (induction bs arbitrary: S d)
  case (Cons b bs)
  obtain t ms where b: "b = (t, ms)" by fastforce
  let ?u = "if t \<in> set ts then vpp_updates ms else []"
  have ups: "batch_updates ts (b # bs) = ?u @ batch_updates ts bs" by (simp add: batch_updates_def b)
  then obtain d1 where d1: "merge_all E ?u d = Some d1" "merge_all E (batch_updates ts bs) d1 = Some d'"
    using Cons.prems(3) merge_all_append by metis
  then have same: "?u = [] \<longrightarrow> d1 = d" "batch_updates ts bs = [] \<longrightarrow> d' = d1" by (cases ?u; auto)+
  let ?S = "S\<lparr>sys_world := merged ?u d1 (sys_world S)\<rparr>"
  have "drain E (case run_callbacks R t of None \<Rightarrow> [] | Some hs \<Rightarrow> hs) ms S = Inr ?S"
  proof (cases "t \<in> set ts")
    case True
    then obtain i where "run_callbacks R t = Some [i]" "no_deps S i" using Cons.prems(1) unfolding wired_runner_def by blast
    then show ?thesis using drain_merges [OF _ Cons.prems(2)] d1(1) True by simp
  next
    case False
    then have "run_callbacks R t = None" using Cons.prems(1) unfolding wired_runner_def by blast
    then show ?thesis using False by (simp add: drain_nobody merged_def)
  qed
  moreover have "py_heap (sys_world ?S) (vpp_config (sys_world ?S)) = PDict d1" using Cons.prems(2) same(1) by simp
  ultimately show ?case
    using Cons.IH [of ?S d1] Cons.prems(1) d1(2) merged_merged [OF same(2), of ?u "sys_world S"] ups b by simp
qed (simp add: merged_def batch_updates_def)

lemma runner_refines:
  assumes "wired_runner R ts S" and "at_rest d fs (sys_world S)"
    and "vppcfgd_spec E ts os (d, fs) = Some (d', fs')"
  shows "\<exists>S'. runner_run E R (os @ os2) S = runner_run E R os2 S' \<and> wired_runner R ts S' \<and> at_rest d' fs' (sys_world S')"
  using assms
proof (induction os arbitrary: S d fs)
  case (Cons out os)
  show ?case
  proof (cases out)
    case (OBJECT bs)
    let ?us = "batch_updates ts bs"
    obtain d1 where d1: "?us \<noteq> []" "merge_all E ?us d = Some d1" "shaped d1" "output_ready E d1"
      and rest: "vppcfgd_spec E ts os (effective E d1, written E d1 fs) = Some (d', fs')"
      using Cons.prems(3) OBJECT by (auto split: if_splits option.splits)
    let ?st = "merged ?us d1 (sys_world S)"
    have dr: "drain_all E R bs S = Inr (S\<lparr>sys_world := ?st\<rparr>)"
      using drain_all_merges [OF Cons.prems(1) _ d1(2)] Cons.prems(2) by (simp add: at_rest_def)
    have st: "vpp_json_cfg ?st = Some (vpp_config ?st)" "py_heap ?st (vpp_config ?st) = PDict d1" "vpp_vports_conf ?st = []"
      "py_files ?st = fs"
      using d1(1) Cons.prems(2) by (simp_all add: merged_def at_rest_def)
    obtain st2 where c: "commit E ?st = (Inr True, st2)" and st2: "at_rest (effective E d1) (written E d1 fs) st2"
      using commit_eq [OF st(1-3) d1(3,4)] st(4) by (simp add: at_rest_def)
    then show ?thesis
      using Cons.IH [of "S\<lparr>sys_world := st2\<rparr>", OF _ _ rest] Cons.prems(1) dr OBJECT by simp
  qed (use Cons in simp_all)
qed auto

lemma commit_nothing: "vpp_json_cfg st = None \<Longrightarrow> commit E st = (Inl TypeError, st)"
  by (simp add: commit_def commit_config_def vpp_vports_config_def cfg_value_def)

lemma started_ready:
  assumes "getDbId (py ''CONFIG_DB'') \<noteq> getDbId (py ''STATE_DB'')"
  shows "wired_runner (started_runner getDbId (started (PDict d) fs)) (platform_tables getDbId) (started (PDict d) fs)"
    and "at_rest d fs (sys_world (started (PDict d) fs))"
proof -
  let ?S = "started (PDict d) fs"
  have "run_callbacks (started_runner getDbId ?S) =
      [(getDbId (py ''CONFIG_DB''), py ''PLATFORM'') \<mapsto> [0], (getDbId (py ''STATE_DB''), py ''PLATFORM'') \<mapsto> [1]]"
    using assms by (simp add: started_runner_def started_def VppCfgMgr_init_def manager_init_def add_manager_def
        runner_init_def Let_def)
  moreover have "no_deps ?S 0" "no_deps ?S 1"
    by (simp_all add: no_deps_def started_def VppCfgMgr_init_def manager_init_def)
  ultimately show "wired_runner (started_runner getDbId ?S) (platform_tables getDbId) ?S"
    using assms by (auto simp: wired_runner_def platform_tables_def)
  show "at_rest d fs (sys_world ?S)"
    by (simp add: started_def VppCfgMgr_init_def manager_init_def at_rest_def ConfigMgr_init_def)
qed

lemma main_runs:
  assumes "VppMgr_init E VPP_TEMPLATE fs = Inr (PDict d)" and "getDbId (py ''CONFIG_DB'') \<noteq> getDbId (py ''STATE_DB'')"
    and "vppcfgd_spec E (platform_tables getDbId) os (d, fs) = Some (d', fs')"
  obtains R S where "wired_runner R (platform_tables getDbId) S" and "at_rest d' fs' (sys_world S)"
    and "vppcfgd_main E getDbId None fs (os @ os2) =
      (case runner_run E R os2 S of (None, S') \<Rightarrow> (Exit 0, py_files (sys_world S'))
       | (Some e, S') \<Rightarrow> (Uncaught e, py_files (sys_world S')))"
proof -
  let ?S = "started (PDict d) fs"
  obtain S' where "runner_run E (started_runner getDbId ?S) (os @ os2) ?S = runner_run E (started_runner getDbId ?S) os2 S'"
    "wired_runner (started_runner getDbId ?S) (platform_tables getDbId) S'" "at_rest d' fs' (sys_world S')"
    using runner_refines [OF started_ready [OF assms(2)] assms(3)] by blast
  then show thesis
    using assms(1) by (intro that [of "started_runner getDbId ?S" S'])
      (auto simp: vppcfgd_main_def do_work_def g_debug_def split: prod.splits option.splits)
qed

text \<open>C12: The daemon implements its specification. Started on a template and fed with batches of database
  events, each with at least one update of the entry \<^verbatim>\<open>vpp\<close> that parses, merges and renders, it merges the
  updates in the order they arrive, whichever of the two databases they come from, commits once per batch,
  goes on with the configuration the last commit left, ignores time-outs, and ends with exit code 0 when
  it is told to stop, with the files of the last commit on disk.\<close>

theorem vppcfgd_applies_updates:
  assumes "VppMgr_init E VPP_TEMPLATE fs = Inr (PDict d)" and "getDbId (py ''CONFIG_DB'') \<noteq> getDbId (py ''STATE_DB'')"
    and "vppcfgd_spec E (platform_tables getDbId) os (d, fs) = Some (d', fs')"
  shows "vppcfgd_main E getDbId None fs os = (Exit 0, fs')"
proof -
  obtain R S where "at_rest d' fs' (sys_world S)"
    "vppcfgd_main E getDbId None fs (os @ []) =
      (case runner_run E R [] S of (None, S') \<Rightarrow> (Exit 0, py_files (sys_world S'))
       | (Some e, S') \<Rightarrow> (Uncaught e, py_files (sys_world S')))"
    using main_runs [OF assms, of "[]"] by blast
  then show ?thesis by (simp add: at_rest_def)
qed

text \<open>
  A batch of events with no update of the entry \<^verbatim>\<open>vpp\<close>, such as its removal or the update of any
  other entry of the table, ends the daemon with an uncaught TypeError: the commit that follows every batch
  finds no configuration. The files stay as the last commit left them.\<close>

theorem vppcfgd_dies_without_update:
  assumes "VppMgr_init E VPP_TEMPLATE fs = Inr (PDict d)" and "getDbId (py ''CONFIG_DB'') \<noteq> getDbId (py ''STATE_DB'')"
    and "vppcfgd_spec E (platform_tables getDbId) os (d, fs) = Some (d', fs')"
    and "batch_updates (platform_tables getDbId) bs = []"
  shows "vppcfgd_main E getDbId None fs (os @ OBJECT bs # os2) = (Uncaught TypeError, fs')"
proof -
  obtain R S where S: "wired_runner R (platform_tables getDbId) S" "at_rest d' fs' (sys_world S)"
    "vppcfgd_main E getDbId None fs (os @ OBJECT bs # os2) =
      (case runner_run E R (OBJECT bs # os2) S of (None, S') \<Rightarrow> (Exit 0, py_files (sys_world S'))
       | (Some e, S') \<Rightarrow> (Uncaught e, py_files (sys_world S')))"
    using main_runs [OF assms(1-3), of "OBJECT bs # os2"] by blast
  have "drain_all E R bs S = Inr S"
    using drain_all_merges [OF S(1), of d' E bs d'] S(2) assms(4) by (simp add: at_rest_def merged_def)
  then show ?thesis using S(2,3) commit_nothing [of "sys_world S" E] by (simp add: at_rest_def)
qed

lemma field_demo_read: "field_value env_demo (replace_char 34 39 (json_dump floats_demo field_demo)) = Inr field_demo"
proof -
  have "json_loads floats_demo (json_dump floats_demo field_demo) = Inr field_demo"
    by (rule json_roundtrip) (simp_all add: floats_demo_ok field_demo_def py_json_text)
  moreover have "replace_char 39 34 (replace_char 34 39 (json_dump floats_demo field_demo)) = json_dump floats_demo field_demo"
    by (simp add: replace_char_def json_dump_def field_demo_def json_newline_def json_quote_def escape_char_def py_def)
  ultimately show ?thesis by (simp add: field_value_def env_demo_def)
qed

lemma updated_demo_ok:
  "shaped updated_demo" "output_ready env_demo updated_demo"
proof -
  show "shaped updated_demo" by (simp add: demo_eval updated_demo_def)
  have "effective env_demo updated_demo =
      [(py ''unix'', PDict [(py ''nodaemon'', PStr []), (py ''gid'', PStr (py ''sonic''))]),
       (py ''plugins'', PDict [(py ''plugin'', PDict [(py ''dpdk_plugin.so'', PStr (py ''disable''))])])]"
    by (simp add: effective_def dpdk_unused_def dpdk_off_def plugin_off_def getenv_is_y_def env_demo_def demo_eval updated_demo_def)
  then show "output_ready env_demo updated_demo"
    by (simp add: output_ready_def floats_demo_ok env_demo_def)
      (simp add: floats_demo_def demo_eval updated_demo_def render_eval)
qed

lemma spec_demo:
  "VppMgr_init env_demo VPP_TEMPLATE files_demo = Inr (PDict template_demo)"
  "ids_demo (py ''CONFIG_DB'') \<noteq> ids_demo (py ''STATE_DB'')"
  "vppcfgd_spec env_demo (platform_tables ids_demo) [TIMEOUT, set_demo] (template_demo, files_demo) =
    Some (effective env_demo updated_demo, written env_demo updated_demo files_demo)"
proof -
  show "VppMgr_init env_demo VPP_TEMPLATE files_demo = Inr (PDict template_demo)"
    using json_roundtrip [OF floats_demo_ok template_demo_ok(1,2)] by (simp add: VppMgr_init_def files_demo_def env_demo_def)
  show "ids_demo (py ''CONFIG_DB'') \<noteq> ids_demo (py ''STATE_DB'')" by (simp add: ids_demo_def)
  have "batch_updates (platform_tables ids_demo) (case set_demo of OBJECT bs \<Rightarrow> bs) =
      [[(py ''unix'', replace_char 34 39 (json_dump floats_demo field_demo))]]"
    by (simp add: batch_updates_def platform_tables_def ids_demo_def set_demo_def vpp_updates_def py_dict_def)
  moreover have "merge_all env_demo [[(py ''unix'', replace_char 34 39 (json_dump floats_demo field_demo))]] template_demo = Some updated_demo"
    by (simp add: field_demo_read) (simp add: field_demo_def template_demo_def updated_demo_def)
  ultimately show "vppcfgd_spec env_demo (platform_tables ids_demo) [TIMEOUT, set_demo] (template_demo, files_demo) =
    Some (effective env_demo updated_demo, written env_demo updated_demo files_demo)"
    using updated_demo_ok by (simp add: set_demo_def)
qed

theorem vppcfgd_applies_updates_witness:
  "vppcfgd_main env_demo ids_demo None files_demo [TIMEOUT, set_demo] = (Exit 0, written env_demo updated_demo files_demo)"
  by (rule vppcfgd_applies_updates [OF spec_demo])

theorem vppcfgd_dies_without_update_witness:
  "vppcfgd_main env_demo ids_demo None files_demo [TIMEOUT, set_demo, OBJECT del_demo] =
     (Uncaught TypeError, written env_demo updated_demo files_demo)"
proof -
  have "batch_updates (platform_tables ids_demo) del_demo = []"
    by (simp add: batch_updates_def del_demo_def vpp_updates_def)
  from vppcfgd_dies_without_update [OF spec_demo this, of "[]"] show ?thesis by simp
qed

end
