(* ===== verification/Vppcfg_Load.thy ===== *)
theory Vppcfg_Load
  imports Vppcfg_Commit
begin

text \<open>
  The script \<^verbatim>\<open>vppcfg_load.py\<close>, which runs before the daemon and loads the port configuration into the
  configuration database. The environment is the same argument as the daemon's; whether a port is a virtual
  Ethernet interface, which the script asks the command \<^verbatim>\<open>ip link\<close>, is the argument \<open>is_veth\<close>. The result is
  the text that is handed to \<^verbatim>\<open>config load\<close>, or \<open>None\<close> when the script exits at once.
\<close>

section \<open>The script\<close>

fun sort_ports :: "(pystr \<Rightarrow> bool) \<Rightarrow> pystr list \<Rightarrow> nat \<Rightarrow> 'f pydict \<times> 'f pydict \<Rightarrow> 'f pydict \<times> 'f pydict" where
  "sort_ports is_veth [] index (vports, dpdk_ports) = (vports, dpdk_ports)"
| "sort_ports is_veth (port # ports) index (vports, dpdk_ports) =
     (if is_veth port then sort_ports is_veth ports index (AList.update port (PStr []) vports, dpdk_ports)
      else sort_ports is_veth ports (Suc index)
        (vports, AList.update port (PDict [(py ''name'', PStr (py ''bobm'' @ dec_digits index))]) dpdk_ports))"

definition vpp_section :: "'f pydict \<times> 'f pydict \<Rightarrow> 'f pydict" where
  "vpp_section = (\<lambda>(vports, dpdk_ports).
     (if vports \<noteq> [] then [(py ''vports'', PDict vports)] else []) @
     (if dpdk_ports \<noteq> [] then [(py ''dpdk'', PDict [(py ''dev'', PDict dpdk_ports)])] else []))"

definition port_list :: "'f pyenv \<Rightarrow> pystr list" where
  "port_list E = split_char 44 (case py_getenv E ''VPP_DPDK_PORTS'' of None \<Rightarrow> [] | Some s \<Rightarrow> s)"

definition load_config :: "'f pyenv \<Rightarrow> (pystr \<Rightarrow> bool) \<Rightarrow> pystr option" where
  "load_config E is_veth =
     (if py_getenv E ''VPP_CONF_DB'' \<noteq> Some (py ''y'') then None
      else Some (json_dump (py_floats E)
        (PDict [(py ''PLATFORM'', PDict [(py ''vpp'', PDict (vpp_section (sort_ports is_veth (port_list E) 0 ([], []))))])])))"

section \<open>What it should write\<close>

definition virtual_ports :: "(pystr \<Rightarrow> bool) \<Rightarrow> pystr list \<Rightarrow> 'f pydict" where
  "virtual_ports is_veth ports = map (\<lambda>p. (p, PStr [])) (filter is_veth ports)"

definition dpdk_device :: "nat \<Rightarrow> 'f pyval" where
  "dpdk_device i = PDict [(py ''name'', PStr (py ''bobm'' @ dec_digits i))]"

fun dpdk_devices :: "pystr list \<Rightarrow> nat \<Rightarrow> 'f pydict" where
  "dpdk_devices [] i = []"
| "dpdk_devices (dev # devs) i = (dev, dpdk_device i) # dpdk_devices devs (Suc i)"

definition dpdk_ports_of :: "(pystr \<Rightarrow> bool) \<Rightarrow> pystr list \<Rightarrow> pystr list" where
  "dpdk_ports_of is_veth ports = filter (\<lambda>p. \<not> is_veth p) ports"

definition load_env_demo :: "unit pyenv" where
  "load_env_demo = env_demo\<lparr>py_getenv := [''VPP_CONF_DB'' \<mapsto> py ''y'', ''VPP_DPDK_PORTS'' \<mapsto> py ''eth1,eth2'']\<rparr>"

section \<open>Lemmas\<close>

lemma update_fresh: "k \<notin> fst ` set d \<Longrightarrow> AList.update k v d = d @ [(k, v)]"
  by (induction d) auto

lemma sort_ports_eq:
  "distinct ports \<Longrightarrow> set ports \<inter> fst ` set v = {} \<Longrightarrow> set ports \<inter> fst ` set d = {} \<Longrightarrow>
    sort_ports is_veth ports i (v, d) = (v @ virtual_ports is_veth ports, d @ dpdk_devices (dpdk_ports_of is_veth ports) i)"
proof (induction ports arbitrary: i v d)
  case Nil
  then show ?case by (simp add: virtual_ports_def dpdk_ports_of_def)
next
  case (Cons p ps)
  then show ?case
    by (cases "is_veth p")
      (simp_all add: update_fresh virtual_ports_def dpdk_ports_of_def dpdk_device_def [symmetric] Cons.IH)
qed

lemma devices_keys: "map fst (dpdk_devices devs i) = devs"
  by (induction devs arbitrary: i) simp_all

lemma devices_Nil: "dpdk_devices devs i = [] \<longleftrightarrow> devs = []"
  by (cases devs) simp_all

lemma devices_lookup:
  "distinct devs \<Longrightarrow> j < length devs \<Longrightarrow> map_of (dpdk_devices devs i) (devs ! j) = Some (dpdk_device (i + j))"
proof (induction devs arbitrary: i j)
  case (Cons dev devs)
  then show ?case by (cases j) auto
qed simp

lemma devices_absent: "p \<notin> set devs \<Longrightarrow> map_of (dpdk_devices devs i) p = None"
  by (induction devs arbitrary: i) auto

lemma dec_digits_text: "json_text (py ''bobm'' @ dec_digits i)"
  using dec_digits_shape [of i] by (intro small_text) (auto simp: py_def digits_def is_digit_def list_all_iff)

lemma devices_plain:
  "list_all json_text devs \<Longrightarrow> list_all (\<lambda>p. json_text (fst p) \<and> json_plain (snd p)) (dpdk_devices devs i)"
  "list_all (\<lambda>p. wf_val (snd p)) (dpdk_devices devs i)"
  by (induction devs arbitrary: i) (simp_all add: dpdk_device_def dec_digits_text py_json_text)

lemma virtual_ports_plain:
  "list_all json_text ports \<Longrightarrow> list_all (\<lambda>p. json_text (fst p) \<and> json_plain (snd p)) (virtual_ports is_veth ports)"
  "list_all (\<lambda>p. wf_val (snd p)) (virtual_ports is_veth ports)"
  "map fst (virtual_ports is_veth ports) = filter is_veth ports"
  using py_json_text [of "[]"] by (auto simp: virtual_ports_def list_all_iff json_text_def [of "[]"] comp_def)

lemma vports_lookup: "map_of (virtual_ports is_veth ports) p = (if p \<in> set ports \<and> is_veth p then Some (PStr []) else None)"
  by (induction ports) (auto simp: virtual_ports_def)

text \<open>The loader script writes a configuration that reads back with every listed port in its place: a
  virtual Ethernet port among the virtual ports, any other one as a DPDK device named by its rank among
  the devices, and nothing that is not listed.\<close>

theorem load_config_correct:
  fixes E :: "'f pyenv"
  assumes "py_getenv E ''VPP_CONF_DB'' = Some (py ''y'')" and "distinct (port_list E)"
    and "list_all json_text (port_list E)" and "float_ok (py_floats E)"
  shows "\<exists>text cfg. load_config E is_veth = Some text \<and>
    json_loads (py_floats E) text = Inr (PDict [(py ''PLATFORM'', PDict [(py ''vpp'', PDict cfg)])]) \<and>
    (\<forall>p. val_at (PDict cfg) [py ''vports'', p] = (if p \<in> set (port_list E) \<and> is_veth p then Some (PStr []) else None)) \<and>
    (let devs = dpdk_ports_of is_veth (port_list E) in
      (\<forall>i<length devs. val_at (PDict cfg) [py ''dpdk'', py ''dev'', devs ! i, py ''name''] =
         Some (PStr (py ''bobm'' @ dec_digits i))) \<and>
      (\<forall>p. p \<notin> set devs \<longrightarrow> val_at (PDict cfg) [py ''dpdk'', py ''dev'', p] = None))"
proof -
  let ?devs = "dpdk_ports_of is_veth (port_list E)"
  let ?v = "virtual_ports is_veth (port_list E) :: 'f pydict" and ?d = "dpdk_devices ?devs 0 :: 'f pydict"
  let ?cfg = "vpp_section (?v, ?d)"
  let ?all = "PDict [(py ''PLATFORM'', PDict [(py ''vpp'', PDict ?cfg)])]"
  have devs: "distinct ?devs" "list_all json_text ?devs"
    using assms(2,3) by (auto simp: dpdk_ports_of_def list_all_iff)
  have "wf_val ?all" "json_plain ?all"
    using assms(2,3) devs
    by (auto simp: vpp_section_def devices_keys py_json_text virtual_ports_plain devices_plain)
  then have "json_loads (py_floats E) (json_dump (py_floats E) ?all) = Inr ?all"
    by (rule json_roundtrip [OF assms(4)])
  moreover have "load_config E is_veth = Some (json_dump (py_floats E) ?all)"
    using assms(1,2) by (simp add: load_config_def sort_ports_eq)
  moreover have "val_at (PDict ?cfg) [py ''vports'', p] = map_of ?v p"
    "val_at (PDict ?cfg) [py ''dpdk'', py ''dev'', p] = map_of ?d p" for p
    by (simp_all add: vpp_section_def split: option.split)
  moreover have "val_at (PDict ?cfg) [py ''dpdk'', py ''dev'', ?devs ! i, py ''name''] = Some (PStr (py ''bobm'' @ dec_digits i))"
    if "i < length ?devs" for i
    using that by (auto simp: vpp_section_def devices_lookup [OF devs(1) that] devices_Nil dpdk_device_def)
  ultimately show ?thesis
    by (intro exI [of _ "json_dump (py_floats E) ?all"] exI [of _ ?cfg])
      (simp add: vports_lookup devices_absent Let_def del: val_at.simps)
qed

theorem load_config_correct_witness:
  "\<exists>text cfg. load_config load_env_demo (\<lambda>p. p = py ''eth1'') = Some text \<and>
     json_loads floats_demo text = Inr (PDict [(py ''PLATFORM'', PDict [(py ''vpp'', PDict cfg)])]) \<and>
     val_at (PDict cfg) [py ''vports'', py ''eth1''] = Some (PStr []) \<and>
     val_at (PDict cfg) [py ''dpdk'', py ''dev'', py ''eth2'', py ''name''] = Some (PStr (py ''bobm0''))"
proof -
  have ports: "port_list load_env_demo = [py ''eth1'', py ''eth2'']"
    by (simp add: port_list_def load_env_demo_def py_def)
  have env: "py_getenv load_env_demo ''VPP_CONF_DB'' = Some (py ''y'')" "py_floats load_env_demo = floats_demo"
    by (simp_all add: load_env_demo_def env_demo_def)
  have devs: "dpdk_ports_of (\<lambda>p. p = py ''eth1'') [py ''eth1'', py ''eth2''] = [py ''eth2'']"
    by (simp add: dpdk_ports_of_def)
  have hyp: "distinct (port_list load_env_demo)" "list_all json_text (port_list load_env_demo)"
    by (simp_all add: ports py_json_text)
  have zero: "py ''bobm'' @ dec_digits 0 = py ''bobm0''" by (simp add: py_def dec_digits.simps)
  obtain t cfg where cfg: "load_config load_env_demo (\<lambda>p. p = py ''eth1'') = Some t"
    "json_loads floats_demo t = Inr (PDict [(py ''PLATFORM'', PDict [(py ''vpp'', PDict cfg)])])"
    and vports: "\<forall>p. val_at (PDict cfg) [py ''vports'', p] =
      (if p \<in> set [py ''eth1'', py ''eth2''] \<and> p = py ''eth1'' then Some (PStr []) else None)"
    and dev: "\<forall>i<length [py ''eth2'']. val_at (PDict cfg) [py ''dpdk'', py ''dev'', [py ''eth2''] ! i, py ''name''] =
      Some (PStr (py ''bobm'' @ dec_digits i))"
    using load_config_correct [OF env(1) hyp, of "\<lambda>p. p = py ''eth1''"] floats_demo_ok
    unfolding Let_def env(2) ports devs by blast
  then show ?thesis
    using vports [rule_format, of "py ''eth1''"] dev [rule_format, of 0] zero
    by (intro exI [of _ t] exI [of _ cfg]) (simp del: val_at.simps)
qed

text \<open>When the variable with the ports is not set, the script still configures one device, whose name is empty.\<close>

lemma load_config_without_ports:
  assumes "py_getenv E ''VPP_DPDK_PORTS'' = None" and "\<not> is_veth []"
  shows "sort_ports is_veth (port_list E) 0 ([], []) = ([], [([], dpdk_device 0)])"
  using assms by (simp add: port_list_def dpdk_device_def)

end
