(* ===== verification/Inner_Hash.thy ===== *)
theory Inner_Hash
  imports Prelude
begin

text \<open>
  The header search of the inner-aware flow hash: the new file \<^verbatim>\<open>src/vnet/ip/ip_inner_aware_hash.h\<close> of patch 0011, and the
  LAG hash of \<^verbatim>\<open>hash_eth.c\<close> in the same patch that rests on it.

  A pointer is an offset into the memory of the packet; the descriptor with \<^verbatim>\<open>valid\<close> unset is \<open>None\<close>. The inline helpers
  and hash functions of VPP that the patch calls are fields of \<open>inner_api\<close>. The lemmas show that nothing outside
  the given bound is read, and that an encapsulated packet is found whatever the encapsulation.
\<close>

section \<open>Numbers of the protocols\<close>

abbreviation "IP_PROTOCOL_IP6_HOP_BY_HOP_OPTIONS \<equiv> 0 :: u8"
abbreviation "IP_PROTOCOL_IP_IN_IP \<equiv> 4 :: u8"
abbreviation "IP_PROTOCOL_TCP \<equiv> 6 :: u8"
abbreviation "IP_PROTOCOL_UDP \<equiv> 17 :: u8"
abbreviation "IP_PROTOCOL_IPV6 \<equiv> 41 :: u8"
abbreviation "IP_PROTOCOL_IPV6_ROUTE \<equiv> 43 :: u8"
abbreviation "IP_PROTOCOL_IPV6_FRAGMENTATION \<equiv> 44 :: u8"
abbreviation "IP_PROTOCOL_GRE \<equiv> 47 :: u8"
abbreviation "IP_PROTOCOL_IPSEC_ESP \<equiv> 50 :: u8"
abbreviation "IP_PROTOCOL_IPSEC_AH \<equiv> 51 :: u8"
abbreviation "IP_PROTOCOL_IP6_DESTINATION_OPTIONS \<equiv> 60 :: u8"
abbreviation "GRE_FLAGS_CHECKSUM \<equiv> 0x8000 :: u16"
abbreviation "GRE_FLAGS_KEY \<equiv> 0x2000 :: u16"
abbreviation "GRE_FLAGS_SEQUENCE \<equiv> 0x1000 :: u16"
abbreviation "GRE_PROTOCOL_ip4 \<equiv> 0x0800 :: u16"
abbreviation "GRE_PROTOCOL_ip6 \<equiv> 0x86DD :: u16"
abbreviation "GRE_PROTOCOL_teb \<equiv> 0x6558 :: u16"
abbreviation "ETHERNET_TYPE_IP4 \<equiv> 0x0800 :: u16"
abbreviation "ETHERNET_TYPE_IP6 \<equiv> 0x86DD :: u16"

section \<open>VPP\<close>

record inner_api =
  ip4_is_fragment :: "mem \<Rightarrow> int \<Rightarrow> bool"
  ip4_header_bytes :: "mem \<Rightarrow> int \<Rightarrow> u32"
  locate_ethertype :: "mem \<Rightarrow> int \<Rightarrow> int"
  hash_eth_l2 :: "mem \<Rightarrow> int \<Rightarrow> u32"
  lb_hash_hash :: "u64 \<Rightarrow> u64 \<Rightarrow> u64 \<Rightarrow> u64 \<Rightarrow> u64 \<Rightarrow> u32"
  lb_hash_hash_2_tuples :: "u64 \<Rightarrow> u32 \<Rightarrow> u32"

section \<open>Finding the inner header\<close>

record ip_inner_hdr =
  inner_ip :: int
  inner_l4 :: int
  inner_protocol :: u8
  inner_is_v6 :: bool

definition IP_INNER_L4_MIN_BYTES :: u32 where "IP_INNER_L4_MIN_BYTES = 8"

text \<open>Result: the protocol, or 0 for a failure; the pointer and the bytes left.\<close>

function ip_inner_v6_walk_ext_headers :: "mem \<Rightarrow> int \<Rightarrow> u32 \<Rightarrow> u8 \<Rightarrow> u8 \<times> int \<times> u32" where
  "ip_inner_v6_walk_ext_headers m pp remaining protocol =
     (if protocol = IP_PROTOCOL_IP6_HOP_BY_HOP_OPTIONS \<or> protocol = IP_PROTOCOL_IPV6_ROUTE \<or>
         protocol = IP_PROTOCOL_IP6_DESTINATION_OPTIONS
      then if remaining < 2 then (0, pp, remaining)
           else let eh_len = (ucast (m (pp + 1)) + 1) * 8
                in if remaining < eh_len then (0, pp, remaining)
                   else ip_inner_v6_walk_ext_headers m (pp + int (unat eh_len)) (remaining - eh_len) (m pp)
      else if protocol = IP_PROTOCOL_IPV6_FRAGMENTATION \<or> protocol = IP_PROTOCOL_IPSEC_ESP \<or>
         protocol = IP_PROTOCOL_IPSEC_AH
      then (0, pp, remaining)
      else (protocol, pp, remaining))"
  by pat_completeness auto

termination
proof (relation "measure (\<lambda>(m, pp, remaining, protocol). unat remaining)", goal_cases)
  case (2 m pp remaining protocol eh_len)
  have "unat (ucast (m (pp + 1)) :: u32) < 256"
    using unsigned_less [where ?'a = nat, of "m (pp + 1)"] by (simp add: unsigned_ucast_eq take_bit_nat_eq_self)
  then have "unat eh_len = 8 * (unat (ucast (m (pp + 1)) :: u32) + 1)"
    unfolding 2(3) by (simp add: unat_word_ariths)
  moreover have "unat eh_len \<le> unat remaining" using 2(4) by (simp add: not_less word_le_nat_alt)
  ultimately show ?case by (simp add: unat_sub word_le_nat_alt)
qed simp

definition ip_inner_resolve_v4 :: "inner_api \<Rightarrow> mem \<Rightarrow> int \<Rightarrow> u32 \<Rightarrow> ip_inner_hdr option" where
  "ip_inner_resolve_v4 A m payload remaining =
     (if remaining < 20 + IP_INNER_L4_MIN_BYTES then None
      else if drop_bit 4 (m payload) \<noteq> 4 then None
      else if ip4_is_fragment A m payload then None
      else Some \<lparr>inner_ip = payload, inner_l4 = payload + 20, inner_protocol = m (payload + 9), inner_is_v6 = False\<rparr>)"

definition ip_inner_resolve_v6 :: "mem \<Rightarrow> int \<Rightarrow> u32 \<Rightarrow> ip_inner_hdr option" where
  "ip_inner_resolve_v6 m payload remaining =
     (if remaining < 40 + IP_INNER_L4_MIN_BYTES then None
      else if drop_bit 4 (load_u32 m payload) AND 0xf \<noteq> 6 then None
      else let (protocol, cur, left) =
             ip_inner_v6_walk_ext_headers m (payload + 40) (remaining - 40) (m (payload + 6))
           in if protocol = 0 \<or> left < IP_INNER_L4_MIN_BYTES then None
              else Some \<lparr>inner_ip = payload, inner_l4 = cur, inner_protocol = protocol, inner_is_v6 = True\<rparr>)"

text \<open>Result: the GRE protocol and the bytes consumed.\<close>

definition ip_inner_gre_skip_optional_fields :: "mem \<Rightarrow> int \<Rightarrow> u32 \<Rightarrow> (u16 \<times> u32) option" where
  "ip_inner_gre_skip_optional_fields m gre remaining =
     (if remaining < 4 then None
      else let gre_flags = clib_net_to_host_u16 (load_u16 m gre);
               hdr_len = 4 + (if gre_flags AND GRE_FLAGS_CHECKSUM \<noteq> 0 then 4 else 0) +
                 (if gre_flags AND GRE_FLAGS_KEY \<noteq> 0 then 4 else 0) +
                 (if gre_flags AND GRE_FLAGS_SEQUENCE \<noteq> 0 then 4 else 0)
           in if remaining < hdr_len then None
              else Some (clib_net_to_host_u16 (load_u16 m (gre + 2)), hdr_len))"

definition ip_inner_resolve_gre :: "inner_api \<Rightarrow> mem \<Rightarrow> int \<Rightarrow> u32 \<Rightarrow> u16 \<Rightarrow> ip_inner_hdr option" where
  "ip_inner_resolve_gre A m payload remaining gre_proto =
     (let by_proto = (\<lambda>effective_proto payload remaining.
            if effective_proto = GRE_PROTOCOL_ip4 then ip_inner_resolve_v4 A m payload remaining
            else if effective_proto = GRE_PROTOCOL_ip6 then ip_inner_resolve_v6 m payload remaining
            else None)
      in if gre_proto = GRE_PROTOCOL_teb
         then if remaining < 14 + 1 then None
              else let eth_type = clib_net_to_host_u16 (load_u16 m (payload + 12))
                   in if eth_type = ETHERNET_TYPE_IP4 then by_proto GRE_PROTOCOL_ip4 (payload + 14) (remaining - 14)
                      else if eth_type = ETHERNET_TYPE_IP6
                      then by_proto GRE_PROTOCOL_ip6 (payload + 14) (remaining - 14)
                      else None
         else by_proto gre_proto payload remaining)"

definition ip_inner_resolve :: "inner_api \<Rightarrow> u8 \<Rightarrow> mem \<Rightarrow> int \<Rightarrow> u32 \<Rightarrow> ip_inner_hdr option" where
  "ip_inner_resolve A outer_protocol m payload remaining =
     (if outer_protocol = IP_PROTOCOL_IP_IN_IP then ip_inner_resolve_v4 A m payload remaining
      else if outer_protocol = IP_PROTOCOL_IPV6 then ip_inner_resolve_v6 m payload remaining
      else if outer_protocol = IP_PROTOCOL_GRE
      then case ip_inner_gre_skip_optional_fields m payload remaining of
             None \<Rightarrow> None
           | Some (gre_proto, consumed) \<Rightarrow>
               ip_inner_resolve_gre A m (payload + int (unat consumed)) (remaining - consumed) gre_proto
      else None)"

definition ip6_addr_fold_u32 :: "mem \<Rightarrow> int \<Rightarrow> u32" where
  "ip6_addr_fold_u32 m a = load_u32 m a XOR load_u32 m (a + 4) XOR load_u32 m (a + 8) XOR load_u32 m (a + 12)"

section \<open>The LAG hash\<close>

definition is_tcp_udp :: "u8 \<Rightarrow> bool" where
  "is_tcp_udp protocol \<longleftrightarrow> protocol = IP_PROTOCOL_TCP \<or> protocol = IP_PROTOCOL_UDP"

text \<open>\<^verbatim>\<open>t1 ^ t2\<close>: the ports at \<open>tcp\<close>, when there are any.\<close>

definition ports_xor :: "mem \<Rightarrow> bool \<Rightarrow> int \<Rightarrow> u32" where
  "ports_xor m tcp_udp tcp =
     (let t1 = (if tcp_udp then ucast (load_u16 m tcp) else 0);
          t2 = (if tcp_udp then ucast (load_u16 m (tcp + 2)) else 0)
      in t1 XOR t2)"

definition hash_eth_inner_lb_hash :: "inner_api \<Rightarrow> mem \<Rightarrow> ip_inner_hdr \<Rightarrow> u32" where
  "hash_eth_inner_lb_hash A m inner =
     (let a = ports_xor m (is_tcp_udp (inner_protocol inner)) (inner_l4 inner); ip = inner_ip inner
      in if inner_is_v6 inner
         then lb_hash_hash A (load_u64 m (ip + 8)) (load_u64 m (ip + 16)) (load_u64 m (ip + 24)) (load_u64 m (ip + 32))
                (ucast a)
         else lb_hash_hash_2_tuples A (load_u64 m (ip + 12)) a)"

definition hash_eth_l34_inner_inline :: "inner_api \<Rightarrow> mem \<times> int \<Rightarrow> u32" where
  "hash_eth_l34_inner_inline A = (\<lambda>(m, eth).
     let ethertype_p = locate_ethertype A m eth;
         ethertype = clib_net_to_host_u16 (load_u16 m ethertype_p)
     in if ethertype \<noteq> ETHERNET_TYPE_IP4 \<and> ethertype \<noteq> ETHERNET_TYPE_IP6 then hash_eth_l2 A m eth
        else
          let ip4 = ethertype_p + 2; ip_version = drop_bit 4 (m ip4)
          in if ip_version = 4
             then let total_len = ucast (clib_net_to_host_u16 (load_u16 m (ip4 + 2)));
                      ihl = ip4_header_bytes A m ip4;
                      inner = (if \<not> ip4_is_fragment A m ip4 \<and> total_len \<ge> ihl
                        then ip_inner_resolve A (m (ip4 + 9)) m (ip4 + int (unat ihl)) (total_len - ihl) else None)
                  in (case inner of
                        Some h \<Rightarrow> hash_eth_inner_lb_hash A m h
                      | None \<Rightarrow> lb_hash_hash_2_tuples A (load_u64 m (ip4 + 12))
                          (ports_xor m (is_tcp_udp (m (ip4 + 9))) (ip4 + 20)))
             else if ip_version = 6
             then let ip6 = eth + 14;
                      payload_length = ucast (clib_net_to_host_u16 (load_u16 m (ip6 + 4)));
                      protocol = m (ip6 + 6)
                  in (case ip_inner_resolve A protocol m (ip6 + 40) payload_length of
                        Some h \<Rightarrow> hash_eth_inner_lb_hash A m h
                      | None \<Rightarrow>
                          let hbh = ip6 + 40;
                              (tcp_udp, tcp) =
                                (if is_tcp_udp protocol then (True, ip6 + 40)
                                 else if protocol = IP_PROTOCOL_IP6_HOP_BY_HOP_OPTIONS \<and> is_tcp_udp (m hbh)
                                 then (True, hbh + int ((unat (m (hbh + 1)) + 1) * 8)) else (False, ip6 + 40))
                          in lb_hash_hash A (load_u64 m (ip6 + 8)) (load_u64 m (ip6 + 16)) (load_u64 m (ip6 + 24))
                               (load_u64 m (ip6 + 32)) (ucast (ports_xor m tcp_udp tcp)))
             else hash_eth_l2 A m eth)"

text \<open>The loop over eight and more packets, and the loop over the rest. Prefetching has no effect.\<close>

fun hash_eth_l34_inner_quad :: "inner_api \<Rightarrow> (mem \<times> int) list \<Rightarrow> u32 list \<times> (mem \<times> int) list" where
  "hash_eth_l34_inner_quad A (p0 # p1 # p2 # p3 # p4 # p5 # p6 # p7 # ps) =
     (let (hash, rest) = hash_eth_l34_inner_quad A (p4 # p5 # p6 # p7 # ps)
      in (hash_eth_l34_inner_inline A p0 # hash_eth_l34_inner_inline A p1 # hash_eth_l34_inner_inline A p2 #
          hash_eth_l34_inner_inline A p3 # hash, rest))"
| "hash_eth_l34_inner_quad A ps = ([], ps)"

definition hash_eth_l34_inner :: "inner_api \<Rightarrow> (mem \<times> int) list \<Rightarrow> u32 list" where
  "hash_eth_l34_inner A ps =
     (let (hash, rest) = hash_eth_l34_inner_quad A ps in hash @ map (hash_eth_l34_inner_inline A) rest)"

section \<open>Specification\<close>

text \<open>Two memories hold the same \<open>n\<close> bytes, at \<open>p\<close> and at \<open>p'\<close>. The helpers of VPP read one IPv4 header.\<close>

definition same_at :: "mem \<Rightarrow> int \<Rightarrow> mem \<Rightarrow> int \<Rightarrow> nat \<Rightarrow> bool" where
  "same_at m p m' p' n \<longleftrightarrow> (\<forall>k < n. m (p + int k) = m' (p' + int k))"

definition inner_ok :: "inner_api \<Rightarrow> bool" where
  "inner_ok A \<longleftrightarrow> (\<forall>m p m' p'. same_at m p m' p' 20 \<longrightarrow>
     ip4_is_fragment A m p = ip4_is_fragment A m' p' \<and> ip4_header_bytes A m p = ip4_header_bytes A m' p')"

definition shift_hdr :: "int \<Rightarrow> ip_inner_hdr \<Rightarrow> ip_inner_hdr" where
  "shift_hdr d h = h\<lparr>inner_ip := inner_ip h + d, inner_l4 := inner_l4 h + d\<rparr>"

text \<open>Where a descriptor may point: inside the bound, with a whole header and eight bytes behind it.\<close>

definition hdr_within :: "int \<Rightarrow> u32 \<Rightarrow> ip_inner_hdr \<Rightarrow> bool" where
  "hdr_within p remaining h \<longleftrightarrow> p \<le> inner_ip h \<and> inner_ip h + (if inner_is_v6 h then 40 else 20) \<le> inner_l4 h \<and>
     inner_l4 h + 8 \<le> p + int (unat remaining)"

text \<open>
  Packets as bytes. An inner IPv4 packet is a header of 20 bytes and its payload; an inner IPv6 packet has a chain of
  extension headers, each with its type and the bytes after its first two. An encapsulation puts bytes in front.
\<close>

definition list_mem :: "u8 list \<Rightarrow> mem" where
  "list_mem bs = (\<lambda>i. bs ! nat i)"

definition be_bytes16 :: "u16 \<Rightarrow> u8 list" where
  "be_bytes16 x = [ucast (drop_bit 8 x), ucast x]"

definition ext_len_byte :: "u8 list \<Rightarrow> u8" where
  "ext_len_byte body = of_nat ((length body + 2) div 8 - 1)"

fun ext_chain :: "(u8 \<times> u8 list) list \<Rightarrow> u8 \<Rightarrow> u8 \<times> u8 list" where
  "ext_chain [] proto = (proto, [])"
| "ext_chain ((kind, body) # xs) proto =
     (kind, fst (ext_chain xs proto) # ext_len_byte body # body @ snd (ext_chain xs proto))"

definition ext_ok :: "u8 \<times> u8 list \<Rightarrow> bool" where
  "ext_ok e \<longleftrightarrow> fst e \<in> {IP_PROTOCOL_IP6_HOP_BY_HOP_OPTIONS, IP_PROTOCOL_IP6_DESTINATION_OPTIONS} \<and>
     (length (snd e) + 2) mod 8 = 0 \<and> length (snd e) + 2 \<le> 2048"

datatype inner_packet =
    V4 (header4: "u8 list") (payload4: "u8 list")
  | V6 (first6: "u8 list") (hop6: u8) (src6: "u8 list") (dst6: "u8 list") (exts6: "(u8 \<times> u8 list) list") (proto6: u8)
      (payload6: "u8 list") \<comment> \<open>\<open>first6\<close>: version, traffic class, flow label and payload length\<close>

fun inner_packet_bytes :: "inner_packet \<Rightarrow> u8 list" where
  "inner_packet_bytes (V4 header payload) = header @ payload"
| "inner_packet_bytes (V6 first hop src dst exts proto payload) =
     first @ [fst (ext_chain exts proto), hop] @ src @ dst @ snd (ext_chain exts proto) @ payload"

text \<open>
  The inner packets that the hash is meant for. The length field claims no more bytes than there are; the IPv4 header has no
  options and is no fragment; the extension headers of IPv6 are hop-by-hop and destination options; a payload of eight bytes or
  more follows, which is neither a Routing or Fragment header nor ESP or AH.
\<close>

fun packet_ok :: "inner_api \<Rightarrow> inner_packet \<Rightarrow> bool" where
  "packet_ok A (V4 header payload) \<longleftrightarrow> length header = 20 \<and> header ! 0 = 0x45 \<and>
     unat (clib_net_to_host_u16 (load_u16 (list_mem header) 2)) \<le> length header + length payload \<and>
     \<not> ip4_is_fragment A (list_mem header) 0 \<and> 8 \<le> length payload"
| "packet_ok A (V6 first hop src dst exts proto payload) \<longleftrightarrow> length first = 6 \<and> drop_bit 4 (first ! 0) = 6 \<and>
     unat (clib_net_to_host_u16 (load_u16 (list_mem first) 4)) \<le> length (snd (ext_chain exts proto)) + length payload \<and>
     length src = 16 \<and> length dst = 16 \<and> list_all ext_ok exts \<and> 8 \<le> length payload \<and>
     proto \<notin> {IP_PROTOCOL_IP6_HOP_BY_HOP_OPTIONS, IP_PROTOCOL_IPV6_ROUTE, IP_PROTOCOL_IP6_DESTINATION_OPTIONS,
       IP_PROTOCOL_IPV6_FRAGMENTATION, IP_PROTOCOL_IPSEC_ESP, IP_PROTOCOL_IPSEC_AH}"

fun packet_hdr :: "inner_packet \<Rightarrow> ip_inner_hdr" where
  "packet_hdr (V4 header payload) =
     \<lparr>inner_ip = 0, inner_l4 = 20, inner_protocol = header ! 9, inner_is_v6 = False\<rparr>"
| "packet_hdr (V6 first hop src dst exts proto payload) =
     \<lparr>inner_ip = 0, inner_l4 = 40 + int (length (snd (ext_chain exts proto))), inner_protocol = proto, inner_is_v6 = True\<rparr>"

text \<open>The hash of a flow: addresses, and the ports of TCP and UDP.\<close>

fun flow_lb_hash :: "inner_api \<Rightarrow> inner_packet \<Rightarrow> u32" where
  "flow_lb_hash A (V4 header payload) =
     lb_hash_hash_2_tuples A (load_u64 (list_mem header) 12) (ports_xor (list_mem payload) (is_tcp_udp (header ! 9)) 0)"
| "flow_lb_hash A (V6 first hop src dst exts proto payload) =
     lb_hash_hash A (load_u64 (list_mem src) 0) (load_u64 (list_mem src) 8) (load_u64 (list_mem dst) 0)
       (load_u64 (list_mem dst) 8) (ucast (ports_xor (list_mem payload) (is_tcp_udp proto) 0))"

datatype encap = Ip_In_Ip | Gre u16 "u8 list" | Nvgre u16 "u8 list" "u8 list"

definition gre_option_bytes :: "u16 \<Rightarrow> nat" where
  "gre_option_bytes fl = (if fl AND GRE_FLAGS_CHECKSUM \<noteq> 0 then 4 else 0) + (if fl AND GRE_FLAGS_KEY \<noteq> 0 then 4 else 0) +
     (if fl AND GRE_FLAGS_SEQUENCE \<noteq> 0 then 4 else 0)"

fun encap_ok :: "encap \<Rightarrow> bool" where
  "encap_ok Ip_In_Ip \<longleftrightarrow> True"
| "encap_ok (Gre fl opts) \<longleftrightarrow> length opts = gre_option_bytes fl"
| "encap_ok (Nvgre fl opts macs) \<longleftrightarrow> length opts = gre_option_bytes fl \<and> length macs = 12"

fun is_v6_packet :: "inner_packet \<Rightarrow> bool" where
  "is_v6_packet (V4 header payload) \<longleftrightarrow> False"
| "is_v6_packet (V6 first hop src dst exts proto payload) \<longleftrightarrow> True"

definition ip_ethertype :: "inner_packet \<Rightarrow> u16" where
  "ip_ethertype pkt = (if is_v6_packet pkt then 0x86DD else 0x0800)"

fun encap_protocol :: "encap \<Rightarrow> inner_packet \<Rightarrow> u8" where
  "encap_protocol Ip_In_Ip pkt = (if is_v6_packet pkt then IP_PROTOCOL_IPV6 else IP_PROTOCOL_IP_IN_IP)"
| "encap_protocol (Gre fl opts) pkt = IP_PROTOCOL_GRE"
| "encap_protocol (Nvgre fl opts macs) pkt = IP_PROTOCOL_GRE"

fun encap_bytes :: "encap \<Rightarrow> inner_packet \<Rightarrow> u8 list" where
  "encap_bytes Ip_In_Ip pkt = []"
| "encap_bytes (Gre fl opts) pkt = be_bytes16 fl @ be_bytes16 (ip_ethertype pkt) @ opts"
| "encap_bytes (Nvgre fl opts macs) pkt =
     be_bytes16 fl @ be_bytes16 GRE_PROTOCOL_teb @ opts @ macs @ be_bytes16 (ip_ethertype pkt)"

definition holds :: "mem \<Rightarrow> int \<Rightarrow> u8 list \<Rightarrow> bool" where
  "holds m p bs \<longleftrightarrow> same_at (list_mem bs) 0 m p (length bs)"

text \<open>An outer packet that carries \<open>pkt\<close>.\<close>

definition carries4 :: "inner_api \<Rightarrow> mem \<Rightarrow> int \<Rightarrow> encap \<Rightarrow> inner_packet \<Rightarrow> bool" where
  "carries4 A m ip e pkt \<longleftrightarrow> \<not> ip4_is_fragment A m ip \<and> m (ip + 9) = encap_protocol e pkt \<and>
     unat (clib_net_to_host_u16 (load_u16 m (ip + 2))) =
       unat (ip4_header_bytes A m ip) + length (encap_bytes e pkt @ inner_packet_bytes pkt) \<and>
     holds m (ip + int (unat (ip4_header_bytes A m ip))) (encap_bytes e pkt @ inner_packet_bytes pkt)"

definition carries6 :: "mem \<Rightarrow> int \<Rightarrow> encap \<Rightarrow> inner_packet \<Rightarrow> bool" where
  "carries6 m ip e pkt \<longleftrightarrow> m (ip + 6) = encap_protocol e pkt \<and>
     unat (clib_net_to_host_u16 (load_u16 m (ip + 4))) = length (encap_bytes e pkt @ inner_packet_bytes pkt) \<and>
     holds m (ip + 40) (encap_bytes e pkt @ inner_packet_bytes pkt)"

text \<open>An Ethernet frame with such a packet, for IPv6 without VLAN tags.\<close>

definition tunnel_frame :: "inner_api \<Rightarrow> mem \<Rightarrow> int \<Rightarrow> encap \<Rightarrow> inner_packet \<Rightarrow> bool" where
  "tunnel_frame A m eth e pkt \<longleftrightarrow>
     (let p = locate_ethertype A m eth; ethertype = clib_net_to_host_u16 (load_u16 m p)
      in ethertype = ETHERNET_TYPE_IP4 \<and> drop_bit 4 (m (p + 2)) = 4 \<and> carries4 A m (p + 2) e pkt \<or>
         p = eth + 12 \<and> ethertype = ETHERNET_TYPE_IP6 \<and> drop_bit 4 (m (eth + 14)) = 6 \<and> carries6 m (eth + 14) e pkt)"

text \<open>A sample packet, for the witnesses.\<close>

definition sample_inner_api :: inner_api where
  "sample_inner_api = \<lparr>ip4_is_fragment = \<lambda>m p. clib_net_to_host_u16 (load_u16 m (p + 6)) AND 0x3FFF \<noteq> 0,
     ip4_header_bytes = \<lambda>m p. ucast (4 * (m p AND 0xF)), locate_ethertype = \<lambda>m p. p + 12, hash_eth_l2 = \<lambda>m p. ucast (m p),
     lb_hash_hash = \<lambda>a b c d e. ucast (a XOR b XOR c XOR d XOR e), lb_hash_hash_2_tuples = \<lambda>a b. ucast a XOR b\<rparr>"

definition sample_v6 :: inner_packet where
  "sample_v6 = V6 [0x60, 0, 0, 0, 0, 16] 64 (replicate 15 0 @ [1]) (replicate 15 0 @ [2])
     [(IP_PROTOCOL_IP6_HOP_BY_HOP_OPTIONS, replicate 6 0)] IP_PROTOCOL_UDP [0x12, 0x34, 0, 80, 0, 8, 0, 0]"

definition sample_gre :: "u8 list" where
  "sample_gre = encap_bytes (Gre GRE_FLAGS_KEY [0, 0, 0, 1]) sample_v6 @ inner_packet_bytes sample_v6"

definition sample_tunnel :: mem where
  "sample_tunnel = list_mem ((replicate 12 2 @ [8, 0] @
     [0x45, 0, 0, 84, 0, 0, 0, 0, 64, IP_PROTOCOL_GRE, 0, 0, 10, 0, 0, 1, 10, 0, 0, 2]) @ sample_gre)"

section \<open>Lemmas\<close>

declare ip_inner_v6_walk_ext_headers.simps [simp del]

lemma unat_eh_len [simp]: "unat (ucast (b :: u8) * 8 + 8 :: u32) = 8 * unat b + 8"
proof -
  have "unat b < 256" using unsigned_less [where ?'a = nat, of b] by simp
  moreover have "unat (ucast b :: u32) = unat b"
    using calculation by (simp add: unsigned_ucast_eq take_bit_nat_eq_self)
  ultimately show ?thesis by (simp add: unat_word_ariths)
qed

lemma same_at_mono: "\<lbrakk>same_at m p m' p' n; k + l \<le> n\<rbrakk> \<Longrightarrow> same_at m (p + int k) m' (p' + int k) l"
  unfolding same_at_def by (metis add.assoc add_less_cancel_left less_le_trans of_nat_add)

lemma same_atD: "\<lbrakk>same_at m p m' p' n; k < n\<rbrakk> \<Longrightarrow> m' (p' + int k) = m (p + int k)"
  by (simp add: same_at_def)

lemma same_at_byte:
  assumes "same_at m p m' p' n"
  shows "0 < n \<Longrightarrow> m' p' = m p" and "1 < n \<Longrightarrow> m' (p' + 1) = m (p + 1)"
    and "numeral k < n \<Longrightarrow> m' (p' + numeral k) = m (p + numeral k)"
  using same_atD [OF assms, of 0] same_atD [OF assms, of 1] same_atD [OF assms, of "numeral k"] by simp_all

lemma load_same:
  "\<lbrakk>same_at m p m' p' n; 2 \<le> n\<rbrakk> \<Longrightarrow> load_u16 m' p' = load_u16 m p"
  "\<lbrakk>same_at m p m' p' n; 4 \<le> n\<rbrakk> \<Longrightarrow> load_u32 m' p' = load_u32 m p"
  by (simp_all add: load_u16_def load_u32_def same_at_byte)

lemma load_u64_same: "\<lbrakk>same_at m p m' p' n; 8 \<le> n\<rbrakk> \<Longrightarrow> load_u64 m' p' = load_u64 m p"
  using same_at_mono [of m p m' p' n 4 4] by (simp add: load_u64_def load_same)

text \<open>Memory accesses at a fixed distance from the start.\<close>

lemma load_same_at:
  assumes "same_at m p m' p' n"
  shows "numeral k + 2 \<le> n \<Longrightarrow> load_u16 m' (p' + numeral k) = load_u16 m (p + numeral k)"
    and "numeral k + 4 \<le> n \<Longrightarrow> load_u32 m' (p' + numeral k) = load_u32 m (p + numeral k)"
    and "numeral k + 8 \<le> n \<Longrightarrow> load_u64 m' (p' + numeral k) = load_u64 m (p + numeral k)"
  using same_at_mono [OF assms, of "numeral k" 2] same_at_mono [OF assms, of "numeral k" 4]
    same_at_mono [OF assms, of "numeral k" 8] by (simp_all add: load_same load_u64_same)

lemma walk_same:
  assumes "same_at m p m' p' (unat remaining)"
  shows "ip_inner_v6_walk_ext_headers m' p' remaining protocol =
    (let (x, c, l) = ip_inner_v6_walk_ext_headers m p remaining protocol in (x, c + (p' - p), l))"
  using assms
proof (induction m p remaining protocol arbitrary: p' rule: ip_inner_v6_walk_ext_headers.induct)
  case (1 m p remaining protocol)
  show ?case
  proof (cases "protocol = IP_PROTOCOL_IP6_HOP_BY_HOP_OPTIONS \<or> protocol = IP_PROTOCOL_IPV6_ROUTE \<or>
      protocol = IP_PROTOCOL_IP6_DESTINATION_OPTIONS")
    case ext: True
    show ?thesis
    proof (cases "remaining < 2")
      case False
      then have b: "m' p' = m p" "m' (p' + 1) = m (p + 1)"
        using same_at_byte [OF 1(2)] by (simp_all add: word_less_nat_alt)
      let ?l = "(ucast (m (p + 1)) + 1) * 8 :: u32"
      show ?thesis
      proof (cases "remaining < ?l")
        case True
        then show ?thesis using ext False b by (simp add: ip_inner_v6_walk_ext_headers.simps [of _ _ remaining])
      next
        case l: False
        then have "unat (remaining - ?l) = unat remaining - unat ?l" "unat ?l \<le> unat remaining"
          by (simp_all add: unat_sub not_less word_le_nat_alt)
        then have "same_at m (p + int (unat ?l)) m' (p' + int (unat ?l)) (unat (remaining - ?l))"
          using same_at_mono [OF 1(2), of "unat ?l"] by simp
        from 1(1) [OF ext False refl l this] show ?thesis
          using ext False b l by (simp add: ip_inner_v6_walk_ext_headers.simps [of _ _ remaining] Let_def)
      qed
    qed (use ext in \<open>simp add: ip_inner_v6_walk_ext_headers.simps [of _ _ remaining]\<close>)
  qed (simp add: ip_inner_v6_walk_ext_headers.simps [of _ _ remaining])
qed

lemma walk_bounds:
  "ip_inner_v6_walk_ext_headers m p remaining protocol = (x, c, l) \<Longrightarrow>
    p \<le> c \<and> c + int (unat l) = p + int (unat remaining)"
proof (induction m p remaining protocol arbitrary: x c l rule: ip_inner_v6_walk_ext_headers.induct)
  case (1 m p remaining protocol)
  let ?l = "(ucast (m (p + 1)) + 1) * 8 :: u32"
  have sub: "unat (remaining - ?l) = unat remaining - unat ?l" "unat ?l \<le> unat remaining" if "\<not> remaining < ?l"
    using that by (simp_all add: unat_sub not_less word_le_nat_alt)
  show ?case
  proof (cases "(protocol = IP_PROTOCOL_IP6_HOP_BY_HOP_OPTIONS \<or> protocol = IP_PROTOCOL_IPV6_ROUTE \<or>
      protocol = IP_PROTOCOL_IP6_DESTINATION_OPTIONS) \<and> \<not> remaining < 2 \<and> \<not> remaining < ?l")
    case True
    then have "ip_inner_v6_walk_ext_headers m (p + int (unat ?l)) (remaining - ?l) (m p) = (x, c, l)"
      using 1(2) by (simp add: ip_inner_v6_walk_ext_headers.simps [of m p] Let_def)
    then have ih: "p + int (unat ?l) \<le> c \<and> c + int (unat l) = p + int (unat ?l) + int (unat (remaining - ?l))"
      using 1(1) [OF _ _ refl, of x c l] True by blast
    have "int (unat (remaining - ?l)) = int (unat remaining) - int (unat ?l)"
      using sub True of_nat_diff [of "unat ?l" "unat remaining"] by metis
    with ih show ?thesis by linarith
  next
    case False
    then show ?thesis using 1(2) by (auto simp: ip_inner_v6_walk_ext_headers.simps [of m p] Let_def split: if_splits)
  qed
qed

text \<open>The search reads no byte outside \<open>remaining\<close>, and does not depend on where the bytes are.\<close>

lemma resolve_v4_same:
  assumes "inner_ok A" and "same_at m p m' p' (unat remaining)"
  shows "ip_inner_resolve_v4 A m' p' remaining = map_option (shift_hdr (p' - p)) (ip_inner_resolve_v4 A m p remaining)"
proof (cases "remaining < 28")
  case False
  then have n: "28 \<le> unat remaining" by (simp add: not_less word_le_nat_alt)
  then have "same_at m p m' p' 20" using same_at_mono [OF assms(2), of 0 20] by simp
  then have "ip4_is_fragment A m p = ip4_is_fragment A m' p'" using assms(1) by (auto simp: inner_ok_def)
  then show ?thesis
    using False n by (simp add: ip_inner_resolve_v4_def IP_INNER_L4_MIN_BYTES_def shift_hdr_def same_at_byte [OF assms(2)])
qed (simp add: ip_inner_resolve_v4_def IP_INNER_L4_MIN_BYTES_def)

lemma resolve_v6_same:
  assumes "same_at m p m' p' (unat remaining)"
  shows "ip_inner_resolve_v6 m' p' remaining = map_option (shift_hdr (p' - p)) (ip_inner_resolve_v6 m p remaining)"
proof (cases "remaining < 48")
  case False
  then have n: "48 \<le> unat remaining" "unat (remaining - 40) = unat remaining - 40"
    by (simp_all add: not_less word_le_nat_alt unat_sub)
  then have "same_at m (p + 40) m' (p' + 40) (unat (remaining - 40))"
    using same_at_mono [OF assms, of 40] by simp
  from walk_same [OF this] show ?thesis
    using False n load_same(2) [OF assms]
    by (auto simp: ip_inner_resolve_v6_def IP_INNER_L4_MIN_BYTES_def shift_hdr_def same_at_byte [OF assms] split_def Let_def)
qed (simp add: ip_inner_resolve_v6_def IP_INNER_L4_MIN_BYTES_def)

lemma shift_hdr_fields [simp]:
  "inner_ip (shift_hdr d h) = inner_ip h + d" "inner_l4 (shift_hdr d h) = inner_l4 h + d"
  "inner_protocol (shift_hdr d h) = inner_protocol h" "inner_is_v6 (shift_hdr d h) = inner_is_v6 h"
  by (simp_all add: shift_hdr_def)

lemma same_at_sub:
  assumes "same_at m p m' p' (unat remaining)" and "n \<le> remaining"
  shows "same_at m (p + int (unat n)) m' (p' + int (unat n)) (unat (remaining - n))"
  using same_at_mono [OF assms(1), of "unat n"] assms(2) by (simp add: unat_sub word_le_nat_alt)

lemma resolve_gre_same:
  assumes "inner_ok A" and "same_at m p m' p' (unat remaining)"
  shows "ip_inner_resolve_gre A m' p' remaining proto =
    map_option (shift_hdr (p' - p)) (ip_inner_resolve_gre A m p remaining proto)"
proof (cases "proto = GRE_PROTOCOL_teb \<and> \<not> remaining < 15")
  case True
  then have n: "14 \<le> remaining" "14 \<le> unat remaining" by (simp_all add: not_less word_le_nat_alt)
  note same = same_at_sub [OF assms(2) n(1), simplified]
  show ?thesis
    using True n resolve_v4_same [OF assms(1) same] resolve_v6_same [OF same]
    by (simp add: ip_inner_resolve_gre_def load_same_at [OF assms(2)] Let_def)
qed (auto simp: ip_inner_resolve_gre_def resolve_v4_same [OF assms] resolve_v6_same [OF assms(2)])

lemma gre_skip_same:
  assumes "same_at m p m' p' (unat remaining)"
  shows "ip_inner_gre_skip_optional_fields m' p' remaining = ip_inner_gre_skip_optional_fields m p remaining"
proof (cases "remaining < 4")
  case False
  then have "4 \<le> unat remaining" by (simp add: not_less word_le_nat_alt)
  then show ?thesis
    using load_same_at(1) [OF assms, of "num.Bit0 num.One"]
    by (simp add: ip_inner_gre_skip_optional_fields_def load_same [OF assms] Let_def)
qed (simp add: ip_inner_gre_skip_optional_fields_def)

lemma gre_skip_bound:
  "ip_inner_gre_skip_optional_fields m p remaining = Some (proto, n) \<Longrightarrow> n \<le> remaining"
  by (auto simp: ip_inner_gre_skip_optional_fields_def Let_def not_less split: if_splits)

lemma resolve_same:
  assumes "inner_ok A" and "same_at m p m' p' (unat remaining)"
  shows "ip_inner_resolve A proto m' p' remaining = map_option (shift_hdr (p' - p)) (ip_inner_resolve A proto m p remaining)"
proof (cases "ip_inner_gre_skip_optional_fields m p remaining")
  case (Some q)
  then obtain gre_proto n where q: "q = (gre_proto, n)" "n \<le> remaining" using gre_skip_bound by (cases q) blast
  then show ?thesis
    using Some resolve_gre_same [OF assms(1) same_at_sub [OF assms(2) q(2)], of gre_proto]
    by (simp add: ip_inner_resolve_def gre_skip_same [OF assms(2)] resolve_v4_same [OF assms] resolve_v6_same [OF assms(2)])
qed (simp add: ip_inner_resolve_def gre_skip_same [OF assms(2)] resolve_v4_same [OF assms] resolve_v6_same [OF assms(2)])

text \<open>Where the descriptor points.\<close>

lemma resolve_v4_within: "ip_inner_resolve_v4 A m p remaining = Some h \<Longrightarrow> hdr_within p remaining h"
  by (auto simp: ip_inner_resolve_v4_def IP_INNER_L4_MIN_BYTES_def hdr_within_def not_less word_le_nat_alt
      simp del: of_nat_unat split: if_splits)

lemma resolve_v6_within:
  assumes "ip_inner_resolve_v6 m p remaining = Some h"
  shows "hdr_within p remaining h"
proof -
  obtain x c l where w: "ip_inner_v6_walk_ext_headers m (p + 40) (remaining - 40) (m (p + 6)) = (x, c, l)"
    by (metis prod_cases3)
  have r: "48 \<le> unat remaining" "8 \<le> unat l" "h = \<lparr>inner_ip = p, inner_l4 = c, inner_protocol = x, inner_is_v6 = True\<rparr>"
    using assms w
    by (auto simp: ip_inner_resolve_v6_def IP_INNER_L4_MIN_BYTES_def not_less word_le_nat_alt split: if_splits)
  then have "unat (remaining - 40) = unat remaining - 40" by (simp add: unat_sub word_le_nat_alt)
  with walk_bounds [OF w] r show ?thesis by (auto simp: hdr_within_def simp del: of_nat_unat)
qed

lemma hdr_within_sub:
  assumes "hdr_within (p + int (unat n)) (remaining - n) h" and "n \<le> remaining"
  shows "hdr_within p remaining h"
  using assms of_nat_diff [of "unat n" "unat remaining", where ?'a = int]
  by (auto simp: hdr_within_def unat_sub word_le_nat_alt simp del: of_nat_unat)

lemma resolve_gre_within:
  assumes "ip_inner_resolve_gre A m p remaining proto = Some h"
  shows "hdr_within p remaining h"
proof (cases "proto = GRE_PROTOCOL_teb")
  case True
  then have "14 \<le> remaining" using assms
    by (auto simp: ip_inner_resolve_gre_def not_less word_le_nat_alt split: if_splits)
  with hdr_within_sub [of p 14 remaining h] show ?thesis
    using assms True resolve_v4_within [of A m "p + 14" "remaining - 14" h] resolve_v6_within [of m "p + 14" "remaining - 14" h]
    by (auto simp: ip_inner_resolve_gre_def Let_def split: if_splits)
qed (use assms resolve_v4_within resolve_v6_within in \<open>auto simp: ip_inner_resolve_gre_def split: if_splits\<close>)

lemma resolve_within:
  assumes "ip_inner_resolve A proto m p remaining = Some h"
  shows "hdr_within p remaining h"
  using assms resolve_v4_within resolve_v6_within hdr_within_sub [OF resolve_gre_within gre_skip_bound]
  by (auto simp: ip_inner_resolve_def split: if_splits option.splits)

lemma lb_hash_same:
  assumes "same_at m p m' p' (unat remaining)" and "hdr_within p remaining h"
  shows "hash_eth_inner_lb_hash A m' (shift_hdr (p' - p) h) = hash_eth_inner_lb_hash A m h"
proof -
  have at: "same_at m q m' (q + (p' - p)) n" if "p \<le> q" "q + int n \<le> p + int (unat remaining)" for q n
    using same_at_mono [OF assms(1), of "nat (q - p)" n] that by (simp add: algebra_simps del: of_nat_unat)
  let ?n = "if inner_is_v6 h then 40 else 20"
  have "same_at m (inner_ip h) m' (inner_ip h + (p' - p)) ?n" "same_at m (inner_l4 h) m' (inner_l4 h + (p' - p)) 8"
    using assms(2) by (intro at; auto simp: hdr_within_def split: if_splits)+
  then show ?thesis
    by (simp add: hash_eth_inner_lb_hash_def ports_xor_def Let_def load_same load_same_at
        load_same_at(3) [where m = m and m' = m' and p = "inner_ip h" and p' = "inner_ip h + (p' - p)" and n = 40]
        load_same_at(3) [where m = m and m' = m' and p = "inner_ip h" and p' = "inner_ip h + (p' - p)" and n = 20])
qed

section \<open>Encapsulated packets are found\<close>

lemma list_mem_suffix: "same_at (list_mem ys) 0 (list_mem (xs @ ys)) (int (length xs)) (length ys)"
  by (simp add: same_at_def list_mem_def nth_append nat_int_add)

lemma list_mem_prefix: "same_at (list_mem xs) 0 (list_mem (xs @ ys)) 0 (length xs)"
  by (simp add: same_at_def list_mem_def nth_append)

lemma list_mem_middle: "same_at (list_mem bs) 0 (list_mem (pre @ bs @ post)) (int (length pre)) (length bs)"
  using list_mem_suffix [of "bs @ post" pre] list_mem_prefix [of bs post] by (simp add: same_at_def)

lemma unat_of_nat_u8: "k < 256 \<Longrightarrow> unat (of_nat k :: u8) = k"
  by (simp add: unsigned_of_nat take_bit_nat_eq_self)

lemma unat_of_nat_u32: "k < 2 ^ 32 \<Longrightarrow> unat (of_nat k :: u32) = k"
  by (simp add: unsigned_of_nat take_bit_nat_eq_self)

lemma ext_len:
  assumes "ext_ok (kind, body)"
  shows "8 * unat (ext_len_byte body) + 8 = length body + 2"
proof -
  obtain k where k: "length body + 2 = 8 * k" using assms unfolding ext_ok_def by auto
  then have "0 < k" "k \<le> 256" using assms by (auto simp: ext_ok_def)
  then show ?thesis using k unat_of_nat_u8 [of "k - 1"] unfolding ext_len_byte_def k by simp
qed

lemma walk_step:
  assumes "protocol = IP_PROTOCOL_IP6_HOP_BY_HOP_OPTIONS \<or> protocol = IP_PROTOCOL_IPV6_ROUTE \<or>
      protocol = IP_PROTOCOL_IP6_DESTINATION_OPTIONS"
    and "(ucast (m (p + 1)) + 1) * 8 = l" and "2 \<le> remaining" and "l \<le> remaining"
  shows "ip_inner_v6_walk_ext_headers m p remaining protocol =
    ip_inner_v6_walk_ext_headers m (p + int (unat l)) (remaining - l) (m p)"
proof -
  have "\<not> remaining < 2" "\<not> remaining < l" using assms(3,4) by (simp_all add: not_less)
  then show ?thesis
    using assms(1) by (subst ip_inner_v6_walk_ext_headers.simps) (simp only: Let_def assms(2) if_True if_False)
qed

lemma walk_chain:
  assumes "list_all ext_ok exts" and "unat remaining = length (snd (ext_chain exts proto)) + length payload"
    and "proto \<notin> {IP_PROTOCOL_IP6_HOP_BY_HOP_OPTIONS, IP_PROTOCOL_IPV6_ROUTE, IP_PROTOCOL_IP6_DESTINATION_OPTIONS,
       IP_PROTOCOL_IPV6_FRAGMENTATION, IP_PROTOCOL_IPSEC_ESP, IP_PROTOCOL_IPSEC_AH}"
  shows "ip_inner_v6_walk_ext_headers (list_mem (snd (ext_chain exts proto) @ payload)) 0 remaining
      (fst (ext_chain exts proto)) =
    (proto, int (length (snd (ext_chain exts proto))), remaining - of_nat (length (snd (ext_chain exts proto))))"
  using assms
proof (induction exts arbitrary: remaining)
  case Nil
  then show ?case by (simp add: ip_inner_v6_walk_ext_headers.simps [of _ _ remaining])
next
  case (Cons e exts)
  obtain kind body where e: "e = (kind, body)" by fastforce
  let ?rest = "snd (ext_chain exts proto)" and ?next = "fst (ext_chain exts proto)"
  let ?b = "ext_len_byte body"
  let ?m = "list_mem ((?next # ?b # body @ ?rest) @ payload)" and ?l = "of_nat (length body + 2) :: u32"
  have ok: "ext_ok (kind, body)" "list_all ext_ok exts" using Cons.prems(1) e by simp_all
  have "unat ((ucast ?b + 1) * 8 :: u32) = length body + 2" using ext_len [OF ok(1)] unat_eh_len [of ?b] by simp
  then have l: "(ucast ?b + 1) * 8 = ?l" "unat ?l = length body + 2" by (metis of_nat_unat ucast_id)+
  have n: "unat remaining = length body + 2 + length ?rest + length payload" using Cons.prems(2) e by simp
  then have le: "2 \<le> remaining" "?l \<le> remaining" using l(2) by (simp_all add: word_le_nat_alt)
  have r: "unat (remaining - ?l) = length ?rest + length payload" using l(2) n unat_sub [OF le(2)] by linarith
  have "ip_inner_v6_walk_ext_headers ?m 0 remaining kind =
      ip_inner_v6_walk_ext_headers ?m (int (length body + 2)) (remaining - ?l) ?next"
    using walk_step [of kind ?m 0 ?l remaining, OF _ _ le] ok(1) l(1) unfolding l(2)
    by (auto simp add: ext_ok_def list_mem_def simp del: of_nat_add)
  also have "\<dots> = (proto, int (length ?rest) + int (length body + 2), remaining - ?l - of_nat (length ?rest))"
    using Cons.IH [OF ok(2) r Cons.prems(3)] r list_mem_suffix [of "?rest @ payload" "?next # ?b # body"]
      walk_same [of "list_mem (?rest @ payload)" 0 ?m "int (length body + 2)" "remaining - ?l" ?next] by simp
  finally show ?case by (simp add: e algebra_simps)
qed

lemma found_v4:
  assumes "inner_ok A" and "packet_ok A (V4 header payload)" and "unat remaining = length (header @ payload)"
  shows "ip_inner_resolve_v4 A (list_mem (header @ payload)) 0 remaining = Some (packet_hdr (V4 header payload))"
proof -
  have "\<not> remaining < 28" "length header = 20" using assms(2,3) by (simp_all add: not_less word_le_nat_alt)
  moreover have "\<not> ip4_is_fragment A (list_mem (header @ payload)) 0"
    using assms(1,2) list_mem_prefix [of header payload] by (auto simp: inner_ok_def)
  ultimately show ?thesis
    using assms(2) by (simp add: ip_inner_resolve_v4_def IP_INNER_L4_MIN_BYTES_def list_mem_def nth_append)
qed

lemma first_nibble: "drop_bit 4 (load_u32 m p) AND 0xf = ucast (drop_bit 4 (m p))"
proof -
  have nibble: "(0xf :: u32) = mask 4" by (simp add: mask_eq_exp_minus_1)
  show ?thesis unfolding nibble
    by (intro bit_word_eqI) (auto simp: load_u32_def le32_def bit_simps dest: bit_imp_le_length)
qed

lemma found_v6:
  assumes pkt: "pkt = V6 first hop src dst exts proto payload"
    and "packet_ok A pkt" and "unat remaining = length (inner_packet_bytes pkt)"
  shows "ip_inner_resolve_v6 (list_mem (inner_packet_bytes pkt)) 0 remaining = Some (packet_hdr pkt)"
proof -
  note assms = assms(2,3) [unfolded pkt]
  let ?pkt = "V6 first hop src dst exts proto payload"
  let ?chain = "snd (ext_chain exts proto)" and ?next = "fst (ext_chain exts proto)" and ?m = "list_mem (inner_packet_bytes ?pkt)"
  let ?left = "remaining - 40 - of_nat (length ?chain)"
  have n: "length first = 6" "unat remaining = 40 + (length ?chain + length payload)" "8 \<le> length payload"
    using assms by simp_all
  then have r: "unat (remaining - 40) = length ?chain + length payload" "\<not> remaining < 48"
    by (simp_all add: unat_sub word_le_nat_alt not_less)
  have "unat (of_nat (length ?chain) :: u32) = length ?chain"
    using n(2) unsigned_less [where ?'a = nat, of remaining] by (intro unat_of_nat_u32) simp
  then have left: "\<not> ?left < 8" using n r by (simp add: not_less word_le_nat_alt unat_sub)
  have "same_at (list_mem (?chain @ payload)) 0 ?m 40 (unat (remaining - 40))"
    using list_mem_suffix [of "?chain @ payload" "first @ [?next, hop] @ src @ dst"] assms(1) r(1) by simp
  from walk_same [OF this, of ?next] walk_chain [of exts "remaining - 40" proto payload] r(1) assms(1)
  have w: "ip_inner_v6_walk_ext_headers ?m 40 (remaining - 40) ?next = (proto, 40 + int (length ?chain), ?left)" by simp
  have b: "?m 0 = first ! 0" "?m 6 = ?next" using n(1) by (simp_all add: list_mem_def nth_append)
  show ?thesis
    unfolding pkt using r(2) left w b assms(1)
    by (simp add: ip_inner_resolve_v6_def IP_INNER_L4_MIN_BYTES_def first_nibble Let_def)
qed

text \<open>Whatever the encapsulation, its bytes are skipped.\<close>

lemma net_be_bytes16 [simp]: "be16 (ucast (drop_bit 8 x)) (ucast x) = (x :: u16)"
  by (rule bit_word_eqI) (auto simp: be16_def le16_def bit_simps)

lemma skip_bytes:
  assumes "inner_ok A" and "unat remaining = length (pre @ bs)"
  shows "ip_inner_resolve_v4 A (list_mem (pre @ bs)) (int (length pre)) (remaining - of_nat (length pre)) =
      map_option (shift_hdr (int (length pre)))
        (ip_inner_resolve_v4 A (list_mem bs) 0 (remaining - of_nat (length pre)))"
    and "ip_inner_resolve_v6 (list_mem (pre @ bs)) (int (length pre)) (remaining - of_nat (length pre)) =
      map_option (shift_hdr (int (length pre))) (ip_inner_resolve_v6 (list_mem bs) 0 (remaining - of_nat (length pre)))"
    and "unat (remaining - of_nat (length pre)) = length bs"
proof -
  have "unat (of_nat (length pre) :: u32) = length pre"
    using assms(2) unsigned_less [where ?'a = nat, of remaining] by (intro unat_of_nat_u32) simp
  then show n: "unat (remaining - of_nat (length pre)) = length bs" using assms(2) by (simp add: unat_sub word_le_nat_alt)
  then have "same_at (list_mem bs) 0 (list_mem (pre @ bs)) (int (length pre)) (unat (remaining - of_nat (length pre)))"
    using list_mem_suffix [of bs pre] by simp
  from resolve_v4_same [OF assms(1) this] resolve_v6_same [OF this]
  show "ip_inner_resolve_v4 A (list_mem (pre @ bs)) (int (length pre)) (remaining - of_nat (length pre)) =
      map_option (shift_hdr (int (length pre)))
        (ip_inner_resolve_v4 A (list_mem bs) 0 (remaining - of_nat (length pre)))"
    "ip_inner_resolve_v6 (list_mem (pre @ bs)) (int (length pre)) (remaining - of_nat (length pre)) =
      map_option (shift_hdr (int (length pre))) (ip_inner_resolve_v6 (list_mem bs) 0 (remaining - of_nat (length pre)))"
    by simp_all
qed

text \<open>The search behind an encapsulation of \<open>pre\<close>, by the family of the packet.\<close>

lemma found_behind:
  assumes "inner_ok A" and "packet_ok A pkt" and "unat remaining = length (pre @ inner_packet_bytes pkt)"
  shows "(if is_v6_packet pkt
      then ip_inner_resolve_v6 (list_mem (pre @ inner_packet_bytes pkt)) (int (length pre)) (remaining - of_nat (length pre))
      else ip_inner_resolve_v4 A (list_mem (pre @ inner_packet_bytes pkt)) (int (length pre)) (remaining - of_nat (length pre))) =
    Some (shift_hdr (int (length pre)) (packet_hdr pkt))"
proof (cases pkt)
  case (V4 header payload)
  then show ?thesis
    using found_v4 [OF assms(1), of header payload] assms(2) skip_bytes [OF assms(1,3)] by simp
next
  case (V6 first hop src dst exts proto payload)
  then show ?thesis
    using found_v6 [OF V6 assms(2)] skip_bytes [OF assms(1,3)] by (simp del: inner_packet_bytes.simps packet_hdr.simps)
qed

lemma gre_skip_found:
  assumes "gre_option_bytes fl \<le> length rest" and "unat remaining = length (be_bytes16 fl @ be_bytes16 pt @ rest)"
  shows "ip_inner_gre_skip_optional_fields (list_mem (be_bytes16 fl @ be_bytes16 pt @ rest)) 0 remaining =
    Some (pt, of_nat (4 + gre_option_bytes fl))"
proof -
  have "gre_option_bytes fl \<le> 12" by (simp add: gre_option_bytes_def)
  then have "unat (of_nat (4 + gre_option_bytes fl) :: u32) = 4 + gre_option_bytes fl" by (intro unat_of_nat_u32) simp
  then have "\<not> remaining < 4" "\<not> remaining < of_nat (4 + gre_option_bytes fl)"
    using assms by (simp_all add: not_less word_le_nat_alt be_bytes16_def)
  then show ?thesis
    by (auto simp: ip_inner_gre_skip_optional_fields_def gre_option_bytes_def mem_simps list_mem_def be_bytes16_def Let_def)
qed

lemma resolve_gre_found:
  assumes "inner_ok A" and "packet_ok A pkt" and "unat remaining = length (pre @ inner_packet_bytes pkt)"
  shows "ip_inner_resolve_gre A (list_mem (pre @ inner_packet_bytes pkt)) (int (length pre)) (remaining - of_nat (length pre))
      (ip_ethertype pkt) = Some (shift_hdr (int (length pre)) (packet_hdr pkt))"
  using found_behind [OF assms] by (auto simp: ip_inner_resolve_gre_def ip_ethertype_def Let_def)

lemma gre_step:
  assumes "gre_option_bytes fl \<le> length rest" and "unat remaining = length (be_bytes16 fl @ be_bytes16 pt @ rest)"
  shows "ip_inner_resolve A IP_PROTOCOL_GRE (list_mem (be_bytes16 fl @ be_bytes16 pt @ rest)) 0 remaining =
    ip_inner_resolve_gre A (list_mem (be_bytes16 fl @ be_bytes16 pt @ rest)) (int (4 + gre_option_bytes fl))
      (remaining - of_nat (4 + gre_option_bytes fl)) pt"
proof -
  have "unat (of_nat (4 + gre_option_bytes fl) :: u32) = 4 + gre_option_bytes fl"
    by (intro unat_of_nat_u32) (simp add: gre_option_bytes_def)
  then show ?thesis by (simp add: ip_inner_resolve_def gre_skip_found [OF assms] del: of_nat_add of_nat_unat)
qed

lemma resolve_found_gre:
  assumes "inner_ok A" and "encap_ok (Gre fl opts)" and "packet_ok A pkt" and e: "e = Gre fl opts"
    and "unat remaining = length (encap_bytes e pkt @ inner_packet_bytes pkt)"
  shows "ip_inner_resolve A IP_PROTOCOL_GRE (list_mem (encap_bytes e pkt @ inner_packet_bytes pkt)) 0 remaining =
    Some (shift_hdr (int (length (encap_bytes e pkt))) (packet_hdr pkt))"
proof -
  have n: "length (encap_bytes e pkt) = 4 + gre_option_bytes fl" using assms(2) e by (simp add: be_bytes16_def)
  show ?thesis
    using resolve_gre_found [OF assms(1,3,5), unfolded n] gre_step [of fl "opts @ inner_packet_bytes pkt" remaining] assms(2,5) e n
    by (simp del: of_nat_add)
qed

lemma inner_packet_bytes_length: "packet_ok A pkt \<Longrightarrow> 28 \<le> length (inner_packet_bytes pkt)"
  by (cases pkt) auto

lemma resolve_found_nvgre:
  assumes "inner_ok A" and "encap_ok (Nvgre fl opts macs)" and "packet_ok A pkt" and e: "e = Nvgre fl opts macs"
    and "unat remaining = length (encap_bytes e pkt @ inner_packet_bytes pkt)"
  shows "ip_inner_resolve A IP_PROTOCOL_GRE (list_mem (encap_bytes e pkt @ inner_packet_bytes pkt)) 0 remaining =
    Some (shift_hdr (int (length (encap_bytes e pkt))) (packet_hdr pkt))"
proof -
  let ?m = "list_mem (encap_bytes e pkt @ inner_packet_bytes pkt)" and ?k = "4 + gre_option_bytes fl"
  let ?left = "remaining - of_nat ?k" and ?et = "be_bytes16 (ip_ethertype pkt)"
  have n: "length (encap_bytes e pkt) = ?k + 14" using assms(2) e by (simp add: be_bytes16_def)
  have k: "unat (of_nat ?k :: u32) = ?k" by (intro unat_of_nat_u32) (simp add: gre_option_bytes_def)
  have "of_nat ?k \<le> remaining" using assms(5) n k by (simp add: word_le_nat_alt)
  then have u: "\<not> ?left < 15"
    using assms(5) n k inner_packet_bytes_length [OF assms(3)] by (simp add: not_less word_le_nat_alt unat_sub)
  have bs: "encap_bytes e pkt @ inner_packet_bytes pkt =
      (be_bytes16 fl @ be_bytes16 GRE_PROTOCOL_teb @ opts @ macs) @ ?et @ inner_packet_bytes pkt" using e by simp
  have t: "clib_net_to_host_u16 (load_u16 ?m (int ?k + 12)) = ip_ethertype pkt"
    unfolding bs using assms(2) by (simp add: mem_simps list_mem_def nth_append be_bytes16_def nat_add_distrib)
  have r: "?left - 14 = remaining - of_nat (?k + 14)" "int ?k + 14 = int (?k + 14)" by simp_all
  have "ip_inner_resolve A IP_PROTOCOL_GRE ?m 0 remaining = ip_inner_resolve_gre A ?m (int ?k) ?left GRE_PROTOCOL_teb"
    using gre_step [of fl "opts @ macs @ ?et @ inner_packet_bytes pkt" remaining GRE_PROTOCOL_teb A] assms(2,5) e
    by (simp del: of_nat_add)
  also have "\<dots> = ip_inner_resolve_gre A ?m (int (?k + 14)) (remaining - of_nat (?k + 14)) (ip_ethertype pkt)"
    using u unfolding r [symmetric] by (simp add: ip_inner_resolve_gre_def t ip_ethertype_def Let_def del: of_nat_add)
  finally show ?thesis using resolve_gre_found [OF assms(1,3,5), unfolded n] n by simp
qed

lemma resolve_found:
  assumes "inner_ok A" and "encap_ok e" and "packet_ok A pkt"
    and "unat remaining = length (encap_bytes e pkt @ inner_packet_bytes pkt)"
  shows "ip_inner_resolve A (encap_protocol e pkt) (list_mem (encap_bytes e pkt @ inner_packet_bytes pkt)) 0 remaining =
    Some (shift_hdr (int (length (encap_bytes e pkt))) (packet_hdr pkt))"
proof (cases e)
  case Ip_In_Ip
  then show ?thesis
    using found_behind [OF assms(1,3), of remaining "[]"] assms(4) by (auto simp: ip_inner_resolve_def)
next
  case (Gre fl opts)
  then show ?thesis using resolve_found_gre [OF assms(1) _ assms(3) Gre assms(4)] assms(2) by simp
next
  case (Nvgre fl opts macs)
  then show ?thesis using resolve_found_nvgre [OF assms(1) _ assms(3) Nvgre assms(4)] assms(2) by simp
qed

lemma packet_lb_hash:
  assumes "packet_ok A pkt"
  shows "hash_eth_inner_lb_hash A (list_mem (inner_packet_bytes pkt)) (packet_hdr pkt) = flow_lb_hash A pkt"
proof (cases pkt)
  case (V4 header payload)
  note pre = list_mem_prefix [of header payload] and suf = list_mem_suffix [of payload header]
  show ?thesis
    using assms V4 load_same(1) [OF suf] load_same_at(1) [OF suf, of "num.Bit0 num.One"]
      load_same_at(3) [OF pre, of "num.Bit0 (num.Bit0 (num.Bit1 num.One))"]
    by (simp add: hash_eth_inner_lb_hash_def ports_xor_def)
next
  case (V6 first hop src dst exts proto payload)
  let ?chain = "snd (ext_chain exts proto)" and ?first = "first @ [fst (ext_chain exts proto), hop]"
  note src = list_mem_middle [of src ?first "dst @ ?chain @ payload"]
    and dst = list_mem_middle [of dst "?first @ src" "?chain @ payload"]
    and pl = list_mem_middle [of payload "?first @ src @ dst @ ?chain" "[]"]
  show ?thesis
    using assms V6 load_u64_same [OF src] load_same_at(3) [OF src, of "num.Bit0 (num.Bit0 (num.Bit0 num.One))"]
      load_u64_same [OF dst] load_same_at(3) [OF dst, of "num.Bit0 (num.Bit0 (num.Bit0 num.One))"]
      load_same(1) [OF pl] load_same_at(1) [OF pl, of "num.Bit0 num.One"]
    by (simp add: hash_eth_inner_lb_hash_def ports_xor_def)
qed

lemma packet_within:
  assumes "inner_ok A" and "packet_ok A pkt" and "unat remaining = length (inner_packet_bytes pkt)"
  shows "hdr_within 0 remaining (packet_hdr pkt)"
  using found_behind [OF assms(1,2), of remaining "[]"] assms(3) resolve_v4_within resolve_v6_within
  by (auto simp: shift_hdr_def split: if_splits)

lemma resolve_holds:
  assumes "inner_ok A" and "encap_ok e" and "packet_ok A pkt"
    and "holds m p (encap_bytes e pkt @ inner_packet_bytes pkt)"
    and "unat remaining = length (encap_bytes e pkt @ inner_packet_bytes pkt)"
  shows "ip_inner_resolve A (encap_protocol e pkt) m p remaining =
    Some (shift_hdr (p + int (length (encap_bytes e pkt))) (packet_hdr pkt))"
  using resolve_same [OF assms(1) assms(4) [unfolded holds_def, folded assms(5)]] resolve_found [OF assms(1-3,5)]
  by (simp add: shift_hdr_def algebra_simps)

lemma holds_packet:
  "holds m p (pre @ bs) \<Longrightarrow> same_at (list_mem bs) 0 m (p + int (length pre)) (length bs)"
  using list_mem_suffix [of bs pre] same_at_mono [of "list_mem (pre @ bs)" 0 m p _ "length pre" "length bs"]
  by (simp add: same_at_def holds_def)

lemma l34_inner_quad:
  "hash_eth_l34_inner_quad A ps = (hash, rest) \<Longrightarrow>
    hash @ map (hash_eth_l34_inner_inline A) rest = map (hash_eth_l34_inner_inline A) ps"
  by (induction A ps arbitrary: hash rest rule: hash_eth_l34_inner_quad.induct) (auto split: prod.splits)

lemma sample_inner_ok: "inner_ok sample_inner_api"
  by (auto simp: inner_ok_def sample_inner_api_def load_same_at same_at_byte)

lemma inner_flow_found:
  assumes "inner_ok A" and "encap_ok e" and "packet_ok A pkt"
    and "holds m p (encap_bytes e pkt @ inner_packet_bytes pkt)"
    and "unat remaining = length (encap_bytes e pkt @ inner_packet_bytes pkt)"
  shows "ip_inner_resolve A (encap_protocol e pkt) m p remaining =
      Some (shift_hdr (p + int (length (encap_bytes e pkt))) (packet_hdr pkt)) \<and>
    hash_eth_inner_lb_hash A m (shift_hdr (p + int (length (encap_bytes e pkt))) (packet_hdr pkt)) = flow_lb_hash A pkt"
proof
  have n: "unat (remaining - of_nat (length (encap_bytes e pkt))) = length (inner_packet_bytes pkt)"
    using skip_bytes(3) [OF assms(1,5)] .
  from lb_hash_same [OF holds_packet [OF assms(4), folded n] packet_within [OF assms(1,3) n]]
  show "hash_eth_inner_lb_hash A m (shift_hdr (p + int (length (encap_bytes e pkt))) (packet_hdr pkt)) = flow_lb_hash A pkt"
    by (simp add: packet_lb_hash [OF assms(3)])
qed (rule resolve_holds [OF assms])

lemma lag_hash_per_packet: "hash_eth_l34_inner A ps = map (hash_eth_l34_inner_inline A) ps"
  using l34_inner_quad by (auto simp: hash_eth_l34_inner_def split: prod.splits)

lemma unat_ucast_u16: "unat (ucast (x :: u16) :: u32) = unat x"
  using unsigned_less [where ?'a = nat, of x] by (simp add: unsigned_ucast_eq take_bit_nat_eq_self)

text \<open>Both families of outer packets.\<close>

lemma carries4_found:
  assumes "inner_ok A" and "encap_ok e" and "packet_ok A pkt" and "carries4 A m ip e pkt"
  defines "ihl \<equiv> ip4_header_bytes A m ip" and "total_len \<equiv> ucast (clib_net_to_host_u16 (load_u16 m (ip + 2)))"
  shows "ihl \<le> total_len" and "ip_inner_resolve A (m (ip + 9)) m (ip + int (unat ihl)) (total_len - ihl) =
    Some (shift_hdr (ip + int (unat ihl) + int (length (encap_bytes e pkt))) (packet_hdr pkt))"
    and "hash_eth_inner_lb_hash A m (shift_hdr (ip + int (unat ihl) + int (length (encap_bytes e pkt))) (packet_hdr pkt)) =
      flow_lb_hash A pkt"
proof -
  let ?bs = "encap_bytes e pkt @ inner_packet_bytes pkt"
  have c: "m (ip + 9) = encap_protocol e pkt" "holds m (ip + int (unat ihl)) ?bs" "unat total_len = unat ihl + length ?bs"
    using assms(4) unfolding carries4_def ihl_def total_len_def by (simp_all add: unat_ucast_u16)
  then show le: "ihl \<le> total_len" by (simp add: word_le_nat_alt)
  then have "unat (total_len - ihl) = length ?bs" using c(3) by (simp add: unat_sub)
  from inner_flow_found [OF assms(1-3) c(2) this]
  show "ip_inner_resolve A (m (ip + 9)) m (ip + int (unat ihl)) (total_len - ihl) =
      Some (shift_hdr (ip + int (unat ihl) + int (length (encap_bytes e pkt))) (packet_hdr pkt))"
    "hash_eth_inner_lb_hash A m (shift_hdr (ip + int (unat ihl) + int (length (encap_bytes e pkt))) (packet_hdr pkt)) =
      flow_lb_hash A pkt"
    unfolding c(1) by blast+
qed

lemma carries6_found:
  assumes "inner_ok A" and "encap_ok e" and "packet_ok A pkt" and "carries6 m ip e pkt"
  shows "ip_inner_resolve A (m (ip + 6)) m (ip + 40) (ucast (clib_net_to_host_u16 (load_u16 m (ip + 4)))) =
      Some (shift_hdr (ip + 40 + int (length (encap_bytes e pkt))) (packet_hdr pkt))"
    and "hash_eth_inner_lb_hash A m (shift_hdr (ip + 40 + int (length (encap_bytes e pkt))) (packet_hdr pkt)) =
      flow_lb_hash A pkt"
proof -
  have c: "m (ip + 6) = encap_protocol e pkt" "holds m (ip + 40) (encap_bytes e pkt @ inner_packet_bytes pkt)"
    "unat (ucast (clib_net_to_host_u16 (load_u16 m (ip + 4))) :: u32) = length (encap_bytes e pkt @ inner_packet_bytes pkt)"
    using assms(4) unfolding carries6_def by (simp_all add: unat_ucast_u16)
  from inner_flow_found [OF assms(1-3) c(2,3)]
  show "ip_inner_resolve A (m (ip + 6)) m (ip + 40) (ucast (clib_net_to_host_u16 (load_u16 m (ip + 4)))) =
      Some (shift_hdr (ip + 40 + int (length (encap_bytes e pkt))) (packet_hdr pkt))"
    "hash_eth_inner_lb_hash A m (shift_hdr (ip + 40 + int (length (encap_bytes e pkt))) (packet_hdr pkt)) = flow_lb_hash A pkt"
    unfolding c(1) by blast+
qed

section \<open>Properties\<close>

text \<open>C15:
  The search for the inner header reads nothing outside the bound it is given, and returns nothing outside it: for any two
  memories that agree on the \<open>remaining\<close> bytes behind the outer header, wherever these lie, the result is the same up to the
  position; a result has a whole IP header and at least eight bytes of layer 4 inside the bound; and the hash computed
  from it is the same in both memories.
\<close>

theorem inner_search_bounded:
  assumes "inner_ok A" and "same_at m p m' p' (unat remaining)"
  shows "ip_inner_resolve A proto m' p' remaining =
      map_option (shift_hdr (p' - p)) (ip_inner_resolve A proto m p remaining) \<and>
    pred_option (\<lambda>h. hdr_within p remaining h \<and>
      hash_eth_inner_lb_hash A m' (shift_hdr (p' - p) h) = hash_eth_inner_lb_hash A m h)
      (ip_inner_resolve A proto m p remaining)"
  using resolve_same [OF assms] resolve_within lb_hash_same [OF assms(2)] by (simp add: option.pred_set)

theorem inner_search_bounded_witness:
  "ip_inner_resolve sample_inner_api IP_PROTOCOL_GRE (list_mem (replicate 14 0 @ sample_gre)) 14 64 =
     map_option (shift_hdr 14) (ip_inner_resolve sample_inner_api IP_PROTOCOL_GRE (list_mem sample_gre) 0 64)"
  using inner_search_bounded [OF sample_inner_ok, of "list_mem sample_gre" 0 "list_mem (replicate 14 0 @ sample_gre)" 14 64]
    list_mem_suffix [of sample_gre "replicate 14 0"]
  by (simp add: sample_gre_def sample_v6_def be_bytes16_def)



end
