(* ===== verification/Flow_Hash.thy ===== *)
theory Flow_Hash
  imports Inner_Hash
begin

text \<open>
  The flow hash that chooses the path of a packet: \<^verbatim>\<open>ip4_compute_flow_hash\<close> and \<^verbatim>\<open>ip6_compute_flow_hash\<close> as patch 0011
  leaves them, and \<^verbatim>\<open>vxlan_encap_inner_flow_hash\<close> of patch 0015.

  The patch shows how the two functions choose the addresses, the protocol and the position of layer 4: these are
  \<open>ip4_flow_keys\<close> and \<open>ip6_flow_keys\<close>. The code of VPP behind it, which mixes them, is a field of \<open>flow_api\<close>, as are the two
  lines of the IPv6 function between the hunks of the patch. The lemmas show which header the keys come from.
\<close>

section \<open>Configuration bits\<close>

definition IP_FLOW_HASH_SRC_ADDR :: u32 where "IP_FLOW_HASH_SRC_ADDR = push_bit 0 1"
definition IP_FLOW_HASH_DST_ADDR :: u32 where "IP_FLOW_HASH_DST_ADDR = push_bit 1 1"
definition IP_FLOW_HASH_REVERSE_SRC_DST :: u32 where "IP_FLOW_HASH_REVERSE_SRC_DST = push_bit 5 1"
definition IP_FLOW_HASH_PEEK_INNER :: u32 where "IP_FLOW_HASH_PEEK_INNER = push_bit 9 1"

abbreviation "ETYPE_VLAN \<equiv> 0x8100 :: u16"
abbreviation "ETYPE_DOT1AD \<equiv> 0x88A8 :: u16"

section \<open>VPP\<close>

text \<open>\<open>ip4_mix\<close>: the rest of the IPv4 function, on \<open>a\<close>, \<open>b\<close>, the protocol and the position of layer 4.\<close>

record flow4 =
  flow_a :: u32
  flow_b :: u32
  hash_protocol :: u8
  flow_l4 :: int

record flow6 =
  flow_t1 :: u64
  flow_t2 :: u64
  flow_protocol :: u8
  flow_is_udp :: bool
  flow_is_tcp_udp :: bool
  flow_tcp :: int
  flow_udp :: int

record flow_api = inner_api +
  ip4_mix :: "u32 \<Rightarrow> mem \<Rightarrow> flow4 \<Rightarrow> u32"
  ip6_mix :: "u32 \<Rightarrow> mem \<Rightarrow> int \<Rightarrow> flow6 \<Rightarrow> u32"
  ip6_direct :: "int \<Rightarrow> bool \<times> int" \<comment> \<open>\<^verbatim>\<open>is_tcp_udp\<close> and \<^verbatim>\<open>tcp\<close> of a packet without extension headers\<close>
  tcp_initial :: "int \<Rightarrow> int"
  udp_initial :: "int \<Rightarrow> int"
  IP_FLOW_HASH_DEFAULT :: u32

section \<open>The hash of an IPv4 packet\<close>

definition ip4_flow_keys :: "flow_api \<Rightarrow> mem \<Rightarrow> int \<Rightarrow> u32 \<Rightarrow> flow4" where
  "ip4_flow_keys F m ip flow_hash_config =
     (let total_len = ucast (clib_net_to_host_u16 (load_u16 m (ip + 2)));
          ihl = ip4_header_bytes F m ip;
          inner = (if flow_hash_config AND IP_FLOW_HASH_PEEK_INNER \<noteq> 0 \<and> \<not> ip4_is_fragment F m ip \<and> total_len \<ge> ihl
            then ip_inner_resolve (inner_api.truncate F) (m (ip + 9)) m (ip + int (unat ihl)) (total_len - ihl) else None);
          (src_addr_u32, dst_addr_u32, hash_protocol, l4) =
            (case inner of
               Some h \<Rightarrow>
                 if inner_is_v6 h
                 then (ip6_addr_fold_u32 m (inner_ip h + 8), ip6_addr_fold_u32 m (inner_ip h + 24),
                       inner_protocol h, inner_l4 h)
                 else (ip4_src_address m (inner_ip h), ip4_dst_address m (inner_ip h), inner_protocol h, inner_l4 h)
             | None \<Rightarrow> (ip4_src_address m ip, ip4_dst_address m ip, m (ip + 9), ip + 20));
          t1 = (if flow_hash_config AND IP_FLOW_HASH_SRC_ADDR \<noteq> 0 then src_addr_u32 else 0);
          t2 = (if flow_hash_config AND IP_FLOW_HASH_DST_ADDR \<noteq> 0 then dst_addr_u32 else 0);
          reverse = (flow_hash_config AND IP_FLOW_HASH_REVERSE_SRC_DST \<noteq> 0)
      in \<lparr>flow_a = if reverse then t2 else t1, flow_b = if reverse then t1 else t2,
          hash_protocol = hash_protocol, flow_l4 = l4\<rparr>)"

definition ip4_compute_flow_hash :: "flow_api \<Rightarrow> mem \<Rightarrow> int \<Rightarrow> u32 \<Rightarrow> u32" where
  "ip4_compute_flow_hash F m ip flow_hash_config =
     ip4_mix F flow_hash_config m (ip4_flow_keys F m ip flow_hash_config)"

section \<open>The hash of an IPv6 packet\<close>

text \<open>The hop-by-hop options of the outer packet. Result: protocol, pointer and the bytes walked.\<close>

definition ip6_skip_hop_by_hop :: "mem \<Rightarrow> int \<Rightarrow> u8 \<Rightarrow> u32 \<Rightarrow> u8 \<times> int \<times> u32" where
  "ip6_skip_hop_by_hop m cur protocol payload_length =
     (if protocol = IP_PROTOCOL_IP6_HOP_BY_HOP_OPTIONS \<and> payload_length \<ge> 2
      then let hbh_len = (ucast (m (cur + 1)) + 1) * 8
           in if payload_length \<ge> hbh_len then (m cur, cur + int (unat hbh_len), hbh_len) else (protocol, cur, 0)
      else (protocol, cur, 0))"

definition ip6_flow_keys :: "flow_api \<Rightarrow> mem \<Rightarrow> int \<Rightarrow> u32 \<Rightarrow> flow6" where
  "ip6_flow_keys F m ip flow_hash_config =
     (let protocol = m (ip + 6);
          is_udp = (protocol = IP_PROTOCOL_UDP);
          peek_inner = (flow_hash_config AND IP_FLOW_HASH_PEEK_INNER \<noteq> 0);
          tcp0 = tcp_initial F ip; udp0 = udp_initial F ip;
          (protocol, is_udp, is_tcp_udp, tcp, udp, inner) =
            (if protocol = IP_PROTOCOL_TCP \<or> is_udp
             then let (is_tcp_udp, tcp) = ip6_direct F ip in (protocol, is_udp, is_tcp_udp, tcp, udp0, None)
             else
               let payload_length = ucast (clib_net_to_host_u16 (load_u16 m (ip + 4)));
                   (protocol, cur, walked) = ip6_skip_hop_by_hop m (ip + 40) protocol payload_length
               in if protocol = IP_PROTOCOL_IPV6_FRAGMENTATION
                  then (if payload_length \<ge> walked + 8 then m cur else protocol, is_udp, False, tcp0, udp0, None)
                  else if is_tcp_udp protocol then (protocol, protocol = IP_PROTOCOL_UDP, True, cur, udp0, None)
                  else if peek_inner \<and> payload_length \<ge> walked
                  then case ip_inner_resolve (inner_api.truncate F) protocol m cur (payload_length - walked) of
                         None \<Rightarrow> (protocol, is_udp, False, tcp0, udp0, None)
                       | Some h \<Rightarrow>
                           (inner_protocol h, inner_protocol h = IP_PROTOCOL_UDP, is_tcp_udp (inner_protocol h),
                            if is_tcp_udp (inner_protocol h) then inner_l4 h else tcp0, inner_l4 h, Some h)
                  else (protocol, is_udp, False, tcp0, udp0, None));
          (t1, t2) =
            (case inner of
               Some h \<Rightarrow>
                 if inner_is_v6 h
                 then (load_u64 m (inner_ip h + 8) XOR load_u64 m (inner_ip h + 16),
                       load_u64 m (inner_ip h + 24) XOR load_u64 m (inner_ip h + 32))
                 else (ucast (ip4_src_address m (inner_ip h)), ucast (ip4_dst_address m (inner_ip h)))
             | None \<Rightarrow> (load_u64 m (ip + 8) XOR load_u64 m (ip + 16), load_u64 m (ip + 24) XOR load_u64 m (ip + 32)))
      in \<lparr>flow_t1 = if flow_hash_config AND IP_FLOW_HASH_SRC_ADDR \<noteq> 0 then t1 else 0,
          flow_t2 = if flow_hash_config AND IP_FLOW_HASH_DST_ADDR \<noteq> 0 then t2 else 0,
          flow_protocol = protocol, flow_is_udp = is_udp, flow_is_tcp_udp = is_tcp_udp, flow_tcp = tcp, flow_udp = udp\<rparr>)"

definition ip6_compute_flow_hash :: "flow_api \<Rightarrow> mem \<Rightarrow> int \<Rightarrow> u32 \<Rightarrow> u32" where
  "ip6_compute_flow_hash F m ip flow_hash_config =
     ip6_mix F flow_hash_config m ip (ip6_flow_keys F m ip flow_hash_config)"

section \<open>The entropy of a VXLAN tunnel\<close>

text \<open>\<open>l2_flow_hash\<close>: the value of \<^verbatim>\<open>vnet_l2_compute_flow_hash\<close> for the buffer.\<close>

definition vxlan_encap_inner_flow_hash :: "flow_api \<Rightarrow> u32 \<Rightarrow> mem \<Rightarrow> int \<Rightarrow> u32" where
  "vxlan_encap_inner_flow_hash F l2_flow_hash m eh =
     (let ethertype = clib_net_to_host_u16 (load_u16 m (eh + 12)); l3h = eh + 14;
          (ethertype, l3h) =
            (if ethertype = ETYPE_VLAN \<or> ethertype = ETYPE_DOT1AD
             then let ethertype = clib_net_to_host_u16 (load_u16 m (l3h + 2)); l3h = l3h + 4
                  in if ethertype = ETYPE_VLAN
                     then (clib_net_to_host_u16 (load_u16 m (l3h + 2)), l3h + 4) else (ethertype, l3h)
             else (ethertype, l3h))
      in if ethertype = ETHERNET_TYPE_IP4 then ip4_compute_flow_hash F m l3h (IP_FLOW_HASH_DEFAULT F)
         else if ethertype = ETHERNET_TYPE_IP6 then ip6_compute_flow_hash F m l3h (IP_FLOW_HASH_DEFAULT F)
         else l2_flow_hash)"

section \<open>Specification\<close>

text \<open>The addresses of a packet as the two functions fold them.\<close>

fun packet_addr32 :: "inner_packet \<Rightarrow> u32 \<times> u32" where
  "packet_addr32 (V4 header payload) = (load_u32 (list_mem header) 12, load_u32 (list_mem header) 16)"
| "packet_addr32 (V6 first hop src dst exts proto payload) =
     (ip6_addr_fold_u32 (list_mem src) 0, ip6_addr_fold_u32 (list_mem dst) 0)"

fun packet_addr64 :: "inner_packet \<Rightarrow> u64 \<times> u64" where
  "packet_addr64 (V4 header payload) =
     (ucast (load_u32 (list_mem header) 12), ucast (load_u32 (list_mem header) 16))"
| "packet_addr64 (V6 first hop src dst exts proto payload) =
     (load_u64 (list_mem src) 0 XOR load_u64 (list_mem src) 8, load_u64 (list_mem dst) 0 XOR load_u64 (list_mem dst) 8)"

fun packet_payload :: "inner_packet \<Rightarrow> u8 list" where
  "packet_payload (V4 header payload) = payload"
| "packet_payload (V6 first hop src dst exts proto payload) = payload"

definition select_addrs :: "u32 \<Rightarrow> 'a :: zero \<times> 'a \<Rightarrow> 'a \<times> 'a" where
  "select_addrs cfg = (\<lambda>(src, dst). (if cfg AND IP_FLOW_HASH_SRC_ADDR \<noteq> 0 then src else 0,
     if cfg AND IP_FLOW_HASH_DST_ADDR \<noteq> 0 then dst else 0))"

definition reverse_addrs :: "u32 \<Rightarrow> 'a \<times> 'a \<Rightarrow> 'a \<times> 'a" where
  "reverse_addrs cfg p = (if cfg AND IP_FLOW_HASH_REVERSE_SRC_DST \<noteq> 0 then (snd p, fst p) else p)"

text \<open>A fragment of an IPv6 datagram, behind hop-by-hop options or not: the position of its fragment header.\<close>

definition fragment_at :: "mem \<Rightarrow> int \<Rightarrow> int option" where
  "fragment_at m ip =
     (let payload_length = ucast (clib_net_to_host_u16 (load_u16 m (ip + 4)));
          hbh_len = (ucast (m (ip + 41)) + 1) * 8
      in if m (ip + 6) = IP_PROTOCOL_IPV6_FRAGMENTATION \<and> 8 \<le> payload_length then Some (ip + 40)
         else if m (ip + 6) = IP_PROTOCOL_IP6_HOP_BY_HOP_OPTIONS \<and> hbh_len + 8 \<le> (payload_length :: u32) \<and>
           m (ip + 40) = IP_PROTOCOL_IPV6_FRAGMENTATION then Some (ip + 40 + int (unat (hbh_len :: u32)))
         else None)"

text \<open>The ethertypes of a frame, its VLAN tags given by TPID and TCI.\<close>

fun vlan_frame :: "(u16 \<times> u16) list \<Rightarrow> u16 \<Rightarrow> u8 list" where
  "vlan_frame [] ethertype = be_bytes16 ethertype"
| "vlan_frame ((tpid, tci) # tags) ethertype = be_bytes16 tpid @ be_bytes16 tci @ vlan_frame tags ethertype"

definition tags_ok :: "(u16 \<times> u16) list \<Rightarrow> bool" where
  "tags_ok tags \<longleftrightarrow> length tags \<le> 2 \<and> list_all (\<lambda>(tpid, tci). tpid = ETYPE_VLAN) (drop 1 tags) \<and>
     list_all (\<lambda>(tpid, tci). tpid = ETYPE_VLAN \<or> tpid = ETYPE_DOT1AD) tags"

text \<open>Samples for the witnesses: a GRE packet inside IPv4, a fragment, a frame with two tags.\<close>

definition sample_flow_api :: flow_api where
  "sample_flow_api = inner_api.extend sample_inner_api
     \<lparr>ip4_mix = \<lambda>cfg m k. flow_a k XOR flow_b k XOR load_u32 m (flow_l4 k),
      ip6_mix = \<lambda>cfg m ip k. ucast (flow_t1 k XOR flow_t2 k), ip6_direct = \<lambda>ip. (True, ip + 40),
      tcp_initial = \<lambda>ip. ip + 40, udp_initial = \<lambda>ip. ip + 40, IP_FLOW_HASH_DEFAULT = 0x1F\<rparr>"

definition sample_outer4 :: mem where
  "sample_outer4 = list_mem ([0x45, 0, 0, 84, 0, 0, 0, 0, 64, IP_PROTOCOL_GRE, 0, 0, 10, 0, 0, 1, 10, 0, 0, 2] @ sample_gre)"

definition sample_fragment :: mem where
  "sample_fragment = list_mem ([0x60, 0, 0, 0, 0, 16, IP_PROTOCOL_IPV6_FRAGMENTATION, 64] @ replicate 32 1 @
     [IP_PROTOCOL_UDP, 0, 0, 1, 0, 0, 0, 7] @ [0, 53, 0, 53, 0, 8, 0, 0])"

definition sample_frame :: mem where
  "sample_frame = list_mem (replicate 12 2 @ vlan_frame [(ETYPE_DOT1AD, 7), (ETYPE_VLAN, 8)] ETHERNET_TYPE_IP4)"

section \<open>Lemmas\<close>

lemma same_at_trans: "\<lbrakk>same_at m p m' p' n; same_at m' p' m'' p'' n\<rbrakk> \<Longrightarrow> same_at m p m'' p'' n"
  by (simp add: same_at_def)

lemma same_at_part:
  assumes "same_at m' 0 m q n" and "same_at (list_mem bs) 0 m' (int k) (length bs)" and "k + length bs \<le> n"
  shows "same_at (list_mem bs) 0 m (q + int k) (length bs)"
  using same_at_trans [OF assms(2)] same_at_mono [OF assms(1,3)] by simp

lemma fold_u32_same:
  "\<lbrakk>same_at m p m' p' n; 16 \<le> n\<rbrakk> \<Longrightarrow> ip6_addr_fold_u32 m' p' = ip6_addr_fold_u32 m p"
  by (simp add: ip6_addr_fold_u32_def load_same load_same_at)

lemma packet_header_at:
  assumes "packet_ok A pkt" and "same_at (list_mem (inner_packet_bytes pkt)) 0 m q (length (inner_packet_bytes pkt))"
  shows "pkt = V4 header payload \<Longrightarrow> same_at (list_mem header) 0 m q 20"
    and "pkt = V6 first hop src dst exts proto payload \<Longrightarrow>
      same_at (list_mem src) 0 m (q + 8) 16 \<and> same_at (list_mem dst) 0 m (q + 24) 16"
proof -
  show "same_at (list_mem header) 0 m q 20" if "pkt = V4 header payload"
    using that assms same_at_part [OF assms(2), of header 0] list_mem_prefix [of header payload] by simp
  show "same_at (list_mem src) 0 m (q + 8) 16 \<and> same_at (list_mem dst) 0 m (q + 24) 16"
    if pkt: "pkt = V6 first hop src dst exts proto payload"
  proof -
    let ?chain = "snd (ext_chain exts proto)" and ?first = "first @ [fst (ext_chain exts proto), hop]"
    show ?thesis
      using assms(1) pkt same_at_part [OF assms(2), of src 8] same_at_part [OF assms(2), of dst 24]
        list_mem_middle [of src ?first "dst @ ?chain @ payload"] list_mem_middle [of dst "?first @ src" "?chain @ payload"]
      by simp
  qed
qed

lemma inner_addrs:
  assumes "packet_ok A pkt" and "same_at (list_mem (inner_packet_bytes pkt)) 0 m q (length (inner_packet_bytes pkt))"
    and "h = shift_hdr q (packet_hdr pkt)"
  shows "(if inner_is_v6 h then (ip6_addr_fold_u32 m (inner_ip h + 8), ip6_addr_fold_u32 m (inner_ip h + 24))
      else (ip4_src_address m (inner_ip h), ip4_dst_address m (inner_ip h))) = packet_addr32 pkt" (is ?A)
    and "(if inner_is_v6 h
      then (load_u64 m (inner_ip h + 8) XOR load_u64 m (inner_ip h + 16),
            load_u64 m (inner_ip h + 24) XOR load_u64 m (inner_ip h + 32))
      else (ucast (ip4_src_address m (inner_ip h)), ucast (ip4_dst_address m (inner_ip h)))) = packet_addr64 pkt" (is ?B)
proof -
  have "?A \<and> ?B"
  proof (cases pkt)
    case (V4 header payload)
    note s = packet_header_at(1) [OF assms(1,2) V4]
    show ?thesis
      using assms(3) V4 by (simp add: ip4_src_address_def ip4_dst_address_def load_same_at(2) [OF s])
  next
    case (V6 first hop src dst exts proto payload)
    note s = conjunct1 [OF packet_header_at(2) [OF assms(1,2) V6]] and d = conjunct2 [OF packet_header_at(2) [OF assms(1,2) V6]]
    show ?thesis
      using assms(3) V6 fold_u32_same [OF s] fold_u32_same [OF d] load_u64_same [OF s] load_u64_same [OF d]
        load_same_at(3) [OF s, of "num.Bit0 (num.Bit0 (num.Bit0 num.One))"]
        load_same_at(3) [OF d, of "num.Bit0 (num.Bit0 (num.Bit0 num.One))"]
      by (simp add: algebra_simps)
  qed
  then show ?A ?B by simp_all
qed

text \<open>Layer 4 of a packet inside another one.\<close>

lemma payload_at:
  assumes "packet_ok A pkt" and "holds m p (pre @ inner_packet_bytes pkt)"
  shows "holds m (p + int (length pre) + inner_l4 (packet_hdr pkt)) (packet_payload pkt)"
proof (cases pkt)
  case (V4 header payload)
  then show ?thesis
    using holds_packet [of m p "pre @ header" payload] assms by (simp add: holds_def algebra_simps)
next
  case (V6 first hop src dst exts proto payload)
  let ?h = "first @ [fst (ext_chain exts proto), hop] @ src @ dst @ snd (ext_chain exts proto)"
  show ?thesis
    using holds_packet [of m p "pre @ ?h" payload] assms V6 by (simp add: holds_def algebra_simps)
qed

lemma keys4_carried:
  assumes "inner_ok (inner_api.truncate F)" and "encap_ok e" and "packet_ok (inner_api.truncate F) pkt"
    and "cfg AND IP_FLOW_HASH_PEEK_INNER \<noteq> 0" and "carries4 (inner_api.truncate F) m ip e pkt"
  shows "ip4_flow_keys F m ip cfg =
    (let (a, b) = reverse_addrs cfg (select_addrs cfg (packet_addr32 pkt))
     in \<lparr>flow_a = a, flow_b = b, hash_protocol = inner_protocol (packet_hdr pkt),
         flow_l4 = ip + int (unat (ip4_header_bytes F m ip)) + int (length (encap_bytes e pkt)) + inner_l4 (packet_hdr pkt)\<rparr>)"
proof -
  let ?A = "inner_api.truncate F"
  let ?p = "ip + int (unat (ip4_header_bytes F m ip))"
  have A: "ip4_header_bytes ?A = ip4_header_bytes F" "ip4_is_fragment ?A = ip4_is_fragment F" by (simp_all add: inner_api.defs)
  have c: "\<not> ip4_is_fragment F m ip" "holds m ?p (encap_bytes e pkt @ inner_packet_bytes pkt)"
    using assms(5) unfolding carries4_def A by simp_all
  show ?thesis
    using inner_addrs(1) [OF assms(3) holds_packet [OF c(2)] refl, symmetric] assms(4) c(1)
      carries4_found [OF assms(1-3,5), unfolded A]
    by (auto simp: ip4_flow_keys_def Let_def select_addrs_def reverse_addrs_def split: if_splits)
qed

lemma keys6_carried:
  assumes "inner_ok (inner_api.truncate F)" and "encap_ok e" and "packet_ok (inner_api.truncate F) pkt"
    and "cfg AND IP_FLOW_HASH_PEEK_INNER \<noteq> 0" and "carries6 m ip e pkt"
  shows "ip6_flow_keys F m ip cfg =
    (let (t1, t2) = select_addrs cfg (packet_addr64 pkt); proto = inner_protocol (packet_hdr pkt);
         l4 = ip + 40 + int (length (encap_bytes e pkt)) + inner_l4 (packet_hdr pkt)
     in \<lparr>flow_t1 = t1, flow_t2 = t2, flow_protocol = proto, flow_is_udp = (proto = IP_PROTOCOL_UDP),
         flow_is_tcp_udp = is_tcp_udp proto, flow_tcp = if is_tcp_udp proto then l4 else tcp_initial F ip,
         flow_udp = l4\<rparr>)"
proof -
  have c: "m (ip + 6) = encap_protocol e pkt" "holds m (ip + 40) (encap_bytes e pkt @ inner_packet_bytes pkt)"
    using assms(5) unfolding carries6_def by simp_all
  have "m (ip + 6) \<in> {IP_PROTOCOL_IP_IN_IP, IP_PROTOCOL_IPV6, IP_PROTOCOL_GRE}" using c(1) by (cases e) auto
  then have p: "m (ip + 6) \<noteq> IP_PROTOCOL_IPV6_FRAGMENTATION" "\<not> is_tcp_udp (m (ip + 6))" "m (ip + 6) \<noteq> IP_PROTOCOL_TCP"
    "m (ip + 6) \<noteq> IP_PROTOCOL_UDP" "m (ip + 6) \<noteq> IP_PROTOCOL_IP6_HOP_BY_HOP_OPTIONS"
    by (auto simp: is_tcp_udp_def)
  then show ?thesis
    using inner_addrs(2) [OF assms(3) holds_packet [OF c(2)] refl, symmetric] assms(4) carries6_found(1) [OF assms(1-3,5)]
    by (auto simp: ip6_flow_keys_def ip6_skip_hop_by_hop_def Let_def select_addrs_def split: if_splits)
qed

lemma skip_hop_by_hop_fragment:
  assumes "(ucast b + 1) * 8 + 8 \<le> (payload_length :: u32)"
  shows "2 \<le> payload_length" and "(ucast (b :: u8) + 1) * 8 \<le> payload_length"
proof -
  have "unat ((ucast b + 1) * 8 + 8 :: u32) = 8 * unat b + 16"
    using unat_eh_len [of b] unsigned_less [where ?'a = nat, of b] unat_word_ariths(1) [of "ucast b * 8 + 8 :: u32" 8] by simp
  then show "2 \<le> payload_length" "(ucast b + 1) * 8 \<le> payload_length"
    using assms by (simp_all add: word_le_nat_alt)
qed

lemma keys6_fragment:
  assumes "fragment_at m ip = Some f"
  shows "ip6_flow_keys F m ip cfg =
    (let (t1, t2) = select_addrs cfg
       (load_u64 m (ip + 8) XOR load_u64 m (ip + 16), load_u64 m (ip + 24) XOR load_u64 m (ip + 32))
     in \<lparr>flow_t1 = t1, flow_t2 = t2, flow_protocol = m f, flow_is_udp = False, flow_is_tcp_udp = False,
         flow_tcp = tcp_initial F ip, flow_udp = udp_initial F ip\<rparr>)"
proof (cases "m (ip + 6) = IP_PROTOCOL_IPV6_FRAGMENTATION")
  case True
  then show ?thesis
    using assms by (auto simp: fragment_at_def ip6_flow_keys_def ip6_skip_hop_by_hop_def select_addrs_def Let_def split: if_splits)
next
  case False
  let ?n = "ucast (clib_net_to_host_u16 (load_u16 m (ip + 4))) :: u32" and ?l = "(ucast (m (ip + 41)) + 1) * 8 :: u32"
  have c: "m (ip + 6) = IP_PROTOCOL_IP6_HOP_BY_HOP_OPTIONS" "?l + 8 \<le> ?n" "m (ip + 40) = IP_PROTOCOL_IPV6_FRAGMENTATION"
    "f = ip + 40 + int (unat ?l)"
    using assms False by (auto simp: fragment_at_def Let_def simp del: of_nat_unat split: if_splits)
  then have "ip6_skip_hop_by_hop m (ip + 40) (m (ip + 6)) ?n = (IP_PROTOCOL_IPV6_FRAGMENTATION, f, ?l)"
    using skip_hop_by_hop_fragment [OF c(2)] by (simp add: ip6_skip_hop_by_hop_def Let_def add.commute [of 41 ip])
  then show ?thesis
    using c(1,2) by (simp add: ip6_flow_keys_def select_addrs_def Let_def)
qed

lemma vlan_ethertypes:
  assumes "holds m p (vlan_frame tags ethertype)"
  shows "tags = [] \<Longrightarrow> clib_net_to_host_u16 (load_u16 m p) = ethertype"
    and "tags = (tpid, tci) # rest \<Longrightarrow>
      clib_net_to_host_u16 (load_u16 m p) = tpid \<and> holds m (p + 4) (vlan_frame rest ethertype)"
proof -
  have l: "2 \<le> length (vlan_frame tags ethertype)" by (cases tags) (auto simp: be_bytes16_def)
  have "load_u16 m p = load_u16 (list_mem (vlan_frame tags ethertype)) 0"
    using load_same(1) [OF assms [unfolded holds_def] l] .
  then show "tags = [] \<Longrightarrow> clib_net_to_host_u16 (load_u16 m p) = ethertype"
    "tags = (tpid, tci) # rest \<Longrightarrow>
      clib_net_to_host_u16 (load_u16 m p) = tpid \<and> holds m (p + 4) (vlan_frame rest ethertype)"
    using assms holds_packet [of m p "be_bytes16 tpid @ be_bytes16 tci" "vlan_frame rest ethertype"]
    by (auto simp: mem_simps list_mem_def be_bytes16_def holds_def)
qed

section \<open>Properties\<close>



text \<open>C17:
  Fragments of an IPv6 datagram stay together: whatever the configuration, the flow hash of a packet with a fragment header,
  behind hop-by-hop options or not, is made of its addresses and the protocol that the fragment header names, and layer 4
  is marked as absent, for the first fragment, which has ports, as for the ones that have none.
\<close>

theorem fragments_stay_together:
  assumes "fragment_at m ip = Some f"
  shows "ip6_compute_flow_hash F m ip cfg =
    (let (t1, t2) = select_addrs cfg
       (load_u64 m (ip + 8) XOR load_u64 m (ip + 16), load_u64 m (ip + 24) XOR load_u64 m (ip + 32))
     in ip6_mix F cfg m ip \<lparr>flow_t1 = t1, flow_t2 = t2, flow_protocol = m f, flow_is_udp = False,
         flow_is_tcp_udp = False, flow_tcp = tcp_initial F ip, flow_udp = udp_initial F ip\<rparr>)"
  unfolding ip6_compute_flow_hash_def keys6_fragment [OF assms] by (simp add: split_def Let_def)

theorem fragments_stay_together_witness:
  "ip6_compute_flow_hash sample_flow_api sample_fragment 0 0x1F = 0"
proof -
  have "fragment_at sample_fragment 0 = Some 40" by code_simp
  then show ?thesis by (subst fragments_stay_together) (assumption, code_simp)
qed

text \<open>
  The source port of a VXLAN tunnel depends on the packet inside, also behind VLAN tags: for a frame with at most two tags,
  the first of 802.1Q or 802.1ad and the second of 802.1Q, the hash is the flow hash of the IPv4 or IPv6 packet behind them,
  and the generic hash of layer 2 for any other frame.
\<close>

theorem vxlan_entropy_from_inner_ip:
  assumes "tags_ok tags" and "holds m (eh + 12) (vlan_frame tags ethertype)"
    and "ethertype \<noteq> ETYPE_VLAN" and "ethertype \<noteq> ETYPE_DOT1AD" and "l3h = eh + 14 + 4 * int (length tags)"
  shows "vxlan_encap_inner_flow_hash F l2_hash m eh =
    (if ethertype = ETHERNET_TYPE_IP4 then ip4_compute_flow_hash F m l3h (IP_FLOW_HASH_DEFAULT F)
     else if ethertype = ETHERNET_TYPE_IP6 then ip6_compute_flow_hash F m l3h (IP_FLOW_HASH_DEFAULT F) else l2_hash)"
proof -
  consider "tags = []" | tpid tci where "tags = [(tpid, tci)]" "tpid = ETYPE_VLAN \<or> tpid = ETYPE_DOT1AD"
    | tpid tci tci' where "tags = [(tpid, tci), (ETYPE_VLAN, tci')]"
      "tpid = ETYPE_VLAN \<or> tpid = ETYPE_DOT1AD"
    using assms(1) by (cases tags rule: remdups_adj.cases) (auto simp: tags_ok_def)
  then show ?thesis
  proof cases
    case 1
    then show ?thesis
      using vlan_ethertypes(1) [OF assms(2)] assms(3-5) by (simp add: vxlan_encap_inner_flow_hash_def)
  next
    case 2
    note v = vlan_ethertypes(2) [OF assms(2) 2(1)]
    show ?thesis
      using 2 v vlan_ethertypes(1) [OF conjunct2 [OF v]] assms(3-5) by (simp add: vxlan_encap_inner_flow_hash_def)
  next
    case 3
    note v = vlan_ethertypes(2) [OF assms(2) 3(1)]
    note w = vlan_ethertypes(2) [OF conjunct2 [OF v] refl]
    show ?thesis
      using 3 v w vlan_ethertypes(1) [OF conjunct2 [OF w]] assms(3-5) by (simp add: vxlan_encap_inner_flow_hash_def)
  qed
qed

theorem vxlan_entropy_from_inner_ip_witness:
  "vxlan_encap_inner_flow_hash sample_flow_api 5 sample_frame 0 = ip4_compute_flow_hash sample_flow_api sample_frame 22 0x1F"
  using vxlan_entropy_from_inner_ip [of "[(ETYPE_DOT1AD, 7), (ETYPE_VLAN, 8)]" sample_frame 0
      ETHERNET_TYPE_IP4 22 sample_flow_api 5, OF _ _ _ _ _]
    list_mem_middle [of "vlan_frame [(ETYPE_DOT1AD, 7), (ETYPE_VLAN, 8)] ETHERNET_TYPE_IP4" "replicate 12 2" "[]"]
  by (simp add: tags_ok_def sample_frame_def holds_def sample_flow_api_def inner_api.defs)

end
