(* ===== verification/Vxlan_Decap_Any.thy ===== *)
theory Vxlan_Decap_Any
  imports Vxlan_Tunnel
begin

text \<open>
  Source-independent VXLAN decapsulation, patch 0017: a tunnel created with \<^verbatim>\<open>VXLAN_DECAP_ANY_FLAG\<close> also owns
  an entry of the tunnel hash that is keyed on the local address and the VNI alone, and its interface is marked so that
  the BVI routes frames whatever their destination MAC.

  The state is the part of \<^verbatim>\<open>vxlan_main\<close> and of \<^verbatim>\<open>l2_bvi.c\<close> that the patch works on: the pool of tunnels, the two hash tables,
  the bitmap. The code of VPP between the hunks (the exact key of a tunnel, the outcome of an insertion into a hash) is in
  \<open>decap_api\<close>. The lemmas show that the shared entries follow the tunnels that own them.
\<close>

section \<open>State\<close>

type_synonym ip46 = "u64 \<times> u64" \<comment> \<open>\<^verbatim>\<open>as_u64[0]\<close> and \<^verbatim>\<open>as_u64[1]\<close>\<close>

definition ip46_ip4 :: "ip46 \<Rightarrow> u32" where
  "ip46_ip4 a = ucast (drop_bit 32 (snd a))"

record decap_tunnel =
  src_ip :: ip46
  dst_ip :: ip46
  vni :: u32
  encap_fib_index :: u32
  src_port :: u16
  decap_sw_if_index :: u32
  decap_next_index :: u32
  decap_any :: bool
  is_ip6 :: bool

type_synonym key4 = "u64 \<times> u64"
type_synonym key6 = "u64 \<times> u64 \<times> u64"

record decap_state =
  decap_pool :: "decap_tunnel option list"
  by_key4 :: "key4 \<rightharpoonup> u64"
  by_key6 :: "key6 \<rightharpoonup> u64"
  l3_promiscuous_bitmap :: "u32 set"

text \<open>\<open>key1_of\<close>: the word of port, FIB and VNI; \<open>exact0_4\<close>, \<open>exact0_6\<close>: the rest of the key of one tunnel.\<close>

record decap_api =
  key1_of :: "decap_tunnel \<Rightarrow> u64"
  exact0_4 :: "decap_tunnel \<Rightarrow> u64"
  exact0_6 :: "decap_tunnel \<Rightarrow> u64 \<times> u64"
  di_as_u64 :: "u32 \<Rightarrow> u32 \<Rightarrow> u64"
  ip46_address_is_multicast :: "ip46 \<Rightarrow> bool"
  add_fails4 :: "(key4 \<rightharpoonup> u64) \<Rightarrow> key4 \<Rightarrow> bool"
  add_fails6 :: "(key6 \<rightharpoonup> u64) \<Rightarrow> key6 \<Rightarrow> bool"
  VXLAN_INPUT_NEXT_L2_INPUT :: u32

definition VXLAN_DECAP_ANY_FLAG :: u32 where "VXLAN_DECAP_ANY_FLAG = push_bit 31 1"

section \<open>The bitmap of \<^verbatim>\<open>l2_bvi.c\<close>\<close>

definition l2_bvi_set_l3_promiscuous :: "u32 \<Rightarrow> bool \<Rightarrow> u32 set \<Rightarrow> u32 set" where
  "l2_bvi_set_l3_promiscuous sw_if_index enable bitmap =
     (if sw_if_index = -1 then bitmap
      else if enable then insert sw_if_index bitmap else bitmap - {sw_if_index})"

definition l2_bvi_l3_promiscuous :: "u32 set \<Rightarrow> u32 \<Rightarrow> bool" where
  "l2_bvi_l3_promiscuous bitmap rx_index \<longleftrightarrow> rx_index \<noteq> -1 \<and> rx_index \<in> bitmap"

text \<open>The end of the MAC check of \<^verbatim>\<open>l2_to_bvi\<close>: the error returned, if any.\<close>

definition l2_to_bvi_mac_check :: "u32 set \<Rightarrow> u32 \<Rightarrow> u32 \<Rightarrow> u32 option" where
  "l2_to_bvi_mac_check bitmap rx_index rv =
     (if rv \<noteq> 0 \<and> \<not> l2_bvi_l3_promiscuous bitmap rx_index then Some rv else None)"

section \<open>The hash tables\<close>

text \<open>\<^verbatim>\<open>clib_bihash_add_del (..., 1)\<close>: whether it failed, and the table. An entry with the key is replaced.\<close>

definition bihash_add :: "(('k \<rightharpoonup> u64) \<Rightarrow> 'k \<Rightarrow> bool) \<Rightarrow> ('k \<rightharpoonup> u64) \<Rightarrow> 'k \<Rightarrow> u64 \<Rightarrow> bool \<times> ('k \<rightharpoonup> u64)" where
  "bihash_add fails tbl k v = (if fails tbl k then (True, tbl) else (False, tbl(k \<mapsto> v)))"

text \<open>The exact entry, then the wildcard entry if the tunnel has one; the exact entry is removed if that fails.\<close>

definition add_keys ::
  "(('k \<rightharpoonup> u64) \<Rightarrow> 'k \<Rightarrow> bool) \<Rightarrow> 'k \<Rightarrow> 'k option \<Rightarrow> u64 \<Rightarrow> ('k \<rightharpoonup> u64) \<Rightarrow> bool \<times> ('k \<rightharpoonup> u64)" where
  "add_keys fails key wildcard v tbl =
     (let (add_failed, tbl) = bihash_add fails tbl key v
      in case wildcard of
           None \<Rightarrow> (add_failed, tbl)
         | Some keyw \<Rightarrow>
             if add_failed then (True, tbl)
             else let (failed, tbl) = bihash_add fails tbl keyw v
                  in if failed then (True, tbl(key := None)) else (False, tbl))"

text \<open>The exact entry is removed; the wildcard entry is given to the survivor, or removed.\<close>

definition del_keys ::
  "(('k \<rightharpoonup> u64) \<Rightarrow> 'k \<Rightarrow> bool) \<Rightarrow> 'k \<Rightarrow> 'k option \<Rightarrow> u64 option \<Rightarrow> ('k \<rightharpoonup> u64) \<Rightarrow> ('k \<rightharpoonup> u64)" where
  "del_keys fails key wildcard survivor tbl =
     (let tbl = tbl(key := None)
      in case wildcard of
           None \<Rightarrow> tbl
         | Some keyw \<Rightarrow>
             (case survivor of
                None \<Rightarrow> tbl(keyw := None)
              | Some v \<Rightarrow>
                  let (failed, tbl) = bihash_add fails tbl keyw v in if failed then tbl(keyw := None) else tbl))"

section \<open>Adding and deleting a tunnel\<close>

definition decode_decap_any :: "decap_api \<Rightarrow> decap_tunnel \<Rightarrow> decap_tunnel" where
  "decode_decap_any A t =
     (let n = decap_next_index t;
          (any, n) = (if n \<noteq> -1 \<and> n AND VXLAN_DECAP_ANY_FLAG \<noteq> 0 then (True, n AND NOT VXLAN_DECAP_ANY_FLAG) else (False, n));
          n = (if n = -1 then VXLAN_INPUT_NEXT_L2_INPUT A else n)
      in t\<lparr>decap_next_index := n, decap_any := any\<rparr>)"

definition exact4 :: "decap_api \<Rightarrow> decap_tunnel \<Rightarrow> key4" where
  "exact4 A t = (exact0_4 A t, key1_of A t)"

definition exact6 :: "decap_api \<Rightarrow> decap_tunnel \<Rightarrow> key6" where
  "exact6 A t = (fst (exact0_6 A t), snd (exact0_6 A t), key1_of A t)"

definition wildcard_key4 :: "decap_api \<Rightarrow> decap_tunnel \<Rightarrow> key4" where
  "wildcard_key4 A t = (push_bit 32 (ucast (ip46_ip4 (src_ip t))), key1_of A t)"

definition wildcard_key6 :: "decap_api \<Rightarrow> decap_tunnel \<Rightarrow> key6" where
  "wildcard_key6 A t = (fst (src_ip t), snd (src_ip t), key1_of A t)"

definition owns_wildcard :: "decap_api \<Rightarrow> decap_tunnel \<Rightarrow> bool" where
  "owns_wildcard A t \<longleftrightarrow> decap_any t \<and> \<not> ip46_address_is_multicast A (dst_ip t)"

definition decap_value :: "decap_api \<Rightarrow> decap_tunnel \<Rightarrow> u64" where
  "decap_value A t = di_as_u64 A (decap_sw_if_index t) (decap_next_index t)"

definition slot_at :: "'a option list \<Rightarrow> nat \<Rightarrow> 'a option" where
  "slot_at xs i = (if i < length xs then xs ! i else None)"

definition slot_set :: "nat \<Rightarrow> 'a \<Rightarrow> 'a option list \<Rightarrow> 'a option list" where
  "slot_set i x xs = (if i < length xs then xs[i := Some x] else xs @ [Some x])"

text \<open>
  The part of \<^verbatim>\<open>vnet_vxlan_add_del_tunnel\<close> that adds a tunnel in the slot \<open>i\<close>. Result: whether the tunnel could not be entered into
  the hash; the slot is released then.
\<close>

definition vxlan_add_tunnel :: "decap_api \<Rightarrow> nat \<Rightarrow> decap_tunnel \<Rightarrow> decap_state \<Rightarrow> bool \<times> decap_state" where
  "vxlan_add_tunnel A i a s =
     (let t = decode_decap_any A a;
          (add_failed, s) =
            (if is_ip6 t
             then let (failed, tbl) = add_keys (add_fails6 A) (exact6 A t)
                        (if owns_wildcard A t then Some (wildcard_key6 A t) else None) (of_nat i) (by_key6 s)
                  in (failed, s\<lparr>by_key6 := tbl\<rparr>)
             else let (failed, tbl) = add_keys (add_fails4 A) (exact4 A t)
                        (if owns_wildcard A t then Some (wildcard_key4 A t) else None) (decap_value A t) (by_key4 s)
                  in (failed, s\<lparr>by_key4 := tbl\<rparr>))
      in if add_failed then (True, s)
         else (False, s\<lparr>decap_pool := slot_set i t (decap_pool s),
                l3_promiscuous_bitmap := (if decap_any t
                  then l2_bvi_set_l3_promiscuous (decap_sw_if_index t) True (l3_promiscuous_bitmap s)
                  else l3_promiscuous_bitmap s)\<rparr>))"

text \<open>The first other tunnel of the pool that owns the same wildcard entry.\<close>

definition live :: "'a option list \<Rightarrow> (nat \<times> 'a) list" where
  "live xs = map (\<lambda>(i, x). (i, the x)) (filter (\<lambda>(i, x). x \<noteq> None) (enumerate 0 xs))"

definition same_group :: "decap_tunnel \<Rightarrow> decap_tunnel \<Rightarrow> bool" where
  "same_group st t \<longleftrightarrow> vni st = vni t \<and> encap_fib_index st = encap_fib_index t \<and> src_port st = src_port t"

definition survivor4 :: "decap_api \<Rightarrow> nat \<Rightarrow> decap_tunnel \<Rightarrow> decap_state \<Rightarrow> (nat \<times> decap_tunnel) option" where
  "survivor4 A i t s = List.find (\<lambda>(j, st). j \<noteq> i \<and> owns_wildcard A st \<and>
     ip46_ip4 (src_ip st) = ip46_ip4 (src_ip t) \<and> same_group st t) (live (decap_pool s))"

definition survivor6 :: "decap_api \<Rightarrow> nat \<Rightarrow> decap_tunnel \<Rightarrow> decap_state \<Rightarrow> (nat \<times> decap_tunnel) option" where
  "survivor6 A i t s = List.find (\<lambda>(j, st). j \<noteq> i \<and> owns_wildcard A st \<and>
     src_ip st = src_ip t \<and> same_group st t) (live (decap_pool s))"

definition vxlan_del_tunnel :: "decap_api \<Rightarrow> nat \<Rightarrow> decap_state \<Rightarrow> decap_state" where
  "vxlan_del_tunnel A i s =
     (case slot_at (decap_pool s) i of
        None \<Rightarrow> s
      | Some t \<Rightarrow>
          let s = (if decap_any t
                then s\<lparr>l3_promiscuous_bitmap := l2_bvi_set_l3_promiscuous (decap_sw_if_index t) False (l3_promiscuous_bitmap s)\<rparr>
                else s);
              s = (if is_ip6 t
                then s\<lparr>by_key6 := del_keys (add_fails6 A) (exact6 A t)
                  (if owns_wildcard A t then Some (wildcard_key6 A t) else None)
                  (map_option (\<lambda>(j, st). of_nat j) (survivor6 A i t s)) (by_key6 s)\<rparr>
                else s\<lparr>by_key4 := del_keys (add_fails4 A) (exact4 A t)
                  (if owns_wildcard A t then Some (wildcard_key4 A t) else None)
                  (map_option (\<lambda>(j, st). decap_value A st) (survivor4 A i t s)) (by_key4 s)\<rparr>)
          in s\<lparr>decap_pool := (decap_pool s)[i := None]\<rparr>)"

section \<open>The search for the tunnel of a packet\<close>

text \<open>The step that the patch puts behind a miss of the exact entry; \<open>rest\<close> is the search for multicast.\<close>

definition vxlan4_find_wildcard :: "(key4 \<rightharpoonup> u64) \<Rightarrow> u32 \<Rightarrow> u64 \<Rightarrow> u64 option \<Rightarrow> u64 option" where
  "vxlan4_find_wildcard tbl dst key1 rest =
     (case tbl (push_bit 32 (ucast dst), key1) of Some v \<Rightarrow> Some v | None \<Rightarrow> rest)"

text \<open>Result: interface and next node of the tunnel.\<close>

definition vxlan6_find_wildcard :: "decap_state \<Rightarrow> ip46 \<Rightarrow> u64 \<Rightarrow> (u32 \<times> u32) option" where
  "vxlan6_find_wildcard s dst key2 =
     Option.bind (by_key6 s (fst dst, snd dst, key2)) (\<lambda>v.
       map_option (\<lambda>tw. (decap_sw_if_index tw, decap_next_index tw)) (slot_at (decap_pool s) (unat v)))"

section \<open>Specification\<close>

text \<open>
  The owners of the wildcard entries, and what an entry must be: that of an owner; and, where the table is \<open>complete\<close>, there is an
  entry if there is an owner.
\<close>

definition owners4 :: "decap_api \<Rightarrow> decap_state \<Rightarrow> (key4 \<times> u64) set" where
  "owners4 A s = {(wildcard_key4 A t, decap_value A t) | j t.
     slot_at (decap_pool s) j = Some t \<and> \<not> is_ip6 t \<and> owns_wildcard A t}"

definition owners6 :: "decap_api \<Rightarrow> decap_state \<Rightarrow> (key6 \<times> u64) set" where
  "owners6 A s = {(wildcard_key6 A t, of_nat j) | j t.
     slot_at (decap_pool s) j = Some t \<and> is_ip6 t \<and> owns_wildcard A t}"

definition entry_ok :: "bool \<Rightarrow> ('k \<rightharpoonup> u64) \<Rightarrow> ('k \<times> u64) set \<Rightarrow> 'k \<Rightarrow> bool" where
  "entry_ok complete tbl owners k \<longleftrightarrow>
     (case tbl k of None \<Rightarrow> complete \<longrightarrow> k \<notin> fst ` owners | Some v \<Rightarrow> (k, v) \<in> owners)"

text \<open>Documented behaviour: the key tells port, FIB and VNI apart as long as FIB indices fit in 16 bits.\<close>

definition decap_ok :: "decap_api \<Rightarrow> bool" where
  "decap_ok A \<longleftrightarrow> (\<forall>t t'. encap_fib_index t < 2 ^ 16 \<and> encap_fib_index t' < 2 ^ 16 \<longrightarrow> (key1_of A t = key1_of A t' \<longleftrightarrow> same_group t t'))"

text \<open>
  The keys of wildcard entries: the address of a remote endpoint is not 0 (IPv4), nor one of the local addresses \<open>L\<close> of
  the decap-any tunnels (IPv6).
\<close>

definition wild4 :: "key4 \<Rightarrow> bool" where
  "wild4 k \<longleftrightarrow> (ucast (fst k) :: u32) = 0"

definition wild6 :: "ip46 set \<Rightarrow> key6 \<Rightarrow> bool" where
  "wild6 L k \<longleftrightarrow> (fst k, fst (snd k)) \<in> L"

definition tunnel_ok :: "decap_api \<Rightarrow> ip46 set \<Rightarrow> decap_tunnel \<Rightarrow> bool" where
  "tunnel_ok A L t \<longleftrightarrow> decap_sw_if_index t \<noteq> -1 \<and> encap_fib_index t < 2 ^ 16 \<and> \<not> wild4 (exact4 A t) \<and> \<not> wild6 L (exact6 A t) \<and>
     (is_ip6 t \<and> owns_wildcard A t \<longrightarrow> src_ip t \<in> L)"

text \<open>A new tunnel: a free slot of the pool, an interface of its own, a key that no tunnel has.\<close>

definition add_guard :: "decap_api \<Rightarrow> ip46 set \<Rightarrow> nat \<Rightarrow> decap_tunnel \<Rightarrow> decap_state \<Rightarrow> bool" where
  "add_guard A L i t s \<longleftrightarrow> i \<le> length (decap_pool s) \<and> int i < 2 ^ 32 \<and> slot_at (decap_pool s) i = None \<and> tunnel_ok A L t \<and>
     list_all (\<lambda>st. case st of None \<Rightarrow> True | Some t' \<Rightarrow> decap_sw_if_index t' \<noteq> decap_sw_if_index t) (decap_pool s) \<and>
     (if is_ip6 t then by_key6 s (exact6 A t) = None else by_key4 s (exact4 A t) = None)"

text \<open>No tunnel of the other address family looks like an owner of the entry of the tunnel in slot \<open>i\<close>.\<close>

definition aliases :: "decap_api \<Rightarrow> decap_tunnel \<Rightarrow> decap_tunnel \<Rightarrow> bool" where
  "aliases A st t \<longleftrightarrow> is_ip6 st \<noteq> is_ip6 t \<and> owns_wildcard A st \<and> owns_wildcard A t \<and> same_group st t \<and>
     (if is_ip6 t then src_ip st = src_ip t else ip46_ip4 (src_ip st) = ip46_ip4 (src_ip t))"

definition no_alias :: "decap_api \<Rightarrow> nat \<Rightarrow> decap_state \<Rightarrow> bool" where
  "no_alias A i s \<longleftrightarrow> (case slot_at (decap_pool s) i of None \<Rightarrow> True
     | Some t \<Rightarrow> list_all (\<lambda>(j, st). \<not> aliases A st t) (live (decap_pool s)))"

definition decap_init :: decap_state where
  "decap_init = \<lparr>decap_pool = [], by_key4 = Map.empty, by_key6 = Map.empty, l3_promiscuous_bitmap = {}\<rparr>"

text \<open>The entry of the tunnel in slot \<open>i\<close> has to go to a survivor when the tunnel is deleted, and the hash refuses it.\<close>

definition repoint_fails :: "decap_api \<Rightarrow> nat \<Rightarrow> decap_state \<Rightarrow> bool" where
  "repoint_fails A i s \<longleftrightarrow> (case slot_at (decap_pool s) i of None \<Rightarrow> False
     | Some t \<Rightarrow> owns_wildcard A t \<and>
         (if is_ip6 t
          then survivor6 A i t s \<noteq> None \<and> add_fails6 A ((by_key6 s)(exact6 A t := None)) (wildcard_key6 A t)
          else survivor4 A i t s \<noteq> None \<and> add_fails4 A ((by_key4 s)(exact4 A t := None)) (wildcard_key4 A t)))"

text \<open>The states of \<open>decap_state\<close> that tunnels added and deleted lead to, and whether every entry could be handed on so far.\<close>

inductive vxlan_reachable :: "decap_api \<Rightarrow> ip46 set \<Rightarrow> bool \<Rightarrow> decap_state \<Rightarrow> bool" for A L where
  init: "vxlan_reachable A L True decap_init"
| add: "\<lbrakk>vxlan_reachable A L complete s; add_guard A L i (decode_decap_any A a) s\<rbrakk> \<Longrightarrow>
    vxlan_reachable A L complete (snd (vxlan_add_tunnel A i a s))"
| del: "\<lbrakk>vxlan_reachable A L complete s; no_alias A i s\<rbrakk> \<Longrightarrow>
    vxlan_reachable A L (complete \<and> \<not> repoint_fails A i s) (vxlan_del_tunnel A i s)"

definition decap_tables_ok :: "decap_api \<Rightarrow> ip46 set \<Rightarrow> bool \<Rightarrow> decap_state \<Rightarrow> bool" where
  "decap_tables_ok A L complete s \<longleftrightarrow>
     (\<forall>k. wild4 k \<longrightarrow> entry_ok complete (by_key4 s) (owners4 A s) k) \<and>
     (\<forall>k. wild6 L k \<longrightarrow> entry_ok complete (by_key6 s) (owners6 A s) k)"

definition decap_pool_ok :: "decap_api \<Rightarrow> ip46 set \<Rightarrow> decap_state \<Rightarrow> bool" where
  "decap_pool_ok A L s \<longleftrightarrow>
     (\<forall>j t. slot_at (decap_pool s) j = Some t \<longrightarrow> tunnel_ok A L t \<and> j < 2 ^ 32) \<and>
     (\<forall>j t j' t'. slot_at (decap_pool s) j = Some t \<and> slot_at (decap_pool s) j' = Some t' \<and>
        decap_sw_if_index t = decap_sw_if_index t' \<longrightarrow> j = j') \<and>
     (\<forall>i. i \<in> l3_promiscuous_bitmap s \<longleftrightarrow>
        (\<exists>j t. slot_at (decap_pool s) j = Some t \<and> decap_any t \<and> decap_sw_if_index t = i))"

text \<open>The tunnels that terminate packets to \<open>dst\<close> with the given port, FIB and VNI from any source.\<close>

definition terminates4 :: "decap_api \<Rightarrow> decap_state \<Rightarrow> u32 \<Rightarrow> u64 \<Rightarrow> decap_tunnel \<Rightarrow> bool" where
  "terminates4 A s dst key1 t \<longleftrightarrow> Some t \<in> set (decap_pool s) \<and> \<not> is_ip6 t \<and> owns_wildcard A t \<and>
     ip46_ip4 (src_ip t) = dst \<and> key1_of A t = key1"

definition terminates6 :: "decap_api \<Rightarrow> decap_state \<Rightarrow> ip46 \<Rightarrow> u64 \<Rightarrow> decap_tunnel \<Rightarrow> bool" where
  "terminates6 A s dst key2 t \<longleftrightarrow> Some t \<in> set (decap_pool s) \<and> is_ip6 t \<and> owns_wildcard A t \<and>
     src_ip t = dst \<and> key1_of A t = key2"

definition decap_any_interface :: "decap_state \<Rightarrow> u32 \<Rightarrow> bool" where
  "decap_any_interface s i \<longleftrightarrow> list_ex (\<lambda>(j, t). decap_any t \<and> decap_sw_if_index t = i) (live (decap_pool s))"

definition tunnel_interface :: "decap_state \<Rightarrow> u32 \<Rightarrow> bool" where
  "tunnel_interface s i \<longleftrightarrow> list_ex (\<lambda>(j, t). decap_sw_if_index t = i) (live (decap_pool s))"

text \<open>Samples: two IPv4 tunnels and an IPv6 tunnel of VNI 100, the last with a local address that ends in that of the first.\<close>

definition sample_decap_api :: decap_api where
  "sample_decap_api = \<lparr>key1_of = \<lambda>t. key_port_fib_vni (src_port t) (encap_fib_index t) (vni t), exact0_4 = \<lambda>t. key_addresses (ip46_ip4 (src_ip t)) (ip46_ip4 (dst_ip t)),
     exact0_6 = dst_ip, di_as_u64 = \<lambda>i n. le64 i n, ip46_address_is_multicast = \<lambda>a. False,
     add_fails4 = \<lambda>tbl k. False, add_fails6 = \<lambda>tbl k. False, VXLAN_INPUT_NEXT_L2_INPUT = 1\<rparr>"

definition sample_tunnel4 :: "u32 \<Rightarrow> u32 \<Rightarrow> decap_tunnel" where
  "sample_tunnel4 remote i = \<lparr>src_ip = (0, push_bit 32 0x0100000A), dst_ip = (0, push_bit 32 (ucast remote)), vni = 100,
     encap_fib_index = 0, src_port = 4789, decap_sw_if_index = i, decap_next_index = VXLAN_DECAP_ANY_FLAG OR 2,
     decap_any = False, is_ip6 = False\<rparr>"

definition sample_tunnel6 :: decap_tunnel where
  "sample_tunnel6 = \<lparr>src_ip = (0xB80D0120, push_bit 32 0x0100000A), dst_ip = (0xB80D0120, 7), vni = 100,
     encap_fib_index = 0, src_port = 4789, decap_sw_if_index = 9, decap_next_index = VXLAN_DECAP_ANY_FLAG OR 2,
     decap_any = False, is_ip6 = True\<rparr>"

text \<open>The first tunnel replaced by the second.\<close>

definition sample_decap_state :: decap_state where
  "sample_decap_state = vxlan_del_tunnel sample_decap_api 0
     (snd (vxlan_add_tunnel sample_decap_api 1 (sample_tunnel4 2 6)
        (snd (vxlan_add_tunnel sample_decap_api 0 (sample_tunnel4 1 5) decap_init))))"

definition sample_crossed_state :: decap_state where
  "sample_crossed_state = snd (vxlan_add_tunnel sample_decap_api 1 sample_tunnel6
     (snd (vxlan_add_tunnel sample_decap_api 0 (sample_tunnel4 1 5) decap_init)))"

definition sample_decap_vxlan :: vxlan_api where
  "sample_decap_vxlan = \<lparr>vxlan4_tunnel_by_key = by_key4 sample_decap_state, vxlan6_tunnel_by_key = Map.empty,
     vxlan_tunnels = Map.empty,
     decap_info_of_u64 = \<lambda>v. \<lparr>di_sw_if_index = ucast v, di_next_index = 0, di_error = VXLAN_ERROR_NONE\<rparr>,
     decap_info_local_ip = \<lambda>v. 0, ip4_address_is_multicast = \<lambda>a. False, ip6_address_is_multicast = \<lambda>a. False,
     ip4_next_header = \<lambda>m p. p + 20, ip6_next_header = \<lambda>m p. p + 40, VXLAN_FLAGS_I = 8, VXLAN_INPUT_NEXT_DROP = 0\<rparr>"

definition sample_decap_packet :: mem where
  "sample_decap_packet i = (if i = 12 then 9 else if i = 16 then 10 else if i = 19 then 1 else if i = 22 then 0xB5
     else if i = 23 then 0x12 else if i = 28 then 8 else if i = 32 then 100 else 0)"

section \<open>Lemmas\<close>

lemma slot_at_set: "i \<le> length xs \<Longrightarrow> slot_at (slot_set i x xs) j = (if j = i then Some x else slot_at xs j)"
  by (auto simp: slot_at_def slot_set_def nth_append)

lemma slot_at_clear: "slot_at (xs[i := None]) j = (if j = i then None else slot_at xs j)"
  by (auto simp: slot_at_def)

lemma set_live: "(j, x) \<in> set (live xs) \<longleftrightarrow> slot_at xs j = Some x"
  by (force simp: live_def slot_at_def in_set_enumerate_eq)

text \<open>The two operations on a table, for any kind of key.\<close>

lemma add_keys_ok:
  assumes "add_keys fails key wildcard v tbl = (False, tbl')" and "\<And>k. W k \<Longrightarrow> entry_ok c tbl owners k" and "\<not> W key" and "W k"
  shows "entry_ok c tbl' (owners \<union> (case wildcard of None \<Rightarrow> {} | Some w \<Rightarrow> {(w, v)})) k"
  using assms(1) assms(2) [OF assms(4)] assms(3,4)
  by (auto simp: add_keys_def bihash_add_def entry_ok_def image_iff split: if_splits option.splits)

lemma add_keys_failed:
  "\<lbrakk>add_keys fails key wildcard v tbl = (True, tbl'); tbl key = None; wildcard \<noteq> Some key\<rbrakk> \<Longrightarrow> tbl' = tbl"
  by (auto simp: add_keys_def bihash_add_def split: if_splits option.splits)

lemma del_keys_ok:
  assumes "\<And>k. W k \<Longrightarrow> entry_ok c tbl owners k" and "\<not> W key" and "W k" and "c' \<Longrightarrow> c"
    and "\<And>w. \<lbrakk>c'; wildcard = Some w; survivor \<noteq> None\<rbrakk> \<Longrightarrow> \<not> fails (tbl(key := None)) w"
    and "wildcard = None \<Longrightarrow> owners' = owners"
    and "\<And>w. wildcard = Some w \<Longrightarrow> W w \<and> (\<forall>k v. k \<noteq> w \<longrightarrow> (k, v) \<in> owners' \<longleftrightarrow> (k, v) \<in> owners) \<and>
      (case survivor of None \<Rightarrow> w \<notin> fst ` owners' | Some v \<Rightarrow> (w, v) \<in> owners')"
  shows "entry_ok c' (del_keys fails key wildcard survivor tbl) owners' k"
proof (cases wildcard)
  case None
  then show ?thesis using assms(1) [OF assms(3)] assms(2,3,4,6) by (auto simp: del_keys_def entry_ok_def split: option.splits)
next
  case (Some w)
  note w = assms(7) [OF Some]
  then have "key \<noteq> w" "key \<noteq> k" using assms(2,3) by blast+
  then show ?thesis
    using w Some assms(1) [OF assms(3)] assms(4) assms(5) [OF _ Some]
    by (auto simp: del_keys_def bihash_add_def entry_ok_def image_iff Let_def split: option.splits if_splits)
qed

lemma entry_ok_mono: "\<lbrakk>entry_ok c tbl owners k; c' \<Longrightarrow> c\<rbrakk> \<Longrightarrow> entry_ok c' tbl owners k"
  by (auto simp: entry_ok_def split: option.splits)

lemma wild_keys:
  "wild4 (wildcard_key4 A t)" "\<lbrakk>tunnel_ok A L t; is_ip6 t; owns_wildcard A t\<rbrakk> \<Longrightarrow> wild6 L (wildcard_key6 A t)"
  by (auto simp: wild4_def wildcard_key4_def wild6_def wildcard_key6_def tunnel_ok_def bit_simps intro: bit_word_eqI)

lemma owners_set:
  assumes "i \<le> length (decap_pool s)" and "slot_at (decap_pool s) i = None" and "decap_pool s' = slot_set i t (decap_pool s)"
  shows "owners4 A s' = owners4 A s \<union>
      (if \<not> is_ip6 t \<and> owns_wildcard A t then {(wildcard_key4 A t, decap_value A t)} else {})"
    and "owners6 A s' = owners6 A s \<union> (if is_ip6 t \<and> owns_wildcard A t then {(wildcard_key6 A t, of_nat i)} else {})"
  using assms(2)
  by (auto simp: owners4_def owners6_def assms(3) slot_at_set [OF assms(1)] split: if_splits) (metis option.distinct(1))+

lemma tables_add:
  assumes "decap_tables_ok A L c s" and "i \<le> length (decap_pool s)" and "slot_at (decap_pool s) i = None" and "tunnel_ok A L t"
    and "decap_pool s' = slot_set i t (decap_pool s)"
    and "\<not> is_ip6 t \<Longrightarrow> add_keys (add_fails4 A) (exact4 A t)
      (if owns_wildcard A t then Some (wildcard_key4 A t) else None) (decap_value A t) (by_key4 s) = (False, by_key4 s') \<and>
      by_key6 s' = by_key6 s"
    and "is_ip6 t \<Longrightarrow> add_keys (add_fails6 A) (exact6 A t)
      (if owns_wildcard A t then Some (wildcard_key6 A t) else None) (of_nat i) (by_key6 s) = (False, by_key6 s') \<and>
      by_key4 s' = by_key4 s"
  shows "decap_tables_ok A L c s'"
proof (cases "is_ip6 t")
  case True
  have ok: "\<And>k. wild6 L k \<Longrightarrow> entry_ok c (by_key6 s) (owners6 A s) k" "\<not> wild6 L (exact6 A t)"
    using assms(1,4) unfolding decap_tables_ok_def tunnel_ok_def by blast+
  have "entry_ok c (by_key6 s') (owners6 A s') k" if "wild6 L k" for k
    using add_keys_ok [OF conjunct1 [OF assms(7) [OF True]] ok that]
    by (simp add: owners_set [OF assms(2,3,5)] True split: if_splits)
  then show ?thesis using assms(1,7) True by (simp add: decap_tables_ok_def owners_set(1) [OF assms(2,3,5)])
next
  case False
  have ok: "\<And>k. wild4 k \<Longrightarrow> entry_ok c (by_key4 s) (owners4 A s) k" "\<not> wild4 (exact4 A t)"
    using assms(1,4) unfolding decap_tables_ok_def tunnel_ok_def by blast+
  have "entry_ok c (by_key4 s') (owners4 A s') k" if "wild4 k" for k
    using add_keys_ok [OF conjunct1 [OF assms(6) [OF False]] ok that]
    by (simp add: owners_set [OF assms(2,3,5)] False split: if_splits)
  then show ?thesis using assms(1,6) False by (simp add: decap_tables_ok_def owners_set(2) [OF assms(2,3,5)])
qed

lemma pool_add:
  assumes "decap_pool_ok A L s" and "i \<le> length (decap_pool s)" and "i < 2 ^ 32" and "slot_at (decap_pool s) i = None"
    and "tunnel_ok A L t" and "decap_pool s' = slot_set i t (decap_pool s)"
    and "\<And>j t'. slot_at (decap_pool s) j = Some t' \<Longrightarrow> decap_sw_if_index t' \<noteq> decap_sw_if_index t"
    and "l3_promiscuous_bitmap s' =
      (if decap_any t then insert (decap_sw_if_index t) (l3_promiscuous_bitmap s) else l3_promiscuous_bitmap s)"
  shows "decap_pool_ok A L s'"
  using assms unfolding decap_pool_ok_def assms(6,8) slot_at_set [OF assms(2)] by (auto split: if_splits; metis option.distinct(1))

lemma add_failed_unchanged:
  assumes "add_guard A L i (decode_decap_any A a) s" and "fst (vxlan_add_tunnel A i a s)"
  shows "snd (vxlan_add_tunnel A i a s) = s"
proof -
  let ?t = "decode_decap_any A a"
  have "wildcard_key4 A ?t \<noteq> exact4 A ?t" "is_ip6 ?t \<Longrightarrow> owns_wildcard A ?t \<Longrightarrow> wildcard_key6 A ?t \<noteq> exact6 A ?t"
    using assms(1) wild_keys by (metis add_guard_def tunnel_ok_def)+
  then show ?thesis
    using assms by (auto simp: vxlan_add_tunnel_def add_guard_def Let_def split: prod.splits if_splits dest!: add_keys_failed)
qed

lemma inv_add:
  assumes "decap_tables_ok A L c s" and "decap_pool_ok A L s" and "add_guard A L i (decode_decap_any A a) s"
  shows "decap_tables_ok A L c (snd (vxlan_add_tunnel A i a s)) \<and> decap_pool_ok A L (snd (vxlan_add_tunnel A i a s))"
proof (cases "fst (vxlan_add_tunnel A i a s)")
  case False
  define t s' where "t = decode_decap_any A a" and "s' = snd (vxlan_add_tunnel A i a s)"
  have g: "i \<le> length (decap_pool s)" "int i < 2 ^ 32" "slot_at (decap_pool s) i = None" "tunnel_ok A L t"
    "list_all (\<lambda>st. case st of None \<Rightarrow> True | Some t' \<Rightarrow> decap_sw_if_index t' \<noteq> decap_sw_if_index t) (decap_pool s)"
    using assms(3) unfolding add_guard_def t_def by blast+
  have fresh: "decap_sw_if_index t' \<noteq> decap_sw_if_index t" if "slot_at (decap_pool s) j = Some t'" for j t'
    using g(5) that by (force simp: slot_at_def list_all_length split: if_splits)
  have s': "decap_pool s' = slot_set i t (decap_pool s)" "l3_promiscuous_bitmap s' =
      (if decap_any t then insert (decap_sw_if_index t) (l3_promiscuous_bitmap s) else l3_promiscuous_bitmap s)"
    using False g(4) unfolding s'_def
    by (auto simp: vxlan_add_tunnel_def t_def l2_bvi_set_l3_promiscuous_def tunnel_ok_def Let_def split: prod.splits if_splits)
  have "decap_tables_ok A L c s'"
    using False unfolding s'_def
    by (intro tables_add [OF assms(1) g(1,3,4) s'(1) [unfolded s'_def]])
      (auto simp: vxlan_add_tunnel_def t_def Let_def split: prod.splits if_splits)
  with pool_add [OF assms(2) g(1) _ g(3,4) s'(1) fresh s'(2)] g(2) show ?thesis unfolding s'_def by simp
qed (simp add: add_failed_unchanged [OF assms(3)] assms(1,2))

text \<open>Deletion: who is left, and that the survivor is one of them.\<close>

lemma owners4_iff:
  "(k, v) \<in> owners4 A s \<longleftrightarrow> (\<exists>j t. slot_at (decap_pool s) j = Some t \<and> \<not> is_ip6 t \<and> owns_wildcard A t \<and>
    k = wildcard_key4 A t \<and> v = decap_value A t)"
  by (auto simp: owners4_def)

lemma owners6_iff:
  "(k, v) \<in> owners6 A s \<longleftrightarrow> (\<exists>j t. slot_at (decap_pool s) j = Some t \<and> is_ip6 t \<and> owns_wildcard A t \<and>
    k = wildcard_key6 A t \<and> v = of_nat j)"
  by (auto simp: owners6_def)

lemma in_fst_owners:
  "k \<in> fst ` owners4 A s \<longleftrightarrow>
    (\<exists>j t. slot_at (decap_pool s) j = Some t \<and> \<not> is_ip6 t \<and> owns_wildcard A t \<and> k = wildcard_key4 A t)"
  "k' \<in> fst ` owners6 A s \<longleftrightarrow>
    (\<exists>j t. slot_at (decap_pool s) j = Some t \<and> is_ip6 t \<and> owns_wildcard A t \<and> k' = wildcard_key6 A t)"
  unfolding owners4_def owners6_def by force+

text \<open>Clearing slot \<open>i\<close> with tunnel \<open>t\<close> changes no other key than the one of \<open>t\<close>.\<close>

lemma owners_clear:
  assumes "decap_pool s' = (decap_pool s)[i := None]" and "slot_at (decap_pool s) i = Some t"
  shows "\<lbrakk>is_ip6 t \<or> \<not> owns_wildcard A t\<rbrakk> \<Longrightarrow> owners4 A s' = owners4 A s"
    and "\<lbrakk>\<not> is_ip6 t \<or> \<not> owns_wildcard A t\<rbrakk> \<Longrightarrow> owners6 A s' = owners6 A s"
    and "k \<noteq> wildcard_key4 A t \<Longrightarrow> (k, v) \<in> owners4 A s' \<longleftrightarrow> (k, v) \<in> owners4 A s"
    and "k' \<noteq> wildcard_key6 A t \<Longrightarrow> (k', v) \<in> owners6 A s' \<longleftrightarrow> (k', v) \<in> owners6 A s"
proof -
  have p: "slot_at (decap_pool s') j = Some x \<longleftrightarrow> j \<noteq> i \<and> slot_at (decap_pool s) j = Some x" for j x
    by (simp add: assms(1) slot_at_clear)
  show four: "k \<noteq> wildcard_key4 A t \<Longrightarrow> (k, v) \<in> owners4 A s' \<longleftrightarrow> (k, v) \<in> owners4 A s" for k v
    unfolding owners4_iff p using assms(2) by (metis option.inject)
  show six: "k' \<noteq> wildcard_key6 A t \<Longrightarrow> (k', v) \<in> owners6 A s' \<longleftrightarrow> (k', v) \<in> owners6 A s" for k' v
    unfolding owners6_iff p using assms(2) by (metis option.inject)
  show "owners4 A s' = owners4 A s" if "is_ip6 t \<or> \<not> owns_wildcard A t"
    using that assms(2) unfolding set_eq_iff split_paired_All owners4_iff p by (metis option.inject)
  show "owners6 A s' = owners6 A s" if "\<not> is_ip6 t \<or> \<not> owns_wildcard A t"
    using that assms(2) unfolding set_eq_iff split_paired_All owners6_iff p by (metis option.inject)
qed

lemma wildcard_key4_eq:
  "\<lbrakk>decap_ok A; tunnel_ok A L st; tunnel_ok A L t\<rbrakk> \<Longrightarrow>
    wildcard_key4 A st = wildcard_key4 A t \<longleftrightarrow> ip46_ip4 (src_ip st) = ip46_ip4 (src_ip t) \<and> same_group st t"
  using key_addresses_inject [of "ip46_ip4 (src_ip st)" 0 "ip46_ip4 (src_ip t)" 0]
  by (simp add: wildcard_key4_def decap_ok_def tunnel_ok_def key_addresses_def)

lemma wildcard_key6_eq:
  "\<lbrakk>decap_ok A; tunnel_ok A L st; tunnel_ok A L t\<rbrakk> \<Longrightarrow>
    wildcard_key6 A st = wildcard_key6 A t \<longleftrightarrow> src_ip st = src_ip t \<and> same_group st t"
  by (auto simp: wildcard_key6_def decap_ok_def tunnel_ok_def prod_eq_iff)

lemma no_aliasD:
  "\<lbrakk>no_alias A i s; slot_at (decap_pool s) i = Some t; slot_at (decap_pool s) j = Some st\<rbrakk> \<Longrightarrow> \<not> aliases A st t"
  by (auto simp: no_alias_def list_all_iff simp flip: set_live)

lemma find_SomeD: "List.find P xs = Some x \<Longrightarrow> x \<in> set xs \<and> P x"
  by (auto simp: find_Some_iff)

lemma survivor4_owner:
  assumes "decap_ok A" and "no_alias A i s" and "slot_at (decap_pool s) i = Some t" and "\<not> is_ip6 t" and "owns_wildcard A t"
    and "decap_pool s' = (decap_pool s)[i := None]" and "decap_pool_ok A L s"
  shows "case map_option (\<lambda>(j, st). decap_value A st) (survivor4 A i t s) of
      None \<Rightarrow> wildcard_key4 A t \<notin> fst ` owners4 A s' | Some v \<Rightarrow> (wildcard_key4 A t, v) \<in> owners4 A s'"
proof -
  have key: "wildcard_key4 A st = wildcard_key4 A t \<longleftrightarrow> ip46_ip4 (src_ip st) = ip46_ip4 (src_ip t) \<and> same_group st t"
    if "slot_at (decap_pool s) j = Some st" for j st
    using wildcard_key4_eq [OF assms(1), of L st t] assms(3,7) that by (auto simp: decap_pool_ok_def)
  show ?thesis
proof (cases "survivor4 A i t s")
  case None
  then have "wildcard_key4 A st \<noteq> wildcard_key4 A t"
    if "slot_at (decap_pool s) j = Some st" "j \<noteq> i" "owns_wildcard A st" for j st
    using that by (auto simp: survivor4_def find_None_iff set_live key)
  then have "wildcard_key4 A t \<notin> fst ` owners4 A s'"
    unfolding in_fst_owners assms(6) slot_at_clear by (metis option.distinct(1))
  then show ?thesis using None by simp
next
  case (Some q)
  then obtain j st where q: "q = (j, st)" "slot_at (decap_pool s) j = Some st" "j \<noteq> i" "owns_wildcard A st"
    "ip46_ip4 (src_ip st) = ip46_ip4 (src_ip t)" "same_group st t"
    by (cases q) (auto simp: survivor4_def set_live dest!: find_SomeD)
  then have "\<not> is_ip6 st" using no_aliasD [OF assms(2,3) q(2)] assms(4,5) by (auto simp: aliases_def)
  then show ?thesis
    using Some q key [OF q(2)] by (auto simp: owners4_iff assms(6) slot_at_clear)
qed
qed

lemma survivor6_owner:
  assumes "decap_ok A" and "no_alias A i s" and "slot_at (decap_pool s) i = Some t" and "is_ip6 t" and "owns_wildcard A t"
    and "decap_pool s' = (decap_pool s)[i := None]" and "decap_pool_ok A L s"
  shows "case map_option (\<lambda>(j, st). of_nat j) (survivor6 A i t s) of
      None \<Rightarrow> wildcard_key6 A t \<notin> fst ` owners6 A s' | Some v \<Rightarrow> (wildcard_key6 A t, v) \<in> owners6 A s'"
proof -
  have key: "wildcard_key6 A st = wildcard_key6 A t \<longleftrightarrow> src_ip st = src_ip t \<and> same_group st t"
    if "slot_at (decap_pool s) j = Some st" for j st
    using wildcard_key6_eq [OF assms(1), of L st t] assms(3,7) that by (auto simp: decap_pool_ok_def)
  show ?thesis
proof (cases "survivor6 A i t s")
  case None
  then have "wildcard_key6 A st \<noteq> wildcard_key6 A t"
    if "slot_at (decap_pool s) j = Some st" "j \<noteq> i" "owns_wildcard A st" for j st
    using that by (auto simp: survivor6_def find_None_iff set_live key)
  then have "wildcard_key6 A t \<notin> fst ` owners6 A s'"
    unfolding in_fst_owners assms(6) slot_at_clear by (metis option.distinct(1))
  then show ?thesis using None by simp
next
  case (Some q)
  then obtain j st where q: "q = (j, st)" "slot_at (decap_pool s) j = Some st" "j \<noteq> i" "owns_wildcard A st"
    "src_ip st = src_ip t" "same_group st t"
    by (cases q) (auto simp: survivor6_def set_live dest!: find_SomeD)
  then have "is_ip6 st" using no_aliasD [OF assms(2,3) q(2)] assms(4,5) by (auto simp: aliases_def)
  then show ?thesis
    using Some q key [OF q(2)] by (auto simp: owners6_iff assms(6) slot_at_clear)
qed
qed

lemma tables_del4:
  assumes "decap_ok A" and "decap_tables_ok A L c s" and "decap_pool_ok A L s" and "no_alias A i s"
    and "slot_at (decap_pool s) i = Some t" and "\<not> is_ip6 t" and "decap_pool s' = (decap_pool s)[i := None]"
    and "by_key6 s' = by_key6 s"
    and "by_key4 s' = del_keys (add_fails4 A) (exact4 A t) (if owns_wildcard A t then Some (wildcard_key4 A t) else None)
      (map_option (\<lambda>(j, st). decap_value A st) (survivor4 A i t s)) (by_key4 s)"
    and "c' \<Longrightarrow> c \<and> \<not> repoint_fails A i s"
  shows "decap_tables_ok A L c' s'"
proof -
  note clear = owners_clear [OF assms(7,5)]
  have six: "owners6 A s' = owners6 A s" using assms(6) clear(2) by blast
  have tok: "tunnel_ok A L t" using assms(3,5) by (auto simp: decap_pool_ok_def)
  let ?wildcard = "if owns_wildcard A t then Some (wildcard_key4 A t) else None"
  let ?survivor = "map_option (\<lambda>(j, st). decap_value A st) (survivor4 A i t s)"
  have w: "wild4 w \<and> (\<forall>k v. k \<noteq> w \<longrightarrow> (k, v) \<in> owners4 A s' \<longleftrightarrow> (k, v) \<in> owners4 A s) \<and>
      (case ?survivor of None \<Rightarrow> w \<notin> fst ` owners4 A s' | Some v \<Rightarrow> (w, v) \<in> owners4 A s')" if "?wildcard = Some w" for w
  proof -
    have o: "owns_wildcard A t" "w = wildcard_key4 A t" using that by (auto split: if_splits)
    show ?thesis
      unfolding o(2) using wild_keys(1) clear(3) survivor4_owner [OF assms(1,4-6) o(1) assms(7,3)] by blast
  qed
  have "entry_ok c' (by_key4 s') (owners4 A s') k" if k: "wild4 k" for k
    unfolding assms(9)
  proof (rule del_keys_ok [where W = "wild4" and owners = "owners4 A s" and k = k and c = c, OF _ _ k])
    show "owners4 A s' = owners4 A s" if "?wildcard = None" using that clear(1) by (auto split: if_splits)
    show "\<not> add_fails4 A ((by_key4 s)(exact4 A t := None)) w" if "c'" "?wildcard = Some w" "?survivor \<noteq> None" for w
      using that assms(5,6,10) by (auto simp: repoint_fails_def split: if_splits)
  qed (use assms(1,2,10) tok w in \<open>auto simp: decap_tables_ok_def tunnel_ok_def decap_ok_def simp del: split_paired_All\<close>)
  then show ?thesis using assms(2,10) unfolding decap_tables_ok_def assms(8) six by (blast intro: entry_ok_mono)
qed

lemma tables_del6:
  assumes "decap_ok A" and "decap_tables_ok A L c s" and "decap_pool_ok A L s" and "no_alias A i s"
    and "slot_at (decap_pool s) i = Some t" and "is_ip6 t" and "decap_pool s' = (decap_pool s)[i := None]"
    and "by_key4 s' = by_key4 s"
    and "by_key6 s' = del_keys (add_fails6 A) (exact6 A t) (if owns_wildcard A t then Some (wildcard_key6 A t) else None)
      (map_option (\<lambda>(j, st). of_nat j) (survivor6 A i t s)) (by_key6 s)"
    and "c' \<Longrightarrow> c \<and> \<not> repoint_fails A i s"
  shows "decap_tables_ok A L c' s'"
proof -
  note clear = owners_clear [OF assms(7,5)]
  have four: "owners4 A s' = owners4 A s" using assms(6) clear(1) by blast
  have tok: "tunnel_ok A L t" using assms(3,5) by (auto simp: decap_pool_ok_def)
  let ?wildcard = "if owns_wildcard A t then Some (wildcard_key6 A t) else None"
  let ?survivor = "map_option (\<lambda>(j, st). of_nat j) (survivor6 A i t s)"
  have w: "wild6 L w \<and> (\<forall>k v. k \<noteq> w \<longrightarrow> (k, v) \<in> owners6 A s' \<longleftrightarrow> (k, v) \<in> owners6 A s) \<and>
      (case ?survivor of None \<Rightarrow> w \<notin> fst ` owners6 A s' | Some v \<Rightarrow> (w, v) \<in> owners6 A s')" if "?wildcard = Some w" for w
  proof -
    have o: "owns_wildcard A t" "w = wildcard_key6 A t" using that by (auto split: if_splits)
    show ?thesis
      unfolding o(2) using wild_keys(2) [OF tok assms(6) o(1)] clear(4) survivor6_owner [OF assms(1,4-6) o(1) assms(7,3)] by blast
  qed
  have "entry_ok c' (by_key6 s') (owners6 A s') k" if k: "wild6 L k" for k
    unfolding assms(9)
  proof (rule del_keys_ok [where W = "wild6 L" and owners = "owners6 A s" and k = k and c = c, OF _ _ k])
    show "owners6 A s' = owners6 A s" if "?wildcard = None" using that clear(2) by (auto split: if_splits)
    show "\<not> add_fails6 A ((by_key6 s)(exact6 A t := None)) w" if "c'" "?wildcard = Some w" "?survivor \<noteq> None" for w
      using that assms(5,6,10) by (auto simp: repoint_fails_def split: if_splits)
  qed (use assms(1,2,10) tok w in \<open>auto simp: decap_tables_ok_def tunnel_ok_def decap_ok_def simp del: split_paired_All\<close>)
  then show ?thesis using assms(2,10) unfolding decap_tables_ok_def assms(8) four by (blast intro: entry_ok_mono)
qed

lemma pool_del:
  assumes "decap_pool_ok A L s" and "slot_at (decap_pool s) i = Some t" and "decap_pool s' = (decap_pool s)[i := None]"
    and "l3_promiscuous_bitmap s' =
      (if decap_any t then l3_promiscuous_bitmap s - {decap_sw_if_index t} else l3_promiscuous_bitmap s)"
  shows "decap_pool_ok A L s'"
  using assms(1,2) unfolding decap_pool_ok_def assms(3,4) slot_at_clear by (auto split: if_splits; metis option.inject)

lemma inv_del:
  assumes "decap_ok A" and "decap_tables_ok A L c s" and "decap_pool_ok A L s" and "no_alias A i s"
  shows "decap_tables_ok A L (c \<and> \<not> repoint_fails A i s) (vxlan_del_tunnel A i s) \<and> decap_pool_ok A L (vxlan_del_tunnel A i s)"
proof (cases "slot_at (decap_pool s) i")
  case (Some t)
  have "decap_sw_if_index t \<noteq> -1" using assms(3) Some by (auto simp: decap_pool_ok_def tunnel_ok_def)
  then have "decap_pool_ok A L (vxlan_del_tunnel A i s)"
    using Some
    by (intro pool_del [OF assms(3) Some]) (simp_all add: vxlan_del_tunnel_def Let_def l2_bvi_set_l3_promiscuous_def)
  moreover have "decap_tables_ok A L (c \<and> \<not> repoint_fails A i s) (vxlan_del_tunnel A i s)"
  proof (cases "is_ip6 t")
    case True
    then show ?thesis
      using Some by (intro tables_del6 [OF assms Some True]) (simp_all add: vxlan_del_tunnel_def Let_def survivor6_def)
  next
    case False
    then show ?thesis
      using Some by (intro tables_del4 [OF assms Some False]) (simp_all add: vxlan_del_tunnel_def Let_def survivor4_def)
  qed
  ultimately show ?thesis by simp
qed (use assms(2,3) in \<open>simp add: vxlan_del_tunnel_def repoint_fails_def\<close>)

lemma reachable_inv:
  assumes "vxlan_reachable A L c s" and "decap_ok A"
  shows "decap_tables_ok A L c s \<and> decap_pool_ok A L s"
  using assms(1)
proof induction
  case init
  then show ?case
    by (auto simp: decap_init_def decap_tables_ok_def decap_pool_ok_def entry_ok_def owners4_def owners6_def slot_at_def)
qed (blast intro: inv_add [THEN conjunct1] inv_add [THEN conjunct2] inv_del [OF assms(2), THEN conjunct1] inv_del [OF assms(2), THEN conjunct2])+

lemma in_pool: "Some t \<in> set xs \<longleftrightarrow> (\<exists>j. slot_at xs j = Some t)"
  by (auto simp: slot_at_def in_set_conv_nth)

lemma decap_any_interface_iff:
  "decap_any_interface s i \<longleftrightarrow> (\<exists>j t. slot_at (decap_pool s) j = Some t \<and> decap_any t \<and> decap_sw_if_index t = i)"
  by (auto simp: decap_any_interface_def list_ex_iff simp flip: set_live)

lemma find_wildcard4:
  assumes "decap_tables_ok A L c s"
  shows "vxlan4_find_wildcard (by_key4 s) dst key1 rest = r \<Longrightarrow>
    (\<exists>t. terminates4 A s dst key1 t \<and> r = Some (decap_value A t)) \<or> ((c \<longrightarrow> (\<nexists>t. terminates4 A s dst key1 t)) \<and> r = rest)"
proof -
  let ?k = "(push_bit 32 (ucast dst), key1) :: key4"
  have "wild4 ?k" by (auto simp: wild4_def bit_simps intro: bit_word_eqI)
  then have ok: "entry_ok c (by_key4 s) (owners4 A s) ?k" using assms by (simp add: decap_tables_ok_def del: split_paired_All)
  have key: "?k = wildcard_key4 A t \<longleftrightarrow> ip46_ip4 (src_ip t) = dst \<and> key1_of A t = key1" for t
    using key_addresses_inject [of dst 0 "ip46_ip4 (src_ip t)" 0] by (auto simp: wildcard_key4_def key_addresses_def)
  assume r: "vxlan4_find_wildcard (by_key4 s) dst key1 rest = r"
  show ?thesis
  proof (cases "by_key4 s ?k")
    case None
    then have "c \<Longrightarrow> ?k \<notin> fst ` owners4 A s" "r = rest" using ok r by (simp_all add: entry_ok_def vxlan4_find_wildcard_def)
    then show ?thesis by (auto simp: terminates4_def in_pool in_fst_owners key)
  next
    case (Some v)
    then have "(?k, v) \<in> owners4 A s" "r = Some v" using ok r by (simp_all add: entry_ok_def vxlan4_find_wildcard_def)
    then show ?thesis by (auto simp: terminates4_def in_pool owners4_iff key)
  qed
qed

lemma find_wildcard6:
  assumes "decap_tables_ok A L c s" and "decap_pool_ok A L s" and "dst \<in> L"
  shows "vxlan6_find_wildcard s dst key2 = r \<Longrightarrow>
    (\<exists>t. terminates6 A s dst key2 t \<and> r = Some (decap_sw_if_index t, decap_next_index t)) \<or>
    ((c \<longrightarrow> (\<nexists>t. terminates6 A s dst key2 t)) \<and> r = None)"
proof -
  let ?k = "(fst dst, snd dst, key2) :: key6"
  have "wild6 L ?k" using assms(3) by (simp add: wild6_def)
  then have ok: "entry_ok c (by_key6 s) (owners6 A s) ?k" using assms(1) by (simp add: decap_tables_ok_def del: split_paired_All)
  have key: "?k = wildcard_key6 A t \<longleftrightarrow> src_ip t = dst \<and> key1_of A t = key2" for t
    by (auto simp: wildcard_key6_def prod_eq_iff)
  assume r: "vxlan6_find_wildcard s dst key2 = r"
  show ?thesis
  proof (cases "by_key6 s ?k")
    case None
    then have "c \<Longrightarrow> ?k \<notin> fst ` owners6 A s" "r = None" using ok r by (simp_all add: entry_ok_def vxlan6_find_wildcard_def)
    then show ?thesis by (auto simp: terminates6_def in_pool in_fst_owners key)
  next
    case (Some v)
    then have "(?k, v) \<in> owners6 A s" using ok by (simp add: entry_ok_def)
    then obtain j t where t: "slot_at (decap_pool s) j = Some t" "is_ip6 t" "owns_wildcard A t" "?k = wildcard_key6 A t" "v = of_nat j"
      unfolding owners6_iff by blast
    moreover have "j < 2 ^ 32" using assms(2) t(1) by (auto simp: decap_pool_ok_def)
    then have "unat v = j" using t(5) by (simp add: unsigned_of_nat take_bit_nat_eq_self)
    ultimately show ?thesis using r Some by (auto simp: terminates6_def in_pool key vxlan6_find_wildcard_def)
  qed
qed

lemma sample_decap_ok: "decap_ok sample_decap_api"
  by (auto simp: decap_ok_def sample_decap_api_def same_group_def key_port_fib_vni_inject)

lemma sample_decap_reachable: "vxlan_reachable sample_decap_api {(1, 1)} True sample_decap_state"
proof -
  let ?s = "snd (vxlan_add_tunnel sample_decap_api 1 (sample_tunnel4 2 6)
    (snd (vxlan_add_tunnel sample_decap_api 0 (sample_tunnel4 1 5) decap_init)))"
  have "vxlan_reachable sample_decap_api {(1, 1)} (True \<and> \<not> repoint_fails sample_decap_api 0 ?s) sample_decap_state"
    unfolding sample_decap_state_def
  proof (intro vxlan_reachable.intros)
    show "add_guard sample_decap_api {(1, 1)} 0 (decode_decap_any sample_decap_api (sample_tunnel4 1 5)) decap_init"
      by code_simp
    show "add_guard sample_decap_api {(1, 1)} 1 (decode_decap_any sample_decap_api (sample_tunnel4 2 6))
        (snd (vxlan_add_tunnel sample_decap_api 0 (sample_tunnel4 1 5) decap_init))" by code_simp
    show "no_alias sample_decap_api 0 ?s" by code_simp
  qed
  moreover have "\<not> repoint_fails sample_decap_api 0 ?s" by code_simp
  ultimately show ?thesis by simp
qed

text \<open>The marks of the BVI.\<close>

lemma promiscuous_iff:
  assumes "decap_pool_ok A L s"
  shows "l2_bvi_l3_promiscuous (l3_promiscuous_bitmap s) rx \<longleftrightarrow> decap_any_interface s rx"
proof -
  have "rx \<in> l3_promiscuous_bitmap s \<longleftrightarrow> decap_any_interface s rx"
    using assms unfolding decap_pool_ok_def decap_any_interface_iff by blast
  moreover have "\<not> decap_any_interface s (-1)"
    using assms unfolding decap_pool_ok_def tunnel_ok_def decap_any_interface_iff by blast
  ultimately show ?thesis by (auto simp: l2_bvi_l3_promiscuous_def)
qed

lemma decap_any_interface_tunnel: "decap_any_interface s rx \<Longrightarrow> tunnel_interface s rx"
  by (auto simp: decap_any_interface_def tunnel_interface_def list_ex_iff)

text \<open>
  The BVI ignores the result of the MAC check exactly for the interfaces of the decap-any tunnels. The comment of \<^verbatim>\<open>l2_bvi.c\<close> and that of the patch say so;
  the comment at the check itself names every VXLAN tunnel.
\<close>

theorem l2_to_bvi_promiscuous_exact:
  assumes "vxlan_reachable A L c s" and "decap_ok A"
  shows "l2_to_bvi_mac_check (l3_promiscuous_bitmap s) rx rv = (if rv \<noteq> 0 \<and> \<not> decap_any_interface s rx then Some rv else None)"
  using promiscuous_iff [OF conjunct2 [OF reachable_inv [OF assms]]] by (simp add: l2_to_bvi_mac_check_def)

section \<open>Properties\<close>

text \<open>C13:
  Source-independent decapsulation follows the tunnels. After any sequence of tunnels added (also unsuccessfully) and deleted,
  where a new tunnel has a free slot, an interface and a key of its own, FIB indices are below \<open>2^16\<close>, no tunnel of the other address family has the same local address, VNI, FIB and port as a deleted one, and no remote endpoint
  has the address 0 or one of the local IPv6 addresses \<open>L\<close> of the decap-any tunnels: a packet to a local address (for IPv6, one of \<open>L\<close>) that has no tunnel of its own is either given
  to a present tunnel, never to a deleted one, that is configured for its local address, port, FIB and VNI from any source, or the
  search continues as without the patch. The latter happens only if there is no such tunnel, or if at some deletion the hash
  refused to hand the shared entry to a surviving tunnel (\<open>complete\<close> is false then): the code drops the entry in that case. A frame that
  fails the MAC check of the BVI is accepted if it came in on the interface of a decap-any tunnel and refused if it came in
  on an interface that belongs to no tunnel.
\<close>

theorem decap_any_follows_tunnels:
  assumes "vxlan_reachable A L complete s" and "decap_ok A" and "dst6 \<in> L"
    and "r4 = vxlan4_find_wildcard (by_key4 s) dst key1 rest" and "r6 = vxlan6_find_wildcard s dst6 key2"
  shows "((\<exists>t. terminates4 A s dst key1 t \<and> r4 = Some (decap_value A t)) \<or>
       ((complete \<longrightarrow> (\<nexists>t. terminates4 A s dst key1 t)) \<and> r4 = rest)) \<and>
    ((\<exists>t. terminates6 A s dst6 key2 t \<and> r6 = Some (decap_sw_if_index t, decap_next_index t)) \<or>
       ((complete \<longrightarrow> (\<nexists>t. terminates6 A s dst6 key2 t)) \<and> r6 = None)) \<and>
    (decap_any_interface s rx \<longrightarrow> l2_to_bvi_mac_check (l3_promiscuous_bitmap s) rx rv = None) \<and>
    (\<not> tunnel_interface s rx \<longrightarrow> l2_to_bvi_mac_check (l3_promiscuous_bitmap s) rx rv = (if rv = 0 then None else Some rv))"
proof (intro conjI)
  note inv = conjunct1 [OF reachable_inv [OF assms(1,2)]] and pool = conjunct2 [OF reachable_inv [OF assms(1,2)]]
  show "(\<exists>t. terminates4 A s dst key1 t \<and> r4 = Some (decap_value A t)) \<or>
      ((complete \<longrightarrow> (\<nexists>t. terminates4 A s dst key1 t)) \<and> r4 = rest)"
    using find_wildcard4 [OF inv assms(4) [symmetric]] .
  show "(\<exists>t. terminates6 A s dst6 key2 t \<and> r6 = Some (decap_sw_if_index t, decap_next_index t)) \<or>
      ((complete \<longrightarrow> (\<nexists>t. terminates6 A s dst6 key2 t)) \<and> r6 = None)"
    using find_wildcard6 [OF inv pool assms(3) assms(5) [symmetric]] .
  show "decap_any_interface s rx \<longrightarrow> l2_to_bvi_mac_check (l3_promiscuous_bitmap s) rx rv = None"
    and "\<not> tunnel_interface s rx \<longrightarrow> l2_to_bvi_mac_check (l3_promiscuous_bitmap s) rx rv = (if rv = 0 then None else Some rv)"
    using promiscuous_iff [OF pool] decap_any_interface_tunnel by (auto simp: l2_to_bvi_mac_check_def)
qed

theorem decap_any_follows_tunnels_witness:
  "\<exists>t. terminates4 sample_decap_api sample_decap_state 0x0100000A (key_port_fib_vni 4789 0 100) t \<and>
     vxlan4_find_wildcard (by_key4 sample_decap_state) 0x0100000A (key_port_fib_vni 4789 0 100) None =
       Some (decap_value sample_decap_api t)"
proof -
  have "terminates4 sample_decap_api sample_decap_state 0x0100000A (key_port_fib_vni 4789 0 100)
      (decode_decap_any sample_decap_api (sample_tunnel4 2 6))" by code_simp
  then show ?thesis
    using decap_any_follows_tunnels [OF sample_decap_reachable sample_decap_ok _ refl refl, of "(1, 1)" "0x0100000A"
        "key_port_fib_vni 4789 0 100" None] by blast
qed

text \<open>C20:
  The search for a survivor on deletion does not look at the address family. If an IPv4 tunnel is deleted
  whose local address equals the last four bytes of the local address of an IPv6 tunnel with the same VNI, FIB index and
  port, and both are decap-any, the IPv4 entry is not removed but handed to the IPv6 tunnel: although no IPv4 tunnel is
  left, IPv4 packets from any source continue to be decapsulated, now into the interface of the IPv6 tunnel.
\<close>

theorem decap_any_crosses_families:
  assumes "decap_pool s = [Some t, Some st]" and "aliases A st t" and "\<not> is_ip6 t" and "exact4 A t \<noteq> wildcard_key4 A t"
    and "\<not> add_fails4 A ((by_key4 s)(exact4 A t := None)) (wildcard_key4 A t)"
    and "s' = vxlan_del_tunnel A 0 s"
  shows "vxlan4_find_wildcard (by_key4 s') (ip46_ip4 (src_ip t)) (key1_of A t) rest = Some (decap_value A st) \<and>
    (\<nexists>x. terminates4 A s' (ip46_ip4 (src_ip t)) (key1_of A t) x)"
proof
  have pool: "slot_at (decap_pool s) 0 = Some t" "live (decap_pool s) = [(0, t), (1, st)]"
    by (simp_all add: assms(1) slot_at_def live_def)
  have st: "is_ip6 st" "owns_wildcard A st" "owns_wildcard A t" "survivor4 A 0 t s = Some (1, st)"
    using assms(2,3) by (simp_all add: aliases_def survivor4_def pool(2))
  have pool': "decap_pool s' = [None, Some st]"
    using pool(1) by (simp add: vxlan_del_tunnel_def assms(6) assms(1) Let_def)
  have "by_key4 s' (wildcard_key4 A t) = Some (decap_value A st)"
    using assms(3-6) st by (simp add: vxlan_del_tunnel_def pool(1) del_keys_def bihash_add_def survivor4_def Let_def)
  then show "vxlan4_find_wildcard (by_key4 s') (ip46_ip4 (src_ip t)) (key1_of A t) rest = Some (decap_value A st)"
    by (simp add: vxlan4_find_wildcard_def wildcard_key4_def)
  show "\<nexists>x. terminates4 A s' (ip46_ip4 (src_ip t)) (key1_of A t) x"
    using assms(3) st(1) pool' by (auto simp: terminates4_def)
qed

theorem decap_any_crosses_families_witness:
  "vxlan4_find_wildcard (by_key4 (vxlan_del_tunnel sample_decap_api 0 sample_crossed_state)) 0x0100000A
     (key_port_fib_vni 4789 0 100) None = Some (le64 9 2)"
proof -
  let ?t = "decode_decap_any sample_decap_api (sample_tunnel4 1 5)" and ?st = "decode_decap_any sample_decap_api sample_tunnel6"
  have "decap_pool sample_crossed_state = [Some ?t, Some ?st]" by code_simp
  moreover have "aliases sample_decap_api ?st ?t" "\<not> is_ip6 ?t" "exact4 sample_decap_api ?t \<noteq> wildcard_key4 sample_decap_api ?t"
    "\<not> add_fails4 sample_decap_api ((by_key4 sample_crossed_state)(exact4 sample_decap_api ?t := None)) (wildcard_key4 sample_decap_api ?t)"
    by code_simp+
  ultimately have "vxlan4_find_wildcard (by_key4 (vxlan_del_tunnel sample_decap_api 0 sample_crossed_state))
      (ip46_ip4 (src_ip ?t)) (key1_of sample_decap_api ?t) None = Some (decap_value sample_decap_api ?st)"
    using decap_any_crosses_families by blast
  moreover have "ip46_ip4 (src_ip ?t) = 0x0100000A" "key1_of sample_decap_api ?t = key_port_fib_vni 4789 0 100"
    "decap_value sample_decap_api ?st = le64 9 2" by code_simp+
  ultimately show ?thesis by simp
qed

text \<open>
  The tunnel termination ACLs do not see source-independent traffic: for a packet to a unicast address that has no tunnel
  of its own but is decapsulated through the shared entry, the bypass node of tunterm_acl, which carries its own copy of
  the search, finds no tunnel, so that no ACL is applied to it.
\<close>

theorem tunterm_acl_misses_decap_any:
  assumes "vxlan_ok X" and "vxlan4_tunnel_by_key X = by_key4 s" and "m vxlan0 = VXLAN_FLAGS_I X"
    and "dst = ip4_dst_address m ip4_0" and "\<not> ip4_address_is_multicast X dst"
    and "key1 = key_port_fib_vni (load_u16 m (ip4_next_header X m ip4_0 + 2)) fib_index (load_u32 m (vxlan0 + 4))"
    and "by_key4 s (key_addresses dst (ip4_src_address m ip4_0), key1) = None"
    and "by_key4 s (push_bit 32 (ucast dst), key1) = Some v"
  shows "vxlan4_find_wildcard (by_key4 s) dst key1 rest = Some v \<and> tunnel4_of_packet X fib_index m ip4_0 vxlan0 = -1 \<and>
    di_sw_if_index (fst (tunterm_acl_vxlan4_find_tunnel X last4_init fib_index m ip4_0 vxlan0 i)) = -1"
proof -
  have "tunnel4_of_packet X fib_index m ip4_0 vxlan0 = -1"
    using assms(2-7) by (simp add: tunnel4_of_packet_def tunnel4_def)
  then show ?thesis
    using assms(8) find4_cached [OF assms(1), of last4_init fib_index m ip4_0 vxlan0 i]
    by (cases "tunterm_acl_vxlan4_find_tunnel X last4_init fib_index m ip4_0 vxlan0 i")
      (auto simp: vxlan4_find_wildcard_def cache4_ok_def)
qed

theorem tunterm_acl_misses_decap_any_witness:
  "tunnel4_of_packet sample_decap_vxlan 0 sample_decap_packet 0 28 = -1 \<and>
   vxlan4_find_wildcard (by_key4 sample_decap_state) 0x0100000A (key_port_fib_vni 4789 0 100) None = Some (le64 6 2)"
proof -
  have "by_key4 sample_decap_state (-1, -1) = None" "(ucast (-1 :: u64) :: u32) = -1" by code_simp+
  then have "vxlan_ok sample_decap_vxlan" by (simp add: vxlan_ok_def sample_decap_vxlan_def)
  moreover have "vxlan4_tunnel_by_key sample_decap_vxlan = by_key4 sample_decap_state" by (simp add: sample_decap_vxlan_def)
  moreover have "sample_decap_packet 28 = VXLAN_FLAGS_I sample_decap_vxlan"
    "0x0100000A = ip4_dst_address sample_decap_packet 0" "\<not> ip4_address_is_multicast sample_decap_vxlan 0x0100000A"
    "key_port_fib_vni 4789 0 100 = key_port_fib_vni (load_u16 sample_decap_packet (ip4_next_header sample_decap_vxlan sample_decap_packet 0 + 2)) 0
       (load_u32 sample_decap_packet (28 + 4))"
    "by_key4 sample_decap_state (key_addresses 0x0100000A (ip4_src_address sample_decap_packet 0), key_port_fib_vni 4789 0 100) = None"
    "by_key4 sample_decap_state (push_bit 32 (ucast (0x0100000A :: u32)), key_port_fib_vni 4789 0 100) = Some (le64 6 2)"
    by code_simp+
  ultimately show ?thesis using tunterm_acl_misses_decap_any by blast
qed

end
