(* ===== verification/Sflow_Skip.thy ===== *)
theory Sflow_Skip
  imports Prelude
begin

text \<open>
  The state of the sFlow patches (0012, 0013, 0014) and the random distance to the next sample, \<^verbatim>\<open>sflow_next_random_skip_if\<close>.
  The random number generator and the functions of the sFlow plugin that the patches call are in \<open>sflow_api\<close>. The lemmas
  bound the distance, for rates where the arithmetic on 32 bits does not wrap and for those where it does.
\<close>

section \<open>State\<close>

record sflow_per_if_sampler =
  skip :: u32
  pool :: u32
  seed :: u32

record sflow_per_interface_data =
  sfif_sw_if_index :: u32
  sfif_hw_if_index :: u32
  polled :: u32
  sflow_enabled :: bool
  samplingN :: u32
  direction :: u32

record sflow_per_thread_data =
  smpl :: u32
  drop_ctr :: u32
  dsmp :: u32
  ddrp :: u32
  per_interface :: "sflow_per_if_sampler list"

text \<open>\<open>features\<close>: ingress, egress and drop features of an interface; \<open>total_threads\<close> is the length of \<open>per_thread_data\<close>.\<close>

record sflow_main =
  global_samplingN :: u32
  samplingD :: u32
  dropM :: bool
  interfacesEnabled :: int
  per_interface_data :: "sflow_per_interface_data list"
  per_thread_data :: "sflow_per_thread_data list"
  features :: "u32 \<Rightarrow> bool \<times> bool \<times> bool"

datatype sflow_error = VNET_API_ERROR_INVALID_SW_IF_INDEX | VNET_API_ERROR_INVALID_VALUE

text \<open>A software interface: whether it is of hardware type, and its hardware interface.\<close>

record sflow_api =
  random_u32 :: "u32 \<Rightarrow> u32 \<times> u32" \<comment> \<open>number and new seed\<close>
  SFLOW_DIRN_INGRESS :: u32
  SFLOW_DIRN_EGRESS :: u32
  SFLOW_DIRN_BOTH :: u32
  sw_interface :: "u32 \<Rightarrow> (bool \<times> nat) option"
  sflow_set_worker_sampling_state :: "sflow_main \<Rightarrow> sflow_main"
  sflow_sampling_start_stop :: "sflow_main \<Rightarrow> sflow_main"
  set_features :: "u32 \<Rightarrow> bool \<times> bool \<times> bool \<Rightarrow> (u32 \<Rightarrow> bool \<times> bool \<times> bool) \<Rightarrow> u32 \<Rightarrow> bool \<times> bool \<times> bool"

definition empty_sampler :: sflow_per_if_sampler where
  "empty_sampler = \<lparr>skip = 0, pool = 0, seed = 0\<rparr>"

definition empty_interface_data :: sflow_per_interface_data where
  "empty_interface_data = \<lparr>sfif_sw_if_index = 0, sfif_hw_if_index = 0, polled = 0, sflow_enabled = False, samplingN = 0, direction = 0\<rparr>"

text \<open>\<^verbatim>\<open>vec_validate\<close>: the vector has an element at the index, new ones zeroed.\<close>

definition vec_validate :: "'a \<Rightarrow> nat \<Rightarrow> 'a list \<Rightarrow> 'a list" where
  "vec_validate z i xs = xs @ replicate (Suc i - length xs) z"

section \<open>The sampler\<close>

definition effectiveN :: "sflow_main \<Rightarrow> sflow_per_interface_data \<Rightarrow> u32" where
  "effectiveN smp sfif = (if samplingN sfif \<noteq> 0 then samplingN sfif else global_samplingN smp)"

text \<open>Result: the number, and the sampler with the new seed.\<close>

definition sflow_next_random_skip_if ::
  "sflow_api \<Rightarrow> u32 \<Rightarrow> sflow_per_if_sampler \<Rightarrow> u32 \<times> sflow_per_if_sampler" where
  "sflow_next_random_skip_if A effN smpif =
     (if effN \<le> 1 then (1, smpif)
      else let lim = 2 * effN - 1; (r, seed') = random_u32 A (seed smpif)
           in (r mod lim + 1, smpif\<lparr>seed := seed'\<rparr>))"

section \<open>Lemmas\<close>

lemma skip_lim_odd: "(2 * effN - 1 :: u32) \<noteq> 0"
proof
  assume "2 * effN - 1 = (0 :: u32)"
  then have "bit (2 * effN) 0 = bit (1 :: u32) 0" by simp
  then show False by (simp add: bit_simps)
qed

lemma draw_bounds:
  fixes r lim :: u32
  assumes "lim \<noteq> 0"
  shows "r mod lim + 1 \<noteq> 0" and "unat (r mod lim + 1) \<le> unat lim"
proof -
  have lt: "unat (r mod lim) < unat lim" using assms by (simp add: unat_mod unat_gt_0)
  moreover have "unat lim < 2 ^ 32" using unsigned_less [where ?'a = nat, of lim] by simp
  ultimately have s: "unat (r mod lim + 1) = unat (r mod lim) + 1"
    using unat_word_ariths(1) [of "r mod lim" 1] by (simp del: unat_mod)
  then show "r mod lim + 1 \<noteq> 0" by (metis add_is_0 one_neq_zero unat_0)
  show "unat (r mod lim + 1) \<le> unat lim" using s lt by linarith
qed

lemma skip_positive: "fst (sflow_next_random_skip_if A effN smpif) \<noteq> 0"
  using draw_bounds(1) [OF skip_lim_odd] by (simp add: sflow_next_random_skip_if_def Let_def split_def)

lemma skip_limit:
  "unat (fst (sflow_next_random_skip_if A effN smpif)) \<le> (if effN \<le> 1 then 1 else unat (2 * effN - 1))"
  using draw_bounds(2) [OF skip_lim_odd] by (simp add: sflow_next_random_skip_if_def Let_def split_def)

lemma lim_no_wrap:
  assumes "1 < effN" and "effN \<le> 2 ^ 31"
  shows "unat (2 * effN - 1 :: u32) = 2 * unat effN - 1"
proof (cases "effN = 2 ^ 31")
  case False
  then have "unat effN < 2 ^ 31" using assms(2) by (simp add: word_le_nat_alt order_less_le word_unat_eq_iff)
  then have d: "unat (2 * effN) = 2 * unat effN" by (simp add: unat_word_ariths)
  then have "1 \<le> 2 * effN" using assms(1) by (simp add: word_le_nat_alt word_less_nat_alt)
  then show ?thesis using d by (simp add: unat_sub)
qed simp

section \<open>Property\<close>

text \<open>
  The distance to the next sample is never 0, so that the countdown of the sampler cannot get stuck. For a rate up to 1 in \<open>2 ^ 31\<close> it
  is at most \<open>2 * N - 1\<close>, and always 1 for a rate of 0 or 1. For higher rates the limit wraps: 1 in \<open>2 ^ 31 + 1\<close>
  samples every packet.
\<close>

theorem sflow_skip_bounds:
  "fst (sflow_next_random_skip_if A effN smpif) \<noteq> 0 \<and>
   unat (fst (sflow_next_random_skip_if A effN smpif)) \<le>
     (if effN \<le> 1 \<or> effN = 0x80000001 then 1 else if effN \<le> 2 ^ 31 then 2 * unat effN - 1 else unat (2 * effN - 1))"
  using skip_positive [of A effN smpif] skip_limit [of A effN smpif] lim_no_wrap [of effN]
  by (auto simp: not_le split: if_splits)

end
