(* ===== verification/Sflow_Sampler.thy ===== *)
theory Sflow_Sampler
  imports Sflow_Skip
begin

text \<open>
  Packet sampling per port, patches 0012, 0013 and 0014: each worker thread keeps a sampler for each interface, which
  counts down to the next sample and then draws the next distance at random; rate and direction can be set for a port, and
  override the global ones.

  The model has the loop of the node that takes samples from a frame (of a sample only the index of its packet is modelled, its
  assembly is VPP's), the control functions and the API handlers. The lemmas relate the loop to a
  packet-by-packet countdown, show which packets the samples copy, and which samplers a change of rate restarts.
\<close>

section \<open>The loop\<close>

text \<open>
  The loop of the node that takes the samples of a frame. Result: the sampler, and for each sample the index \<^verbatim>\<open>skip - 1\<close> of the
  packet it copies; \<^verbatim>\<open>from\<close> is the start of the frame in every round.
\<close>

function sflow_sample_loop ::
  "sflow_api \<Rightarrow> u32 \<Rightarrow> u32 \<Rightarrow> sflow_per_if_sampler \<Rightarrow> u32 list \<Rightarrow> sflow_per_if_sampler \<times> u32 list" where
  "sflow_sample_loop A effN pkts smpif samples =
     (if pkts \<ge> skip smpif
      then let pkts' = pkts - skip smpif;
               smpif' = smpif\<lparr>pool := pool smpif + skip smpif\<rparr>;
               (skip', smpif') = sflow_next_random_skip_if A effN smpif'
           in sflow_sample_loop A effN pkts' (smpif'\<lparr>skip := skip'\<rparr>) (samples @ [skip smpif - 1])
      else (smpif\<lparr>skip := skip smpif - pkts, pool := pool smpif + pkts\<rparr>, samples))"
  by pat_completeness auto

termination
proof (relation "measure (\<lambda>(A, effN, pkts, smpif, samples). 2 * unat pkts + (if skip smpif = 0 then 1 else 0))", goal_cases)
  case (2 A effN pkts smpif samples pkts' smpif' x skip' y)
  then have "skip' \<noteq> 0" using skip_positive by (metis fst_conv)
  moreover have "skip smpif = 0 \<Longrightarrow> pkts' = pkts" using 2 by simp
  moreover have "skip smpif \<noteq> 0 \<Longrightarrow> unat pkts' < unat pkts"
    using 2 unat_gt_0 [of "skip smpif"] by (simp add: unat_sub word_le_nat_alt)
  ultimately show ?case by (cases "skip smpif = 0") auto
qed simp

definition sflow_sample_frame ::
  "sflow_api \<Rightarrow> u32 \<Rightarrow> u32 \<Rightarrow> sflow_per_if_sampler \<Rightarrow> sflow_per_if_sampler \<times> u32 list" where
  "sflow_sample_frame A effN pkts smpif =
     (if skip smpif > pkts then (smpif\<lparr>skip := skip smpif - pkts, pool := pool smpif + pkts\<rparr>, [])
      else sflow_sample_loop A effN pkts smpif [])"

section \<open>Control\<close>

definition reset_sampler :: "sflow_api \<Rightarrow> u32 \<Rightarrow> nat \<Rightarrow> nat \<Rightarrow> sflow_per_if_sampler" where
  "reset_sampler A effN hw_if_index thread_index =
     (let (s, smpif) = sflow_next_random_skip_if A effN
            \<lparr>skip = 0, pool = 0, seed = of_nat hw_if_index XOR of_nat (thread_index + 1)\<rparr>
      in smpif\<lparr>skip := s\<rparr>)"

definition sflow_reset_interface_samplers :: "sflow_api \<Rightarrow> nat \<Rightarrow> sflow_main \<Rightarrow> sflow_main" where
  "sflow_reset_interface_samplers A hw_if_index smp =
     (let effN = effectiveN smp (per_interface_data smp ! hw_if_index)
      in smp\<lparr>per_thread_data := map (\<lambda>(thread_index, sfwk).
           sfwk\<lparr>per_interface := (vec_validate empty_sampler hw_if_index (per_interface sfwk))
             [hw_if_index := reset_sampler A effN hw_if_index thread_index]\<rparr>) (enumerate 0 (per_thread_data smp))\<rparr>)"

definition sflow_set_interface_sampling_rate :: "sflow_api \<Rightarrow> sflow_main \<Rightarrow> sflow_main" where
  "sflow_set_interface_sampling_rate A smp =
     fold (\<lambda>i smp. let sfif = per_interface_data smp ! i
            in if sflow_enabled sfif \<and> samplingN sfif = 0 then sflow_reset_interface_samplers A i smp else smp)
       [0 ..< length (per_interface_data smp)] smp"

text \<open>The branch of \<^verbatim>\<open>sflow_sampling_rate\<close> for a change while sampling.\<close>

definition sflow_sampling_rate_dynamic :: "sflow_api \<Rightarrow> u32 \<Rightarrow> sflow_main \<Rightarrow> sflow_main" where
  "sflow_sampling_rate_dynamic A N smp =
     sflow_set_interface_sampling_rate A (sflow_set_worker_sampling_state A (smp\<lparr>global_samplingN := N\<rparr>))"

definition sflow_direction_resolve :: "sflow_main \<Rightarrow> sflow_per_interface_data \<Rightarrow> u32" where
  "sflow_direction_resolve smp sfif = (if direction sfif \<noteq> 0 then direction sfif else samplingD smp)"

definition sflow_enable_disable_interface :: "sflow_api \<Rightarrow> sflow_per_interface_data \<Rightarrow> sflow_main \<Rightarrow> sflow_main" where
  "sflow_enable_disable_interface A sfif smp =
     (let d = sflow_direction_resolve smp sfif;
          ingress_on = (sflow_enabled sfif \<and> (d = SFLOW_DIRN_INGRESS A \<or> d = SFLOW_DIRN_BOTH A));
          egress_on = (sflow_enabled sfif \<and> (d = SFLOW_DIRN_EGRESS A \<or> d = SFLOW_DIRN_BOTH A));
          drop_on = (sflow_enabled sfif \<and> dropM smp)
      in smp\<lparr>features := set_features A (sfif_sw_if_index sfif) (ingress_on, egress_on, drop_on) (features smp)\<rparr>)"

text \<open>The branch of \<^verbatim>\<open>sflow_enable_disable\<close> for an interface whose state changes, and what follows it.\<close>

definition sflow_enable_disable_change :: "sflow_api \<Rightarrow> u32 \<Rightarrow> nat \<Rightarrow> bool \<Rightarrow> sflow_main \<Rightarrow> sflow_main" where
  "sflow_enable_disable_change A sw_if_index hw_if_index enable smp =
     (let sfif = (per_interface_data smp ! hw_if_index)\<lparr>sfif_sw_if_index := sw_if_index, sfif_hw_if_index := of_nat hw_if_index,
            polled := 0, sflow_enabled := enable\<rparr>;
          smp = smp\<lparr>per_interface_data := (per_interface_data smp)[hw_if_index := sfif]\<rparr>;
          smp = (if enable
            then sflow_reset_interface_samplers A hw_if_index (sflow_set_worker_sampling_state A smp) else smp);
          smp = sflow_enable_disable_interface A sfif smp;
          smp = smp\<lparr>interfacesEnabled := interfacesEnabled smp + (if enable then 1 else -1)\<rparr>
      in sflow_sampling_start_stop A smp)"

definition sflow_set_sampling_rate_set :: "sflow_api \<Rightarrow> u32 \<Rightarrow> u32 \<Rightarrow> sflow_main \<Rightarrow> sflow_error + sflow_main" where
  "sflow_set_sampling_rate_set A sw_if_index N smp =
     (case sw_interface A sw_if_index of
        None \<Rightarrow> Inl VNET_API_ERROR_INVALID_SW_IF_INDEX
      | Some (hardware, hw_if_index) \<Rightarrow>
          if \<not> hardware then Inl VNET_API_ERROR_INVALID_SW_IF_INDEX
          else
            let ifs = vec_validate empty_interface_data hw_if_index (per_interface_data smp);
                smp = smp\<lparr>per_interface_data := ifs[hw_if_index := (ifs ! hw_if_index)\<lparr>samplingN := N\<rparr>]\<rparr>
            in Inr (if per_thread_data smp \<noteq> [] then sflow_reset_interface_samplers A hw_if_index smp else smp))"

definition sflow_set_direction_set :: "sflow_api \<Rightarrow> u32 \<Rightarrow> u32 \<Rightarrow> sflow_main \<Rightarrow> sflow_error + sflow_main" where
  "sflow_set_direction_set A sw_if_index d smp =
     (case sw_interface A sw_if_index of
        None \<Rightarrow> Inl VNET_API_ERROR_INVALID_SW_IF_INDEX
      | Some (hardware, hw_if_index) \<Rightarrow>
          if \<not> hardware then Inl VNET_API_ERROR_INVALID_SW_IF_INDEX
          else if d > SFLOW_DIRN_BOTH A then Inl VNET_API_ERROR_INVALID_VALUE
          else
            let ifs = vec_validate empty_interface_data hw_if_index (per_interface_data smp);
                sfif = (ifs ! hw_if_index)\<lparr>direction := d\<rparr>
            in Inr (sflow_enable_disable_interface A sfif (smp\<lparr>per_interface_data := ifs[hw_if_index := sfif]\<rparr>)))"

text \<open>The API handlers; the fields of the message are in network order.\<close>

definition vl_api_sflow_interface_sampling_rate_set_t_handler ::
  "sflow_api \<Rightarrow> u32 \<Rightarrow> u32 \<Rightarrow> sflow_main \<Rightarrow> sflow_error + sflow_main" where
  "vl_api_sflow_interface_sampling_rate_set_t_handler A hw_if_index sampling_N smp =
     sflow_set_sampling_rate_set A (clib_net_to_host_u32 hw_if_index) (clib_net_to_host_u32 sampling_N) smp"

definition vl_api_sflow_interface_direction_set_t_handler ::
  "sflow_api \<Rightarrow> u32 \<Rightarrow> u32 \<Rightarrow> sflow_main \<Rightarrow> sflow_error + sflow_main" where
  "vl_api_sflow_interface_direction_set_t_handler A hw_if_index d smp =
     sflow_set_direction_set A (clib_net_to_host_u32 hw_if_index) (clib_net_to_host_u32 d) smp"

text \<open>The counters of the node: PROCESSED, SAMPLED, DROPPED, DIPROCESSED, DIDROPPED.\<close>

definition read_node_counters :: "sflow_main \<Rightarrow> u32 \<times> u32 \<times> u32 \<times> u32 \<times> u32 \<Rightarrow> u32 \<times> u32 \<times> u32 \<times> u32 \<times> u32" where
  "read_node_counters smp ctrs =
     fold (\<lambda>sfwk (processed, sampled, dropped, diprocessed, didropped).
            (fold (\<lambda>smpif c. c + pool smpif) (per_interface sfwk) processed, sampled + smpl sfwk, dropped + drop_ctr sfwk,
             diprocessed + dsmp sfwk, didropped + ddrp sfwk)) (per_thread_data smp) ctrs"

section \<open>Specification\<close>

text \<open>The countdown, one packet at a time. Result: the sampler, and whether the packet is sampled.\<close>

definition sampler_packet :: "sflow_api \<Rightarrow> u32 \<Rightarrow> sflow_per_if_sampler \<Rightarrow> sflow_per_if_sampler \<times> bool" where
  "sampler_packet A effN smpif =
     (let smpif = smpif\<lparr>pool := pool smpif + 1\<rparr>
      in if skip smpif = 1
         then let (s, smpif) = sflow_next_random_skip_if A effN smpif in (smpif\<lparr>skip := s\<rparr>, True)
         else (smpif\<lparr>skip := skip smpif - 1\<rparr>, False))"

fun sampler_packets :: "sflow_api \<Rightarrow> u32 \<Rightarrow> nat \<Rightarrow> sflow_per_if_sampler \<Rightarrow> sflow_per_if_sampler \<times> bool list" where
  "sampler_packets A effN 0 smpif = (smpif, [])"
| "sampler_packets A effN (Suc n) smpif =
     (let (smpif, b) = sampler_packet A effN smpif; (smpif, bs) = sampler_packets A effN n smpif in (smpif, b # bs))"

text \<open>The packets at which the countdown is over, when each index counts from the packet after the sample before.\<close>

fun due :: "nat \<Rightarrow> u32 list \<Rightarrow> bool list" where
  "due n [] = replicate n False"
| "due n (i # is) = replicate (unat i) False @ True # due (n - Suc (unat i)) is"

text \<open>The sampler of a thread for a port.\<close>

definition sampler_of :: "sflow_main \<Rightarrow> nat \<Rightarrow> nat \<Rightarrow> sflow_per_if_sampler option" where
  "sampler_of smp t i =
     (if t < length (per_thread_data smp) \<and> i < length (per_interface (per_thread_data smp ! t))
      then Some (per_interface (per_thread_data smp ! t) ! i) else None)"

definition uses_global :: "sflow_main \<Rightarrow> nat \<Rightarrow> bool" where
  "uses_global smp i \<longleftrightarrow> sflow_enabled (per_interface_data smp ! i) \<and> samplingN (per_interface_data smp ! i) = 0"

text \<open>A sample environment: interface 1 is of hardware type, interface 2 is not; the random numbers count.\<close>

definition sample_sflow_api :: sflow_api where
  "sample_sflow_api = \<lparr>random_u32 = \<lambda>s. (s + 1, s + 1), SFLOW_DIRN_INGRESS = 1, SFLOW_DIRN_EGRESS = 2,
     SFLOW_DIRN_BOTH = 3, sw_interface = (\<lambda>i. if i = 1 then Some (True, 0) else if i = 2
     then Some (False, 0) else None), sflow_set_worker_sampling_state = \<lambda>s. s, sflow_sampling_start_stop = \<lambda>s. s,
     set_features = \<lambda>i f fs. fs(i := f)\<rparr>"

definition sample_sflow_main :: sflow_main where
  "sample_sflow_main = \<lparr>global_samplingN = 10000, samplingD = 1, dropM = False, interfacesEnabled = 0,
     per_interface_data = [], per_thread_data = [\<lparr>smpl = 0, drop_ctr = 0, dsmp = 0, ddrp = 0, per_interface = []\<rparr>],
     features = \<lambda>i. (False, False, False)\<rparr>"

section \<open>Lemmas\<close>

declare sflow_sample_loop.simps [simp del]

lemma draw_pool: "pool (snd (sflow_next_random_skip_if A effN s)) = pool s"
  by (auto simp: sflow_next_random_skip_if_def Let_def split: prod.splits)

lemma unat_u32_pred: "0 < unat (x :: u32) \<Longrightarrow> unat (x - 1) = unat x - 1"
  by (simp add: unat_sub word_le_nat_alt)

lemma packets_skipped:
  "k < unat (skip s) \<Longrightarrow>
    sampler_packets A effN k s = (s\<lparr>skip := skip s - of_nat k, pool := pool s + of_nat k\<rparr>, replicate k False)"
proof (induction k arbitrary: s)
  case (Suc k)
  then have "skip s \<noteq> 1" "k < unat (skip s - 1)" using unat_u32_pred [of "skip s"] by auto
  with Suc.IH [of "s\<lparr>pool := pool s + 1, skip := skip s - 1\<rparr>"] show ?case
    by (simp add: sampler_packet_def Let_def algebra_simps)
qed simp

lemma packets_append:
  "sampler_packets A effN (k + n) s =
    (let (s, bs) = sampler_packets A effN k s; (s, bs') = sampler_packets A effN n s in (s, bs @ bs'))"
  by (induction k arbitrary: s) (auto split: prod.splits)

text \<open>The packets up to a sample.\<close>

lemma packets_to_sample:
  assumes "skip s \<noteq> 0"
  shows "sampler_packets A effN (unat (skip s)) s =
    (let (x, s') = sflow_next_random_skip_if A effN (s\<lparr>pool := pool s + skip s\<rparr>) in s'\<lparr>skip := x\<rparr>,
     replicate (unat (skip s) - 1) False @ [True])"
proof -
  have n: "unat (skip s) = (unat (skip s) - 1) + 1" using assms unat_gt_0 [of "skip s"] by simp
  have k: "of_nat (unat (skip s) - 1) = skip s - 1" using assms unat_gt_0 [of "skip s"] by (simp add: of_nat_diff)
  have "sampler_packets A effN 1 (s\<lparr>skip := 1, pool := pool s + (skip s - 1)\<rparr>) =
      (let (x, s') = sflow_next_random_skip_if A effN (s\<lparr>pool := pool s + skip s\<rparr>) in s'\<lparr>skip := x\<rparr>, [True])"
    by (cases s) (simp add: sampler_packet_def sflow_next_random_skip_if_def Let_def split_def)
  then show ?thesis
    using packets_skipped [of "unat (skip s) - 1" s A effN] assms unat_gt_0 [of "skip s"]
    by (subst n, subst packets_append) (simp add: k)
qed

lemma loop_packets:
  assumes "skip s \<noteq> 0"
  shows "\<exists>ds. sflow_sample_loop A effN pkts s acc = (fst (sampler_packets A effN (unat pkts) s), acc @ ds) \<and>
    snd (sampler_packets A effN (unat pkts) s) = due (unat pkts) ds"
  using assms
proof (induction A effN pkts s acc rule: sflow_sample_loop.induct)
  case (1 A effN pkts s acc)
  show ?case
  proof (cases "skip s \<le> pkts")
    case True
    obtain x s' where d: "sflow_next_random_skip_if A effN (s\<lparr>pool := pool s + skip s\<rparr>) = (x, s')" by fastforce
    then have "x \<noteq> 0" using skip_positive [of A effN "s\<lparr>pool := pool s + skip s\<rparr>"] by simp
    with 1(1) [OF True refl refl d [symmetric] refl] obtain ds where
      ds: "sflow_sample_loop A effN (pkts - skip s) (s'\<lparr>skip := x\<rparr>) (acc @ [skip s - 1]) =
        (fst (sampler_packets A effN (unat (pkts - skip s)) (s'\<lparr>skip := x\<rparr>)), (acc @ [skip s - 1]) @ ds)"
      "snd (sampler_packets A effN (unat (pkts - skip s)) (s'\<lparr>skip := x\<rparr>)) = due (unat (pkts - skip s)) ds"
      by auto
    have n: "unat pkts = unat (skip s) + unat (pkts - skip s)" using True by (simp add: unat_sub word_le_nat_alt)
    have "sflow_sample_loop A effN pkts s acc = sflow_sample_loop A effN (pkts - skip s) (s'\<lparr>skip := x\<rparr>) (acc @ [skip s - 1])"
      using True d by (simp add: sflow_sample_loop.simps [of A effN pkts s])
    moreover have "sampler_packets A effN (unat pkts) s =
        (let (s'', bs) = sampler_packets A effN (unat (pkts - skip s)) (s'\<lparr>skip := x\<rparr>)
         in (s'', (replicate (unat (skip s) - 1) False @ [True]) @ bs))"
      unfolding n packets_append packets_to_sample [OF 1(2)] by (simp add: d)
    moreover have "Suc (unat (skip s - 1)) = unat (skip s)" using 1(2) unat_u32_pred [of "skip s"] unat_gt_0 [of "skip s"] by simp
    ultimately show ?thesis
      using ds n 1(2) unat_u32_pred [of "skip s"] unat_gt_0 [of "skip s"]
      by (intro exI [of _ "(skip s - 1) # ds"]) (simp add: split_def)
  next
    case False
    then have "unat pkts < unat (skip s)" by (simp add: not_le word_less_nat_alt)
    then show ?thesis
      using False packets_skipped [of "unat pkts" s A effN] by (simp add: sflow_sample_loop.simps [of A effN pkts s])
  qed
qed

lemma frame_packets:
  assumes "skip s \<noteq> 0" and "sflow_sample_frame A effN pkts s = (s', ds)"
  shows "sampler_packets A effN (unat pkts) s = (s', due (unat pkts) ds)"
proof (cases "skip s > pkts")
  case True
  then show ?thesis
    using assms(2) packets_skipped [of "unat pkts" s A effN] by (simp add: sflow_sample_frame_def word_less_nat_alt)
next
  case False
  then show ?thesis
    using assms(2) loop_packets [OF assms(1), of A effN pkts "[]"] by (auto simp: sflow_sample_frame_def prod_eq_iff)
qed

lemma packet_keeps:
  "skip s \<noteq> 0 \<Longrightarrow> pool (fst (sampler_packet A effN s)) = pool s + 1 \<and> skip (fst (sampler_packet A effN s)) \<noteq> 0"
  using skip_positive [of A effN "s\<lparr>pool := pool s + 1\<rparr>"] draw_pool [of A effN "s\<lparr>pool := pool s + 1\<rparr>"]
  by (auto simp: sampler_packet_def Let_def split_def)

lemma packets_keep:
  "skip s \<noteq> 0 \<Longrightarrow> pool (fst (sampler_packets A effN n s)) = pool s + of_nat n \<and> skip (fst (sampler_packets A effN n s)) \<noteq> 0"
proof (induction n arbitrary: s)
  case (Suc n)
  from Suc.IH [OF conjunct2 [OF packet_keeps [OF Suc.prems, of A effN]]] packet_keeps [OF Suc.prems, of A effN]
  show ?case by (simp add: split_def Let_def algebra_simps)
qed simp

text \<open>A rate of 1: every packet is due.\<close>

lemma packets_every:
  "\<lbrakk>effN \<le> 1; skip s = 1\<rbrakk> \<Longrightarrow> snd (sampler_packets A effN n s) = replicate n True"
  by (induction n arbitrary: s) (simp_all add: sampler_packet_def sflow_next_random_skip_if_def Let_def split_def)

lemma loop_every_packet:
  "\<lbrakk>effN \<le> 1; skip s = 1\<rbrakk> \<Longrightarrow> snd (sflow_sample_loop A effN pkts s acc) = acc @ replicate (unat pkts) 0"
proof (induction A effN pkts s acc rule: sflow_sample_loop.induct)
  case (1 A effN pkts s acc)
  show ?case
  proof (cases "skip s \<le> pkts")
    case True
    then have n: "unat pkts = Suc (unat (pkts - 1))" using 1(3) by (simp add: unat_sub word_le_nat_alt)
    have d: "sflow_next_random_skip_if A effN (s\<lparr>pool := pool s + skip s\<rparr>) = (1, s\<lparr>pool := pool s + skip s\<rparr>)"
      using 1(2) by (simp add: sflow_next_random_skip_if_def)
    from 1(1) [OF True refl refl d [symmetric] refl 1(2)] True d 1(3) show ?thesis
      unfolding n by (simp add: sflow_sample_loop.simps [of A effN pkts s])
  next
    case False
    then have "pkts = 0" using 1(3) unat_gt_0 [of pkts] by (auto simp: word_le_nat_alt)
    then show ?thesis using False by (simp add: sflow_sample_loop.simps [of A effN 0 s])
  qed
qed

lemma sample_every_packet:
  "\<lbrakk>effN \<le> 1; skip s = 1\<rbrakk> \<Longrightarrow> snd (sflow_sample_frame A effN pkts s) = replicate (unat pkts) 0"
  using loop_every_packet [of effN s A pkts "[]"] by (auto simp: sflow_sample_frame_def word_less_nat_alt)

lemma replicate_numeral_3: "replicate 3 x = [x, x, x]"
  by (simp add: numeral_3_eq_3)

text \<open>Samplers by thread and port, and what restarting one port does.\<close>

lemma nth_vec_validate [simp]:
  "i < length xs \<Longrightarrow> vec_validate z k xs ! i = xs ! i" "k < length (vec_validate z k xs)"
  "length xs \<le> length (vec_validate z k xs)"
  by (auto simp: vec_validate_def nth_append)

lemma reset_samplers:
  assumes "t < length (per_thread_data smp)"
  shows "sampler_of (sflow_reset_interface_samplers A k smp) t k =
      Some (reset_sampler A (effectiveN smp (per_interface_data smp ! k)) k t)"
    and "\<lbrakk>i < length (per_interface (per_thread_data smp ! t)); i \<noteq> k\<rbrakk> \<Longrightarrow>
      sampler_of (sflow_reset_interface_samplers A k smp) t i = sampler_of smp t i"
  using assms less_le_trans [OF _ nth_vec_validate(3) [of "per_interface (per_thread_data smp ! t)" empty_sampler k]]
  by (simp_all add: sampler_of_def sflow_reset_interface_samplers_def Let_def nth_enumerate_eq)

lemma reset_skip: "skip (reset_sampler A effN hw t) \<noteq> 0"
  using skip_positive by (simp add: reset_sampler_def split_def Let_def)

lemma reset_keeps:
  "per_interface_data (sflow_reset_interface_samplers A k smp) = per_interface_data smp"
  "global_samplingN (sflow_reset_interface_samplers A k smp) = global_samplingN smp"
  "length (per_thread_data (sflow_reset_interface_samplers A k smp)) = length (per_thread_data smp)"
  "t < length (per_thread_data smp) \<Longrightarrow>
    length (per_interface (per_thread_data smp ! t)) \<le>
    length (per_interface (per_thread_data (sflow_reset_interface_samplers A k smp) ! t))"
  by (simp_all add: sflow_reset_interface_samplers_def Let_def nth_enumerate_eq)

text \<open>A change of the global rate restarts the ports that use it.\<close>

lemma restart_ports:
  fixes A :: sflow_api and f
  defines "f \<equiv> \<lambda>i smp. let sfif = per_interface_data smp ! i
    in if sflow_enabled sfif \<and> samplingN sfif = 0 then sflow_reset_interface_samplers A i smp else smp"
  assumes "t < length (per_thread_data smp)"
    and "i < length (per_interface (per_thread_data smp ! t)) \<or> i \<in> set is \<and> uses_global smp i"
  shows "sampler_of (fold f is smp) t i =
    (if i \<in> set is \<and> uses_global smp i then Some (reset_sampler A (global_samplingN smp) i t) else sampler_of smp t i)"
  using assms(2,3)
proof (induction "is" arbitrary: smp)
  case (Cons a xs)
  have f: "f a smp = (if uses_global smp a then sflow_reset_interface_samplers A a smp else smp)"
    by (simp add: f_def uses_global_def Let_def)
  show ?case
  proof (cases "uses_global smp a")
    case True
    let ?smp = "sflow_reset_interface_samplers A a smp"
    have same: "uses_global ?smp i = uses_global smp i" "t < length (per_thread_data ?smp)"
      using Cons.prems(1) by (simp_all add: uses_global_def reset_keeps)
    have eff: "effectiveN smp (per_interface_data smp ! a) = global_samplingN smp"
      using True by (simp add: effectiveN_def uses_global_def)
    note r = reset_samplers [OF Cons.prems(1), where A = A and k = a, unfolded eff]
    have "i < length (per_interface (per_thread_data ?smp ! t)) \<or> i \<in> set xs \<and> uses_global ?smp i"
      using Cons.prems r(1) reset_keeps(4) [OF Cons.prems(1), of A a] same(1)
      by (cases "i = a") (auto simp: sampler_of_def split: if_splits)
    from Cons.IH [OF same(2) this] show ?thesis
      using f True r Cons.prems same(1) by (cases "i = a") (auto simp: reset_keeps)
  next
    case False
    then have "i < length (per_interface (per_thread_data smp ! t)) \<or> i \<in> set xs \<and> uses_global smp i"
      using Cons.prems(2) by auto
    from Cons.IH [OF Cons.prems(1) this] f False show ?thesis by auto
  qed
qed simp

section \<open>Properties\<close>

text \<open>C18:
  The countdown does not depend on how packets are grouped into frames: for a sampler in use, the loop of the node, which jumps from
  sample to sample, always ends, draws as many samples as a countdown by single packets does, each when that countdown is over, with the
  same random numbers; every packet is counted in the pool once, modulo \<open>2 ^ 32\<close>; and the distance to the next sample is
  never 0, so that the same holds for the next frame.
\<close>

theorem sflow_frames_like_packets:
  assumes "skip smpif \<noteq> 0" and "sflow_sample_frame A effN pkts smpif = (smpif', taken)"
  shows "sampler_packets A effN (unat pkts) smpif = (smpif', due (unat pkts) taken) \<and>
    pool smpif' = pool smpif + pkts \<and> skip smpif' \<noteq> 0"
  using frame_packets [OF assms] packets_keep [OF assms(1), of A effN "unat pkts"] by simp

theorem sflow_frames_like_packets_witness:
  "sampler_packets sample_sflow_api 2 5 \<lparr>skip = 2, pool = 7, seed = 0\<rparr> =
     (\<lparr>skip = 2, pool = 12, seed = 2\<rparr>, [False, True, False, True, False])"
proof -
  have "sflow_sample_frame sample_sflow_api 2 5 \<lparr>skip = 2, pool = 7, seed = 0\<rparr> = (\<lparr>skip = 2, pool = 12, seed = 2\<rparr>, [1, 1])"
    by code_simp
  then show ?thesis
    using sflow_frames_like_packets [of "\<lparr>skip = 2, pool = 7, seed = 0\<rparr>" sample_sflow_api 2 5] by simp
qed

text \<open>C19:
  The sample is not always the packet at which the countdown ended: the index of every sample is taken from the start of the frame, also
  after a sample. At a rate of 1, where every packet is due, each sample of a frame copies its first packet.
\<close>

theorem sflow_samples_first_packet:
  assumes "effN \<le> 1" and "skip smpif = 1"
  shows "snd (sflow_sample_frame A effN pkts smpif) = replicate (unat pkts) 0 \<and>
    snd (sampler_packets A effN (unat pkts) smpif) = replicate (unat pkts) True"
  using sample_every_packet [OF assms] packets_every [OF assms] by simp

theorem sflow_samples_first_packet_witness:
  "snd (sflow_sample_frame sample_sflow_api 1 3 \<lparr>skip = 1, pool = 0, seed = 0\<rparr>) = [0, 0, 0]"
  using sflow_samples_first_packet [of 1 "\<lparr>skip = 1, pool = 0, seed = 0\<rparr>" sample_sflow_api 3]
  by (simp add: replicate_numeral_3)

text \<open>
  Setting the rate of a port: an interface that does not exist or is not of hardware type is refused and nothing changes;
  otherwise the port has the rate, every worker thread has for it a fresh sampler with a distance that is not 0, drawn at the rate now in
  effect (the port's own, or the global one for 0), and the samplers of all other ports, which may be counting down,
  are as before.
\<close>

theorem sflow_port_rate_set:
  assumes "t < length (per_thread_data smp)"
  shows "case sflow_set_sampling_rate_set A sw_if_index N smp of
      Inl e \<Rightarrow> e = VNET_API_ERROR_INVALID_SW_IF_INDEX \<and> (\<nexists>hw. sw_interface A sw_if_index = Some (True, hw))
    | Inr smp' \<Rightarrow> \<exists>hw. sw_interface A sw_if_index = Some (True, hw) \<and> samplingN (per_interface_data smp' ! hw) = N \<and>
        sampler_of smp' t hw = Some (reset_sampler A (if N \<noteq> 0 then N else global_samplingN smp) hw t) \<and>
        skip (reset_sampler A (if N \<noteq> 0 then N else global_samplingN smp) hw t) \<noteq> 0 \<and>
        (\<forall>i < length (per_interface (per_thread_data smp ! t)). i \<noteq> hw \<longrightarrow> sampler_of smp' t i = sampler_of smp t i)"
proof (cases "sw_interface A sw_if_index")
  case (Some p)
  obtain hardware hw where p: "p = (hardware, hw)" by fastforce
  let ?ifs = "vec_validate empty_interface_data hw (per_interface_data smp)"
  let ?smp = "smp\<lparr>per_interface_data := ?ifs[hw := (?ifs ! hw)\<lparr>samplingN := N\<rparr>]\<rparr>"
  let ?smp' = "sflow_reset_interface_samplers A hw ?smp"
  have keep: "sampler_of ?smp t i = sampler_of smp t i" for i by (simp add: sampler_of_def)
  have eff: "effectiveN ?smp (per_interface_data ?smp ! hw) = (if N \<noteq> 0 then N else global_samplingN smp)"
    by (simp add: effectiveN_def)
  have "t < length (per_thread_data ?smp)" using assms by simp
  note r = reset_samplers [OF this, where A = A and k = hw]
  show ?thesis
  proof (cases hardware)
    case True
    then have "sflow_set_sampling_rate_set A sw_if_index N smp = Inr ?smp'"
      using assms Some p by (auto simp: sflow_set_sampling_rate_set_def Let_def)
    moreover have "samplingN (per_interface_data ?smp' ! hw) = N" by (simp add: reset_keeps)
    ultimately show ?thesis
      using r(1) [unfolded eff] r(2) Some p True keep reset_skip by simp
  qed (simp add: sflow_set_sampling_rate_set_def Some p)
qed (simp add: sflow_set_sampling_rate_set_def)

theorem sflow_port_rate_set_witness:
  "\<exists>smp'. sflow_set_sampling_rate_set sample_sflow_api 1 2 sample_sflow_main = Inr smp' \<and>
     sampler_of smp' 0 0 = Some \<lparr>skip = 3, pool = 0, seed = 2\<rparr>"
proof -
  have "isl (sflow_set_sampling_rate_set sample_sflow_api 1 2 sample_sflow_main) = False"
    "sw_interface sample_sflow_api 1 = Some (True, 0)" "0 < length (per_thread_data sample_sflow_main)"
    "reset_sampler sample_sflow_api 2 0 0 = \<lparr>skip = 3, pool = 0, seed = 2\<rparr>" by code_simp+
  then show ?thesis
    using sflow_port_rate_set [of 0 sample_sflow_main sample_sflow_api 1 2] by (auto split: sum.splits)
qed

text \<open>Direction: a port's own direction overrides the global one, and a direction that does not exist is refused.\<close>

theorem sflow_port_direction_set:
  "sflow_set_direction_set A sw_if_index d smp =
     (case sw_interface A sw_if_index of
        Some (True, hw) \<Rightarrow>
          if d > SFLOW_DIRN_BOTH A then Inl VNET_API_ERROR_INVALID_VALUE
          else let sfif = (vec_validate empty_interface_data hw (per_interface_data smp) ! hw)\<lparr>direction := d\<rparr>;
                   on = (if d \<noteq> 0 then d else samplingD smp)
               in Inr (smp\<lparr>per_interface_data := (vec_validate empty_interface_data hw (per_interface_data smp))[hw := sfif],
                    features := set_features A (sfif_sw_if_index sfif)
                      (sflow_enabled sfif \<and> on \<in> {SFLOW_DIRN_INGRESS A, SFLOW_DIRN_BOTH A}, sflow_enabled sfif \<and> on \<in> {SFLOW_DIRN_EGRESS A, SFLOW_DIRN_BOTH A}, sflow_enabled sfif \<and> dropM smp)
                      (features smp)\<rparr>)
      | _ \<Rightarrow> Inl VNET_API_ERROR_INVALID_SW_IF_INDEX)"
  by (auto simp: sflow_set_direction_set_def sflow_enable_disable_interface_def sflow_direction_resolve_def Let_def
      split: option.splits bool.splits)

text \<open>
  A change of the global rate gives a fresh sampler to exactly the ports that are enabled and have no rate of their own, in every
  thread; a port with its own rate goes on counting.
\<close>

theorem sflow_global_rate_restarts:
  assumes "t < length (per_thread_data smp)" and "i < length (per_interface_data smp)"
    and "uses_global smp i \<or> i < length (per_interface (per_thread_data smp ! t))"
  shows "sampler_of (sflow_set_interface_sampling_rate A smp) t i =
    (if uses_global smp i then Some (reset_sampler A (global_samplingN smp) i t) else sampler_of smp t i)"
  unfolding sflow_set_interface_sampling_rate_def using assms by (subst restart_ports) auto

end
