(* ===== verification/Ip_Patches.thy ===== *)
theory Ip_Patches
  imports Prelude
begin

text \<open>
  Three smaller patches to VPP: the decap-only IPIP tunnel of mode MP2P (patch 0009), the option that leaves out
  the drop route of class E (patch 0010) and the drop counters of bond members (patch 0008). The tunnel database is a map from keys; the table of special prefixes, of which the patch
  shows only the use, is a parameter.
\<close>

section \<open>Tunnels of mode MP2P\<close>

datatype tunnel_mode = TUNNEL_MODE_P2P | TUNNEL_MODE_MP | TUNNEL_MODE_MP2P

datatype ipip_mode = IPIP_MODE_P2P | IPIP_MODE_P2MP | IPIP_MODE_6RD | IPIP_MODE_MP2P

datatype ipip_transport = IPIP_TRANSPORT_IP4 | IPIP_TRANSPORT_IP6

datatype ipip_error = VNET_API_ERROR_INVALID_DST_ADDRESS | VNET_API_ERROR_IF_ALREADY_EXISTS

record ipip_tunnel_key =
  key_transport :: ipip_transport
  key_mode :: ipip_mode
  key_src :: "u64 \<times> u64"
  key_dst :: "u64 \<times> u64"
  key_fib_index :: u32

record ipip_tunnel =
  tunnel_key :: ipip_tunnel_key
  tunnel_instance :: u32

definition ipip_mode_of :: "tunnel_mode \<Rightarrow> ipip_mode" where
  "ipip_mode_of tmode =
     (if tmode = TUNNEL_MODE_P2P then IPIP_MODE_P2P
      else if tmode = TUNNEL_MODE_MP2P then IPIP_MODE_MP2P else IPIP_MODE_P2MP)"

definition ipip_tunnel_mode_encode :: "ipip_mode \<Rightarrow> tunnel_mode" where
  "ipip_tunnel_mode_encode mode =
     (case mode of IPIP_MODE_P2P \<Rightarrow> TUNNEL_MODE_P2P | IPIP_MODE_P2MP \<Rightarrow> TUNNEL_MODE_MP
      | IPIP_MODE_MP2P \<Rightarrow> TUNNEL_MODE_MP2P | IPIP_MODE_6RD \<Rightarrow> TUNNEL_MODE_P2P)"

text \<open>The database part of \<^verbatim>\<open>ipip_add_tunnel\<close>.\<close>

definition ipip_add_tunnel ::
  "ipip_transport \<Rightarrow> u32 \<Rightarrow> u64 \<times> u64 \<Rightarrow> u64 \<times> u64 \<Rightarrow> u32 \<Rightarrow> tunnel_mode \<Rightarrow> (ipip_tunnel_key \<rightharpoonup> ipip_tunnel) \<Rightarrow>
   ipip_error + (ipip_tunnel_key \<rightharpoonup> ipip_tunnel)" where
  "ipip_add_tunnel transport instance_id src dst fib_index tmode db =
     (if (tmode = TUNNEL_MODE_MP \<or> tmode = TUNNEL_MODE_MP2P) \<and> dst \<noteq> (0, 0) then Inl VNET_API_ERROR_INVALID_DST_ADDRESS
      else let key = \<lparr>key_transport = transport, key_mode = ipip_mode_of tmode, key_src = src, key_dst = dst,
                 key_fib_index = fib_index\<rparr>
           in if db key \<noteq> None then Inl VNET_API_ERROR_IF_ALREADY_EXISTS
              else Inr (db(key \<mapsto> \<lparr>tunnel_key = key, tunnel_instance = instance_id\<rparr>)))"

text \<open>The search of \<^verbatim>\<open>ipip_input\<close>: \<open>key0\<close> is the key of the packet, of mode P2P. \<open>None\<close>: the packet is dropped.\<close>

definition ipip_input_find :: "(ipip_tunnel_key \<rightharpoonup> ipip_tunnel) \<Rightarrow> ipip_tunnel_key \<Rightarrow> ipip_tunnel option" where
  "ipip_input_find db key0 =
     (case db key0 of
        Some t0 \<Rightarrow> Some t0
      | None \<Rightarrow>
          let key0 = key0\<lparr>key_dst := (0, 0), key_mode := IPIP_MODE_MP2P\<rparr>
          in (case db key0 of Some t0 \<Rightarrow> Some t0 | None \<Rightarrow> db (key0\<lparr>key_mode := IPIP_MODE_6RD\<rparr>)))"

text \<open>The start of \<^verbatim>\<open>ipip_update_adj\<close>: \<open>rest\<close> is the rewrite that the rest of the function computes, \<open>None\<close> an incomplete adjacency.\<close>

definition ipip_update_adj :: "ipip_tunnel option \<Rightarrow> 'r option \<Rightarrow> 'r option \<Rightarrow> 'r option" where
  "ipip_update_adj t old rest =
     (case t of None \<Rightarrow> old
      | Some t \<Rightarrow> if key_mode (tunnel_key t) = IPIP_MODE_MP2P then None else rest)"

section \<open>Special prefixes\<close>

text \<open>A prefix in host byte order and its length; the results are the prefixes added and removed, in order.\<close>

definition ip4_fib_special_is_class_e :: "u32 \<times> nat \<Rightarrow> bool" where
  "ip4_fib_special_is_class_e s \<longleftrightarrow> fst s = 0xf0000000 \<and> snd s = 4"

fun specials_loop :: "bool \<Rightarrow> (u32 \<times> nat) list \<Rightarrow> (u32 \<times> nat) list" where
  "specials_loop no_class_e_drop [] = []"
| "specials_loop no_class_e_drop (s # ss) =
     (if no_class_e_drop \<and> ip4_fib_special_is_class_e s then specials_loop no_class_e_drop ss
      else (clib_net_to_host_u32 (fst s), snd s) # specials_loop no_class_e_drop ss)"

definition ip4_fib_hash_load_specials :: "bool \<Rightarrow> (u32 \<times> nat) list \<Rightarrow> (u32 \<times> nat) list" where
  "ip4_fib_hash_load_specials no_class_e_drop ip4_specials = specials_loop no_class_e_drop ip4_specials"

definition ip4_fib_hash_flush_specials :: "bool \<Rightarrow> (u32 \<times> nat) list \<Rightarrow> (u32 \<times> nat) list" where
  "ip4_fib_hash_flush_specials no_class_e_drop ip4_specials = specials_loop no_class_e_drop (rev ip4_specials)"

section \<open>Drop counters of bond members\<close>

text \<open>
  The interfaces a buffer carries. Whether \<^verbatim>\<open>bond_sw_if_idx_rewrite\<close> rewrites a packet is decided by code of VPP; \<^verbatim>\<open>bond-input\<close> clears
  the original interface first.
\<close>

record bond_buffer =
  bond_rx :: u32
  orig_rx_sw_if_index :: u32

definition bond_sw_if_idx_rewrite :: "bool \<Rightarrow> u32 \<Rightarrow> bond_buffer \<Rightarrow> bond_buffer" where
  "bond_sw_if_idx_rewrite rewrites bond_sw_if_index b =
     (if rewrites then b\<lparr>orig_rx_sw_if_index := bond_rx b, bond_rx := bond_sw_if_index\<rparr> else b)"

definition bond_input_buffer :: "bool \<Rightarrow> u32 \<Rightarrow> bond_buffer \<Rightarrow> bond_buffer" where
  "bond_input_buffer rewrites bond_sw_if_index b =
     bond_sw_if_idx_rewrite rewrites bond_sw_if_index (b\<lparr>orig_rx_sw_if_index := 0\<rparr>)"

text \<open>The loop of \<^verbatim>\<open>interface_drop_punt\<close> over a run of buffers received on \<open>sw_if_index\<close>.\<close>

definition drop_punt_members :: "u32 \<Rightarrow> bond_buffer list \<Rightarrow> (u32 \<Rightarrow> nat) \<Rightarrow> u32 \<Rightarrow> nat" where
  "drop_punt_members sw_if_index bufs counters =
     fold (\<lambda>ob c. let orig = orig_rx_sw_if_index ob
            in if orig \<noteq> 0 \<and> orig \<noteq> sw_if_index then c(orig := c orig + 1) else c) bufs counters"

section \<open>Samples\<close>

definition sample_db :: "ipip_tunnel_key \<rightharpoonup> ipip_tunnel" where
  "sample_db = (case ipip_add_tunnel IPIP_TRANSPORT_IP4 7 (0, 1) (0, 0) 0 TUNNEL_MODE_MP2P Map.empty of Inr db \<Rightarrow> db | Inl e \<Rightarrow> Map.empty)"

section \<open>Lemmas\<close>

lemma specials_loop_filter:
  "specials_loop e ss = map (\<lambda>s. (clib_net_to_host_u32 (fst s), snd s)) (filter (\<lambda>s. \<not> (e \<and> ip4_fib_special_is_class_e s)) ss)"
  by (induction e ss rule: specials_loop.induct) auto

text \<open>A FIB is flushed of exactly what was loaded, in the opposite order.\<close>

theorem specials_flushed: "ip4_fib_hash_flush_specials e ss = rev (ip4_fib_hash_load_specials e ss)"
  by (simp add: ip4_fib_hash_flush_specials_def ip4_fib_hash_load_specials_def specials_loop_filter rev_map rev_filter)

text \<open>The mode given on creation is the one reported.\<close>

theorem tunnel_mode_roundtrip: "ipip_tunnel_mode_encode (ipip_mode_of tmode) = tmode"
  by (cases tmode) (auto simp: ipip_mode_of_def ipip_tunnel_mode_encode_def)

lemma drop_punt_count:
  "drop_punt_members i bufs c k =
    c k + length (filter (\<lambda>b. orig_rx_sw_if_index b = k \<and> k \<noteq> 0 \<and> k \<noteq> i) bufs)"
  unfolding drop_punt_members_def by (induction bufs arbitrary: c) (auto simp: Let_def)

text \<open>
  Packets of a bond that are dropped count against the member they were received on: of the packets that went through bond-input and were
  rewritten, each counts once for its member.
\<close>

theorem bond_drops_counted:
  assumes "member \<noteq> 0" and "member \<noteq> bond"
  shows "drop_punt_members bond (map (bond_input_buffer True bond) bufs) c member =
    c member + length (filter (\<lambda>b. bond_rx b = member) bufs)"
  using assms by (simp add: drop_punt_count filter_map bond_input_buffer_def bond_sw_if_idx_rewrite_def o_def)

section \<open>Property\<close>

text \<open>
  A tunnel of mode MP2P is decap-only and takes any source. It is created only without a destination; from then on every
  packet to its local address, FIB and transport that has no tunnel of its own reaches it, whatever its source; packets that
  found another tunnel before, except one of mode 6RD with the same local address, still do; and its adjacency stays incomplete,
  so that nothing is sent through it.
\<close>

theorem ipip_mp2p_takes_any_source:
  assumes "ipip_add_tunnel transport inst src dst fib TUNNEL_MODE_MP2P db = Inr db'"
    and "key_mode key0 = IPIP_MODE_P2P"
  shows "dst = (0, 0) \<and>
    (if key_transport key0 = transport \<and> key_src key0 = src \<and> key_fib_index key0 = fib \<and> db key0 = None
     then \<exists>t. ipip_input_find db' key0 = Some t \<and> tunnel_instance t = inst \<and> ipip_update_adj (Some t) old rest = None
     else ipip_input_find db' key0 = ipip_input_find db key0)"
proof -
  let ?key = "\<lparr>key_transport = transport, key_mode = IPIP_MODE_MP2P, key_src = src, key_dst = (0, 0), key_fib_index = fib\<rparr>"
  have db': "db' = db(?key \<mapsto> \<lparr>tunnel_key = ?key, tunnel_instance = inst\<rparr>)" and dst: "dst = (0, 0)"
    using assms(1) by (auto simp: ipip_add_tunnel_def ipip_mode_of_def Let_def split: if_splits)
  have "key0 \<noteq> ?key" "key0\<lparr>key_dst := (0, 0), key_mode := IPIP_MODE_6RD\<rparr> \<noteq> ?key" using assms(2) by (cases key0; auto)+
  moreover have "key0\<lparr>key_dst := (0, 0), key_mode := IPIP_MODE_MP2P\<rparr> = ?key \<longleftrightarrow>
      key_transport key0 = transport \<and> key_src key0 = src \<and> key_fib_index key0 = fib"
    by (cases key0) auto
  ultimately show ?thesis
    using dst by (auto simp: ipip_input_find_def ipip_update_adj_def db' Let_def split: option.splits)
qed

theorem ipip_mp2p_takes_any_source_witness:
  "\<exists>t. ipip_input_find sample_db
     \<lparr>key_transport = IPIP_TRANSPORT_IP4, key_mode = IPIP_MODE_P2P, key_src = (0, 1), key_dst = (0, 99), key_fib_index = 0\<rparr> = Some t \<and>
     tunnel_instance t = 7"
proof -
  have "ipip_add_tunnel IPIP_TRANSPORT_IP4 7 (0, 1) (0, 0) 0 TUNNEL_MODE_MP2P Map.empty = Inr sample_db"
    by (simp add: sample_db_def ipip_add_tunnel_def Let_def)
  from ipip_mp2p_takes_any_source [OF this, of "\<lparr>key_transport = IPIP_TRANSPORT_IP4, key_mode = IPIP_MODE_P2P,
      key_src = (0, 1), key_dst = (0, 99), key_fib_index = 0\<rparr>"]
  show ?thesis by auto
qed

end
