(* ===== verification/Spec2Isabelle.thy ===== *)
theory Spec2Isabelle
  imports Tunterm_System Tunterm_Paths Tunterm_Cli Sonic_Ext_Cli Sonic_Ext_Frames Node_Graph Trace_Format Vppcfg_Daemon Vppcfg_Load
    Flow_Hash Vxlan_Decap_Any Sflow_Sampler Ip_Patches
begin

text \<open>
  Verification of sonic-platform-vpp: the VPP plugins (\<^verbatim>\<open>src/vppbld/plugins\<close>), the patches to VPP
  (\<^verbatim>\<open>src/vppbld/patches\<close>) and the configuration daemon vppcfgd (\<^verbatim>\<open>src/platform/mkrules/src/sonic-vppcfgd\<close>).

  \<^bold>\<open>The program.\<close> SONiC's VPP platform adds three plugins to VPP. They are C code called by VPP: graph node
  functions that get a frame of packets, message handlers of the binary API, callbacks of other VPP components,
  and commands.

  \<^item> ip_validate: the nodes \<^verbatim>\<open>ip4-validate\<close> and \<^verbatim>\<open>ip6-validate\<close> drop packets with invalid addresses; a handler and an
    interface callback switch them on and off.
  \<^item> sonic_ext: punt-via-member and host cross-connect for SONiC. \<^verbatim>\<open>sonic-ext-capture\<close> records the ingress port and
    the raw VLAN tag of a packet, \<^verbatim>\<open>sonic-ext-aggr-tap-redirect\<close> and \<^verbatim>\<open>sonic-ext-glean-redirect\<close> use the record to hand
    the packet to the Linux tap of the port it came in on, with the tag restored; \<^verbatim>\<open>sonic-ext-host-xc\<close>,
    \<^verbatim>\<open>sonic-ext-l2-trap-fixup\<close> and \<^verbatim>\<open>sonic-ext-ip2me-ip4/-ip6\<close> forward host, trapped and router-bound packets. The
    configuration follows the interface pairs of linux-cp.
  \<^item> tunterm_acl: ACLs on the inner destination of VXLAN packets. The API keeps one classifier table per ACL and
    one redirect session per rule; \<^verbatim>\<open>tunterm-ip4-vxlan-bypass\<close> takes VXLAN packets off the IPv4 path on interfaces
    with an ACL, \<^verbatim>\<open>tunterm-acl\<close> looks them up and redirects the ones that match.

  Where a plugin is not enough the platform patches VPP. Patch 0011 makes the flow hash and the LAG hash look into tunnelled packets, 0015
  does so for the source port of VXLAN tunnels, 0017 decapsulates VXLAN packets from any source for tunnels marked so, and 0012 to 0014
  give every port its own sFlow sampling rate and direction; 0008 to 0010 are smaller.

  Beside VPP runs vppcfgd, a Python daemon. It reads a JSON template, merges the updates of the PLATFORM tables of
  two databases into it, and after every batch of messages writes \<^verbatim>\<open>startup.json\<close>, \<^verbatim>\<open>bootup.conf\<close> and \<^verbatim>\<open>startup.conf\<close> for
  VPP. The script \<^verbatim>\<open>vppcfg_load.py\<close> produces the first update from the environment. The managers of vppcfgd queue
  updates while the data they depend on is missing from a shared directory, which notifies them on a change.

  \<^bold>\<open>VPP.\<close> VPP itself is not in the repository. What the plugins call is a record of functions that the definitions
  take as an argument (\<open>vlib_api\<close>, \<open>feature_api\<close>, \<open>redirect_api\<close>, \<open>tunterm_env\<close>, \<open>classify_api\<close>, \<open>frame_api\<close>, \<open>vxlan_api\<close>,
  \<open>bypass_api\<close> and those of sonic_ext), acting on a state of arbitrary type; what the code relies on is a
  predicate on that record stating documented behaviour (\<open>vlib_ok\<close>, \<open>feature_ok\<close>, \<open>pool_ok\<close>, \<open>classifier_ok\<close>,
  \<open>lookup_ok\<close>, \<open>frames_ok\<close>, \<open>vxlan_ok\<close>, ...), and each theorem names the ones it needs. Every predicate is shown to
  hold for a concrete record in the witnesses. The features of VPP are reference counted: a successful call adds or drops one reference,
  a feature is on while it has one, and a disable without a reference changes nothing; nothing is assumed of a device-input feature on a sub-interface, whose
  configuration it shares with its parent. A patch shows the lines it adds and a few around them; the code of VPP between its hunks
  is likewise a field of such a record (\<open>inner_api\<close>, \<open>flow_api\<close>, \<open>decap_api\<close>, \<open>sflow_api\<close>).

  \<^bold>\<open>Modelling.\<close> Integers are words of the width the code has. A packet is a \<open>vlib_buffer\<close> with its data as a
  function from offsets to bytes, so that headers are read at the offsets, and in the byte order, of the C
  structures. Vectors and pools are lists; a read outside them is the result \<open>None\<close> or a fault flag, never an
  unspecified value. Error codes are the type \<open>retval\<close>. Loops over packets are structural recursion; the
  outer loop of the speculative enqueue (\<open>dispatch_frames\<close>) may in principle not end, so it is a
  \<open>partial_function\<close> with \<open>None\<close> for that, and it is proved to return. In the Python part a value is a \<open>pyval\<close>, a dict
  an association list in insertion order, a string a list of code points, an exception a value of \<open>exn\<close>, and every
  operation that can raise returns a sum. The object graph of ConfigMgr is explicit where it matters: the current
  configuration is a reference, which is the template itself after an update. The JSON scanner has fuel, twice the
  length of the text plus one; \<open>scan_enough\<close> shows that this is enough for every text: more fuel gives the same
  result. The daemon runs on the list of results of its select calls, so its loop is
  structural; nothing else is bounded.

  \<^bold>\<open>Theories.\<close>

  \<^descr> Prelude: words, bytes, loads, byte swapping, association lists, the collections \<open>mem_simps\<close> and others.
  \<^descr> Vpp_Env: buffers, features, tracing, concrete environments.
  \<^descr> Node_Frame: the 4-wise unrolled frame loop of ip_validate (\<open>quad_loop\<close>, \<open>single_loop\<close>) and its equivalence with
    a loop over single packets, for every node that satisfies the locale's contract.
  \<^descr> Speculative_Frame: the enqueue loops with \<^verbatim>\<open>vlib_get_next_frame\<close> (\<open>fill_x1\<close>, \<open>fill_x2\<close>, \<open>dispatch_frames\<close>); the locale
    \<open>frame_filler\<close> gives termination and order of the packets to both tunterm nodes.
  \<^descr> Ip4_Validate, Ip6_Validate: ip4_validate_node.c, ip6_validate_node.c. The checks against the documented
    filter tables, and the node functions against a per-packet map with exact counters and traces.
  \<^descr> Ip_Validate: ip_validate.c. Atomicity of the handler, its failing case, that two enables need two disables, and
    that the features have one reference on each interface that exists and none elsewhere.
  \<^descr> Sonic_Ext_Main: sonic_ext.h and the redirect of sonic_ext.c; Sonic_Ext_Config: the rest of sonic_ext.c and
    sonic_ext_api.c, with the histories of callbacks and toggles as an inductive relation and its invariants;
    Sonic_Ext_Cli: cli.c.
  \<^descr> Capture_Node, Host_Xc_Node, L2_Trap_Fixup_Node, Ip2me_Node, Aggr_Tap_Redirect_Node, Glean_Redirect_Node: one
    node of sonic_ext each, with the verdict, the buffer and the counters of every packet.
  \<^descr> Sonic_Ext_Frames: capture and redirect together: the VLAN round trip and its limits.
  \<^descr> Tunterm_Redirect: tunterm_acl_redirect.c. The pool and the hash of sessions refine a map from (table, match)
    to sessions; the locale \<open>session_table\<close> is the contract its client relies on.
  \<^descr> Tunterm_Api: tunterm_acl_api.c, the histories \<open>tun_config\<close> of API messages and FIB back walks and their
    invariant \<open>tun_inv\<close>; Tunterm_Acl: the properties of the handlers.
  \<^descr> Tunterm_Classifier, Tunterm_Tables: what the classifier of VPP holds while those handlers run: only sessions
    the plugin knows, and after a successful add-replace exactly those of the message, under the right mask. Tunterm_Paths: the session
    of the last rule with a match is stacked on the path of that rule, in the plugin and in the classifier.
  \<^descr> Vxlan_Tunnel, Tunterm_Bypass: tunterm_acl_decap.c. The cached tunnel search against an uncached lookup, and the
    dual-loop node against a per-packet specification.
  \<^descr> Tunterm_Node: tunterm_acl_node.c. Bounds of its reads, verdicts, output and counters.
  \<^descr> Tunterm_System: the API, the classifier and both nodes together: a configured ACL redirects exactly the flows
    of its rules.
  \<^descr> Tunterm_Cli: tunterm_acl_cli.c.
  \<^descr> Trace_Format: the trace formatters and counter texts of all nodes; the lines determine the records they print.
  \<^descr> Python_Values, Python_Json: the values and operations of Python that vppcfgd uses, and the \<^verbatim>\<open>json\<close> module with its
    round trip.
  \<^descr> Vppcfg_Directory: directory.py and manager.py. Histories of messages and of changes of the directory: no update is
    lost or handled again after it was accepted, and a queued one is delivered as soon as the last dependency appears.
  \<^descr> Vppcfg_Config: vpp.py, vars.py and config.py. The merge against a description by paths, the rendering against a
    syntax tree of the VPP configuration that can be read back.
  \<^descr> Vppcfg_Commit: the commit: the three files hold the effective configuration; and the case in which the DPDK plugin
    stays disabled.
  \<^descr> Vppcfg_Daemon: managers_vppcfg.py, runner.py and main.py. The whole process against a specification on the list of
    message batches, and the batch that ends it.
  \<^descr> Vppcfg_Load: vppcfg_load.py.
  \<^descr> Inner_Hash: the search for the inner header and the LAG hash of patch 0011. Nothing outside the bound is read, and a packet behind
    IP-in-IP, GRE or NVGRE is found and hashed by its own flow. Flow_Hash: the keys of the IPv4 and IPv6 flow hash of the same patch,
    with and without a tunnelled packet and for fragments, and the VXLAN source port of patch 0015.
  \<^descr> Vxlan_Decap_Any: patch 0017. The histories of tunnels added and deleted, with an entry dropped when the hash refuses to hand it on, and the
    invariant that the shared hash entries and the bitmap of the BVI follow the tunnels; the case in which an entry goes to a tunnel of the other family; and that the tunnel search of
    tunterm_acl does not know these entries.
  \<^descr> Sflow_Skip, Sflow_Sampler: patches 0012 to 0014. Bounds of the distance between samples, the sampling loop against a countdown by
    single packets, the packets it copies, and which samplers a change of rate restarts. The loop ends because a drawn distance is never 0.
  \<^descr> Ip_Patches: patches 0008 to 0010, tunnels of mode MP2P, the class E route, drop counters of bond members.
  \<^descr> Node_Graph: the registrations of the nodes and features of all plugins; the property at the end of this theory
    relates them to the feature calls of the three control planes.

  The interfaces stated as locales are \<open>arc_node\<close> (a step whose packets continue on the feature arc or take a
  static next index) and \<open>unrolled_node\<close> of Node_Frame, \<open>frame_filler\<close> of Speculative_Frame, \<open>tap_redirect\<close> of
  Sonic_Ext_Main (what the redirect nodes rely on), \<open>session_table\<close> of Tunterm_Redirect (what the API relies
  on) and \<open>prompt_handler\<close> of Vppcfg_Directory (a set handler that accepts what it is given); each is interpreted on the definitions of the components that provide it.

  \<^bold>\<open>Where the code repeats itself.\<close> The three copies of the packet handling in tunterm_acl_decap.c are one definition.
  The files under \<^verbatim>\<open>src/platform/vpp/vppbld/plugins/tunterm_acl\<close> are identical to the ones modelled.

  \<^verbatim>\<open>vppcfg_load.py\<close> is kept twice in the repository, with the same contents.

  \<^bold>\<open>Not modelled.\<close> Plugin registrations and the help texts of commands, the vector instructions behind
  \<^verbatim>\<open>vtep4_check_vector\<close> (a parameter), prefetching, timing and concurrency between worker threads, the FIB node glue of
  tunterm_acl_redirect.c (pointer arithmetic from a node to its entry, and a callback that asserts false). Of
  the patches to VPP: the code that they do not show, formatting, commands and the test programs, the bond parser of 0011, and 0001 to 0006, which concern the build, an exported
  symbol and a removed check. Of vppcfgd: template.py (a jinja2 environment that is created and never used, and filters that wrap
  netaddr), logging and debug output, \<^verbatim>\<open>split_key\<close> and \<^verbatim>\<open>run_command\<close>, which nothing calls; the databases, the YAML file of
  constants, the environment variables and the text of floats are parameters. The shell scripts and the descriptions
  of the containers are not programs with a state of their own.
\<close>

section \<open>Features and registrations\<close>

text \<open>C40: The control planes of the three plugins only ever ask VPP for features that the plugins register, on the
  arc they register them for, and whose node exists: whatever every call on a registered feature keeps, successful
  or not, holds in all states that the sonic_ext callbacks, toggles and requests reach, after any history of
  interface events of ip_validate, and after its handler and the attach handler of tunterm_acl.\<close>

theorem features_registered:
  assumes "feature_stable F P" and "P w0"
  shows "(ext_config N F w0 ps sem w \<longrightarrow> P w) \<and> P (interface_events F es w0) \<and>
    P (snd (vl_api_ip_validate_enable_disable_t_handler valid F mp w0)) \<and>
    (vl_api_tunterm_acl_interface_add_del_t_handler A F mi (sm, im, w0) = Some (rv, sm', im', w') \<longrightarrow> P w')"
  using stable_ext_config [OF _ assms] stable_ip_validate [OF assms] stable_attach [OF assms] by blast

theorem features_registered_witness:
  "\<exists>sem w. ext_config vnet_demo feature_recorder [] [] sem w \<and>
     FeatureCall ''ip4-drop'' ''sonic-ext-glean-redirect'' 0 True \<in> set w \<and> calls_registered w \<and>
     calls_registered (interface_events feature_recorder [(3, True), (3, False)] [])"
proof -
  obtain sem w where i: "sonic_ext_init (with_pairs vnet_demo []) feature_recorder [] = (sem, w)" by fastforce
  then have c: "ext_config vnet_demo feature_recorder [] [] sem w" by (rule ext_config.init)
  have "FeatureCall ''ip4-drop'' ''sonic-ext-glean-redirect'' 0 True \<in> set w"
    using i by (auto simp: sonic_ext_init_def sonic_ext_set_punt_via_member_def sonic_ext_set_host_xc_def
        sonic_ext_main_zero_def sonic_ext_glean_redirect_enable_disable_def feature_recorder_def Let_def
        split: if_splits)
  moreover have "calls_registered []" by (simp add: calls_registered_def)
  ultimately show ?thesis
    using features_registered [OF recorder_stable, of "[]" vnet_demo "[]" sem w "[(3, True), (3, False)]"] c by blast
qed

end
